(* ===== verification/Prelude.thy ===== *)
theory Prelude
  imports Main "HOL-Library.Word" "HOL-Library.Sublist" "HOL-Library.Monad_Syntax"
begin

unbundle bit_operations_syntax

text \<open>
  The vocabulary every component shares: machine words, byte strings, the error
  type of the protocol crate, and the part of the Rust standard library the
  sources call on strings and slices.

  A Rust \<open>String\<close> is a HOL \<^typ>\<open>string\<close> whose characters are the bytes of its UTF-8
  encoding, so \<^term>\<open>length\<close> is \<open>str::len\<close> and a literal reads as in the source. A
  \<open>Vec<u8>\<close> is a list of \<open>8 word\<close>. A \<open>Result\<close> is a sum whose left side is the
  error, and the \<open>?\<close> operator is \<open>and_then\<close>.
\<close>

section \<open>Words, bytes and results\<close>

type_synonym u8 = "8 word"
type_synonym u16 = "16 word"
type_synonym u32 = "32 word"
type_synonym u64 = "64 word"
type_synonym bytes = "u8 list"

datatype ProtocolError = InvalidInput

type_synonym 'a protocol_result = "ProtocolError + 'a"

named_theorems limits \<open>the numeric bounds the sources declare as constants\<close>
named_theorems wire_simps \<open>cancellation of one encoded field at the head of two transcripts\<close>
named_theorems ascii_simps \<open>the byte classes of \<open>u8\<close> and \<open>char\<close>\<close>

definition and_then :: "'e + 'a \<Rightarrow> ('a \<Rightarrow> 'e + 'b) \<Rightarrow> 'e + 'b" where
  "and_then r f = (case r of Inl e \<Rightarrow> Inl e | Inr x \<Rightarrow> f x)"

definition ok_or :: "'a option \<Rightarrow> 'e \<Rightarrow> 'e + 'a" where
  "ok_or v e = (case v of None \<Rightarrow> Inl e | Some x \<Rightarrow> Inr x)"

definition is_ok :: "'e + 'a \<Rightarrow> bool" where
  "is_ok r = (case r of Inl _ \<Rightarrow> False | Inr _ \<Rightarrow> True)"

lemma and_then_simps [simp]:
  "and_then (Inl e) f = Inl e"
  "and_then (Inr x) f = f x"
  by (simp_all add: and_then_def)

lemma and_then_Inr_iff:
  "and_then r f = Inr y \<longleftrightarrow> (\<exists>x. r = Inr x \<and> f x = Inr y)"
  by (cases r) auto

lemma ok_or_simps [simp]:
  "ok_or None e = Inl e"
  "ok_or (Some x) e = Inr x"
  by (simp_all add: ok_or_def)

lemma ok_or_Inr_iff: "ok_or v e = Inr x \<longleftrightarrow> v = Some x"
  by (cases v) auto

lemma is_ok_simps [simp]: "is_ok (Inl e) = False" "is_ok (Inr x) = True"
  by (simp_all add: is_ok_def)

lemma is_ok_iff: "is_ok r \<longleftrightarrow> (\<exists>x. r = Inr x)"
  by (cases r) auto

lemmas result_iff = and_then_Inr_iff ok_or_Inr_iff

lemma guard_Inr_iff: "(if refused then Inl e else r) = Inr x \<longleftrightarrow> \<not> refused \<and> r = Inr x"
  by simp

lemma protocol_error_unique [simp]: "(e :: ProtocolError) = InvalidInput"
  by (cases e) simp

section \<open>Byte classes\<close>

text \<open>The value of a byte of a string, as \<open>u8\<close> arithmetic and ranges read it.\<close>

definition code :: "char \<Rightarrow> nat" where
  "code c = of_char c"

definition is_ascii :: "string \<Rightarrow> bool" where
  "is_ascii s = list_all (\<lambda>c. code c < 128) s"

definition is_ascii_digit :: "char \<Rightarrow> bool" where
  "is_ascii_digit c = (48 \<le> code c \<and> code c \<le> 57)"

definition is_ascii_lowercase :: "char \<Rightarrow> bool" where
  "is_ascii_lowercase c = (97 \<le> code c \<and> code c \<le> 122)"

definition is_ascii_uppercase :: "char \<Rightarrow> bool" where
  "is_ascii_uppercase c = (65 \<le> code c \<and> code c \<le> 90)"

definition is_ascii_alphanumeric :: "char \<Rightarrow> bool" where
  "is_ascii_alphanumeric c =
     (is_ascii_digit c \<or> is_ascii_lowercase c \<or> is_ascii_uppercase c)"

definition is_ascii_control :: "char \<Rightarrow> bool" where
  "is_ascii_control c = (code c < 32 \<or> code c = 127)"

text \<open>The class most grammars of the crate open and close on.\<close>

definition lower_alnum :: "char \<Rightarrow> bool" where
  "lower_alnum c = (is_ascii_lowercase c \<or> is_ascii_digit c)"

definition is_lower_hex :: "char \<Rightarrow> bool" where
  "is_lower_hex c = (is_ascii_digit c \<or> (97 \<le> code c \<and> code c \<le> 102))"

lemmas [ascii_simps] = code_def is_ascii_digit_def is_ascii_lowercase_def
  is_ascii_uppercase_def is_ascii_alphanumeric_def is_ascii_control_def
  lower_alnum_def is_lower_hex_def

lemma code_less [simp]: "code c < 256"
  by (simp add: code_def)

lemma code_inject [simp]: "code c = code d \<longleftrightarrow> c = d"
  by (simp add: code_def)

section \<open>Strings as the standard library reads them\<close>

text \<open>\<open>str::as_bytes\<close>.\<close>

definition as_bytes :: "string \<Rightarrow> bytes" where
  "as_bytes s = map of_char s"

lemma length_as_bytes [simp]: "length (as_bytes s) = length s"
  by (simp add: as_bytes_def)

lemma unat_of_char_u8 [simp]: "unat (of_char c :: u8) = of_char c"
  using code_less [of c] unat_of_nat [where ?'a = 8, of "of_char c"]
  by (simp add: code_def of_nat_of_char)

lemma of_char_u8_inject: "(of_char c :: u8) = of_char d \<longleftrightarrow> c = d"
  by (metis unat_of_char_u8 of_char_eq_iff)

text \<open>\<open>str::contains\<close> of a pattern.\<close>

fun contains_str :: "string \<Rightarrow> string \<Rightarrow> bool" where
  "contains_str [] p = (p = [])"
| "contains_str (c # s) p = (prefix p (c # s) \<or> contains_str s p)"

lemma contains_str_iff: "contains_str s p \<longleftrightarrow> (\<exists>a b. s = a @ p @ b)"
proof (induction s)
  case (Cons c s)
  show ?case
  proof
    assume "contains_str (c # s) p"
    then consider "prefix p (c # s)" | "contains_str s p" by auto
    then show "\<exists>a b. c # s = a @ p @ b"
    proof cases
      case 1
      then show ?thesis by (metis append_Nil prefix_def)
    next
      case 2
      with Cons.IH show ?thesis by (metis append_Cons)
    qed
  next
    assume "\<exists>a b. c # s = a @ p @ b"
    then obtain a b where ab: "c # s = a @ p @ b" by blast
    show "contains_str (c # s) p"
    proof (cases a)
      case Nil
      with ab have "prefix p (c # s)" by simp
      then show ?thesis by simp
    next
      case (Cons x a')
      with ab Cons.IH show ?thesis by auto
    qed
  qed
qed auto

text \<open>\<open>str::strip_prefix\<close>.\<close>

definition strip_prefix :: "string \<Rightarrow> string \<Rightarrow> string option" where
  "strip_prefix p s = (if prefix p s then Some (drop (length p) s) else None)"

lemma strip_prefix_Some: "strip_prefix p s = Some r \<longleftrightarrow> s = p @ r"
  by (auto simp: strip_prefix_def prefix_def)

lemma strip_prefix_append [simp]: "strip_prefix p (p @ r) = Some r"
  by (simp add: strip_prefix_Some)

text \<open>\<open>str::split_once\<close> on a character: what stands before and after its first occurrence.\<close>

fun split_once :: "char \<Rightarrow> string \<Rightarrow> (string \<times> string) option" where
  "split_once c [] = None"
| "split_once c (x # xs) =
     (if x = c then Some ([], xs)
      else map_option (apfst (Cons x)) (split_once c xs))"

definition rsplit_once :: "char \<Rightarrow> string \<Rightarrow> (string \<times> string) option" where
  "rsplit_once c s = map_option (\<lambda>(a, b). (rev b, rev a)) (split_once c (rev s))"

lemma split_once_None: "split_once c s = None \<longleftrightarrow> c \<notin> set s"
  by (induction s) auto

lemma split_once_Some:
  "split_once c s = Some (a, b) \<longleftrightarrow> s = a @ c # b \<and> c \<notin> set a"
proof (induction s arbitrary: a)
  case (Cons x s)
  then show ?case
    by (cases a) (auto simp: apfst_def map_prod_def)
qed auto

lemma rsplit_once_None: "rsplit_once c s = None \<longleftrightarrow> c \<notin> set s"
  by (simp add: rsplit_once_def split_once_None)

lemma rsplit_once_Some:
  "rsplit_once c s = Some (a, b) \<longleftrightarrow> s = a @ c # b \<and> c \<notin> set b"
proof -
  have "rsplit_once c s = Some (a, b) \<longleftrightarrow> split_once c (rev s) = Some (rev b, rev a)"
    by (auto simp: rsplit_once_def split: prod.splits)
  also have "\<dots> \<longleftrightarrow> s = a @ c # b \<and> c \<notin> set b"
    by (simp add: split_once_Some) (metis append.assoc append_Cons append_Nil rev.simps(2)
        rev_append rev_rev_ident)
  finally show ?thesis .
qed

text \<open>\<open>str::split\<close> on a character: always at least one, possibly empty, piece.\<close>

fun split_on :: "char \<Rightarrow> string \<Rightarrow> string list" where
  "split_on c [] = [[]]"
| "split_on c (x # xs) =
     (if x = c then [] # split_on c xs
      else (case split_on c xs of [] \<Rightarrow> [[x]] | w # ws \<Rightarrow> (x # w) # ws))"

fun join_on :: "char \<Rightarrow> string list \<Rightarrow> string" where
  "join_on c [] = []"
| "join_on c [w] = w"
| "join_on c (w # v # ws) = w @ c # join_on c (v # ws)"

lemma split_on_not_Nil [simp]: "split_on c s \<noteq> []"
  by (induction s) (auto split: list.splits)

lemma join_split_on: "join_on c (split_on c s) = s"
proof (induction s)
  case (Cons x s)
  obtain w ws where w: "split_on c s = w # ws"
    by (meson neq_Nil_conv split_on_not_Nil)
  with Cons show ?case by (cases ws) auto
qed simp

lemma split_on_no_sep: "w \<in> set (split_on c s) \<Longrightarrow> c \<notin> set w"
proof (induction s arbitrary: w)
  case (Cons x s)
  obtain v vs where v: "split_on c s = v # vs"
    by (meson neq_Nil_conv split_on_not_Nil)
  with Cons show ?case by (auto split: if_splits)
qed simp

lemma split_on_set: "w \<in> set (split_on c s) \<Longrightarrow> set w \<subseteq> set s"
proof (induction s arbitrary: w)
  case (Cons x s)
  obtain v vs where v: "split_on c s = v # vs"
    by (meson neq_Nil_conv split_on_not_Nil)
  with Cons show ?case by (fastforce split: if_splits)
qed simp

lemma split_join_on:
  "ws \<noteq> [] \<Longrightarrow> \<forall>w \<in> set ws. c \<notin> set w \<Longrightarrow> split_on c (join_on c ws) = ws"
proof (induction c ws rule: join_on.induct)
  case (2 c w)
  then show ?case by (induction w) auto
next
  case (3 c w v ws)
  then have IH: "split_on c (join_on c (v # ws)) = v # ws" by simp
  from 3 have "c \<notin> set w" by simp
  then show ?case using IH by (induction w) auto
qed simp

section \<open>Big-endian words\<close>

text \<open>\<open>to_be_bytes\<close> of the three widths the transcripts write.\<close>

definition u8_be :: "u8 \<Rightarrow> bytes" where
  "u8_be w = [w]"

definition u32_be :: "u32 \<Rightarrow> bytes" where
  "u32_be w = [ucast (drop_bit 24 w), ucast (drop_bit 16 w), ucast (drop_bit 8 w), ucast w]"

definition u64_be :: "u64 \<Rightarrow> bytes" where
  "u64_be w = u32_be (ucast (drop_bit 32 w)) @ u32_be (ucast w)"

lemma length_u32_be [simp]: "length (u32_be w) = 4"
  by (simp add: u32_be_def)

lemma length_u64_be [simp]: "length (u64_be w) = 8"
  by (simp add: u64_be_def)

lemma u32_be_inject [simp]: "u32_be v = u32_be w \<longleftrightarrow> v = w"
proof
  assume eq: "u32_be v = u32_be w"
  have byte: "bit v n = bit w n" if "n < 32" for n
  proof -
    have *: "ucast (drop_bit k v) = (ucast (drop_bit k w) :: u8) \<Longrightarrow> k \<le> n \<Longrightarrow> n < k + 8 \<Longrightarrow>
        bit v n = bit w n" for k
      by (drule arg_cong [where f = "\<lambda>x. bit x (n - k)"])
        (auto simp: bit_ucast_iff bit_drop_bit_eq that less_diff_conv2)
    consider "n < 8" | "8 \<le> n \<and> n < 16" | "16 \<le> n \<and> n < 24" | "24 \<le> n" by linarith
    then show ?thesis
      using eq * [of 24] * [of 16] * [of 8] * [of 0] that
      by cases (auto simp: u32_be_def)
  qed
  show "v = w"
    by (rule bit_word_eqI) (simp add: byte)
qed simp

lemma u64_be_inject [simp]: "u64_be v = u64_be w \<longleftrightarrow> v = w"
proof
  assume "u64_be v = u64_be w"
  then have hi: "ucast (drop_bit 32 v) = (ucast (drop_bit 32 w) :: u32)"
    and lo: "ucast v = (ucast w :: u32)"
    by (auto simp: u64_be_def)
  show "v = w"
  proof (rule bit_word_eqI)
    fix n assume n: "n < LENGTH(64)"
    show "bit v n = bit w n"
    proof (cases "n < 32")
      case True
      then have "bit (ucast v :: u32) n = bit v n" "bit (ucast w :: u32) n = bit w n"
        by (simp_all add: bit_ucast_iff)
      with lo show ?thesis by simp
    next
      case False
      with n have "n - 32 < 32" by simp
      with False have "bit (ucast (drop_bit 32 v) :: u32) (n - 32) = bit v n"
        "bit (ucast (drop_bit 32 w) :: u32) (n - 32) = bit w n"
        by (simp_all add: bit_ucast_iff bit_drop_bit_eq)
      with hi show ?thesis by simp
    qed
  qed
qed simp

section \<open>Wire encodings that admit one reading\<close>

text \<open>
  The interface the transcripts rely on: an encoding of which no two different
  members can open the same byte string. Cancelling one field at a time from two
  equal transcripts is then the whole argument that a transcript fixes the
  document it was built from.
\<close>

locale prefix_code =
  fixes ser :: "'a \<Rightarrow> bytes" and admits :: "'a \<Rightarrow> bool"
  assumes ser_cancel:
    "admits x \<Longrightarrow> admits y \<Longrightarrow> ser x @ r = ser y @ s \<Longrightarrow> x = y \<and> r = s"
begin

lemma ser_inject: "admits x \<Longrightarrow> admits y \<Longrightarrow> ser x = ser y \<Longrightarrow> x = y"
  using ser_cancel [of x y "[]" "[]"] by simp

lemma ser_inject_iff: "admits x \<Longrightarrow> admits y \<Longrightarrow> ser x = ser y \<longleftrightarrow> x = y"
  using ser_inject by blast

lemma ser_cancel_iff:
  "admits x \<Longrightarrow> admits y \<Longrightarrow> ser x @ r = ser y @ s \<longleftrightarrow> x = y \<and> r = s"
  using ser_cancel by blast

lemma concat_cancel:
  assumes "length xs = length ys" "\<forall>x \<in> set xs. admits x" "\<forall>y \<in> set ys. admits y"
    and "concat (map ser xs) @ r = concat (map ser ys) @ s"
  shows "xs = ys \<and> r = s"
  using assms
proof (induction xs ys rule: list_induct2)
  case (Cons x xs y ys)
  then have "x = y" and "concat (map ser xs) @ r = concat (map ser ys) @ s"
    using ser_cancel [of x y "concat (map ser xs) @ r" "concat (map ser ys) @ s"] by auto
  with Cons show ?case by simp
qed simp

end

text \<open>A fixed-width injective encoding is a prefix code; so is a counted sequence of one.\<close>

lemma prefix_code_fixed_width:
  assumes "\<And>x. admits x \<Longrightarrow> length (f x) = n"
    and "\<And>x y. admits x \<Longrightarrow> admits y \<Longrightarrow> f x = f y \<Longrightarrow> x = y"
  shows "prefix_code f admits"
  by unfold_locales (metis append_eq_append_conv assms)

interpretation byte_code: prefix_code u8_be "\<lambda>_. True"
  by (rule prefix_code_fixed_width [where n = 1]) (simp_all add: u8_be_def)

interpretation u32_code: prefix_code u32_be "\<lambda>_. True"
  by (rule prefix_code_fixed_width [where n = 4]) simp_all

interpretation u64_code: prefix_code u64_be "\<lambda>_. True"
  by (rule prefix_code_fixed_width [where n = 8]) simp_all

lemmas [wire_simps] = byte_code.ser_cancel_iff u32_code.ser_cancel_iff u64_code.ser_cancel_iff
  u32_code.ser_inject_iff u64_code.ser_inject_iff

lemma as_bytes_inject [simp]: "as_bytes s = as_bytes t \<longleftrightarrow> s = t"
  by (simp add: as_bytes_def inj_map_eq_map inj_def of_char_u8_inject)

section \<open>Lower-case hexadecimal\<close>

text \<open>One digit, as \<open>char::from_digit\<close> of radix sixteen spells it.\<close>

definition hex_digit :: "nat \<Rightarrow> char" where
  "hex_digit n = (if n < 10 then char_of (48 + n) else char_of (87 + n))"

lemma code_hex_digit: "n < 16 \<Longrightarrow> code (hex_digit n) = (if n < 10 then 48 + n else 87 + n)"
  by (simp add: hex_digit_def code_def)

lemma is_ascii_append [simp]: "is_ascii (s @ t) \<longleftrightarrow> is_ascii s \<and> is_ascii t"
  by (simp add: is_ascii_def)

lemma is_ascii_Cons [simp]: "is_ascii (c # s) \<longleftrightarrow> code c < 128 \<and> is_ascii s"
  by (simp add: is_ascii_def)

lemma is_ascii_Nil [simp]: "is_ascii []"
  by (simp add: is_ascii_def)

text \<open>Two digits per byte, high nibble first.\<close>

definition hex_byte :: "u8 \<Rightarrow> string" where
  "hex_byte b = [hex_digit (unat (drop_bit 4 b)), hex_digit (unat (b AND 15))]"

definition encode_lower_hex :: "bytes \<Rightarrow> string" where
  "encode_lower_hex bs = concat (map hex_byte bs)"

lemma length_encode_lower_hex [simp]: "length (encode_lower_hex bs) = 2 * length bs"
  by (induction bs) (simp_all add: encode_lower_hex_def hex_byte_def)

lemma nibbles_unat: "unat (drop_bit 4 (b :: u8)) = unat b div 16" "unat (b AND 15) = unat b mod 16"
proof -
  show "unat (drop_bit 4 b) = unat b div 16"
    by (subst unat_drop_bit_eq) (simp add: drop_bit_eq_div)
  have "unat (b AND 15) = unat b AND 15"
    by (subst unsigned_and_eq) simp
  also have "\<dots> = unat b mod 16"
    using take_bit_eq_mask [of 4 "unat b"] by (simp add: take_bit_eq_mod mask_eq_exp_minus_1)
  finally show "unat (b AND 15) = unat b mod 16" .
qed

lemma nibbles_join:
  assumes "n < 16" "m < 16"
  shows "unat (push_bit 4 (of_nat n) OR of_nat m :: u8) = 16 * n + m"
proof -
  have "push_bit 4 (of_nat n) OR of_nat m = (of_nat (push_bit 4 n OR m) :: u8)"
    by (simp add: of_nat_or_eq of_nat_push_bit)
  moreover have "push_bit 4 n OR m = push_bit 4 n + m"
  proof (rule disjunctive_add [symmetric])
    fix i
    show "\<not> bit (push_bit 4 n) i \<or> \<not> bit m i"
    proof (cases "i < 4")
      case False
      with assms(2) have "m < 2 ^ i"
        using power_increasing [of 4 i "2 :: nat"] by simp
      then show ?thesis by (simp add: bit_iff_odd)
    qed (simp add: bit_push_bit_iff)
  qed
  ultimately have "unat (push_bit 4 (of_nat n) OR of_nat m :: u8) = (push_bit 4 n + m) mod 2 ^ 8"
    using unat_of_nat [where ?'a = 8, of "push_bit 4 n + m"] by simp
  with assms show ?thesis by (simp add: push_bit_eq_mult)
qed

lemma hex_byte_join:
  assumes "n < 16" "m < 16"
  shows "hex_byte (push_bit 4 (of_nat n) OR of_nat m) = [hex_digit n, hex_digit m]"
  unfolding hex_byte_def nibbles_unat nibbles_join [OF assms] using assms by simp

lemma hex_byte_ex: "\<exists>n m. n < 16 \<and> m < 16 \<and> (b :: u8) = push_bit 4 (of_nat n) OR of_nat m"
proof (intro exI conjI)
  have lt: "unat b < 256" using unsigned_less [of b] by simp
  show "unat b div 16 < 16" "unat b mod 16 < 16" using lt by simp_all
  then show "b = push_bit 4 (of_nat (unat b div 16)) OR of_nat (unat b mod 16)"
    by (simp add: word_unat_eq_iff nibbles_join)
qed

section \<open>Parameters that stand for third-party crates\<close>

text \<open>
  An engine of the \<open>base64\<close> crate, reduced to the two calls the sources make.
  Which alphabet and padding an engine has is its configuration; nothing below
  assumes more of it than a lemma names.
\<close>

record base64_engine =
  b64_decode :: "string \<Rightarrow> bytes option"
  b64_encode :: "bytes \<Rightarrow> string"

text \<open>\<open>Sha256::digest\<close> of the \<open>sha2\<close> crate.\<close>

type_synonym sha256 = "bytes \<Rightarrow> bytes"

lemma chars_as_bytes: "map (\<lambda>w. char_of (unat w)) (as_bytes s) = s"
  by (induction s) (simp_all add: as_bytes_def)

lemma is_ascii_replicate: "code c < 128 \<Longrightarrow> is_ascii (replicate n c)"
  by (induction n) simp_all

end
