(* ===== verification/Approval.thy ===== *)
theory Approval
  imports Prelude
begin

text \<open>
  The envelope a human approval is (\<open>bootstrap-protocol/src/approval.rs\<close>): the
  closed list of operations and of privileges, the readers of the identifiers and
  digests the plans share, the validation of an envelope and the exact bytes a
  signature covers. The \<open>base64\<close> crate is a parameter of the readers that call it.
\<close>

section \<open>Bounds\<close>

definition APPROVAL_SCHEMA_VERSION :: u8 where
  [limits]: "APPROVAL_SCHEMA_VERSION = 1"

definition APPROVAL_TRANSCRIPT_DOMAIN :: bytes where
  "APPROVAL_TRANSCRIPT_DOMAIN = as_bytes ''your-cloud/approval-envelope.v1'' @ [0]"

definition APPROVAL_DIGEST_BYTES :: nat where
  [limits]: "APPROVAL_DIGEST_BYTES = 32"

definition APPROVAL_DIGEST_ENCODED_BYTES :: nat where
  [limits]: "APPROVAL_DIGEST_ENCODED_BYTES = APPROVAL_DIGEST_BYTES * 2"

definition APPROVAL_PUBLIC_KEY_BYTES :: nat where
  [limits]: "APPROVAL_PUBLIC_KEY_BYTES = 32"

definition APPROVAL_SIGNATURE_BYTES :: nat where
  [limits]: "APPROVAL_SIGNATURE_BYTES = 64"

definition MAX_APPROVAL_MACHINE_BYTES :: nat where
  [limits]: "MAX_APPROVAL_MACHINE_BYTES = 63"

definition APPROVAL_INFRASTRUCTURE_BYTES :: nat where
  [limits]: "APPROVAL_INFRASTRUCTURE_BYTES = 36"

definition MAX_APPROVAL_PRIVILEGES :: nat where
  [limits]: "MAX_APPROVAL_PRIVILEGES = 2"

definition MAX_APPROVAL_LIFETIME_SECONDS :: u64 where
  [limits]: "MAX_APPROVAL_LIFETIME_SECONDS = 900"

section \<open>Operations and privileges\<close>

datatype ApprovalOperation =
    DiagnoseProtocolReadOnly
  | DeployOciProbe | RemoveOciProbe
  | DeployWebService | RemoveWebService
  | DeployEntrypoint | RemoveEntrypoint
  | PublishRoute | RetireRoute
  | PrepareLink | WithdrawLink
  | AttachLinkPeer | DetachLinkPeer
  | JoinLinkPeer | LeaveLinkPeer
  | DeployPrivateService | RemovePrivateService
  | PublishLinkRoute | RetireLinkRoute
  | SnapshotService | DiscardSnapshot | RestoreService
  | DeployUserService | RemoveUserService

fun approval_operation_str :: "ApprovalOperation \<Rightarrow> string" where
  "approval_operation_str DiagnoseProtocolReadOnly = ''diagnose_protocol_read_only''"
| "approval_operation_str DeployOciProbe = ''deploy_oci_probe''"
| "approval_operation_str RemoveOciProbe = ''remove_oci_probe''"
| "approval_operation_str DeployWebService = ''deploy_web_service''"
| "approval_operation_str RemoveWebService = ''remove_web_service''"
| "approval_operation_str DeployEntrypoint = ''deploy_entrypoint''"
| "approval_operation_str RemoveEntrypoint = ''remove_entrypoint''"
| "approval_operation_str PublishRoute = ''publish_route''"
| "approval_operation_str RetireRoute = ''retire_route''"
| "approval_operation_str PrepareLink = ''prepare_link''"
| "approval_operation_str WithdrawLink = ''withdraw_link''"
| "approval_operation_str AttachLinkPeer = ''attach_link_peer''"
| "approval_operation_str DetachLinkPeer = ''detach_link_peer''"
| "approval_operation_str JoinLinkPeer = ''join_link_peer''"
| "approval_operation_str LeaveLinkPeer = ''leave_link_peer''"
| "approval_operation_str DeployPrivateService = ''deploy_private_service''"
| "approval_operation_str RemovePrivateService = ''remove_private_service''"
| "approval_operation_str PublishLinkRoute = ''publish_link_route''"
| "approval_operation_str RetireLinkRoute = ''retire_link_route''"
| "approval_operation_str SnapshotService = ''snapshot_service''"
| "approval_operation_str DiscardSnapshot = ''discard_snapshot''"
| "approval_operation_str RestoreService = ''restore_service''"
| "approval_operation_str DeployUserService = ''deploy_user_service''"
| "approval_operation_str RemoveUserService = ''remove_user_service''"

datatype ApprovalPrivilege = MutateLocalState | ReadLocalState

text \<open>The derived order of the enum is its declaration order.\<close>

instantiation ApprovalPrivilege :: linorder
begin

definition less_eq_ApprovalPrivilege :: "ApprovalPrivilege \<Rightarrow> ApprovalPrivilege \<Rightarrow> bool" where
  "less_eq_ApprovalPrivilege a b \<longleftrightarrow> (a = MutateLocalState \<or> b = ReadLocalState)"

definition less_ApprovalPrivilege :: "ApprovalPrivilege \<Rightarrow> ApprovalPrivilege \<Rightarrow> bool" where
  "less_ApprovalPrivilege a b \<longleftrightarrow> (a = MutateLocalState \<and> b = ReadLocalState)"

instance
proof
  fix x y z :: ApprovalPrivilege
  show "(x < y) = (x \<le> y \<and> \<not> y \<le> x)"
    by (cases x; cases y) (simp_all add: less_eq_ApprovalPrivilege_def less_ApprovalPrivilege_def)
  show "x \<le> x"
    by (cases x) (simp_all add: less_eq_ApprovalPrivilege_def)
  show "x \<le> y \<Longrightarrow> y \<le> z \<Longrightarrow> x \<le> z"
    by (auto simp: less_eq_ApprovalPrivilege_def)
  show "x \<le> y \<Longrightarrow> y \<le> x \<Longrightarrow> x = y"
    by (cases x; cases y) (simp_all add: less_eq_ApprovalPrivilege_def)
  show "x \<le> y \<or> y \<le> x"
    by (cases x; cases y) (simp_all add: less_eq_ApprovalPrivilege_def)
qed

end

fun approval_privilege_str :: "ApprovalPrivilege \<Rightarrow> string" where
  "approval_privilege_str ReadLocalState = ''read_local_state''"
| "approval_privilege_str MutateLocalState = ''mutate_local_state''"

fun privilege_is_mutating :: "ApprovalPrivilege \<Rightarrow> bool" where
  "privilege_is_mutating MutateLocalState = True"
| "privilege_is_mutating ReadLocalState = False"

fun required_privileges :: "ApprovalOperation \<Rightarrow> ApprovalPrivilege list" where
  "required_privileges DiagnoseProtocolReadOnly = [ReadLocalState]"
| "required_privileges _ = [MutateLocalState, ReadLocalState]"

section \<open>Fields\<close>

definition append_field :: "bytes \<Rightarrow> bytes \<Rightarrow> bytes protocol_result" where
  "append_field buffer v =
     (if length v < 2 ^ 32
      then Inr (buffer @ u32_be (of_nat (length v)) @ v)
      else Inl InvalidInput)"

definition canonical_privileges :: "ApprovalPrivilege list \<Rightarrow> bool" where
  "canonical_privileges ps =
     (if ps = [] \<or> length ps > MAX_APPROVAL_PRIVILEGES then False
      else list_all (\<lambda>(a, b). a < b) (zip ps (tl ps)))"

definition canonical_lifetime :: "u64 \<Rightarrow> u64 \<Rightarrow> bool" where
  "canonical_lifetime issued_at expires_at =
     (issued_at \<noteq> 0 \<and> expires_at > issued_at
      \<and> expires_at - issued_at \<le> MAX_APPROVAL_LIFETIME_SECONDS)"

definition uuid_byte :: "nat \<Rightarrow> char \<Rightarrow> bool" where
  "uuid_byte i c = (if i \<in> {8, 13, 18, 23} then c = CHR ''-'' else is_lower_hex c)"

definition canonical_uuid_v4 :: "string \<Rightarrow> bool" where
  "canonical_uuid_v4 v =
     (if length v \<noteq> APPROVAL_INFRASTRUCTURE_BYTES \<or> \<not> is_ascii v then False
      else list_all (\<lambda>(i, c). uuid_byte i c) (enumerate 0 v)
        \<and> v ! 14 = CHR ''4''
        \<and> (v ! 19 = CHR ''8'' \<or> v ! 19 = CHR ''9'' \<or> v ! 19 = CHR ''a'' \<or> v ! 19 = CHR ''b''))"

definition canonical_machine_id :: "string \<Rightarrow> bool" where
  "canonical_machine_id v =
     (if length v < 3 \<or> length v > MAX_APPROVAL_MACHINE_BYTES \<or> \<not> is_ascii v then False
      else if \<not> is_ascii_lowercase (v ! 0) \<and> \<not> is_ascii_digit (v ! 0) then False
      else list_all (\<lambda>c. is_ascii_lowercase c \<or> is_ascii_digit c \<or> c = CHR ''-'') v)"

definition hex_value :: "char \<Rightarrow> u8 option" where
  "hex_value c =
     (if 48 \<le> code c \<and> code c \<le> 57 then Some (of_nat (code c) - 48)
      else if 97 \<le> code c \<and> code c \<le> 102 then Some (of_nat (code c) - 97 + 10)
      else None)"

text \<open>The loop of \<open>decode_digest\<close>, one slot per pair of characters.\<close>

fun decode_pairs :: "string \<Rightarrow> bytes option" where
  "decode_pairs (h # l # rest) =
     do { high \<leftarrow> hex_value h;
          low \<leftarrow> hex_value l;
          ds \<leftarrow> decode_pairs rest;
          Some ((push_bit 4 high OR low) # ds) }"
| "decode_pairs _ = Some []"

definition decode_digest :: "string \<Rightarrow> bytes option" where
  "decode_digest v =
     (if length v \<noteq> APPROVAL_DIGEST_ENCODED_BYTES \<or> \<not> is_ascii v then None
      else decode_pairs v)"

definition canonical_digest :: "string \<Rightarrow> bool" where
  "canonical_digest v = (decode_digest v \<noteq> None)"

section \<open>The one spelling of a digest\<close>

lemma hex_value_hex_digit: "n < 16 \<Longrightarrow> hex_value (hex_digit n) = Some (of_nat n)"
  by (simp add: hex_value_def code_hex_digit of_nat_diff)

lemma hex_value_Some_iff:
  "hex_value c = Some a \<longleftrightarrow> (\<exists>n < 16. c = hex_digit n \<and> a = of_nat n)"
proof
  assume c: "hex_value c = Some a"
  then consider "48 \<le> code c" "code c \<le> 57" | "97 \<le> code c" "code c \<le> 102"
    by (auto simp: hex_value_def split: if_splits)
  then obtain n where n: "n < 16" "code c = code (hex_digit n)"
  proof cases
    case 1
    then show ?thesis using that [of "code c - 48"] by (simp add: code_hex_digit)
  next
    case 2
    then show ?thesis using that [of "code c - 87"] by (simp add: code_hex_digit)
  qed
  with c hex_value_hex_digit show "\<exists>n < 16. c = hex_digit n \<and> a = of_nat n" by auto
qed (auto simp: hex_value_hex_digit)

lemma decode_pairs_encode: "decode_pairs (encode_lower_hex d) = Some d"
proof (induction d)
  case (Cons b d)
  obtain n m where nm: "n < 16" "m < 16" "b = push_bit 4 (of_nat n) OR of_nat m"
    using hex_byte_ex by blast
  have "encode_lower_hex (b # d) = hex_digit n # hex_digit m # encode_lower_hex d"
    using nm by (simp add: encode_lower_hex_def hex_byte_join)
  with nm Cons show ?case by (simp add: hex_value_hex_digit)
qed (simp add: encode_lower_hex_def)

lemma encode_lower_hex_inject [simp]: "encode_lower_hex c = encode_lower_hex d \<longleftrightarrow> c = d"
  using decode_pairs_encode by (metis option.inject)

lemma decode_pairs_Some:
  "decode_pairs s = Some d \<Longrightarrow> even (length s) \<Longrightarrow> s = encode_lower_hex d"
proof (induction s arbitrary: d rule: decode_pairs.induct)
  case (1 h l rest)
  then obtain n m ds where "n < 16" "m < 16" "h = hex_digit n" "l = hex_digit m"
    "decode_pairs rest = Some ds" "d = (push_bit 4 (of_nat n) OR of_nat m) # ds"
    by (auto simp: hex_value_Some_iff split: Option.bind_splits)
  with 1 show ?case by (auto simp: encode_lower_hex_def hex_byte_join hex_value_hex_digit)
qed (auto simp: encode_lower_hex_def)

lemma is_ascii_encode_lower_hex [simp]: "is_ascii (encode_lower_hex d)"
proof (induction d)
  case (Cons b d)
  obtain n m where nm: "n < 16" "m < 16" "b = push_bit 4 (of_nat n) OR of_nat m"
    using hex_byte_ex by blast
  with Cons show ?case by (simp add: encode_lower_hex_def hex_byte_join code_hex_digit)
qed (simp add: encode_lower_hex_def)

lemma decode_digest_iff:
  "decode_digest v = Some d \<longleftrightarrow> length d = APPROVAL_DIGEST_BYTES \<and> v = encode_lower_hex d"
proof
  assume v: "decode_digest v = Some d"
  then have "length v = 64" "decode_pairs v = Some d"
    by (auto simp: decode_digest_def limits split: if_splits)
  then have "v = encode_lower_hex d" by (simp add: decode_pairs_Some)
  with \<open>length v = 64\<close> show "length d = APPROVAL_DIGEST_BYTES \<and> v = encode_lower_hex d"
    by (simp add: limits)
qed (simp add: decode_digest_def limits decode_pairs_encode)

lemma decode_digest_inject:
  "decode_digest v = Some d \<Longrightarrow> decode_digest w = Some d \<Longrightarrow> v = w"
  by (simp add: decode_digest_iff)

lemma canonical_digest_iff: "canonical_digest v \<longleftrightarrow> (\<exists>d. decode_digest v = Some d)"
  by (simp add: canonical_digest_def)

section \<open>Length-prefixed fields\<close>

definition field :: "bytes \<Rightarrow> bytes" where
  "field v = u32_be (of_nat (length v)) @ v"

text \<open>What \<open>u32::try_from\<close> admits as a length.\<close>

definition fits_u32 :: "bytes \<Rightarrow> bool" where
  "fits_u32 v = (length v < 2 ^ 32)"

lemma fits_u32_small: "length v \<le> 65536 \<Longrightarrow> fits_u32 v"
  by (simp add: fits_u32_def)

lemma unat_of_nat_u32: "n < 2 ^ 32 \<Longrightarrow> unat (of_nat n :: u32) = n"
  by (rule of_nat_inverse [OF refl]) simp

lemma of_nat_u32_inject:
  assumes "n < 2 ^ 32" "m < 2 ^ 32"
  shows "(of_nat n :: u32) = of_nat m \<longleftrightarrow> n = m"
  using unat_of_nat_u32 [OF assms(1)] unat_of_nat_u32 [OF assms(2)] by metis

interpretation field_code: prefix_code field fits_u32
proof
  fix x y r s
  assume xy: "fits_u32 x" "fits_u32 y" and "field x @ r = field y @ s"
  then have "(of_nat (length x) :: u32) = of_nat (length y)" "x @ r = y @ s"
    by (auto simp: field_def wire_simps)
  with xy show "x = y \<and> r = s" by (simp add: of_nat_u32_inject fits_u32_def)
qed

lemmas [wire_simps] = field_code.ser_cancel_iff field_code.ser_inject_iff

lemma append_field_Inr [simp]: "append_field b v = Inr t \<longleftrightarrow> fits_u32 v \<and> t = b @ field v"
  by (auto simp: append_field_def field_def fits_u32_def)

text \<open>A loop of \<open>append_field\<close> over the elements of a list.\<close>

fun append_fields :: "bytes \<Rightarrow> bytes list \<Rightarrow> bytes protocol_result" where
  "append_fields buffer [] = Inr buffer"
| "append_fields buffer (v # vs) = and_then (append_field buffer v) (\<lambda>b. append_fields b vs)"

lemma append_fields_Inr [simp]:
  "append_fields b vs = Inr t \<longleftrightarrow> (\<forall>v \<in> set vs. fits_u32 v) \<and> t = b @ concat (map field vs)"
  by (induction vs arbitrary: b) (auto simp: and_then_Inr_iff)

text \<open>A count, then that many fields.\<close>

definition counted :: "bytes list \<Rightarrow> bytes" where
  "counted vs = u32_be (of_nat (length vs)) @ concat (map field vs)"

definition fits_counted :: "bytes list \<Rightarrow> bool" where
  "fits_counted vs = (length vs < 2 ^ 32 \<and> (\<forall>v \<in> set vs. fits_u32 v))"

interpretation counted_code: prefix_code counted fits_counted
proof
  fix x y r s
  assume xy: "fits_counted x" "fits_counted y" and eq: "counted x @ r = counted y @ s"
  then have "(of_nat (length x) :: u32) = of_nat (length y)"
    and rest: "concat (map field x) @ r = concat (map field y) @ s"
    by (auto simp: counted_def wire_simps)
  with xy have "length x = length y" by (simp add: fits_counted_def of_nat_u32_inject)
  with xy rest show "x = y \<and> r = s"
    by (intro field_code.concat_cancel) (auto simp: fits_counted_def)
qed

lemmas [wire_simps] = counted_code.ser_cancel_iff counted_code.ser_inject_iff

section \<open>The envelope\<close>

record ApprovalEnvelopeV1 =
  env_schema_version :: u8
  env_infrastructure_id :: string
  env_machine_id :: string
  env_approval_epoch :: u64
  env_sequence :: u64
  env_operation :: ApprovalOperation
  env_plan_sha256 :: string
  env_rollback_sha256 :: string
  env_privileges :: "ApprovalPrivilege list"
  env_issued_at_unix_seconds :: u64
  env_expires_at_unix_seconds :: u64
  env_approval_public_key :: string

record SignedApprovalV1 =
  sa_envelope :: ApprovalEnvelopeV1
  sa_signature :: string

definition decode_raw_url :: "base64_engine \<Rightarrow> string \<Rightarrow> nat \<Rightarrow> bytes option" where
  "decode_raw_url url v expected_bytes =
     (if \<not> is_ascii v then None
      else (case b64_decode url v of
          None \<Rightarrow> None
        | Some decoded \<Rightarrow>
            if length decoded \<noteq> expected_bytes \<or> b64_encode url decoded \<noteq> v then None
            else Some decoded))"

definition envelope_validate ::
  "base64_engine \<Rightarrow> ApprovalEnvelopeV1 \<Rightarrow> ApprovalEnvelopeV1 protocol_result" where
  "envelope_validate url e =
     (if env_schema_version e \<noteq> APPROVAL_SCHEMA_VERSION
         \<or> \<not> canonical_uuid_v4 (env_infrastructure_id e)
         \<or> \<not> canonical_machine_id (env_machine_id e)
         \<or> env_approval_epoch e = 0
         \<or> env_sequence e = 0
         \<or> \<not> canonical_digest (env_plan_sha256 e)
         \<or> \<not> canonical_digest (env_rollback_sha256 e)
         \<or> \<not> canonical_privileges (env_privileges e)
         \<or> env_privileges e \<noteq> required_privileges (env_operation e)
         \<or> \<not> canonical_lifetime (env_issued_at_unix_seconds e) (env_expires_at_unix_seconds e)
         \<or> decode_raw_url url (env_approval_public_key e) APPROVAL_PUBLIC_KEY_BYTES = None
      then Inl InvalidInput
      else Inr e)"

definition signing_transcript ::
  "base64_engine \<Rightarrow> ApprovalEnvelopeV1 \<Rightarrow> bytes protocol_result" where
  "signing_transcript url e =
     and_then (ok_or (decode_raw_url url (env_approval_public_key e) APPROVAL_PUBLIC_KEY_BYTES)
                 InvalidInput) (\<lambda>public_key.
     and_then (ok_or (decode_digest (env_plan_sha256 e)) InvalidInput) (\<lambda>plan.
     and_then (ok_or (decode_digest (env_rollback_sha256 e)) InvalidInput) (\<lambda>rollback.
     and_then (if length (env_privileges e) < 2 ^ 32
               then Inr (of_nat (length (env_privileges e))) else Inl InvalidInput)
       (\<lambda>privilege_count.
     and_then (append_field
                 (APPROVAL_TRANSCRIPT_DOMAIN @ u8_be (env_schema_version e))
                 (as_bytes (env_infrastructure_id e))) (\<lambda>t.
     and_then (append_field t (as_bytes (env_machine_id e))) (\<lambda>t.
     and_then (append_field
                 (t @ u64_be (env_approval_epoch e) @ u64_be (env_sequence e))
                 (as_bytes (approval_operation_str (env_operation e)))) (\<lambda>t.
     and_then (append_field t plan) (\<lambda>t.
     and_then (append_field t rollback) (\<lambda>t.
     and_then (append_fields
                 (t @ u32_be privilege_count)
                 (map (\<lambda>p. as_bytes (approval_privilege_str p)) (env_privileges e))) (\<lambda>t.
     append_field
       (t @ u64_be (env_issued_at_unix_seconds e) @ u64_be (env_expires_at_unix_seconds e))
       public_key))))))))))"

definition approval_public_key_bytes ::
  "base64_engine \<Rightarrow> ApprovalEnvelopeV1 \<Rightarrow> bytes protocol_result" where
  "approval_public_key_bytes url e =
     and_then (ok_or (decode_raw_url url (env_approval_public_key e) APPROVAL_PUBLIC_KEY_BYTES)
                 InvalidInput) (\<lambda>decoded.
     if length decoded = APPROVAL_PUBLIC_KEY_BYTES then Inr decoded else Inl InvalidInput)"

definition envelope_is_mutating :: "ApprovalEnvelopeV1 \<Rightarrow> bool" where
  "envelope_is_mutating e = list_ex privilege_is_mutating (env_privileges e)"

definition signed_approval_validate ::
  "base64_engine \<Rightarrow> SignedApprovalV1 \<Rightarrow> SignedApprovalV1 protocol_result" where
  "signed_approval_validate url s =
     (if decode_raw_url url (sa_signature s) APPROVAL_SIGNATURE_BYTES = None
      then Inl InvalidInput
      else and_then (envelope_validate url (sa_envelope s)) (\<lambda>envelope.
           Inr \<lparr>sa_envelope = envelope, sa_signature = sa_signature s\<rparr>))"

definition signature_bytes ::
  "base64_engine \<Rightarrow> SignedApprovalV1 \<Rightarrow> bytes protocol_result" where
  "signature_bytes url s =
     and_then (ok_or (decode_raw_url url (sa_signature s) APPROVAL_SIGNATURE_BYTES)
                 InvalidInput) (\<lambda>decoded.
     if length decoded = APPROVAL_SIGNATURE_BYTES then Inr decoded else Inl InvalidInput)"

section \<open>Lemmas on the envelope\<close>

lemma decode_raw_url_iff:
  "decode_raw_url url v n = Some d \<longleftrightarrow>
     is_ascii v \<and> b64_decode url v = Some d \<and> length d = n \<and> b64_encode url d = v"
  by (auto simp: decode_raw_url_def split: option.splits)

lemma decode_raw_url_inject:
  "decode_raw_url url v n = Some d \<Longrightarrow> decode_raw_url url w n = Some d \<Longrightarrow> v = w"
  by (auto simp: decode_raw_url_iff)

lemma approval_operation_str_inject [simp]:
  "approval_operation_str a = approval_operation_str b \<longleftrightarrow> a = b"
  by (cases a; cases b) simp_all

lemma fits_approval_operation_str [simp]: "fits_u32 (as_bytes (approval_operation_str a))"
  by (cases a) (simp_all add: fits_u32_small)

lemma approval_privilege_str_inject [simp]:
  "approval_privilege_str a = approval_privilege_str b \<longleftrightarrow> a = b"
  by (cases a; cases b) simp_all

lemma canonical_privileges_iff:
  "canonical_privileges ps \<longleftrightarrow>
     ps \<in> {[MutateLocalState], [ReadLocalState], [MutateLocalState, ReadLocalState]}"
proof (cases ps)
  case (Cons a qs)
  show ?thesis
  proof (cases qs)
    case (Cons b rs)
    then show ?thesis
      by (cases a; cases b; cases rs)
        (simp_all add: canonical_privileges_def limits less_ApprovalPrivilege_def \<open>ps = a # qs\<close>)
  qed (cases a; simp add: canonical_privileges_def limits Cons)
qed (simp add: canonical_privileges_def)

lemma canonical_required_privileges: "canonical_privileges (required_privileges op)"
  by (cases op) (simp_all add: canonical_privileges_iff)

lemma required_privileges_mutating:
  "list_ex privilege_is_mutating (required_privileges op) \<longleftrightarrow> op \<noteq> DiagnoseProtocolReadOnly"
  by (cases op) simp_all

lemma envelope_validate_Inr:
  "envelope_validate url e = Inr e' \<longleftrightarrow>
     e' = e
     \<and> env_schema_version e = 1
     \<and> canonical_uuid_v4 (env_infrastructure_id e)
     \<and> canonical_machine_id (env_machine_id e)
     \<and> env_approval_epoch e \<noteq> 0 \<and> env_sequence e \<noteq> 0
     \<and> canonical_digest (env_plan_sha256 e) \<and> canonical_digest (env_rollback_sha256 e)
     \<and> env_privileges e = required_privileges (env_operation e)
     \<and> canonical_lifetime (env_issued_at_unix_seconds e) (env_expires_at_unix_seconds e)
     \<and> (\<exists>k. decode_raw_url url (env_approval_public_key e) 32 = Some k)"
  by (auto simp: envelope_validate_def limits canonical_required_privileges)

lemma signing_transcript_Inr:
  "signing_transcript url e = Inr t \<longleftrightarrow>
     (\<exists>key plan rollback.
        decode_raw_url url (env_approval_public_key e) 32 = Some key
        \<and> decode_digest (env_plan_sha256 e) = Some plan
        \<and> decode_digest (env_rollback_sha256 e) = Some rollback
        \<and> fits_u32 (as_bytes (env_infrastructure_id e))
        \<and> fits_u32 (as_bytes (env_machine_id e))
        \<and> fits_counted (map (\<lambda>p. as_bytes (approval_privilege_str p)) (env_privileges e))
        \<and> t = APPROVAL_TRANSCRIPT_DOMAIN @ u8_be (env_schema_version e)
            @ field (as_bytes (env_infrastructure_id e)) @ field (as_bytes (env_machine_id e))
            @ u64_be (env_approval_epoch e) @ u64_be (env_sequence e)
            @ field (as_bytes (approval_operation_str (env_operation e)))
            @ field plan @ field rollback
            @ counted (map (\<lambda>p. as_bytes (approval_privilege_str p)) (env_privileges e))
            @ u64_be (env_issued_at_unix_seconds e) @ u64_be (env_expires_at_unix_seconds e)
            @ field key)"
proof -
  have op: "fits_u32 (as_bytes (approval_operation_str (env_operation e)))"
    by (cases "env_operation e") (simp_all add: fits_u32_small)
  show ?thesis
    using op
    by (auto simp: signing_transcript_def result_iff limits counted_def fits_counted_def
        decode_digest_iff decode_raw_url_iff fits_u32_small split: if_splits)
qed

lemma privilege_strs_inject:
  "map (\<lambda>p. as_bytes (approval_privilege_str p)) ps
     = map (\<lambda>p. as_bytes (approval_privilege_str p)) qs \<longleftrightarrow> ps = qs"
  by (rule inj_map_eq_map) (simp add: inj_def)

lemma canonical_lifetime_nat:
  "canonical_lifetime i x \<longleftrightarrow>
     0 < unat i \<and> unat i < unat x \<and> unat x - unat i \<le> 900"
proof -
  have "unat (x - i) = unat x - unat i" if "i < x"
    using that by (simp add: unat_sub less_imp_le)
  then show ?thesis
    by (auto simp: canonical_lifetime_def limits word_less_nat_alt word_le_nat_alt unat_gt_0)
qed

section \<open>A concrete envelope\<close>

text \<open>
  An engine and an envelope the witnesses are evaluated at. The engine spells a
  byte by the character of the same code; it only has to satisfy what a lemma asks.
\<close>

definition sample_engine :: base64_engine where
  "sample_engine =
     \<lparr>b64_decode = (\<lambda>s. Some (as_bytes s)), b64_encode = (\<lambda>b. map (\<lambda>w. char_of (unat w)) b)\<rparr>"

definition sample_uuid :: string where
  "sample_uuid = ''0a1b2c3d-4e5f-4a6b-8c7d-9e0f1a2b3c4d''"

definition sample_hex :: "char \<Rightarrow> string" where
  "sample_hex c = replicate 64 c"

definition sample_envelope :: ApprovalEnvelopeV1 where
  "sample_envelope =
     \<lparr>env_schema_version = 1, env_infrastructure_id = sample_uuid,
      env_machine_id = ''node-1'', env_approval_epoch = 1, env_sequence = 7,
      env_operation = DeployOciProbe,
      env_plan_sha256 = sample_hex CHR ''a'', env_rollback_sha256 = sample_hex CHR ''b'',
      env_privileges = [MutateLocalState, ReadLocalState],
      env_issued_at_unix_seconds = 1000, env_expires_at_unix_seconds = 1300,
      env_approval_public_key = replicate 32 CHR ''k''\<rparr>"

lemma sample_uuid_canonical: "canonical_uuid_v4 sample_uuid"
  by (simp add: canonical_uuid_v4_def sample_uuid_def limits is_ascii_def uuid_byte_def
      ascii_simps)

lemma sample_machine_canonical: "canonical_machine_id ''node-1''"
  by (simp add: canonical_machine_id_def limits ascii_simps)

lemma sample_hex_decodes:
  "is_lower_hex c \<Longrightarrow> \<exists>d. decode_digest (sample_hex c) = Some d"
proof -
  assume "is_lower_hex c"
  then obtain a where a: "hex_value c = Some a"
    by (auto simp: is_lower_hex_def is_ascii_digit_def hex_value_def)
  have "is_ascii (replicate n c)" for n
    using \<open>is_lower_hex c\<close>
    by (induction n) (auto simp: is_lower_hex_def is_ascii_digit_def)
  moreover have "\<exists>d. decode_pairs (replicate (2 * n) c) = Some d" for n
    by (induction n) (auto simp: a)
  from this [of 32] obtain d where "decode_pairs (replicate 64 c) = Some d" by auto
  ultimately show ?thesis
    by (simp add: decode_digest_def limits sample_hex_def)
qed

lemma sample_key_decodes:
  "code c < 128 \<Longrightarrow>
     decode_raw_url sample_engine (replicate n c) n = Some (as_bytes (replicate n c))"
proof -
  assume c: "code c < 128"
  have "is_ascii (replicate n c)" using c by (induction n) auto
  then show ?thesis
    by (simp add: decode_raw_url_iff sample_engine_def as_bytes_def)
qed

lemma envelope_validate_signs:
  assumes "envelope_validate url e = Inr e'"
  shows "\<exists>t. signing_transcript url e = Inr t"
proof -
  have "fits_counted (map (\<lambda>p. as_bytes (approval_privilege_str p)) (required_privileges op))" for op
    by (cases op) (simp_all add: fits_counted_def fits_u32_small)
  with assms show ?thesis
    by (auto simp: envelope_validate_Inr signing_transcript_Inr canonical_digest_iff
        canonical_uuid_v4_def canonical_machine_id_def limits fits_u32_small split: if_splits)
qed

lemma sample_envelope_valid:
  "envelope_validate sample_engine sample_envelope = Inr sample_envelope"
  using sample_hex_decodes [of "CHR ''a''"] sample_hex_decodes [of "CHR ''b''"]
    sample_key_decodes [of "CHR ''k''" 32] sample_uuid_canonical sample_machine_canonical
  by (simp add: envelope_validate_Inr sample_envelope_def canonical_digest_iff ascii_simps
      canonical_lifetime_def limits)

lemma sample_envelope_signs: "\<exists>t. signing_transcript sample_engine sample_envelope = Inr t"
  by (rule envelope_validate_signs [OF sample_envelope_valid])

section \<open>Properties\<close>

text \<open>C14: the signed bytes of an approval determine every one of its fields. Two
envelopes with the same transcript are the same envelope, so a transport that
changes any field (or moves a byte from one field into the next) breaks the
signature.\<close>

theorem envelope_transcript_binds_every_field:
  assumes "signing_transcript url e = Inr t" and "signing_transcript url e' = Inr t"
  shows "e = e'"
  using assms
  by (auto simp: signing_transcript_Inr wire_simps privilege_strs_inject limits
      decode_digest_iff decode_raw_url_iff fits_u32_small intro!: ApprovalEnvelopeV1.equality)

theorem envelope_transcript_binds_every_field_witness:
  "\<exists>t. signing_transcript sample_engine sample_envelope = Inr t \<and>
     (\<forall>e. signing_transcript sample_engine e = Inr t \<longrightarrow> e = sample_envelope)"
proof -
  obtain t where t: "signing_transcript sample_engine sample_envelope = Inr t"
    using sample_envelope_signs by blast
  with envelope_transcript_binds_every_field [OF _ t] show ?thesis by blast
qed

text \<open>An envelope that validates is inside the whole contract: its transcript
exists, its privileges are exactly the strictly increasing list its operation
requires, it may mutate exactly when its operation is not the read-only
diagnostic, and its lifetime is between one and 900 seconds with no wrap-around
in the subtraction.\<close>

theorem envelope_validate_contract:
  assumes "envelope_validate url e = Inr e'"
  shows "e' = e \<and> (\<exists>t. signing_transcript url e = Inr t)
    \<and> env_privileges e = required_privileges (env_operation e)
    \<and> sorted_wrt (<) (env_privileges e)
    \<and> (envelope_is_mutating e \<longleftrightarrow> env_operation e \<noteq> DiagnoseProtocolReadOnly)
    \<and> 0 < unat (env_issued_at_unix_seconds e)
    \<and> unat (env_issued_at_unix_seconds e) < unat (env_expires_at_unix_seconds e)
    \<and> unat (env_expires_at_unix_seconds e) - unat (env_issued_at_unix_seconds e) \<le> 900"
proof -
  have "sorted_wrt (<) (required_privileges (env_operation e))"
    by (cases "env_operation e") (simp_all add: less_ApprovalPrivilege_def)
  with assms envelope_validate_signs [OF assms] show ?thesis
    by (simp add: envelope_validate_Inr canonical_lifetime_nat envelope_is_mutating_def
        required_privileges_mutating)
qed

theorem envelope_validate_contract_witness:
  "envelope_is_mutating sample_envelope
    \<and> unat (env_expires_at_unix_seconds sample_envelope)
        - unat (env_issued_at_unix_seconds sample_envelope) \<le> 900"
  using envelope_validate_contract [OF sample_envelope_valid]
  by (simp add: sample_envelope_def)

end
