(* ===== verification/Document_Gate.thy ===== *)
theory Document_Gate
  imports Approval
begin

text \<open>
  The two contracts the plan schemas and the service definitions share, as
  interfaces: a document is accepted only if it is the one its digest names, and a
  plan has exactly one document that undoes it. Every schema interprets both on
  its own definitions.
\<close>

section \<open>Accepting the document a digest names\<close>

locale document_gate =
  fixes decode :: "bytes \<Rightarrow> 'd protocol_result"
    and transcript :: "'d \<Rightarrow> bytes protocol_result"
    and sha :: sha256
    and verify :: "bytes \<Rightarrow> string \<Rightarrow> 'd protocol_result"
  assumes verify_steps:
    "verify document expected_sha256 =
       and_then (ok_or (decode_digest expected_sha256) InvalidInput) (\<lambda>expected.
       and_then (decode document) (\<lambda>parsed.
       and_then (and_then (transcript parsed) (\<lambda>t. Inr (sha t))) (\<lambda>digest.
       if digest \<noteq> expected then Inl InvalidInput else Inr parsed)))"
    and transcript_total: "decode document = Inr d \<Longrightarrow> \<exists>t. transcript d = Inr t"
    and transcript_inject:
      "decode document = Inr d \<Longrightarrow> decode document' = Inr d' \<Longrightarrow>
         transcript d = Inr t \<Longrightarrow> transcript d' = Inr t \<Longrightarrow> d = d'"
begin

lemma verify_iff:
  "verify document hex = Inr d \<longleftrightarrow>
     decode document = Inr d \<and> (\<exists>t. transcript d = Inr t \<and> decode_digest hex = Some (sha t))"
  using transcript_total by (fastforce simp: verify_steps result_iff split: if_splits)

lemma verify_own_digest:
  assumes "decode document = Inr d" "transcript d = Inr t" "length (sha t) = 32"
  shows "verify document (encode_lower_hex (sha t)) = Inr d"
  using assms by (auto simp: verify_iff decode_digest_iff limits)

lemma verify_some_digest:
  assumes "decode document = Inr d" "\<And>t. length (sha t) = 32"
  shows "\<exists>hex. verify document hex = Inr d"
  using transcript_total [OF assms(1)] verify_own_digest [OF assms(1) _ assms(2)] by blast

lemma verify_names_one:
  assumes "verify document hex = Inr d" "verify document' hex = Inr d'"
  shows "d = d' \<or> (\<exists>t t'. transcript d = Inr t \<and> transcript d' = Inr t' \<and> t \<noteq> t' \<and> sha t = sha t')"
  using assms transcript_inject by (fastforce simp: verify_iff)

end

text \<open>A stand-in digest of 32 bytes, for the witnesses: the last bytes of the message.\<close>

definition sample_sha :: sha256 where
  "sample_sha t = take 32 (rev t @ replicate 32 0)"

lemma length_sample_sha [simp]: "length (sample_sha t) = 32"
  by (simp add: sample_sha_def)

section \<open>Undoing a plan\<close>

locale undoing =
  fixes inverted :: "'d \<Rightarrow> 'd" and undone_by :: "'d \<Rightarrow> 'd \<Rightarrow> bool" and valid :: "'d \<Rightarrow> bool"
  assumes undone_by_iff: "undone_by plan rollback \<longleftrightarrow> rollback = inverted plan"
    and inverted_valid: "valid plan \<Longrightarrow> valid (inverted plan)"
begin

lemma undoing_exists: "valid plan \<Longrightarrow> \<exists>rollback. undone_by plan rollback \<and> valid rollback"
  by (auto simp: undone_by_iff inverted_valid)

lemma undoing_unique: "undone_by plan r \<Longrightarrow> undone_by plan s \<Longrightarrow> r = s"
  by (simp add: undone_by_iff)

end

text \<open>Where undoing the undoing is the plan itself, the relation is symmetric and moves every plan.\<close>

locale reversible = undoing +
  assumes inverted_twice: "inverted (inverted plan) = plan"
    and inverted_moves: "inverted plan \<noteq> plan"
begin

lemma undone_by_sym: "undone_by plan rollback \<longleftrightarrow> undone_by rollback plan"
  by (metis inverted_twice undone_by_iff)

lemma undone_by_irrefl: "\<not> undone_by plan plan"
  using inverted_moves by (simp add: undone_by_iff eq_commute)

lemma undone_by_valid: "undone_by plan rollback \<Longrightarrow> valid plan \<longleftrightarrow> valid rollback"
  by (metis inverted_twice inverted_valid undone_by_iff)

end

end
