(* ===== verification/Plan_V1.thy ===== *)
theory Plan_V1
  imports Document_Gate
begin

text \<open>
  Plan schema 1, the probe (\<open>bootstrap-protocol/src/plan.rs\<close>). The JSON decoding of
  \<open>serde_json\<close> and the SHA-256 function are parameters.
\<close>

section \<open>Bounds and pins\<close>

definition PLAN_SCHEMA_VERSION :: u8 where
  [limits]: "PLAN_SCHEMA_VERSION = 1"

definition PLAN_TRANSCRIPT_DOMAIN :: bytes where
  "PLAN_TRANSCRIPT_DOMAIN = as_bytes ''your-cloud/oci-plan.v1'' @ [0]"

definition MAX_PLAN_DOCUMENT_BYTES :: nat where
  [limits]: "MAX_PLAN_DOCUMENT_BYTES = 4096"

definition PROBE_IMAGE_REFERENCE :: string where
  "PROBE_IMAGE_REFERENCE = ''docker.io/traefik/whoami''"

definition PROBE_IMAGE_DIGEST :: string where
  "PROBE_IMAGE_DIGEST =
     ''sha256:200689790a0a0ea48ca45992e0450bc26ccab5307375b41c84dfc4f2475937ab''"

definition MIN_PLAN_LOCAL_PORT :: u32 where
  [limits]: "MIN_PLAN_LOCAL_PORT = 1024"

definition MAX_PLAN_LOCAL_PORT :: u32 where
  [limits]: "MAX_PLAN_LOCAL_PORT = 65535"

definition OCI_DIGEST_PREFIX :: string where
  "OCI_DIGEST_PREFIX = ''sha256:''"

section \<open>The document\<close>

datatype PlanOperation = V1DeployOciProbe | V1RemoveOciProbe

fun plan_operation_str :: "PlanOperation \<Rightarrow> string" where
  "plan_operation_str V1DeployOciProbe = ''deploy_oci_probe''"
| "plan_operation_str V1RemoveOciProbe = ''remove_oci_probe''"

fun plan_operation_inverse :: "PlanOperation \<Rightarrow> PlanOperation" where
  "plan_operation_inverse V1DeployOciProbe = V1RemoveOciProbe"
| "plan_operation_inverse V1RemoveOciProbe = V1DeployOciProbe"

record PlanDocumentV1 =
  p1_schema_version :: u8
  p1_infrastructure_id :: string
  p1_machine_id :: string
  p1_operation :: PlanOperation
  p1_image_reference :: string
  p1_image_digest :: string
  p1_local_port :: u32

definition decode_image_digest :: "string \<Rightarrow> bytes option" where
  "decode_image_digest v = do { hex \<leftarrow> strip_prefix OCI_DIGEST_PREFIX v; decode_digest hex }"

definition plan_v1_validate :: "PlanDocumentV1 \<Rightarrow> PlanDocumentV1 protocol_result" where
  "plan_v1_validate d =
     (if p1_schema_version d \<noteq> PLAN_SCHEMA_VERSION
         \<or> \<not> canonical_uuid_v4 (p1_infrastructure_id d)
         \<or> \<not> canonical_machine_id (p1_machine_id d)
         \<or> p1_image_reference d \<noteq> PROBE_IMAGE_REFERENCE
         \<or> decode_image_digest (p1_image_digest d) = None
         \<or> p1_image_digest d \<noteq> PROBE_IMAGE_DIGEST
         \<or> \<not> (MIN_PLAN_LOCAL_PORT \<le> p1_local_port d \<and> p1_local_port d \<le> MAX_PLAN_LOCAL_PORT)
      then Inl InvalidInput
      else Inr d)"

definition plan_v1_transcript :: "PlanDocumentV1 \<Rightarrow> bytes protocol_result" where
  "plan_v1_transcript d =
     and_then (ok_or (decode_image_digest (p1_image_digest d)) InvalidInput) (\<lambda>image.
     and_then (append_field (PLAN_TRANSCRIPT_DOMAIN @ u8_be (p1_schema_version d))
                 (as_bytes (p1_infrastructure_id d))) (\<lambda>t.
     and_then (append_field t (as_bytes (p1_machine_id d))) (\<lambda>t.
     and_then (append_field t (as_bytes (plan_operation_str (p1_operation d)))) (\<lambda>t.
     and_then (append_field t (as_bytes (p1_image_reference d))) (\<lambda>t.
     and_then (append_field t image) (\<lambda>t.
     Inr (t @ u32_be (p1_local_port d))))))))"

definition plan_v1_digest :: "sha256 \<Rightarrow> PlanDocumentV1 \<Rightarrow> bytes protocol_result" where
  "plan_v1_digest sha d = and_then (plan_v1_transcript d) (\<lambda>t. Inr (sha t))"

definition plan_v1_sha256 :: "sha256 \<Rightarrow> PlanDocumentV1 \<Rightarrow> string protocol_result" where
  "plan_v1_sha256 sha d = and_then (plan_v1_digest sha d) (\<lambda>b. Inr (encode_lower_hex b))"

definition plan_v1_is_undone_by :: "PlanDocumentV1 \<Rightarrow> PlanDocumentV1 \<Rightarrow> bool" where
  "plan_v1_is_undone_by d rollback =
     (p1_operation rollback = plan_operation_inverse (p1_operation d)
      \<and> p1_schema_version rollback = p1_schema_version d
      \<and> p1_infrastructure_id rollback = p1_infrastructure_id d
      \<and> p1_machine_id rollback = p1_machine_id d
      \<and> p1_image_reference rollback = p1_image_reference d
      \<and> p1_image_digest rollback = p1_image_digest d
      \<and> p1_local_port rollback = p1_local_port d)"

definition decode_plan_document ::
  "(bytes \<Rightarrow> PlanDocumentV1 option) \<Rightarrow> bytes \<Rightarrow> PlanDocumentV1 protocol_result" where
  "decode_plan_document from_slice document =
     (if document = [] \<or> length document > MAX_PLAN_DOCUMENT_BYTES then Inl InvalidInput
      else and_then (ok_or (from_slice document) InvalidInput) plan_v1_validate)"

definition verify_plan_document ::
  "(bytes \<Rightarrow> PlanDocumentV1 option) \<Rightarrow> sha256 \<Rightarrow> bytes \<Rightarrow> string
     \<Rightarrow> PlanDocumentV1 protocol_result" where
  "verify_plan_document from_slice sha document expected_sha256 =
     and_then (ok_or (decode_digest expected_sha256) InvalidInput) (\<lambda>expected.
     and_then (decode_plan_document from_slice document) (\<lambda>parsed.
     and_then (plan_v1_digest sha parsed) (\<lambda>digest.
     if digest \<noteq> expected then Inl InvalidInput else Inr parsed)))"

section \<open>Lemmas\<close>

lemma decode_image_digest_iff:
  "decode_image_digest v = Some d \<longleftrightarrow>
     length d = APPROVAL_DIGEST_BYTES \<and> v = OCI_DIGEST_PREFIX @ encode_lower_hex d"
  by (auto simp: decode_image_digest_def strip_prefix_Some decode_digest_iff
      split: Option.bind_splits)

lemma plan_operation_str_inject [simp]: "plan_operation_str a = plan_operation_str b \<longleftrightarrow> a = b"
  by (cases a; cases b) simp_all

lemma fits_plan_operation_str [simp]: "fits_u32 (as_bytes (plan_operation_str a))"
  by (cases a) (simp_all add: fits_u32_small)

lemma plan_operation_inverse_twice [simp]:
  "plan_operation_inverse (plan_operation_inverse a) = a"
  by (cases a) simp_all

lemma plan_operation_inverse_moves [simp]: "plan_operation_inverse a \<noteq> a"
  by (cases a) simp_all

lemma plan_v1_transcript_Inr:
  "plan_v1_transcript d = Inr t \<longleftrightarrow>
     (\<exists>image. decode_image_digest (p1_image_digest d) = Some image
        \<and> fits_u32 (as_bytes (p1_infrastructure_id d)) \<and> fits_u32 (as_bytes (p1_machine_id d))
        \<and> fits_u32 (as_bytes (p1_image_reference d))
        \<and> t = PLAN_TRANSCRIPT_DOMAIN @ u8_be (p1_schema_version d)
            @ field (as_bytes (p1_infrastructure_id d)) @ field (as_bytes (p1_machine_id d))
            @ field (as_bytes (plan_operation_str (p1_operation d)))
            @ field (as_bytes (p1_image_reference d)) @ field image
            @ u32_be (p1_local_port d))"
  by (auto simp: plan_v1_transcript_def result_iff decode_image_digest_iff limits fits_u32_small)

lemma plan_v1_transcript_inject:
  assumes "plan_v1_transcript d = Inr t" "plan_v1_transcript d' = Inr t"
  shows "d = d'"
  using assms
  by (auto simp: plan_v1_transcript_Inr wire_simps decode_image_digest_iff limits fits_u32_small
      intro!: PlanDocumentV1.equality)

lemma decode_plan_document_Inr:
  "decode_plan_document js document = Inr d \<longleftrightarrow>
     document \<noteq> [] \<and> length document \<le> MAX_PLAN_DOCUMENT_BYTES
     \<and> js document = Some d \<and> plan_v1_validate d = Inr d"
  by (auto simp: decode_plan_document_def result_iff plan_v1_validate_def split: if_splits)

lemma fits_canonical:
  "canonical_uuid_v4 v \<Longrightarrow> fits_u32 (as_bytes v)"
  "canonical_machine_id v \<Longrightarrow> fits_u32 (as_bytes v)"
  by (simp_all add: canonical_uuid_v4_def canonical_machine_id_def limits fits_u32_small
      split: if_splits)

lemma plan_v1_validate_transcript:
  "plan_v1_validate d = Inr d \<Longrightarrow> \<exists>t. plan_v1_transcript d = Inr t"
  by (auto simp: plan_v1_validate_def plan_v1_transcript_Inr PROBE_IMAGE_REFERENCE_def
      fits_canonical fits_u32_small split: if_splits)

interpretation v1_gate: document_gate "decode_plan_document js" plan_v1_transcript sha
    "verify_plan_document js sha" for js sha
  by unfold_locales
    (auto simp: verify_plan_document_def plan_v1_digest_def decode_plan_document_Inr
      plan_v1_validate_transcript dest: plan_v1_transcript_inject)

definition plan_v1_inverted :: "PlanDocumentV1 \<Rightarrow> PlanDocumentV1" where
  "plan_v1_inverted d = d\<lparr>p1_operation := plan_operation_inverse (p1_operation d)\<rparr>"

lemma plan_v1_inverted_moves: "plan_v1_inverted d \<noteq> d"
proof
  assume "plan_v1_inverted d = d"
  then have "p1_operation (plan_v1_inverted d) = p1_operation d" by simp
  then show False by (simp add: plan_v1_inverted_def)
qed

interpretation v1_undo: reversible plan_v1_inverted plan_v1_is_undone_by
    "\<lambda>d. plan_v1_validate d = Inr d"
  by unfold_locales
    (auto simp: plan_v1_is_undone_by_def plan_v1_inverted_def plan_v1_validate_def
      plan_v1_inverted_moves [unfolded plan_v1_inverted_def]
      intro!: PlanDocumentV1.equality split: if_splits)

section \<open>A concrete plan\<close>

definition sample_probe :: PlanDocumentV1 where
  "sample_probe =
     \<lparr>p1_schema_version = 1, p1_infrastructure_id = sample_uuid, p1_machine_id = ''node-1'',
      p1_operation = V1DeployOciProbe, p1_image_reference = PROBE_IMAGE_REFERENCE,
      p1_image_digest = PROBE_IMAGE_DIGEST, p1_local_port = 8080\<rparr>"

lemma probe_digest_decodes: "\<exists>d. decode_image_digest PROBE_IMAGE_DIGEST = Some d"
  by (simp add: decode_image_digest_def PROBE_IMAGE_DIGEST_def OCI_DIGEST_PREFIX_def
      strip_prefix_def decode_digest_def limits is_ascii_def hex_value_def code_def)

lemma sample_probe_valid: "plan_v1_validate sample_probe = Inr sample_probe"
  using probe_digest_decodes
  by (auto simp: plan_v1_validate_def sample_probe_def sample_uuid_canonical
      sample_machine_canonical limits)

lemma sample_probe_decodes:
  "decode_plan_document (\<lambda>_. Some sample_probe) [123] = Inr sample_probe"
  by (simp add: decode_plan_document_Inr sample_probe_valid limits)

section \<open>Properties\<close>

text \<open>A probe digest names one plan, and a plan of the contract. What is accepted
under a digest carries the pinned image and a port above the privileged range, and
whatever else the digest accepts is that plan, unless the hash collides.\<close>

theorem verify_plan_names_one_probe:
  assumes "verify_plan_document js sha document hex = Inr d"
    and "verify_plan_document js sha document' hex = Inr d'"
  shows "p1_image_reference d = PROBE_IMAGE_REFERENCE \<and> p1_image_digest d = PROBE_IMAGE_DIGEST
    \<and> 1024 \<le> unat (p1_local_port d) \<and> unat (p1_local_port d) \<le> 65535
    \<and> (d = d' \<or> (\<exists>t t'. plan_v1_transcript d = Inr t \<and> plan_v1_transcript d' = Inr t'
          \<and> t \<noteq> t' \<and> sha t = sha t'))"
proof -
  have "plan_v1_validate d = Inr d"
    using assms(1) by (simp add: v1_gate.verify_iff decode_plan_document_Inr)
  then have "p1_image_reference d = PROBE_IMAGE_REFERENCE \<and> p1_image_digest d = PROBE_IMAGE_DIGEST
    \<and> 1024 \<le> unat (p1_local_port d) \<and> unat (p1_local_port d) \<le> 65535"
    by (simp add: plan_v1_validate_def limits word_le_nat_alt split: if_splits)
  with v1_gate.verify_names_one [OF assms] show ?thesis by blast
qed

theorem verify_plan_names_one_probe_witness:
  "\<exists>hex. verify_plan_document (\<lambda>_. Some sample_probe) sample_sha [123] hex = Inr sample_probe
     \<and> 1024 \<le> unat (p1_local_port sample_probe)"
proof -
  from v1_gate.verify_some_digest [OF sample_probe_decodes length_sample_sha] obtain hex where
    v: "verify_plan_document (\<lambda>_. Some sample_probe) sample_sha [123] hex = Inr sample_probe" ..
  from verify_plan_names_one_probe [OF v v] v show ?thesis by auto
qed

text \<open>Deploying and removing a probe undo each other and nothing else does. A plan has
exactly one rollback, which is the plan of the other operation with every other
field equal, is valid exactly when the plan is, is never the plan itself, and has
the plan as its own rollback.\<close>

theorem probe_rollback_is_the_inverse:
  "plan_v1_is_undone_by d = (\<lambda>r. r = d\<lparr>p1_operation := plan_operation_inverse (p1_operation d)\<rparr>)
   \<and> \<not> plan_v1_is_undone_by d d
   \<and> (\<lambda>r. plan_v1_is_undone_by r d) = plan_v1_is_undone_by d
   \<and> {r. plan_v1_is_undone_by d r \<and> is_ok (plan_v1_validate r) \<noteq> is_ok (plan_v1_validate d)} = {}"
proof (intro conjI)
  show "plan_v1_is_undone_by d = (\<lambda>r. r = d\<lparr>p1_operation := plan_operation_inverse (p1_operation d)\<rparr>)"
    by (rule ext) (simp add: v1_undo.undone_by_iff plan_v1_inverted_def)
  show "\<not> plan_v1_is_undone_by d d" by (rule v1_undo.undone_by_irrefl)
  show "(\<lambda>r. plan_v1_is_undone_by r d) = plan_v1_is_undone_by d"
    by (rule ext) (rule v1_undo.undone_by_sym)
  have "is_ok (plan_v1_validate p) \<longleftrightarrow> plan_v1_validate p = Inr p" for p
    by (simp add: plan_v1_validate_def)
  then show "{r. plan_v1_is_undone_by d r
      \<and> is_ok (plan_v1_validate r) \<noteq> is_ok (plan_v1_validate d)} = {}"
    using v1_undo.undone_by_valid by auto
qed

end
