(* ===== verification/Service_Definition.thy ===== *)
theory Service_Definition
  imports Document_Gate
begin

text \<open>
  The definition a user writes for a service
  (\<open>bootstrap-protocol/src/service_definition.rs\<close>): its grammars, the contract a
  document is held against, the named refusals a form shows, and the transcript a
  digest is taken over. The \<open>serde_json\<close> reader and writer are parameters.
\<close>

section \<open>Bounds\<close>

definition SERVICE_DEFINITION_SCHEMA_VERSION :: u8 where
  [limits]: "SERVICE_DEFINITION_SCHEMA_VERSION = 1"

definition SERVICE_DEFINITION_TRANSCRIPT_DOMAIN :: bytes where
  "SERVICE_DEFINITION_TRANSCRIPT_DOMAIN = as_bytes ''your-cloud/service-definition.v1'' @ [0]"

definition MAX_SERVICE_DEFINITION_BYTES :: nat where
  [limits]: "MAX_SERVICE_DEFINITION_BYTES = 8192"

definition MAX_SERVICE_SLUG_CHARS :: nat where
  [limits]: "MAX_SERVICE_SLUG_CHARS = 16"

definition MAX_IMAGE_REPOSITORY_BYTES :: nat where
  [limits]: "MAX_IMAGE_REPOSITORY_BYTES = 255"

definition MIN_CONTAINER_PORT :: u32 where
  [limits]: "MIN_CONTAINER_PORT = 1"

definition MAX_CONTAINER_PORT :: u32 where
  [limits]: "MAX_CONTAINER_PORT = 65535"

definition MAX_SERVICE_VOLUMES :: nat where
  [limits]: "MAX_SERVICE_VOLUMES = 8"

definition MAX_SERVICE_TMPFS :: nat where
  [limits]: "MAX_SERVICE_TMPFS = 8"

definition MAX_CONTAINER_PATH_BYTES :: nat where
  [limits]: "MAX_CONTAINER_PATH_BYTES = 253"

definition MAX_SERVICE_ENVIRONMENT_LINES :: nat where
  [limits]: "MAX_SERVICE_ENVIRONMENT_LINES = 32"

definition MAX_SERVICE_SECRET_KEYS :: nat where
  [limits]: "MAX_SERVICE_SECRET_KEYS = 16"

definition MAX_ENVIRONMENT_KEY_CHARS :: nat where
  [limits]: "MAX_ENVIRONMENT_KEY_CHARS = 64"

definition MAX_ENVIRONMENT_VALUE_BYTES :: nat where
  [limits]: "MAX_ENVIRONMENT_VALUE_BYTES = 512"

definition ORIGIN_HOST_PLACEHOLDER :: string where
  "ORIGIN_HOST_PLACEHOLDER = ''{origin_host}''"

definition RESERVED_SERVICE_SLUGS :: "string list" where
  "RESERVED_SERVICE_SLUGS = [''bentopdf'', ''vaultwarden'', ''probe'', ''entrypoint'']"

section \<open>Grammars\<close>

definition canonical_service_slug :: "string \<Rightarrow> bool" where
  "canonical_service_slug slug =
     (if slug = [] \<or> length slug > MAX_SERVICE_SLUG_CHARS then False
      else if \<not> is_ascii_lowercase (slug ! 0) \<and> \<not> is_ascii_digit (slug ! 0) then False
      else list_all (\<lambda>c. is_ascii_lowercase c \<or> is_ascii_digit c \<or> c = CHR ''-'') slug)"

definition canonical_definition_slug :: "string \<Rightarrow> bool" where
  "canonical_definition_slug slug =
     (canonical_service_slug slug \<and> slug \<notin> set RESERVED_SERVICE_SLUGS)"

definition canonical_registry_host :: "string \<Rightarrow> bool" where
  "canonical_registry_host registry =
     (let (host, port) = (case rsplit_once CHR '':'' registry of
                              Some (host, port) \<Rightarrow> (host, Some port)
                            | None \<Rightarrow> (registry, None))
      in if (case port of None \<Rightarrow> False
               | Some p \<Rightarrow> p = [] \<or> length p > 5 \<or> \<not> list_all is_ascii_digit p) then False
         else if host = [] \<or> \<not> lower_alnum (host ! 0) \<or> \<not> lower_alnum (host ! (length host - 1))
         then False
         else if \<not> list_all (\<lambda>c. lower_alnum c \<or> c = CHR ''.'' \<or> c = CHR ''-'') host then False
         else \<not> list_ex (\<lambda>(a, b). \<not> lower_alnum a \<and> \<not> lower_alnum b) (zip host (tl host)))"

definition canonical_repository_path :: "string \<Rightarrow> bool" where
  "canonical_repository_path path =
     (if path = [] then False
      else list_all (\<lambda>component.
          component \<noteq> []
          \<and> lower_alnum (component ! 0)
          \<and> lower_alnum (component ! (length component - 1))
          \<and> list_all (\<lambda>c. lower_alnum c \<or> c = CHR ''.'' \<or> c = CHR ''_'' \<or> c = CHR ''-'') component)
        (split_on CHR ''/'' path))"

definition canonical_image_repository :: "string \<Rightarrow> bool" where
  "canonical_image_repository repository =
     (if repository = [] \<or> length repository > MAX_IMAGE_REPOSITORY_BYTES then False
      else if CHR ''@'' \<in> set repository then False
      else let last_component = (case rsplit_once CHR ''/'' repository of
                                     Some (_, tail) \<Rightarrow> tail
                                   | None \<Rightarrow> repository)
           in if CHR '':'' \<in> set last_component then False
              else (case split_once CHR ''/'' repository of
                        None \<Rightarrow> False
                      | Some (registry, path) \<Rightarrow>
                          if CHR ''.'' \<notin> set registry \<and> CHR '':'' \<notin> set registry then False
                          else canonical_registry_host registry \<and> canonical_repository_path path))"

definition image_repository_names_one_image :: "string \<Rightarrow> bool" where
  "image_repository_names_one_image repository =
     (if CHR ''@'' \<in> set repository then True
      else let last_component = (case rsplit_once CHR ''/'' repository of
                                     Some (_, tail) \<Rightarrow> tail
                                   | None \<Rightarrow> repository)
           in CHR '':'' \<in> set last_component)"

definition canonical_container_path :: "string \<Rightarrow> string list option" where
  "canonical_container_path path =
     (if \<not> prefix ''/'' path \<or> path = ''/'' \<or> length path > MAX_CONTAINER_PATH_BYTES then None
      else if suffix ''/'' path then None
      else do {
        rest \<leftarrow> strip_prefix ''/'' path;
        let segments = split_on CHR ''/'' rest;
        if list_ex (\<lambda>segment.
             segment = [] \<or> segment = ''.'' \<or> segment = ''..''
             \<or> \<not> list_all (\<lambda>c. is_ascii_lowercase c \<or> is_ascii_digit c
                     \<or> c = CHR ''.'' \<or> c = CHR ''_'' \<or> c = CHR ''-'') segment) segments
        then None
        else Some segments })"

definition opens_or_equals :: "string list \<Rightarrow> string list \<Rightarrow> bool" where
  "opens_or_equals outer inner =
     (length outer \<le> length inner \<and> list_all (\<lambda>(one, other). one = other) (zip outer inner))"

definition canonical_environment_key :: "string \<Rightarrow> bool" where
  "canonical_environment_key key =
     (if key = [] \<or> length key > MAX_ENVIRONMENT_KEY_CHARS then False
      else if \<not> is_ascii_uppercase (key ! 0) then False
      else list_all (\<lambda>c. is_ascii_uppercase c \<or> is_ascii_digit c \<or> c = CHR ''_'') key)"

text \<open>The walk of \<open>canonical_environment_value\<close>, over what is left from \<open>index\<close> on.\<close>

function environment_value_walk :: "string \<Rightarrow> bool" where
  "environment_value_walk [] = True"
| "environment_value_walk (c # s) =
     (if \<not> (32 \<le> code c \<and> code c \<le> 126) then False
      else if c = CHR 0x7B then
        (if \<not> prefix ORIGIN_HOST_PLACEHOLDER (c # s) then False
         else environment_value_walk (drop (length ORIGIN_HOST_PLACEHOLDER) (c # s)))
      else if c = CHR 0x7D then False
      else environment_value_walk s)"
  by pat_completeness auto
termination
  by (relation "measure length") (auto simp: ORIGIN_HOST_PLACEHOLDER_def)

definition canonical_environment_value :: "string \<Rightarrow> bool" where
  "canonical_environment_value v =
     (if length v > MAX_ENVIRONMENT_VALUE_BYTES then False else environment_value_walk v)"

section \<open>The document and its contract\<close>

record ServiceDefinitionDocument =
  sd_schema_version :: u8
  sd_slug :: string
  sd_image_repository :: string
  sd_container_port :: u32
  sd_volumes :: "string list"
  sd_tmpfs :: "string list"
  sd_environment :: "string list"
  sd_secret_keys :: "string list"

text \<open>The loop that reads every declared path and stops at the first it refuses.\<close>

fun declared_paths :: "string list \<Rightarrow> string list list option" where
  "declared_paths [] = Some []"
| "declared_paths (path # paths) =
     (case canonical_container_path path of
        None \<Rightarrow> None
      | Some segments \<Rightarrow> map_option (Cons segments) (declared_paths paths))"

text \<open>The two nested loops over the pairs of one list.\<close>

fun no_overlap :: "string list list \<Rightarrow> bool" where
  "no_overlap [] = True"
| "no_overlap (entry # others) =
     (\<not> list_ex (\<lambda>other. opens_or_equals entry other \<or> opens_or_equals other entry) others
      \<and> no_overlap others)"

definition holds_the_mounts :: "ServiceDefinitionDocument \<Rightarrow> bool" where
  "holds_the_mounts d =
     (if length (sd_volumes d) > MAX_SERVICE_VOLUMES \<or> length (sd_tmpfs d) > MAX_SERVICE_TMPFS
      then False
      else (case declared_paths (sd_volumes d @ sd_tmpfs d) of
                None \<Rightarrow> False
              | Some declared \<Rightarrow> no_overlap declared))"

text \<open>The two loops over the shared namespace: \<open>None\<close> is the early \<open>return false\<close>.\<close>

fun declare_environment :: "string list \<Rightarrow> string list \<Rightarrow> string list option" where
  "declare_environment declared [] = Some declared"
| "declare_environment declared (line # lines) =
     (case split_once CHR ''='' line of
        None \<Rightarrow> None
      | Some (key, v) \<Rightarrow>
          if \<not> canonical_environment_key key \<or> \<not> canonical_environment_value v
             \<or> key \<in> set declared
          then None
          else declare_environment (declared @ [key]) lines)"

fun declare_secrets :: "string list \<Rightarrow> string list \<Rightarrow> string list option" where
  "declare_secrets declared [] = Some declared"
| "declare_secrets declared (key # keys) =
     (if \<not> canonical_environment_key key \<or> key \<in> set declared then None
      else declare_secrets (declared @ [key]) keys)"

definition holds_the_environment :: "ServiceDefinitionDocument \<Rightarrow> bool" where
  "holds_the_environment d =
     (if length (sd_environment d) > MAX_SERVICE_ENVIRONMENT_LINES
         \<or> length (sd_secret_keys d) > MAX_SERVICE_SECRET_KEYS
      then False
      else (case declare_environment [] (sd_environment d) of
                None \<Rightarrow> False
              | Some declared \<Rightarrow> declare_secrets declared (sd_secret_keys d) \<noteq> None))"

definition holds_the_contract :: "ServiceDefinitionDocument \<Rightarrow> bool" where
  "holds_the_contract d =
     (sd_schema_version d = SERVICE_DEFINITION_SCHEMA_VERSION
      \<and> canonical_definition_slug (sd_slug d)
      \<and> canonical_image_repository (sd_image_repository d)
      \<and> MIN_CONTAINER_PORT \<le> sd_container_port d \<and> sd_container_port d \<le> MAX_CONTAINER_PORT
      \<and> holds_the_mounts d
      \<and> holds_the_environment d)"

definition service_definition_validate ::
  "ServiceDefinitionDocument \<Rightarrow> ServiceDefinitionDocument protocol_result" where
  "service_definition_validate d = (if \<not> holds_the_contract d then Inl InvalidInput else Inr d)"

definition interpolates_origin_host :: "ServiceDefinitionDocument \<Rightarrow> bool" where
  "interpolates_origin_host d =
     list_ex (\<lambda>line. contains_str line ORIGIN_HOST_PLACEHOLDER) (sd_environment d)"

definition service_definition_encode ::
  "(ServiceDefinitionDocument \<Rightarrow> string option) \<Rightarrow> ServiceDefinitionDocument
     \<Rightarrow> string protocol_result" where
  "service_definition_encode to_string d =
     (if \<not> holds_the_contract d then Inl InvalidInput
      else and_then (ok_or (to_string d) InvalidInput) (\<lambda>encoded.
        if encoded = [] \<or> length encoded > MAX_SERVICE_DEFINITION_BYTES then Inl InvalidInput
        else Inr encoded))"

definition append_list :: "bytes \<Rightarrow> string list \<Rightarrow> bytes protocol_result" where
  "append_list buffer entries =
     (if length entries < 2 ^ 32
      then append_fields (buffer @ u32_be (of_nat (length entries))) (map as_bytes entries)
      else Inl InvalidInput)"

definition raw_transcript :: "ServiceDefinitionDocument \<Rightarrow> bytes protocol_result" where
  "raw_transcript d =
     and_then (append_field (SERVICE_DEFINITION_TRANSCRIPT_DOMAIN @ u8_be (sd_schema_version d))
                 (as_bytes (sd_slug d))) (\<lambda>t.
     and_then (append_field t (as_bytes (sd_image_repository d))) (\<lambda>t.
     and_then (append_list (t @ u32_be (sd_container_port d)) (sd_volumes d)) (\<lambda>t.
     and_then (append_list t (sd_tmpfs d)) (\<lambda>t.
     and_then (append_list t (sd_environment d)) (\<lambda>t.
     append_list t (sd_secret_keys d))))))"

definition service_definition_transcript ::
  "ServiceDefinitionDocument \<Rightarrow> bytes protocol_result" where
  "service_definition_transcript d =
     (if \<not> holds_the_contract d then Inl InvalidInput else raw_transcript d)"

definition service_definition_digest ::
  "sha256 \<Rightarrow> ServiceDefinitionDocument \<Rightarrow> bytes protocol_result" where
  "service_definition_digest sha d =
     and_then (service_definition_transcript d) (\<lambda>t. Inr (sha t))"

definition service_definition_sha256 ::
  "sha256 \<Rightarrow> ServiceDefinitionDocument \<Rightarrow> string protocol_result" where
  "service_definition_sha256 sha d =
     and_then (service_definition_digest sha d) (\<lambda>b. Inr (encode_lower_hex b))"

definition decode_service_definition_document ::
  "(bytes \<Rightarrow> ServiceDefinitionDocument option) \<Rightarrow> bytes
     \<Rightarrow> ServiceDefinitionDocument protocol_result" where
  "decode_service_definition_document from_slice document =
     (if document = [] \<or> length document > MAX_SERVICE_DEFINITION_BYTES then Inl InvalidInput
      else and_then (ok_or (from_slice document) InvalidInput) service_definition_validate)"

definition verify_service_definition_document ::
  "(bytes \<Rightarrow> ServiceDefinitionDocument option) \<Rightarrow> sha256 \<Rightarrow> bytes \<Rightarrow> string
     \<Rightarrow> ServiceDefinitionDocument protocol_result" where
  "verify_service_definition_document from_slice sha document expected_sha256 =
     and_then (ok_or (decode_digest expected_sha256) InvalidInput) (\<lambda>expected.
     and_then (decode_service_definition_document from_slice document) (\<lambda>parsed.
     and_then (service_definition_digest sha parsed) (\<lambda>digest.
     if digest \<noteq> expected then Inl InvalidInput else Inr parsed)))"

section \<open>The named refusals\<close>

datatype ServiceDefinitionField =
    SchemaVersion | Slug | ImageRepository | ContainerPort
  | Volumes | Tmpfs | Environment | SecretKeys | Document

datatype ServiceDefinitionRefusal =
    UnknownSchemaVersion | SlugGrammar | SlugReserved
  | ImageRepositoryPinned | ImageRepositoryGrammar | ContainerPortRange
  | ListTooLong | ContainerPathGrammar | MountsOverlap
  | EnvironmentLineShape | KeyGrammar | ValueGrammar | KeyAlreadyDeclared
  | DocumentTooLarge

record ServiceDefinitionFieldRefusal =
  fr_field :: ServiceDefinitionField
  fr_entry :: "nat option"
  fr_refusal :: ServiceDefinitionRefusal

definition refusal_of ::
  "ServiceDefinitionField \<Rightarrow> nat option \<Rightarrow> ServiceDefinitionRefusal
     \<Rightarrow> ServiceDefinitionFieldRefusal" where
  "refusal_of fld entry refusal = \<lparr>fr_field = fld, fr_entry = entry, fr_refusal = refusal\<rparr>"

type_synonym accepted_mount = "ServiceDefinitionField \<times> nat \<times> string list"

text \<open>The first loop of \<open>mount_refusals\<close>: read every declared path, refuse in place.\<close>

fun accept_mounts ::
  "(ServiceDefinitionField \<times> nat \<times> string) list \<Rightarrow> accepted_mount list
     \<Rightarrow> ServiceDefinitionFieldRefusal list
     \<Rightarrow> accepted_mount list \<times> ServiceDefinitionFieldRefusal list" where
  "accept_mounts [] accepted refusals = (accepted, refusals)"
| "accept_mounts ((fld, index, path) # declared) accepted refusals =
     (case canonical_container_path path of
        Some segments \<Rightarrow> accept_mounts declared (accepted @ [(fld, index, segments)]) refusals
      | None \<Rightarrow> accept_mounts declared accepted
                  (refusals @ [refusal_of fld (Some index) ContainerPathGrammar]))"

text \<open>The second loop: an entry is refused beside the ones before it.\<close>

fun overlap_refusals ::
  "accepted_mount list \<Rightarrow> accepted_mount list \<Rightarrow> ServiceDefinitionFieldRefusal list
     \<Rightarrow> ServiceDefinitionFieldRefusal list" where
  "overlap_refusals before [] refusals = refusals"
| "overlap_refusals before ((fld, index, entry) # later) refusals =
     overlap_refusals (before @ [(fld, index, entry)]) later
       (if list_ex (\<lambda>(_, _, other). opens_or_equals entry other \<or> opens_or_equals other entry)
             before
        then refusals @ [refusal_of fld (Some index) MountsOverlap]
        else refusals)"

text \<open>One list of the chain the two loops walk, each path beside its field and index.\<close>

definition tag_mounts ::
  "ServiceDefinitionField \<Rightarrow> string list \<Rightarrow> (ServiceDefinitionField \<times> nat \<times> string) list" where
  "tag_mounts fld paths = map (\<lambda>(index, path). (fld, index, path)) (enumerate 0 paths)"

definition mount_refusals ::
  "ServiceDefinitionDocument \<Rightarrow> ServiceDefinitionFieldRefusal list
     \<Rightarrow> ServiceDefinitionFieldRefusal list" where
  "mount_refusals d refusals =
     (let refusals = (if length (sd_volumes d) > MAX_SERVICE_VOLUMES
                      then refusals @ [refusal_of Volumes None ListTooLong] else refusals);
          refusals = (if length (sd_tmpfs d) > MAX_SERVICE_TMPFS
                      then refusals @ [refusal_of Tmpfs None ListTooLong] else refusals);
          declared = tag_mounts Volumes (sd_volumes d) @ tag_mounts Tmpfs (sd_tmpfs d);
          (accepted, refusals) = accept_mounts declared [] refusals
      in overlap_refusals [] accepted refusals)"

text \<open>What one \<open>KEY=value\<close> entry adds: at most one refusal of its key, then one of its value.\<close>

definition environment_entry ::
  "nat \<Rightarrow> string \<Rightarrow> string \<Rightarrow> string list \<Rightarrow> ServiceDefinitionFieldRefusal list
     \<Rightarrow> string list \<times> ServiceDefinitionFieldRefusal list" where
  "environment_entry index key v declared refusals =
     (let (declared, refusals) =
            (if \<not> canonical_environment_key key
             then (declared, refusals @ [refusal_of Environment (Some index) KeyGrammar])
             else if key \<in> set declared
             then (declared, refusals @ [refusal_of Environment (Some index) KeyAlreadyDeclared])
             else (declared @ [key], refusals))
      in (declared,
          if \<not> canonical_environment_value v
          then refusals @ [refusal_of Environment (Some index) ValueGrammar]
          else refusals))"

fun environment_line_refusals ::
  "nat \<Rightarrow> string list \<Rightarrow> string list \<Rightarrow> ServiceDefinitionFieldRefusal list
     \<Rightarrow> string list \<times> ServiceDefinitionFieldRefusal list" where
  "environment_line_refusals index [] declared refusals = (declared, refusals)"
| "environment_line_refusals index (line # lines) declared refusals =
     (case split_once CHR ''='' line of
        None \<Rightarrow>
          environment_line_refusals (index + 1) lines declared
            (refusals @ [refusal_of Environment (Some index) EnvironmentLineShape])
      | Some (key, v) \<Rightarrow>
          (case environment_entry index key v declared refusals of
             (declared, refusals) \<Rightarrow>
               environment_line_refusals (index + 1) lines declared refusals))"

fun secret_key_refusals ::
  "nat \<Rightarrow> string list \<Rightarrow> string list \<Rightarrow> ServiceDefinitionFieldRefusal list
     \<Rightarrow> ServiceDefinitionFieldRefusal list" where
  "secret_key_refusals index [] declared refusals = refusals"
| "secret_key_refusals index (key # keys) declared refusals =
     (if \<not> canonical_environment_key key
      then secret_key_refusals (index + 1) keys declared
             (refusals @ [refusal_of SecretKeys (Some index) KeyGrammar])
      else if key \<in> set declared
      then secret_key_refusals (index + 1) keys declared
             (refusals @ [refusal_of SecretKeys (Some index) KeyAlreadyDeclared])
      else secret_key_refusals (index + 1) keys (declared @ [key]) refusals)"

definition environment_refusals ::
  "ServiceDefinitionDocument \<Rightarrow> ServiceDefinitionFieldRefusal list
     \<Rightarrow> ServiceDefinitionFieldRefusal list" where
  "environment_refusals d refusals =
     (let refusals = (if length (sd_environment d) > MAX_SERVICE_ENVIRONMENT_LINES
                      then refusals @ [refusal_of Environment None ListTooLong] else refusals);
          refusals = (if length (sd_secret_keys d) > MAX_SERVICE_SECRET_KEYS
                      then refusals @ [refusal_of SecretKeys None ListTooLong] else refusals);
          (declared, refusals) = environment_line_refusals 0 (sd_environment d) [] refusals
      in secret_key_refusals 0 (sd_secret_keys d) declared refusals)"

definition service_definition_refusals ::
  "(ServiceDefinitionDocument \<Rightarrow> string option) \<Rightarrow> ServiceDefinitionDocument
     \<Rightarrow> ServiceDefinitionFieldRefusal list" where
  "service_definition_refusals to_string d =
     (let refusals = (if sd_schema_version d \<noteq> SERVICE_DEFINITION_SCHEMA_VERSION
                      then [refusal_of SchemaVersion None UnknownSchemaVersion] else []);
          refusals = (if \<not> canonical_service_slug (sd_slug d)
                      then refusals @ [refusal_of Slug None SlugGrammar]
                      else if sd_slug d \<in> set RESERVED_SERVICE_SLUGS
                      then refusals @ [refusal_of Slug None SlugReserved] else refusals);
          refusals = (if \<not> canonical_image_repository (sd_image_repository d)
                      then refusals @ [refusal_of ImageRepository None
                             (if image_repository_names_one_image (sd_image_repository d)
                              then ImageRepositoryPinned else ImageRepositoryGrammar)]
                      else refusals);
          refusals = (if \<not> (MIN_CONTAINER_PORT \<le> sd_container_port d
                            \<and> sd_container_port d \<le> MAX_CONTAINER_PORT)
                      then refusals @ [refusal_of ContainerPort None ContainerPortRange]
                      else refusals);
          refusals = mount_refusals d refusals;
          refusals = environment_refusals d refusals
      in if refusals = [] \<and> \<not> is_ok (service_definition_encode to_string d)
         then refusals @ [refusal_of Document None DocumentTooLarge]
         else refusals)"

section \<open>The mounts\<close>

lemma opens_or_equals_prefix: "opens_or_equals outer inner \<longleftrightarrow> prefix outer inner"
proof (induction outer arbitrary: inner)
  case (Cons a outer)
  then show ?case by (cases inner) (auto simp: opens_or_equals_def)
qed (simp add: opens_or_equals_def)

abbreviation mounts_apart :: "string list \<Rightarrow> string list \<Rightarrow> bool" where
  "mounts_apart a b \<equiv> \<not> prefix a b \<and> \<not> prefix b a"

lemma no_overlap_iff: "no_overlap ms \<longleftrightarrow> sorted_wrt mounts_apart ms"
  by (induction ms) (auto simp: list_ex_iff opens_or_equals_prefix)

lemma declared_paths_Some:
  "declared_paths ps = Some ms \<longleftrightarrow> list_all2 (\<lambda>p m. canonical_container_path p = Some m) ps ms"
  by (induction ps arbitrary: ms)
    (auto simp: list_all2_Cons1 split: option.splits)

lemma accept_mounts_snd:
  "snd (accept_mounts decl acc r) = [] \<longleftrightarrow>
     r = [] \<and> declared_paths (map (\<lambda>(_, _, p). p) decl) \<noteq> None"
  by (induction decl acc r rule: accept_mounts.induct) (auto split: option.splits)

lemma accept_mounts_fst:
  "declared_paths (map (\<lambda>(_, _, p). p) decl) = Some ms \<Longrightarrow>
     map (\<lambda>(_, _, m). m) (fst (accept_mounts decl acc r)) = map (\<lambda>(_, _, m). m) acc @ ms"
  by (induction decl acc r arbitrary: ms rule: accept_mounts.induct)
    (auto split: option.splits)

lemma overlap_refusals_Nil:
  "overlap_refusals before later r = [] \<longleftrightarrow>
     r = []
     \<and> (\<forall>m \<in> set (map (\<lambda>(_, _, m). m) later).
          \<forall>b \<in> set (map (\<lambda>(_, _, m). m) before). mounts_apart b m)
     \<and> sorted_wrt mounts_apart (map (\<lambda>(_, _, m). m) later)"
  by (induction before later r rule: overlap_refusals.induct)
    (auto simp: list_ex_iff opens_or_equals_prefix)

lemma declared_names: "map (\<lambda>(_, _, p). p) (tag_mounts f ps) = ps"
proof -
  have "map (\<lambda>(_, _, p). p) (map (\<lambda>(i, p). (f, i, p)) (enumerate n ps)) = ps" for n
    by (induction ps arbitrary: n) auto
  then show ?thesis by (simp only: tag_mounts_def)
qed

lemma mount_refusals_Nil: "mount_refusals d r = [] \<longleftrightarrow> r = [] \<and> holds_the_mounts d"
proof -
  let ?decl = "tag_mounts Volumes (sd_volumes d) @ tag_mounts Tmpfs (sd_tmpfs d)"
  have names: "map (\<lambda>(_, _, p). p) ?decl = sd_volumes d @ sd_tmpfs d"
    by (simp only: map_append declared_names)
  have walk: "overlap_refusals [] (fst (accept_mounts ?decl [] q)) (snd (accept_mounts ?decl [] q)) = []
      \<longleftrightarrow> q = [] \<and> (\<exists>ms. declared_paths (sd_volumes d @ sd_tmpfs d) = Some ms \<and> no_overlap ms)"
    for q
  proof (cases "declared_paths (sd_volumes d @ sd_tmpfs d)")
    case None
    then have "snd (accept_mounts ?decl [] q) \<noteq> []"
      by (simp only: accept_mounts_snd names) simp
    with None show ?thesis by (auto simp: overlap_refusals_Nil)
  next
    case (Some ms)
    then have "map (\<lambda>(_, _, m). m) (fst (accept_mounts ?decl [] q)) = ms"
      by (subst accept_mounts_fst [where ms = ms]) (simp_all only: names list.map append_Nil)
    with Some show ?thesis
      by (simp only: overlap_refusals_Nil accept_mounts_snd names no_overlap_iff) auto
  qed
  show ?thesis
    by (auto simp: mount_refusals_def holds_the_mounts_def Let_def case_prod_unfold walk
        split: option.splits if_splits)
qed

section \<open>The environment\<close>

lemma environment_entry_snd:
  "snd (environment_entry i key v ks r) = [] \<longleftrightarrow>
     r = [] \<and> canonical_environment_key key \<and> canonical_environment_value v \<and> key \<notin> set ks"
  by (simp add: environment_entry_def)

lemma environment_entry_fst:
  "canonical_environment_key key \<Longrightarrow> key \<notin> set ks \<Longrightarrow>
     fst (environment_entry i key v ks r) = ks @ [key]"
  by (simp add: environment_entry_def)

lemma environment_line_refusals_snd:
  "snd (environment_line_refusals i ls ks r) = [] \<longleftrightarrow>
     r = [] \<and> declare_environment ks ls \<noteq> None"
proof (induction ls arbitrary: i ks r)
  case (Cons l ls)
  show ?case
  proof (cases "split_once CHR ''='' l")
    case None
    then show ?thesis by (simp add: Cons.IH)
  next
    case (Some kv)
    obtain key v where kv: "kv = (key, v)" by (cases kv)
    show ?thesis
      using environment_entry_snd [of i key v ks r] environment_entry_fst [of key ks i v r]
      by (auto simp: Some kv Cons.IH case_prod_unfold)
  qed
qed simp

lemma environment_line_refusals_fst:
  "declare_environment ks ls = Some ds \<Longrightarrow> fst (environment_line_refusals i ls ks r) = ds"
proof (induction ls arbitrary: i ks r)
  case (Cons l ls)
  then show ?case
    by (auto simp: case_prod_unfold environment_entry_fst split: option.splits if_splits)
qed simp

lemma secret_key_refusals_Nil:
  "secret_key_refusals i keys ks r = [] \<longleftrightarrow> r = [] \<and> declare_secrets ks keys \<noteq> None"
  by (induction keys arbitrary: i ks r) auto

lemma environment_refusals_Nil:
  "environment_refusals d r = [] \<longleftrightarrow> r = [] \<and> holds_the_environment d"
  by (auto simp: environment_refusals_def holds_the_environment_def Let_def case_prod_unfold
      secret_key_refusals_Nil environment_line_refusals_snd environment_line_refusals_fst
      split: option.splits if_splits)

text \<open>What the two loops accept, stated on the lines themselves.\<close>

definition environment_line_ok :: "string \<Rightarrow> bool" where
  "environment_line_ok line =
     (\<exists>key v. line = key @ CHR ''='' # v
        \<and> canonical_environment_key key \<and> canonical_environment_value v)"

definition line_key :: "string \<Rightarrow> string" where
  "line_key line = takeWhile (\<lambda>c. c \<noteq> CHR ''='') line"

lemma key_no_separator: "canonical_environment_key k \<Longrightarrow> CHR ''='' \<notin> set k"
  by (auto simp: canonical_environment_key_def list_all_iff ascii_simps split: if_splits)

lemma split_line:
  assumes "split_once CHR ''='' l = Some (k, v)"
  shows "line_key l = k"
    and "environment_line_ok l \<longleftrightarrow> canonical_environment_key k \<and> canonical_environment_value v"
proof -
  from assms have l: "l = k @ CHR ''='' # v" "CHR ''='' \<notin> set k"
    by (simp_all add: split_once_Some)
  then show "line_key l = k" by (simp add: line_key_def takeWhile_append)
  show "environment_line_ok l \<longleftrightarrow> canonical_environment_key k \<and> canonical_environment_value v"
  proof
    assume "environment_line_ok l"
    then obtain k' v' where kv: "l = k' @ CHR ''='' # v'"
      "canonical_environment_key k'" "canonical_environment_value v'"
      by (auto simp: environment_line_ok_def)
    then have "split_once CHR ''='' l = Some (k', v')"
      by (simp add: split_once_Some key_no_separator)
    with assms kv show "canonical_environment_key k \<and> canonical_environment_value v" by simp
  qed (use l in \<open>auto simp: environment_line_ok_def\<close>)
qed

lemma unsplit_line: "split_once CHR ''='' l = None \<Longrightarrow> \<not> environment_line_ok l"
  by (auto simp: split_once_None environment_line_ok_def)

lemma declare_environment_Some:
  "distinct ks \<Longrightarrow> declare_environment ks ls = Some ds \<longleftrightarrow>
     list_all environment_line_ok ls \<and> ds = ks @ map line_key ls \<and> distinct ds"
proof (induction ls arbitrary: ks)
  case (Cons l ls)
  show ?case
  proof (cases "split_once CHR ''='' l")
    case (Some kv)
    obtain k v where kv: "kv = (k, v)" by (cases kv)
    note line = split_line [OF Some [unfolded kv]]
    show ?thesis
    proof (cases "environment_line_ok l \<and> k \<notin> set ks")
      case True
      with Cons.prems have "distinct (ks @ [k])" by simp
      from Cons.IH [OF this] True show ?thesis by (simp add: Some kv line)
    next
      case False
      then show ?thesis by (auto simp: Some kv line)
    qed
  qed (simp add: unsplit_line)
qed auto

lemma declare_secrets_Some:
  "distinct ks \<Longrightarrow> declare_secrets ks keys \<noteq> None \<longleftrightarrow>
     (\<forall>k \<in> set keys. canonical_environment_key k) \<and> distinct (ks @ keys)"
  by (induction keys arbitrary: ks) auto

section \<open>The transcript\<close>

lemma append_list_Inr [simp]:
  "append_list b es = Inr t \<longleftrightarrow> fits_counted (map as_bytes es) \<and> t = b @ counted (map as_bytes es)"
  by (auto simp: append_list_def fits_counted_def counted_def)

lemma map_as_bytes_inject [simp]: "map as_bytes xs = map as_bytes ys \<longleftrightarrow> xs = ys"
  by (rule inj_map_eq_map) (simp add: inj_def)

lemma raw_transcript_Inr:
  "raw_transcript d = Inr t \<longleftrightarrow>
     fits_u32 (as_bytes (sd_slug d)) \<and> fits_u32 (as_bytes (sd_image_repository d))
     \<and> fits_counted (map as_bytes (sd_volumes d)) \<and> fits_counted (map as_bytes (sd_tmpfs d))
     \<and> fits_counted (map as_bytes (sd_environment d))
     \<and> fits_counted (map as_bytes (sd_secret_keys d))
     \<and> t = SERVICE_DEFINITION_TRANSCRIPT_DOMAIN @ u8_be (sd_schema_version d)
         @ field (as_bytes (sd_slug d)) @ field (as_bytes (sd_image_repository d))
         @ u32_be (sd_container_port d)
         @ counted (map as_bytes (sd_volumes d)) @ counted (map as_bytes (sd_tmpfs d))
         @ counted (map as_bytes (sd_environment d)) @ counted (map as_bytes (sd_secret_keys d))"
  by (auto simp: raw_transcript_def result_iff)

lemma raw_transcript_inject:
  "raw_transcript d = Inr t \<Longrightarrow> raw_transcript d' = Inr t \<Longrightarrow> d = d'"
  by (auto simp: raw_transcript_Inr wire_simps intro!: ServiceDefinitionDocument.equality)

lemma canonical_path_length: "canonical_container_path p = Some m \<Longrightarrow> length p \<le> 253"
  by (auto simp: canonical_container_path_def limits split: if_splits)

lemma environment_line_length: "environment_line_ok l \<Longrightarrow> length l \<le> 577"
  by (auto simp: environment_line_ok_def canonical_environment_key_def limits
      canonical_environment_value_def split: if_splits)

lemma canonical_key_length: "canonical_environment_key k \<Longrightarrow> length k \<le> 64"
  by (auto simp: canonical_environment_key_def limits split: if_splits)

lemma holds_the_environment_iff:
  "holds_the_environment d \<longleftrightarrow>
     length (sd_environment d) \<le> MAX_SERVICE_ENVIRONMENT_LINES
     \<and> length (sd_secret_keys d) \<le> MAX_SERVICE_SECRET_KEYS
     \<and> list_all environment_line_ok (sd_environment d)
     \<and> list_all canonical_environment_key (sd_secret_keys d)
     \<and> distinct (map line_key (sd_environment d) @ sd_secret_keys d)"
proof (cases "declare_environment [] (sd_environment d)")
  case None
  then have "\<not> (list_all environment_line_ok (sd_environment d)
      \<and> distinct (map line_key (sd_environment d)))"
    using declare_environment_Some [of "[]" "sd_environment d" "map line_key (sd_environment d)"]
    by auto
  with None show ?thesis by (auto simp: holds_the_environment_def)
next
  case (Some ds)
  then have lines: "list_all environment_line_ok (sd_environment d)"
    and ds: "ds = map line_key (sd_environment d)" and dist: "distinct ds"
    using declare_environment_Some [of "[]" "sd_environment d" ds] by auto
  have "declare_secrets ds (sd_secret_keys d) \<noteq> None \<longleftrightarrow>
      (\<forall>k \<in> set (sd_secret_keys d). canonical_environment_key k) \<and> distinct (ds @ sd_secret_keys d)"
    by (rule declare_secrets_Some [OF dist])
  with Some lines ds show ?thesis
    unfolding holds_the_environment_def list_all_iff
    by (simp only: option.case ds) (auto simp: not_less)
qed

lemma holds_the_mounts_iff:
  "holds_the_mounts d \<longleftrightarrow>
     length (sd_volumes d) \<le> MAX_SERVICE_VOLUMES \<and> length (sd_tmpfs d) \<le> MAX_SERVICE_TMPFS
     \<and> (\<exists>ms. list_all2 (\<lambda>p m. canonical_container_path p = Some m) (sd_volumes d @ sd_tmpfs d) ms
          \<and> sorted_wrt mounts_apart ms)"
  by (auto simp: holds_the_mounts_def declared_paths_Some [symmetric] no_overlap_iff
      split: option.splits)

lemma list_all2_set1: "list_all2 P xs ys \<Longrightarrow> x \<in> set xs \<Longrightarrow> \<exists>y. P x y"
  by (induction rule: list_all2_induct) auto

lemma fits_counted_strings:
  assumes "length es \<le> 1000" "\<And>e. e \<in> set es \<Longrightarrow> length e \<le> 65536"
  shows "fits_counted (map as_bytes es)"
  using assms by (auto simp: fits_counted_def intro: fits_u32_small)

lemma holds_the_mounts_fits:
  assumes "holds_the_mounts d"
  shows "fits_counted (map as_bytes (sd_volumes d))" "fits_counted (map as_bytes (sd_tmpfs d))"
proof -
  have len: "length (sd_volumes d) \<le> 1000" "length (sd_tmpfs d) \<le> 1000"
    using assms by (simp_all add: holds_the_mounts_iff limits)
  have paths: "length p \<le> 65536" if "p \<in> set (sd_volumes d @ sd_tmpfs d)" for p
  proof -
    obtain ms where "list_all2 (\<lambda>p m. canonical_container_path p = Some m)
        (sd_volumes d @ sd_tmpfs d) ms"
      using assms unfolding holds_the_mounts_iff by blast
    from list_all2_set1 [OF this that] obtain m where "canonical_container_path p = Some m" ..
    from canonical_path_length [OF this] show ?thesis by simp
  qed
  show "fits_counted (map as_bytes (sd_volumes d))"
    by (rule fits_counted_strings [OF len(1)]) (simp add: paths)
  show "fits_counted (map as_bytes (sd_tmpfs d))"
    by (rule fits_counted_strings [OF len(2)]) (simp add: paths)
qed

lemma holds_the_environment_fits:
  assumes "holds_the_environment d"
  shows "fits_counted (map as_bytes (sd_environment d))"
    "fits_counted (map as_bytes (sd_secret_keys d))"
proof -
  have len: "length (sd_environment d) \<le> 1000" "length (sd_secret_keys d) \<le> 1000"
    and lines: "\<And>l. l \<in> set (sd_environment d) \<Longrightarrow> environment_line_ok l"
    and keys: "\<And>k. k \<in> set (sd_secret_keys d) \<Longrightarrow> canonical_environment_key k"
    using assms by (simp_all add: holds_the_environment_iff limits list_all_iff)
  show "fits_counted (map as_bytes (sd_environment d))"
    by (rule fits_counted_strings [OF len(1)]) (use environment_line_length [OF lines] in force)
  show "fits_counted (map as_bytes (sd_secret_keys d))"
    by (rule fits_counted_strings [OF len(2)]) (use canonical_key_length [OF keys] in force)
qed

lemma canonical_image_repository_length:
  "canonical_image_repository r \<Longrightarrow> length r \<le> 255"
  by (auto simp: canonical_image_repository_def limits split: if_splits)

lemma canonical_service_slug_length:
  "canonical_service_slug s \<Longrightarrow> length s \<le> 16"
  by (auto simp: canonical_service_slug_def limits split: if_splits)

lemma holds_the_contract_transcript:
  assumes "holds_the_contract d"
  shows "\<exists>t. raw_transcript d = Inr t"
proof -
  have slug: "length (sd_slug d) \<le> 65536" and repo: "length (sd_image_repository d) \<le> 65536"
    using assms canonical_service_slug_length [of "sd_slug d"]
      canonical_image_repository_length [of "sd_image_repository d"]
    by (simp_all add: holds_the_contract_def canonical_definition_slug_def)
  from assms have "holds_the_mounts d" "holds_the_environment d"
    by (simp_all add: holds_the_contract_def)
  then show ?thesis
    using slug repo
    by (simp add: raw_transcript_Inr fits_u32_small holds_the_mounts_fits holds_the_environment_fits)
qed

lemma decode_service_definition_Inr:
  "decode_service_definition_document js document = Inr d \<longleftrightarrow>
     document \<noteq> [] \<and> length document \<le> MAX_SERVICE_DEFINITION_BYTES
     \<and> js document = Some d \<and> holds_the_contract d"
  by (auto simp: decode_service_definition_document_def service_definition_validate_def result_iff
      split: if_splits)

interpretation definition_gate: document_gate "decode_service_definition_document js"
    service_definition_transcript sha "verify_service_definition_document js sha" for js sha
proof
  fix document :: bytes and expected :: string
  show "verify_service_definition_document js sha document expected =
      and_then (ok_or (decode_digest expected) InvalidInput) (\<lambda>expected.
      and_then (decode_service_definition_document js document) (\<lambda>parsed.
      and_then (and_then (service_definition_transcript parsed) (\<lambda>t. Inr (sha t))) (\<lambda>digest.
      if digest \<noteq> expected then Inl InvalidInput else Inr parsed)))"
    by (simp add: verify_service_definition_document_def service_definition_digest_def)
next
  fix document d
  assume "decode_service_definition_document js document = Inr d"
  then show "\<exists>t. service_definition_transcript d = Inr t"
    by (simp add: decode_service_definition_Inr service_definition_transcript_def
        holds_the_contract_transcript)
next
  fix d d' :: ServiceDefinitionDocument and t
  assume "service_definition_transcript d = Inr t" "service_definition_transcript d' = Inr t"
  then show "d = d'"
    by (auto simp: service_definition_transcript_def raw_transcript_inject split: if_splits)
qed

section \<open>Grammars as specifications\<close>

definition path_segment :: "string \<Rightarrow> bool" where
  "path_segment w =
     (w \<noteq> [] \<and> w \<noteq> ''.'' \<and> w \<noteq> ''..''
      \<and> (\<forall>c \<in> set w. lower_alnum c \<or> c = CHR ''.'' \<or> c = CHR ''_'' \<or> c = CHR ''-''))"

lemma join_on_last_sep:
  "ws \<noteq> [] \<Longrightarrow> last ws \<noteq> [] \<Longrightarrow> c \<notin> set (last ws) \<Longrightarrow> \<not> suffix [c] (join_on c ws)"
proof (induction c ws rule: join_on.induct)
  case (2 c w)
  then show ?case by (auto simp: suffix_def)
next
  case (3 c w v ws)
  then have IH: "\<not> suffix [c] (join_on c (v # ws))" by simp
  have ne: "join_on c (v # ws) \<noteq> []"
  proof (cases ws)
    case Nil
    with 3 show ?thesis by simp
  qed simp
  show ?case
  proof
    assume "suffix [c] (join_on c (w # v # ws))"
    then obtain zs where "w @ c # join_on c (v # ws) = zs @ [c]"
      by (auto simp: suffix_def)
    from arg_cong [where f = last, OF this] ne have "last (join_on c (v # ws)) = c" by simp
    with ne have "suffix [c] (join_on c (v # ws))"
      by (metis append_butlast_last_id suffix_def)
    with IH show False ..
  qed
qed simp

lemma path_segment_no_slash: "path_segment w \<Longrightarrow> CHR ''/'' \<notin> set w"
  by (auto simp: path_segment_def ascii_simps)

lemma canonical_container_path_iff:
  "canonical_container_path p = Some ms \<longleftrightarrow>
     p = CHR ''/'' # join_on CHR ''/'' ms \<and> length p \<le> 253 \<and> ms \<noteq> [] \<and> (\<forall>w \<in> set ms. path_segment w)"
proof
  have segment: "list_ex (\<lambda>segment. segment = [] \<or> segment = ''.'' \<or> segment = ''..''
             \<or> \<not> list_all (\<lambda>c. is_ascii_lowercase c \<or> is_ascii_digit c
                     \<or> c = CHR ''.'' \<or> c = CHR ''_'' \<or> c = CHR ''-'') segment) ws
          \<longleftrightarrow> \<not> (\<forall>w \<in> set ws. path_segment w)" for ws
    by (auto simp: list_ex_iff list_all_iff path_segment_def lower_alnum_def)
  {
    assume "canonical_container_path p = Some ms"
    then show "p = CHR ''/'' # join_on CHR ''/'' ms \<and> length p \<le> 253 \<and> ms \<noteq> []
        \<and> (\<forall>w \<in> set ms. path_segment w)"
      by (auto simp: canonical_container_path_def segment limits strip_prefix_Some join_split_on
          Let_def split: if_splits Option.bind_splits)
  next
    assume p: "p = CHR ''/'' # join_on CHR ''/'' ms \<and> length p \<le> 253 \<and> ms \<noteq> []
        \<and> (\<forall>w \<in> set ms. path_segment w)"
    then have "\<not> suffix ''/'' (join_on CHR ''/'' ms)"
      by (intro join_on_last_sep) (auto simp: path_segment_no_slash, auto simp: path_segment_def)
    moreover have ne: "join_on CHR ''/'' ms \<noteq> []"
      using p by (cases ms rule: list.exhaust; cases "tl ms") (auto simp: path_segment_def)
    ultimately have "\<not> suffix ''/'' p"
      using p by (auto simp: suffix_Cons)
    moreover have "split_on CHR ''/'' (join_on CHR ''/'' ms) = ms"
      using p by (intro split_join_on) (auto simp: path_segment_no_slash)
    moreover have "strip_prefix ''/'' p = Some (join_on CHR ''/'' ms)"
      using p by (simp add: strip_prefix_Some)
    moreover have "length p \<le> MAX_CONTAINER_PATH_BYTES"
      unfolding MAX_CONTAINER_PATH_BYTES_def using p by blast
    moreover have "p \<noteq> ''/''" "prefix ''/'' p" using p ne by simp_all
    moreover have "\<forall>w \<in> set ms. path_segment w" using p by blast
    ultimately show "canonical_container_path p = Some ms"
      by (simp add: canonical_container_path_def segment Let_def)
  }
qed

inductive value_tokens :: "string \<Rightarrow> bool" where
  value_end: "value_tokens []"
| value_placeholder: "value_tokens s \<Longrightarrow> value_tokens (ORIGIN_HOST_PLACEHOLDER @ s)"
| value_char: "32 \<le> code c \<Longrightarrow> code c \<le> 126 \<Longrightarrow> c \<noteq> CHR 0x7B \<Longrightarrow> c \<noteq> CHR 0x7D \<Longrightarrow>
    value_tokens s \<Longrightarrow> value_tokens (c # s)"

lemma environment_value_walk_sound: "environment_value_walk s \<Longrightarrow> value_tokens s"
proof (induction s rule: environment_value_walk.induct)
  case (2 c s)
  show ?case
  proof (cases "c = CHR 0x7B")
    case True
    with 2 have "prefix ORIGIN_HOST_PLACEHOLDER (c # s)"
      and "value_tokens (drop (length ORIGIN_HOST_PLACEHOLDER) (c # s))"
      by (auto split: if_splits)
    then show ?thesis
      by (metis append_eq_conv_conj prefix_def value_placeholder)
  next
    case False
    with 2 show ?thesis by (auto split: if_splits intro: value_char)
  qed
qed (simp add: value_end)

lemma walk_opens_on_brace:
  assumes "prefix ORIGIN_HOST_PLACEHOLDER (CHR 0x7B # s)"
    and "environment_value_walk (drop (length ORIGIN_HOST_PLACEHOLDER) (CHR 0x7B # s))"
  shows "environment_value_walk (CHR 0x7B # s)"
  by (subst environment_value_walk.simps(2)) (simp only: assms, simp add: code_def)

lemma environment_value_walk_complete: "value_tokens s \<Longrightarrow> environment_value_walk s"
proof (induction rule: value_tokens.induct)
  case (value_placeholder s)
  have "ORIGIN_HOST_PLACEHOLDER @ s = CHR 0x7B # tl ORIGIN_HOST_PLACEHOLDER @ s"
    by (simp add: ORIGIN_HOST_PLACEHOLDER_def)
  moreover have "prefix ORIGIN_HOST_PLACEHOLDER (ORIGIN_HOST_PLACEHOLDER @ s)" by simp
  moreover have "drop (length ORIGIN_HOST_PLACEHOLDER) (ORIGIN_HOST_PLACEHOLDER @ s) = s" by simp
  ultimately show ?case
    using value_placeholder.IH walk_opens_on_brace by metis
qed simp_all

lemma value_walk_iff: "environment_value_walk s \<longleftrightarrow> value_tokens s"
  using environment_value_walk_sound environment_value_walk_complete by blast

lemma canonical_environment_value_iff:
  "canonical_environment_value v \<longleftrightarrow> length v \<le> 512 \<and> value_tokens v"
  by (simp add: canonical_environment_value_def value_walk_iff limits)

text \<open>A path is a prefix of another by whole segments exactly when its text is, once both are closed.\<close>

lemma join_closed: "ms \<noteq> [] \<Longrightarrow> join_on c ms @ [c] = concat (map (\<lambda>w. w @ [c]) ms)"
  by (induction c ms rule: join_on.induct) auto

lemma segment_cancel:
  "c \<notin> set v \<Longrightarrow> c \<notin> set w \<Longrightarrow> v @ c # r = w @ c # s \<longleftrightarrow> v = w \<and> r = s"
proof (induction v arbitrary: w)
  case Nil
  then show ?case by (cases w) auto
next
  case (Cons a v)
  then show ?case by (cases w) auto
qed

lemma closed_prefix:
  "\<forall>v \<in> set ms. c \<notin> set v \<Longrightarrow> \<forall>v \<in> set ns. c \<notin> set v \<Longrightarrow>
     prefix (concat (map (\<lambda>w. w @ [c]) ms)) (concat (map (\<lambda>w. w @ [c]) ns)) \<longleftrightarrow> prefix ms ns"
proof (induction ms arbitrary: ns)
  case (Cons v ms)
  show ?case
  proof (cases ns)
    case Nil
    then show ?thesis by simp
  next
    case ns: (Cons w ns')
    with Cons.prems have vw: "c \<notin> set v" "c \<notin> set w" by simp_all
    have "prefix (v @ [c] @ x) (w @ [c] @ y) \<longleftrightarrow> v = w \<and> prefix x y" for x y
      using segment_cancel [OF vw] segment_cancel [OF vw(2) vw(1)] by (auto simp: prefix_def)
    with Cons ns show ?thesis by auto
  qed
qed simp

definition path_within :: "string \<Rightarrow> string \<Rightarrow> bool" where
  "path_within p q = prefix (p @ ''/'') (q @ ''/'')"

lemma paths_apart:
  assumes "canonical_container_path p = Some ms" "canonical_container_path q = Some ns"
  shows "path_within p q \<longleftrightarrow> prefix ms ns"
proof -
  have p: "p @ ''/'' = CHR ''/'' # concat (map (\<lambda>w. w @ ''/'') ms)" "ms \<noteq> []"
    and q: "q @ ''/'' = CHR ''/'' # concat (map (\<lambda>w. w @ ''/'') ns)"
    and seg: "\<forall>v \<in> set ms. CHR ''/'' \<notin> set v" "\<forall>v \<in> set ns. CHR ''/'' \<notin> set v"
    using assms by (auto simp: canonical_container_path_iff join_closed path_segment_no_slash)
  show ?thesis unfolding path_within_def p q using closed_prefix [OF seg] by simp
qed

lemma holds_the_mounts_paths:
  "holds_the_mounts d \<longleftrightarrow>
     length (sd_volumes d) \<le> 8 \<and> length (sd_tmpfs d) \<le> 8
     \<and> (\<forall>p \<in> set (sd_volumes d @ sd_tmpfs d). canonical_container_path p \<noteq> None)
     \<and> sorted_wrt (\<lambda>p q. \<not> path_within p q \<and> \<not> path_within q p)
         (sd_volumes d @ sd_tmpfs d)"
proof -
  have walk: "(\<exists>ms. list_all2 (\<lambda>p m. canonical_container_path p = Some m) ps ms
          \<and> sorted_wrt mounts_apart ms)
      \<longleftrightarrow> (\<forall>p \<in> set ps. canonical_container_path p \<noteq> None)
        \<and> sorted_wrt (\<lambda>p q. \<not> path_within p q \<and> \<not> path_within q p) ps"
    for ps
  proof (induction ps)
    case (Cons p ps)
    have apart: "(\<forall>m' \<in> set ms. mounts_apart m m') \<longleftrightarrow>
        (\<forall>q \<in> set ps. \<not> path_within p q \<and> \<not> path_within q p)"
      if m: "canonical_container_path p = Some m"
        and "list_all2 (\<lambda>p m. canonical_container_path p = Some m) ps ms" for m ms
      using that(2) by (induction rule: list_all2_induct) (simp_all add: paths_apart [OF m] paths_apart [OF _ m])
    have all2: "(\<exists>ms. list_all2 (\<lambda>p m. canonical_container_path p = Some m) ps ms) \<longleftrightarrow>
        (\<forall>p \<in> set ps. canonical_container_path p \<noteq> None)"
      by (induction ps) (auto simp: list_all2_Cons1)
    have determined: "list_all2 (\<lambda>p m. canonical_container_path p = Some m) ps ms \<Longrightarrow>
        list_all2 (\<lambda>p m. canonical_container_path p = Some m) ps ns \<Longrightarrow> ms = ns" for ms ns
      by (simp flip: declared_paths_Some)
    show ?case
    proof (cases "canonical_container_path p")
      case None
      then show ?thesis by (simp add: list_all2_Cons1)
    next
      case (Some m)
      then show ?thesis using apart [OF Some] determined Cons.IH
        by (auto simp: list_all2_Cons1)
    qed
  qed simp
  show ?thesis unfolding holds_the_mounts_iff walk by (simp add: limits)
qed

section \<open>Repositories\<close>

lemma image_repository_accepts:
  assumes "canonical_image_repository r"
  shows "\<not> image_repository_names_one_image r"
    and "\<exists>registry path. split_once CHR ''/'' r = Some (registry, path)
      \<and> (CHR ''.'' \<in> set registry \<or> CHR '':'' \<in> set registry)
      \<and> canonical_registry_host registry \<and> canonical_repository_path path"
  using assms
  by (auto simp: canonical_image_repository_def image_repository_names_one_image_def Let_def
      split: if_splits option.splits)

lemma repository_path_chars:
  assumes "canonical_repository_path path" "c \<in> set path"
  shows "lower_alnum c \<or> c \<in> {CHR ''/'', CHR ''.'', CHR ''_'', CHR ''-''}"
proof -
  have "set (join_on s ws) \<subseteq> insert s (\<Union> (set ` set ws))" for s ws
    by (induction s ws rule: join_on.induct) auto
  from this [of "CHR ''/''" "split_on CHR ''/'' path"] assms(2)
  have "c = CHR ''/'' \<or> (\<exists>w \<in> set (split_on CHR ''/'' path). c \<in> set w)"
    by (auto simp: join_split_on)
  with assms(1) show ?thesis
    by (auto simp: canonical_repository_path_def list_all_iff split: if_splits)
qed

lemma registry_host_chars:
  assumes "canonical_registry_host registry" "c \<in> set registry"
  shows "lower_alnum c \<or> c \<in> {CHR ''.'', CHR ''-'', CHR '':''}"
proof (cases "rsplit_once CHR '':'' registry")
  case None
  with assms have "list_all (\<lambda>c. lower_alnum c \<or> c = CHR ''.'' \<or> c = CHR ''-'') registry"
    by (simp add: canonical_registry_host_def split: if_splits)
  with assms(2) show ?thesis by (auto simp: list_all_iff)
next
  case (Some hp)
  obtain host port where hp: "hp = (host, port)" by (cases hp)
  with assms(1) Some have "list_all (\<lambda>c. lower_alnum c \<or> c = CHR ''.'' \<or> c = CHR ''-'') host"
    and "list_all is_ascii_digit port"
    by (simp_all add: canonical_registry_host_def split: if_splits)
  moreover have "registry = host @ CHR '':'' # port"
    using Some hp by (simp add: rsplit_once_Some)
  ultimately show ?thesis using assms(2) by (auto simp: list_all_iff lower_alnum_def)
qed

section \<open>Concrete definitions\<close>

definition sample_definition :: ServiceDefinitionDocument where
  "sample_definition =
     \<lparr>sd_schema_version = 1, sd_slug = ''wiki'',
      sd_image_repository = ''ghcr.io/acme/wiki'', sd_container_port = 8080,
      sd_volumes = [''/data''], sd_tmpfs = [''/tmp''],
      sd_environment = [''PORT=8080''], sd_secret_keys = [''TOKEN'']\<rparr>"

lemma sample_definition_contract: "holds_the_contract sample_definition"
proof -
  have "canonical_definition_slug ''wiki''"
    by (simp add: canonical_definition_slug_def canonical_service_slug_def
        RESERVED_SERVICE_SLUGS_def limits ascii_simps)
  moreover have "canonical_image_repository ''ghcr.io/acme/wiki''"
    by (simp add: canonical_image_repository_def canonical_registry_host_def
        canonical_repository_path_def rsplit_once_def limits ascii_simps)
  moreover have "canonical_container_path ''/data'' = Some [''data'']"
    "canonical_container_path ''/tmp'' = Some [''tmp'']"
    by (simp_all add: canonical_container_path_def strip_prefix_def limits ascii_simps suffix_def)
  then have "declared_paths [''/data'', ''/tmp''] = Some [[''data''], [''tmp'']]"
    by simp
  then have "holds_the_mounts sample_definition"
    by (simp add: holds_the_mounts_def sample_definition_def limits no_overlap_iff)
  moreover have "environment_value_walk ''8080''"
    by (simp add: ascii_simps)
  then have "holds_the_environment sample_definition"
    by (simp add: holds_the_environment_def sample_definition_def limits ascii_simps
        canonical_environment_key_def canonical_environment_value_def)
  ultimately show ?thesis
    by (simp add: holds_the_contract_def sample_definition_def limits)
qed

text \<open>Sixteen lines of the longest value the grammar admits: inside every bound but the document's.\<close>

definition heavy_definition :: ServiceDefinitionDocument where
  "heavy_definition =
     sample_definition\<lparr>sd_environment :=
       map (\<lambda>k. k # ''='' @ replicate 512 CHR ''x'')
         ''ABCDEFGHIJKLMNOP'', sd_secret_keys := []\<rparr>"

lemma heavy_walk: "environment_value_walk (replicate n CHR ''x'')"
  by (induction n) (simp_all add: code_def)

lemma heavy_lines:
  "canonical_environment_key [k] \<Longrightarrow> environment_line_ok (k # ''='' @ replicate 512 CHR ''x'')"
  unfolding environment_line_ok_def canonical_environment_value_iff
  using heavy_walk [of 512]
  by (intro exI [of _ "[k]"] exI [of _ "replicate 512 CHR ''x''"])
    (simp add: value_walk_iff)

lemma heavy_keys: "k \<in> set ''ABCDEFGHIJKLMNOP'' \<Longrightarrow> canonical_environment_key [k]"
  by (auto simp: canonical_environment_key_def limits ascii_simps)

lemma contract_other_environment:
  "holds_the_contract d \<Longrightarrow>
     holds_the_environment (d\<lparr>sd_environment := es, sd_secret_keys := ks\<rparr>) \<Longrightarrow>
     holds_the_contract (d\<lparr>sd_environment := es, sd_secret_keys := ks\<rparr>)"
  unfolding holds_the_contract_def holds_the_mounts_def by (auto split: if_splits)

lemma heavy_definition_contract: "holds_the_contract heavy_definition"
proof -
  have key: "line_key (k # ''='' @ s) = [k]" if "k \<in> set ''ABCDEFGHIJKLMNOP''" for k s
    using that by (auto simp: line_key_def)
  have keys: "map line_key (sd_environment heavy_definition) = map (\<lambda>k. [k]) ''ABCDEFGHIJKLMNOP''"
    unfolding heavy_definition_def by (simp add: line_key_def)
  have "list_all environment_line_ok (sd_environment heavy_definition)"
    unfolding heavy_definition_def list_all_iff
    using heavy_lines [OF heavy_keys] by auto
  then have "holds_the_environment heavy_definition"
    unfolding holds_the_environment_iff keys by (simp add: heavy_definition_def limits)
  then show ?thesis
    unfolding heavy_definition_def
    by (rule contract_other_environment [OF sample_definition_contract])
qed

lemma heavy_definition_bytes:
  "sum_list (map length (sd_environment heavy_definition)) = 8224"
  by (simp add: heavy_definition_def)

section \<open>Properties\<close>


text \<open>A definition can hold the whole contract and still be refused. Some document
validates while every serialiser that writes its environment lines in full gets
it the one refusal of a document above 8192 bytes, so an empty list of refusals is
strictly stronger than validation.\<close>

theorem validated_definition_is_refused:
  assumes "\<And>d s. to_string d = Some s \<Longrightarrow> sum_list (map length (sd_environment d)) \<le> length s"
  shows "\<exists>d. service_definition_validate d = Inr d
    \<and> service_definition_refusals to_string d = [refusal_of Document None DocumentTooLarge]"
proof -
  have "\<not> is_ok (service_definition_encode to_string heavy_definition)"
    using assms [of heavy_definition] heavy_definition_bytes
    by (auto simp: service_definition_encode_def limits ok_or_def split: option.splits)
  then show ?thesis
    using heavy_definition_contract
    by (intro exI [of _ heavy_definition])
      (auto simp: service_definition_refusals_def service_definition_validate_def Let_def
        environment_refusals_Nil mount_refusals_Nil holds_the_contract_def
        canonical_definition_slug_def)
qed

theorem validated_definition_is_refused_witness:
  "\<exists>d. service_definition_validate d = Inr d
    \<and> service_definition_refusals (\<lambda>d. Some (concat (sd_environment d))) d
      = [refusal_of Document None DocumentTooLarge]"
  by (rule validated_definition_is_refused) (simp add: length_concat)

text \<open>The mounts of an accepted definition are independent. They are accepted
exactly when both lists are inside their bounds, every path reads as an absolute
path of ordinary lower-case segments, and no declared mount, of either list, is
another one or lies under it.\<close>

theorem holds_the_mounts_independent:
  "holds_the_mounts d \<longleftrightarrow>
     length (sd_volumes d) \<le> 8 \<and> length (sd_tmpfs d) \<le> 8
     \<and> list_all (\<lambda>p. length p \<le> 253 \<and> (\<exists>segments. segments \<noteq> [] \<and> list_all path_segment segments
            \<and> p = CHR ''/'' # join_on CHR ''/'' segments)) (sd_volumes d @ sd_tmpfs d)
     \<and> sorted_wrt (\<lambda>p q. \<not> path_within p q \<and> \<not> path_within q p) (sd_volumes d @ sd_tmpfs d)"
proof -
  have "canonical_container_path p \<noteq> None \<longleftrightarrow>
      length p \<le> 253 \<and> (\<exists>segments. segments \<noteq> [] \<and> list_all path_segment segments
            \<and> p = CHR ''/'' # join_on CHR ''/'' segments)" for p
    by (simp only: not_None_eq canonical_container_path_iff list_all_iff) blast
  then show ?thesis by (simp only: holds_the_mounts_paths list_all_iff)
qed

text \<open>The environment of a definition is one namespace. It is accepted exactly when
every line is a key, an equals sign and a value made of printable characters and
whole origin-host placeholders (a brace appears nowhere else), every key and secret
key is in the one key grammar, and no name is declared twice across the two lists.\<close>

theorem holds_the_environment_namespace:
  "holds_the_environment d \<longleftrightarrow>
     length (sd_environment d) \<le> 32 \<and> length (sd_secret_keys d) \<le> 16
     \<and> list_all (\<lambda>line. \<exists>key v. line = key @ CHR ''='' # v \<and> canonical_environment_key key
           \<and> length v \<le> 512 \<and> value_tokens v) (sd_environment d)
     \<and> list_all canonical_environment_key (sd_secret_keys d)
     \<and> distinct (map line_key (sd_environment d) @ sd_secret_keys d)"
proof -
  have "environment_line_ok = (\<lambda>line. \<exists>key v. line = key @ CHR ''='' # v
      \<and> canonical_environment_key key \<and> length v \<le> 512 \<and> value_tokens v)"
    by (rule ext) (simp only: environment_line_ok_def canonical_environment_value_iff)
  then show ?thesis by (simp add: holds_the_environment_iff limits)
qed

text \<open>A repository says where images come from and never which image. One that the
contract accepts carries no digest and no tag, opens on a registry host written
with a dot or a port, and is made of nothing but lower-case letters, digits and
the separators of a reference.\<close>

theorem image_repository_is_a_place:
  assumes "canonical_image_repository r"
  shows "\<not> image_repository_names_one_image r
    \<and> list_all (\<lambda>c. lower_alnum c \<or> c \<in> set ''/._-:'') r
    \<and> (\<exists>registry path. r = registry @ CHR ''/'' # path \<and> CHR ''/'' \<notin> set registry
        \<and> (CHR ''.'' \<in> set registry \<or> CHR '':'' \<in> set registry) \<and> path \<noteq> [])"
proof -
  obtain registry path where split: "split_once CHR ''/'' r = Some (registry, path)"
    and dot: "CHR ''.'' \<in> set registry \<or> CHR '':'' \<in> set registry"
    and ok: "canonical_registry_host registry" "canonical_repository_path path"
    using image_repository_accepts [OF assms] by blast
  from split have r: "r = registry @ CHR ''/'' # path" "CHR ''/'' \<notin> set registry"
    by (simp_all add: split_once_Some)
  have "lower_alnum c \<or> c \<in> set ''/._-:''" if "c \<in> set registry" for c
    using registry_host_chars [OF ok(1) that] by auto
  moreover have "lower_alnum c \<or> c \<in> set ''/._-:''" if "c \<in> set path" for c
    using repository_path_chars [OF ok(2) that] by auto
  moreover have "path \<noteq> []" using ok(2) by (auto simp: canonical_repository_path_def)
  ultimately show ?thesis
    using image_repository_accepts(1) [OF assms] r dot by (auto simp: list_all_iff)
qed

theorem image_repository_is_a_place_witness:
  "\<not> image_repository_names_one_image ''ghcr.io/acme/wiki''"
  using image_repository_is_a_place [of "''ghcr.io/acme/wiki''"] sample_definition_contract
  by (simp add: holds_the_contract_def sample_definition_def)

text \<open>A digest names one definition. Two documents that both verify under the same
digest are the same definition, unless the hash function collides on their two
transcripts; and a document that decodes verifies under its own digest.\<close>

theorem verify_service_definition_names_one:
  assumes "verify_service_definition_document js sha document hex = Inr d"
    and "verify_service_definition_document js sha document' hex = Inr d'"
  shows "holds_the_contract d
    \<and> (d = d' \<or> (\<exists>t t'. service_definition_transcript d = Inr t
          \<and> service_definition_transcript d' = Inr t' \<and> t \<noteq> t' \<and> sha t = sha t'))"
  using definition_gate.verify_names_one [OF assms] assms(1)
  by (simp add: definition_gate.verify_iff decode_service_definition_Inr)

theorem verify_service_definition_names_one_witness:
  "\<exists>hex. verify_service_definition_document (\<lambda>_. Some sample_definition) sample_sha [123] hex
       = Inr sample_definition \<and> holds_the_contract sample_definition"
proof -
  have "decode_service_definition_document (\<lambda>_. Some sample_definition) [123]
      = Inr sample_definition"
    by (simp add: decode_service_definition_Inr sample_definition_contract limits)
  from definition_gate.verify_some_digest [OF this length_sample_sha] obtain hex where
    v: "verify_service_definition_document (\<lambda>_. Some sample_definition) sample_sha [123] hex
      = Inr sample_definition" ..
  with verify_service_definition_names_one [OF v v] show ?thesis by blast
qed

end
