(* ===== verification/Plan_V2.thy ===== *)
theory Plan_V2
  imports Plan_V1 Service_Definition
begin

text \<open>
  Plan schema 2 (\<open>bootstrap-protocol/src/plan_v2.rs\<close>): fifteen operations in eight
  closed field lists, told apart by the operation alone. A document of each shape
  is a record that extends the four fields every document opens with; the sum of
  the eight is \<open>PlanDocumentV2\<close>. The \<open>serde_json\<close> decoders are the fields of one
  parameter record, the SHA-256 function is a parameter.
\<close>

section \<open>Bounds and pins\<close>

definition PLAN_V2_SCHEMA_VERSION :: u8 where
  [limits]: "PLAN_V2_SCHEMA_VERSION = 2"

definition PLAN_V2_TRANSCRIPT_DOMAIN :: bytes where
  "PLAN_V2_TRANSCRIPT_DOMAIN = as_bytes ''your-cloud/oci-plan.v2'' @ [0]"

definition SERVICE_PROFILE_BENTOPDF :: string where
  "SERVICE_PROFILE_BENTOPDF = ''bentopdf''"

definition SERVICE_PROFILE_VAULTWARDEN :: string where
  "SERVICE_PROFILE_VAULTWARDEN = ''vaultwarden''"

definition BENTOPDF_IMAGE_REFERENCE :: string where
  "BENTOPDF_IMAGE_REFERENCE = ''ghcr.io/alam00000/bentopdf''"

definition BENTOPDF_IMAGE_DIGEST :: string where
  "BENTOPDF_IMAGE_DIGEST =
     ''sha256:a4ed090f29823da5e296e2c2f8603664da71676156ea47c3f186cc73eec38db0''"

definition ENTRYPOINT_IMAGE_REFERENCE :: string where
  "ENTRYPOINT_IMAGE_REFERENCE = ''docker.io/library/traefik''"

definition ENTRYPOINT_IMAGE_DIGEST :: string where
  "ENTRYPOINT_IMAGE_DIGEST =
     ''sha256:9c3b91d5fb7770853ca5c1124a23c34bf2d9b47ffaebeab2614cbaf410dcb2ac''"

definition VAULTWARDEN_IMAGE_REFERENCE :: string where
  "VAULTWARDEN_IMAGE_REFERENCE = ''docker.io/vaultwarden/server''"

definition VAULTWARDEN_IMAGE_DIGEST :: string where
  "VAULTWARDEN_IMAGE_DIGEST =
     ''sha256:ebdfe70701c60ac0c28c697e787cea767d7972940b786037b29fe0d507f821e8''"

definition MIN_ROUTE_HOST_BYTES :: nat where
  [limits]: "MIN_ROUTE_HOST_BYTES = 3"

definition MAX_ROUTE_HOST_BYTES :: nat where
  [limits]: "MAX_ROUTE_HOST_BYTES = 253"

definition MIN_PLAN_BACKEND_PORT :: u32 where
  [limits]: "MIN_PLAN_BACKEND_PORT = MIN_PLAN_LOCAL_PORT"

definition MAX_PLAN_BACKEND_PORT :: u32 where
  [limits]: "MAX_PLAN_BACKEND_PORT = MAX_PLAN_LOCAL_PORT"

definition MIN_SNAPSHOT_SLOT_BYTES :: nat where
  [limits]: "MIN_SNAPSHOT_SLOT_BYTES = 1"

definition MAX_SNAPSHOT_SLOT_BYTES :: nat where
  [limits]: "MAX_SNAPSHOT_SLOT_BYTES = 32"

definition RESERVED_SNAPSHOT_SLOT :: string where
  "RESERVED_SNAPSHOT_SLOT = ''previous''"

section \<open>Operations and groups\<close>

datatype PlanV2Group =
    GroupWebService | GroupEntrypoint | GroupRoute | GroupPrivateService
  | GroupLinkRoute | GroupSnapshot | GroupRestore | GroupUserService

datatype PlanV2Operation =
    V2DeployWebService | V2RemoveWebService
  | V2DeployEntrypoint | V2RemoveEntrypoint
  | V2PublishRoute | V2RetireRoute
  | V2DeployPrivateService | V2RemovePrivateService
  | V2PublishLinkRoute | V2RetireLinkRoute
  | V2SnapshotService | V2DiscardSnapshot
  | V2RestoreService
  | V2DeployUserService | V2RemoveUserService

fun plan_v2_operation_str :: "PlanV2Operation \<Rightarrow> string" where
  "plan_v2_operation_str V2DeployWebService = ''deploy_web_service''"
| "plan_v2_operation_str V2RemoveWebService = ''remove_web_service''"
| "plan_v2_operation_str V2DeployEntrypoint = ''deploy_entrypoint''"
| "plan_v2_operation_str V2RemoveEntrypoint = ''remove_entrypoint''"
| "plan_v2_operation_str V2PublishRoute = ''publish_route''"
| "plan_v2_operation_str V2RetireRoute = ''retire_route''"
| "plan_v2_operation_str V2DeployPrivateService = ''deploy_private_service''"
| "plan_v2_operation_str V2RemovePrivateService = ''remove_private_service''"
| "plan_v2_operation_str V2PublishLinkRoute = ''publish_link_route''"
| "plan_v2_operation_str V2RetireLinkRoute = ''retire_link_route''"
| "plan_v2_operation_str V2SnapshotService = ''snapshot_service''"
| "plan_v2_operation_str V2DiscardSnapshot = ''discard_snapshot''"
| "plan_v2_operation_str V2RestoreService = ''restore_service''"
| "plan_v2_operation_str V2DeployUserService = ''deploy_user_service''"
| "plan_v2_operation_str V2RemoveUserService = ''remove_user_service''"

fun plan_v2_operation_inverse :: "PlanV2Operation \<Rightarrow> PlanV2Operation" where
  "plan_v2_operation_inverse V2DeployWebService = V2RemoveWebService"
| "plan_v2_operation_inverse V2RemoveWebService = V2DeployWebService"
| "plan_v2_operation_inverse V2DeployEntrypoint = V2RemoveEntrypoint"
| "plan_v2_operation_inverse V2RemoveEntrypoint = V2DeployEntrypoint"
| "plan_v2_operation_inverse V2PublishRoute = V2RetireRoute"
| "plan_v2_operation_inverse V2RetireRoute = V2PublishRoute"
| "plan_v2_operation_inverse V2DeployPrivateService = V2RemovePrivateService"
| "plan_v2_operation_inverse V2RemovePrivateService = V2DeployPrivateService"
| "plan_v2_operation_inverse V2PublishLinkRoute = V2RetireLinkRoute"
| "plan_v2_operation_inverse V2RetireLinkRoute = V2PublishLinkRoute"
| "plan_v2_operation_inverse V2SnapshotService = V2DiscardSnapshot"
| "plan_v2_operation_inverse V2DiscardSnapshot = V2SnapshotService"
| "plan_v2_operation_inverse V2RestoreService = V2RestoreService"
| "plan_v2_operation_inverse V2DeployUserService = V2RemoveUserService"
| "plan_v2_operation_inverse V2RemoveUserService = V2DeployUserService"

fun plan_v2_operation_group :: "PlanV2Operation \<Rightarrow> PlanV2Group" where
  "plan_v2_operation_group V2DeployWebService = GroupWebService"
| "plan_v2_operation_group V2RemoveWebService = GroupWebService"
| "plan_v2_operation_group V2DeployEntrypoint = GroupEntrypoint"
| "plan_v2_operation_group V2RemoveEntrypoint = GroupEntrypoint"
| "plan_v2_operation_group V2PublishRoute = GroupRoute"
| "plan_v2_operation_group V2RetireRoute = GroupRoute"
| "plan_v2_operation_group V2DeployPrivateService = GroupPrivateService"
| "plan_v2_operation_group V2RemovePrivateService = GroupPrivateService"
| "plan_v2_operation_group V2PublishLinkRoute = GroupLinkRoute"
| "plan_v2_operation_group V2RetireLinkRoute = GroupLinkRoute"
| "plan_v2_operation_group V2SnapshotService = GroupSnapshot"
| "plan_v2_operation_group V2DiscardSnapshot = GroupSnapshot"
| "plan_v2_operation_group V2RestoreService = GroupRestore"
| "plan_v2_operation_group V2DeployUserService = GroupUserService"
| "plan_v2_operation_group V2RemoveUserService = GroupUserService"

section \<open>Grammars shared by the shapes\<close>

record PinnedImage =
  pin_reference :: string
  pin_digest :: string

definition ENTRYPOINT_IMAGE :: PinnedImage where
  "ENTRYPOINT_IMAGE =
     \<lparr>pin_reference = ENTRYPOINT_IMAGE_REFERENCE, pin_digest = ENTRYPOINT_IMAGE_DIGEST\<rparr>"

definition profile_image :: "string \<Rightarrow> PinnedImage option" where
  "profile_image service_profile =
     (if service_profile = SERVICE_PROFILE_BENTOPDF
      then Some \<lparr>pin_reference = BENTOPDF_IMAGE_REFERENCE, pin_digest = BENTOPDF_IMAGE_DIGEST\<rparr>
      else None)"

definition private_profile_image :: "string \<Rightarrow> PinnedImage option" where
  "private_profile_image service_profile =
     (if service_profile = SERVICE_PROFILE_VAULTWARDEN
      then Some \<lparr>pin_reference = VAULTWARDEN_IMAGE_REFERENCE, pin_digest = VAULTWARDEN_IMAGE_DIGEST\<rparr>
      else None)"

definition archives_data :: "string \<Rightarrow> bool" where
  "archives_data service_profile =
     (private_profile_image service_profile \<noteq> None \<or> canonical_definition_slug service_profile)"

definition pinned_image_matches :: "string \<Rightarrow> string \<Rightarrow> PinnedImage \<Rightarrow> bool" where
  "pinned_image_matches reference digest pinned =
     (reference = pin_reference pinned
      \<and> decode_image_digest digest \<noteq> None
      \<and> digest = pin_digest pinned)"

definition canonical_route_host :: "string \<Rightarrow> bool" where
  "canonical_route_host host =
     (if length host < MIN_ROUTE_HOST_BYTES \<or> length host > MAX_ROUTE_HOST_BYTES
         \<or> \<not> is_ascii host
      then False
      else if \<not> lower_alnum (host ! 0) \<or> \<not> lower_alnum (host ! (length host - 1))
              \<or> contains_str host ''..''
      then False
      else list_all (\<lambda>c. lower_alnum c \<or> c = CHR ''-'' \<or> c = CHR ''.'') host)"

definition canonical_user_service_origin :: "string \<Rightarrow> bool" where
  "canonical_user_service_origin origin = (origin = [] \<or> canonical_route_host origin)"

definition canonical_snapshot_slot :: "string \<Rightarrow> bool" where
  "canonical_snapshot_slot slot =
     (if length slot < MIN_SNAPSHOT_SLOT_BYTES \<or> length slot > MAX_SNAPSHOT_SLOT_BYTES then False
      else if \<not> lower_alnum (slot ! 0) then False
      else list_all (\<lambda>c. lower_alnum c \<or> c = CHR ''-'') slot)"

section \<open>The head of every document\<close>

record PlanHeadV2 =
  v2_schema_version :: u8
  v2_infrastructure_id :: string
  v2_machine_id :: string
  v2_operation :: PlanV2Operation

definition valid_v2_head ::
  "u8 \<Rightarrow> string \<Rightarrow> string \<Rightarrow> PlanV2Operation \<Rightarrow> PlanV2Group \<Rightarrow> bool" where
  "valid_v2_head schema_version infrastructure_id machine_id operation grp =
     (schema_version = PLAN_V2_SCHEMA_VERSION
      \<and> canonical_uuid_v4 infrastructure_id
      \<and> canonical_machine_id machine_id
      \<and> plan_v2_operation_group operation = grp)"

definition v2_head ::
  "u8 \<Rightarrow> string \<Rightarrow> string \<Rightarrow> PlanV2Operation \<Rightarrow> bytes protocol_result" where
  "v2_head schema_version infrastructure_id machine_id operation =
     and_then (append_field (PLAN_V2_TRANSCRIPT_DOMAIN @ u8_be schema_version)
                 (as_bytes infrastructure_id)) (\<lambda>t.
     and_then (append_field t (as_bytes machine_id)) (\<lambda>t.
     append_field t (as_bytes (plan_v2_operation_str operation))))"

abbreviation head_valid :: "'a PlanHeadV2_scheme \<Rightarrow> PlanV2Group \<Rightarrow> bool" where
  "head_valid d \<equiv> valid_v2_head (v2_schema_version d) (v2_infrastructure_id d)
     (v2_machine_id d) (v2_operation d)"

abbreviation head_transcript :: "'a PlanHeadV2_scheme \<Rightarrow> bytes protocol_result" where
  "head_transcript d \<equiv> v2_head (v2_schema_version d) (v2_infrastructure_id d)
     (v2_machine_id d) (v2_operation d)"

section \<open>Web services\<close>

record WebServicePlanDocumentV2 = PlanHeadV2 +
  ws_service_profile :: string
  ws_image_reference :: string
  ws_image_digest :: string
  ws_local_port :: u32

definition web_service_validate :: "WebServicePlanDocumentV2 \<Rightarrow> WebServicePlanDocumentV2 protocol_result" where
  "web_service_validate d =
     (if \<not> head_valid d GroupWebService then Inl InvalidInput
      else (case profile_image (ws_service_profile d) of
          None \<Rightarrow> Inl InvalidInput
        | Some pinned \<Rightarrow>
            if \<not> pinned_image_matches (ws_image_reference d) (ws_image_digest d) pinned
               \<or> \<not> (MIN_PLAN_LOCAL_PORT \<le> ws_local_port d \<and> ws_local_port d \<le> MAX_PLAN_LOCAL_PORT)
            then Inl InvalidInput
            else Inr d))"

definition web_service_transcript :: "WebServicePlanDocumentV2 \<Rightarrow> bytes protocol_result" where
  "web_service_transcript d =
     and_then (ok_or (decode_image_digest (ws_image_digest d)) InvalidInput) (\<lambda>image.
     and_then (head_transcript d) (\<lambda>t.
     and_then (append_field t (as_bytes (ws_service_profile d))) (\<lambda>t.
     and_then (append_field t (as_bytes (ws_image_reference d))) (\<lambda>t.
     and_then (append_field t image) (\<lambda>t.
     Inr (t @ u32_be (ws_local_port d)))))))"

definition web_service_inverted :: "WebServicePlanDocumentV2 \<Rightarrow> WebServicePlanDocumentV2" where
  "web_service_inverted d = d\<lparr>v2_operation := plan_v2_operation_inverse (v2_operation d)\<rparr>"

definition web_service_is_undone_by :: "WebServicePlanDocumentV2 \<Rightarrow> WebServicePlanDocumentV2 \<Rightarrow> bool" where
  "web_service_is_undone_by d rollback = (web_service_inverted d = rollback)"

section \<open>The entrypoint\<close>

record EntrypointPlanDocumentV2 = PlanHeadV2 +
  ep_image_reference :: string
  ep_image_digest :: string

definition entrypoint_validate :: "EntrypointPlanDocumentV2 \<Rightarrow> EntrypointPlanDocumentV2 protocol_result" where
  "entrypoint_validate d =
     (if \<not> head_valid d GroupEntrypoint
         \<or> \<not> pinned_image_matches (ep_image_reference d) (ep_image_digest d) ENTRYPOINT_IMAGE
      then Inl InvalidInput
      else Inr d)"

definition entrypoint_transcript :: "EntrypointPlanDocumentV2 \<Rightarrow> bytes protocol_result" where
  "entrypoint_transcript d =
     and_then (ok_or (decode_image_digest (ep_image_digest d)) InvalidInput) (\<lambda>image.
     and_then (head_transcript d) (\<lambda>t.
     and_then (append_field t (as_bytes (ep_image_reference d))) (\<lambda>t.
     append_field t image)))"

definition entrypoint_inverted :: "EntrypointPlanDocumentV2 \<Rightarrow> EntrypointPlanDocumentV2" where
  "entrypoint_inverted d = d\<lparr>v2_operation := plan_v2_operation_inverse (v2_operation d)\<rparr>"

definition entrypoint_is_undone_by :: "EntrypointPlanDocumentV2 \<Rightarrow> EntrypointPlanDocumentV2 \<Rightarrow> bool" where
  "entrypoint_is_undone_by d rollback = (entrypoint_inverted d = rollback)"

section \<open>Routes\<close>

record RoutePlanDocumentV2 = PlanHeadV2 +
  rt_route_host :: string
  rt_backend_port :: u32

definition route_validate :: "RoutePlanDocumentV2 \<Rightarrow> RoutePlanDocumentV2 protocol_result" where
  "route_validate d =
     (if \<not> head_valid d GroupRoute
         \<or> \<not> canonical_route_host (rt_route_host d)
         \<or> \<not> (MIN_PLAN_BACKEND_PORT \<le> rt_backend_port d \<and> rt_backend_port d \<le> MAX_PLAN_BACKEND_PORT)
      then Inl InvalidInput
      else Inr d)"

definition route_transcript :: "RoutePlanDocumentV2 \<Rightarrow> bytes protocol_result" where
  "route_transcript d =
     and_then (head_transcript d) (\<lambda>t.
     and_then (append_field t (as_bytes (rt_route_host d))) (\<lambda>t.
     Inr (t @ u32_be (rt_backend_port d))))"

definition route_inverted :: "RoutePlanDocumentV2 \<Rightarrow> RoutePlanDocumentV2" where
  "route_inverted d = d\<lparr>v2_operation := plan_v2_operation_inverse (v2_operation d)\<rparr>"

definition route_is_undone_by :: "RoutePlanDocumentV2 \<Rightarrow> RoutePlanDocumentV2 \<Rightarrow> bool" where
  "route_is_undone_by d rollback = (route_inverted d = rollback)"

section \<open>Private services\<close>

record PrivateServicePlanDocumentV2 = PlanHeadV2 +
  ps_service_profile :: string
  ps_image_reference :: string
  ps_image_digest :: string
  ps_local_port :: u32
  ps_origin_host :: string

definition private_service_validate :: "PrivateServicePlanDocumentV2 \<Rightarrow> PrivateServicePlanDocumentV2 protocol_result" where
  "private_service_validate d =
     (if \<not> head_valid d GroupPrivateService then Inl InvalidInput
      else (case private_profile_image (ps_service_profile d) of
          None \<Rightarrow> Inl InvalidInput
        | Some pinned \<Rightarrow>
            if \<not> pinned_image_matches (ps_image_reference d) (ps_image_digest d) pinned
               \<or> \<not> (MIN_PLAN_LOCAL_PORT \<le> ps_local_port d \<and> ps_local_port d \<le> MAX_PLAN_LOCAL_PORT)
               \<or> \<not> canonical_route_host (ps_origin_host d)
            then Inl InvalidInput
            else Inr d))"

definition private_service_transcript :: "PrivateServicePlanDocumentV2 \<Rightarrow> bytes protocol_result" where
  "private_service_transcript d =
     and_then (ok_or (decode_image_digest (ps_image_digest d)) InvalidInput) (\<lambda>image.
     and_then (head_transcript d) (\<lambda>t.
     and_then (append_field t (as_bytes (ps_service_profile d))) (\<lambda>t.
     and_then (append_field t (as_bytes (ps_image_reference d))) (\<lambda>t.
     and_then (append_field t image) (\<lambda>t.
     append_field (t @ u32_be (ps_local_port d)) (as_bytes (ps_origin_host d)))))))"

definition private_service_inverted :: "PrivateServicePlanDocumentV2 \<Rightarrow> PrivateServicePlanDocumentV2" where
  "private_service_inverted d = d\<lparr>v2_operation := plan_v2_operation_inverse (v2_operation d)\<rparr>"

definition private_service_is_undone_by :: "PrivateServicePlanDocumentV2 \<Rightarrow> PrivateServicePlanDocumentV2 \<Rightarrow> bool" where
  "private_service_is_undone_by d rollback = (private_service_inverted d = rollback)"

section \<open>Link routes\<close>

record LinkRoutePlanDocumentV2 = PlanHeadV2 +
  lr_route_host :: string
  lr_backend_port :: u32

definition link_route_validate :: "LinkRoutePlanDocumentV2 \<Rightarrow> LinkRoutePlanDocumentV2 protocol_result" where
  "link_route_validate d =
     (if \<not> head_valid d GroupLinkRoute
         \<or> \<not> canonical_route_host (lr_route_host d)
         \<or> \<not> (MIN_PLAN_BACKEND_PORT \<le> lr_backend_port d \<and> lr_backend_port d \<le> MAX_PLAN_BACKEND_PORT)
      then Inl InvalidInput
      else Inr d)"

definition link_route_transcript :: "LinkRoutePlanDocumentV2 \<Rightarrow> bytes protocol_result" where
  "link_route_transcript d =
     and_then (head_transcript d) (\<lambda>t.
     and_then (append_field t (as_bytes (lr_route_host d))) (\<lambda>t.
     Inr (t @ u32_be (lr_backend_port d))))"

definition link_route_inverted :: "LinkRoutePlanDocumentV2 \<Rightarrow> LinkRoutePlanDocumentV2" where
  "link_route_inverted d = d\<lparr>v2_operation := plan_v2_operation_inverse (v2_operation d)\<rparr>"

definition link_route_is_undone_by :: "LinkRoutePlanDocumentV2 \<Rightarrow> LinkRoutePlanDocumentV2 \<Rightarrow> bool" where
  "link_route_is_undone_by d rollback = (link_route_inverted d = rollback)"

section \<open>Snapshots\<close>

record SnapshotPlanDocumentV2 = PlanHeadV2 +
  sn_service_profile :: string
  sn_snapshot_slot :: string

definition snapshot_validate :: "SnapshotPlanDocumentV2 \<Rightarrow> SnapshotPlanDocumentV2 protocol_result" where
  "snapshot_validate d =
     (if \<not> head_valid d GroupSnapshot
         \<or> \<not> archives_data (sn_service_profile d)
         \<or> \<not> canonical_snapshot_slot (sn_snapshot_slot d)
         \<or> sn_snapshot_slot d = RESERVED_SNAPSHOT_SLOT
      then Inl InvalidInput
      else Inr d)"

definition snapshot_transcript :: "SnapshotPlanDocumentV2 \<Rightarrow> bytes protocol_result" where
  "snapshot_transcript d =
     and_then (head_transcript d) (\<lambda>t.
     and_then (append_field t (as_bytes (sn_service_profile d))) (\<lambda>t.
     append_field t (as_bytes (sn_snapshot_slot d))))"

definition snapshot_inverted :: "SnapshotPlanDocumentV2 \<Rightarrow> SnapshotPlanDocumentV2" where
  "snapshot_inverted d = d\<lparr>v2_operation := plan_v2_operation_inverse (v2_operation d)\<rparr>"

definition snapshot_is_undone_by :: "SnapshotPlanDocumentV2 \<Rightarrow> SnapshotPlanDocumentV2 \<Rightarrow> bool" where
  "snapshot_is_undone_by d rollback = (snapshot_inverted d = rollback)"

section \<open>Restores\<close>

record RestorePlanDocumentV2 = PlanHeadV2 +
  rs_service_profile :: string
  rs_snapshot_slot :: string

definition restore_validate :: "RestorePlanDocumentV2 \<Rightarrow> RestorePlanDocumentV2 protocol_result" where
  "restore_validate d =
     (if \<not> head_valid d GroupRestore
         \<or> \<not> archives_data (rs_service_profile d)
         \<or> \<not> canonical_snapshot_slot (rs_snapshot_slot d)
      then Inl InvalidInput
      else Inr d)"

definition restore_transcript :: "RestorePlanDocumentV2 \<Rightarrow> bytes protocol_result" where
  "restore_transcript d =
     and_then (head_transcript d) (\<lambda>t.
     and_then (append_field t (as_bytes (rs_service_profile d))) (\<lambda>t.
     append_field t (as_bytes (rs_snapshot_slot d))))"

definition restore_inverted :: "RestorePlanDocumentV2 \<Rightarrow> RestorePlanDocumentV2" where
  "restore_inverted d = d\<lparr>rs_snapshot_slot := RESERVED_SNAPSHOT_SLOT\<rparr>"

definition restore_is_undone_by :: "RestorePlanDocumentV2 \<Rightarrow> RestorePlanDocumentV2 \<Rightarrow> bool" where
  "restore_is_undone_by d rollback = (restore_inverted d = rollback)"

section \<open>User services\<close>

record UserServicePlanDocumentV2 = PlanHeadV2 +
  us_definition_slug :: string
  us_definition_digest :: string
  us_image_reference :: string
  us_image_digest :: string
  us_local_port :: u32
  us_origin_host :: string

definition user_service_validate :: "UserServicePlanDocumentV2 \<Rightarrow> UserServicePlanDocumentV2 protocol_result" where
  "user_service_validate d =
     (if \<not> head_valid d GroupUserService
         \<or> \<not> canonical_definition_slug (us_definition_slug d)
         \<or> decode_digest (us_definition_digest d) = None
         \<or> \<not> canonical_image_repository (us_image_reference d)
         \<or> decode_image_digest (us_image_digest d) = None
         \<or> \<not> (MIN_PLAN_LOCAL_PORT \<le> us_local_port d \<and> us_local_port d \<le> MAX_PLAN_LOCAL_PORT)
         \<or> \<not> canonical_user_service_origin (us_origin_host d)
      then Inl InvalidInput
      else Inr d)"

definition user_service_transcript :: "UserServicePlanDocumentV2 \<Rightarrow> bytes protocol_result" where
  "user_service_transcript d =
     and_then (ok_or (decode_digest (us_definition_digest d)) InvalidInput) (\<lambda>definition.
     and_then (ok_or (decode_image_digest (us_image_digest d)) InvalidInput) (\<lambda>image.
     and_then (head_transcript d) (\<lambda>t.
     and_then (append_field t (as_bytes (us_definition_slug d))) (\<lambda>t.
     and_then (append_field t definition) (\<lambda>t.
     and_then (append_field t (as_bytes (us_image_reference d))) (\<lambda>t.
     and_then (append_field t image) (\<lambda>t.
     append_field (t @ u32_be (us_local_port d)) (as_bytes (us_origin_host d)))))))))"

definition user_service_inverted :: "UserServicePlanDocumentV2 \<Rightarrow> UserServicePlanDocumentV2" where
  "user_service_inverted d = d\<lparr>v2_operation := plan_v2_operation_inverse (v2_operation d)\<rparr>"

definition user_service_is_undone_by :: "UserServicePlanDocumentV2 \<Rightarrow> UserServicePlanDocumentV2 \<Rightarrow> bool" where
  "user_service_is_undone_by d rollback = (user_service_inverted d = rollback)"

section \<open>One plan, whatever its group\<close>

datatype PlanDocumentV2 =
    V2WebService WebServicePlanDocumentV2
  | V2Entrypoint EntrypointPlanDocumentV2
  | V2Route RoutePlanDocumentV2
  | V2PrivateService PrivateServicePlanDocumentV2
  | V2LinkRoute LinkRoutePlanDocumentV2
  | V2Snapshot SnapshotPlanDocumentV2
  | V2Restore RestorePlanDocumentV2
  | V2UserService UserServicePlanDocumentV2

fun plan_v2_validate :: "PlanDocumentV2 \<Rightarrow> PlanDocumentV2 protocol_result" where
  "plan_v2_validate (V2WebService d) = and_then (web_service_validate d) (\<lambda>d. Inr (V2WebService d))"
| "plan_v2_validate (V2Entrypoint d) = and_then (entrypoint_validate d) (\<lambda>d. Inr (V2Entrypoint d))"
| "plan_v2_validate (V2Route d) = and_then (route_validate d) (\<lambda>d. Inr (V2Route d))"
| "plan_v2_validate (V2PrivateService d) = and_then (private_service_validate d) (\<lambda>d. Inr (V2PrivateService d))"
| "plan_v2_validate (V2LinkRoute d) = and_then (link_route_validate d) (\<lambda>d. Inr (V2LinkRoute d))"
| "plan_v2_validate (V2Snapshot d) = and_then (snapshot_validate d) (\<lambda>d. Inr (V2Snapshot d))"
| "plan_v2_validate (V2Restore d) = and_then (restore_validate d) (\<lambda>d. Inr (V2Restore d))"
| "plan_v2_validate (V2UserService d) = and_then (user_service_validate d) (\<lambda>d. Inr (V2UserService d))"

fun plan_v2_transcript :: "PlanDocumentV2 \<Rightarrow> bytes protocol_result" where
  "plan_v2_transcript (V2WebService d) = web_service_transcript d"
| "plan_v2_transcript (V2Entrypoint d) = entrypoint_transcript d"
| "plan_v2_transcript (V2Route d) = route_transcript d"
| "plan_v2_transcript (V2PrivateService d) = private_service_transcript d"
| "plan_v2_transcript (V2LinkRoute d) = link_route_transcript d"
| "plan_v2_transcript (V2Snapshot d) = snapshot_transcript d"
| "plan_v2_transcript (V2Restore d) = restore_transcript d"
| "plan_v2_transcript (V2UserService d) = user_service_transcript d"

definition plan_v2_digest :: "sha256 \<Rightarrow> PlanDocumentV2 \<Rightarrow> bytes protocol_result" where
  "plan_v2_digest sha d = and_then (plan_v2_transcript d) (\<lambda>t. Inr (sha t))"

definition plan_v2_sha256 :: "sha256 \<Rightarrow> PlanDocumentV2 \<Rightarrow> string protocol_result" where
  "plan_v2_sha256 sha d = and_then (plan_v2_digest sha d) (\<lambda>b. Inr (encode_lower_hex b))"

fun plan_v2_operation :: "PlanDocumentV2 \<Rightarrow> PlanV2Operation" where
  "plan_v2_operation (V2WebService d) = v2_operation d"
| "plan_v2_operation (V2Entrypoint d) = v2_operation d"
| "plan_v2_operation (V2Route d) = v2_operation d"
| "plan_v2_operation (V2PrivateService d) = v2_operation d"
| "plan_v2_operation (V2LinkRoute d) = v2_operation d"
| "plan_v2_operation (V2Snapshot d) = v2_operation d"
| "plan_v2_operation (V2Restore d) = v2_operation d"
| "plan_v2_operation (V2UserService d) = v2_operation d"

definition plan_v2_group :: "PlanDocumentV2 \<Rightarrow> PlanV2Group" where
  "plan_v2_group d = plan_v2_operation_group (plan_v2_operation d)"

fun plan_v2_infrastructure_id :: "PlanDocumentV2 \<Rightarrow> string" where
  "plan_v2_infrastructure_id (V2WebService d) = v2_infrastructure_id d"
| "plan_v2_infrastructure_id (V2Entrypoint d) = v2_infrastructure_id d"
| "plan_v2_infrastructure_id (V2Route d) = v2_infrastructure_id d"
| "plan_v2_infrastructure_id (V2PrivateService d) = v2_infrastructure_id d"
| "plan_v2_infrastructure_id (V2LinkRoute d) = v2_infrastructure_id d"
| "plan_v2_infrastructure_id (V2Snapshot d) = v2_infrastructure_id d"
| "plan_v2_infrastructure_id (V2Restore d) = v2_infrastructure_id d"
| "plan_v2_infrastructure_id (V2UserService d) = v2_infrastructure_id d"

fun plan_v2_machine_id :: "PlanDocumentV2 \<Rightarrow> string" where
  "plan_v2_machine_id (V2WebService d) = v2_machine_id d"
| "plan_v2_machine_id (V2Entrypoint d) = v2_machine_id d"
| "plan_v2_machine_id (V2Route d) = v2_machine_id d"
| "plan_v2_machine_id (V2PrivateService d) = v2_machine_id d"
| "plan_v2_machine_id (V2LinkRoute d) = v2_machine_id d"
| "plan_v2_machine_id (V2Snapshot d) = v2_machine_id d"
| "plan_v2_machine_id (V2Restore d) = v2_machine_id d"
| "plan_v2_machine_id (V2UserService d) = v2_machine_id d"

definition plan_v2_is_undone_by :: "PlanDocumentV2 \<Rightarrow> PlanDocumentV2 \<Rightarrow> bool" where
  "plan_v2_is_undone_by d rollback =
     (case d of
        V2WebService plan \<Rightarrow>
          (case rollback of V2WebService rollback \<Rightarrow> web_service_is_undone_by plan rollback | _ \<Rightarrow> False)
      | V2Entrypoint plan \<Rightarrow>
          (case rollback of V2Entrypoint rollback \<Rightarrow> entrypoint_is_undone_by plan rollback | _ \<Rightarrow> False)
      | V2Route plan \<Rightarrow>
          (case rollback of V2Route rollback \<Rightarrow> route_is_undone_by plan rollback | _ \<Rightarrow> False)
      | V2PrivateService plan \<Rightarrow>
          (case rollback of V2PrivateService rollback \<Rightarrow> private_service_is_undone_by plan rollback | _ \<Rightarrow> False)
      | V2LinkRoute plan \<Rightarrow>
          (case rollback of V2LinkRoute rollback \<Rightarrow> link_route_is_undone_by plan rollback | _ \<Rightarrow> False)
      | V2Snapshot plan \<Rightarrow>
          (case rollback of V2Snapshot rollback \<Rightarrow> snapshot_is_undone_by plan rollback | _ \<Rightarrow> False)
      | V2Restore plan \<Rightarrow>
          (case rollback of V2Restore rollback \<Rightarrow> restore_is_undone_by plan rollback | _ \<Rightarrow> False)
      | V2UserService plan \<Rightarrow>
          (case rollback of V2UserService rollback \<Rightarrow> user_service_is_undone_by plan rollback | _ \<Rightarrow> False))"

section \<open>Accepting a document\<close>

text \<open>What \<open>serde_json\<close> reads out of the bytes: the declared operation, and each closed shape.\<close>

record v2_json =
  read_operation :: "bytes \<Rightarrow> PlanV2Operation option"
  read_web_service :: "bytes \<Rightarrow> WebServicePlanDocumentV2 option"
  read_entrypoint :: "bytes \<Rightarrow> EntrypointPlanDocumentV2 option"
  read_route :: "bytes \<Rightarrow> RoutePlanDocumentV2 option"
  read_private_service :: "bytes \<Rightarrow> PrivateServicePlanDocumentV2 option"
  read_link_route :: "bytes \<Rightarrow> LinkRoutePlanDocumentV2 option"
  read_snapshot :: "bytes \<Rightarrow> SnapshotPlanDocumentV2 option"
  read_restore :: "bytes \<Rightarrow> RestorePlanDocumentV2 option"
  read_user_service :: "bytes \<Rightarrow> UserServicePlanDocumentV2 option"

definition declared_operation :: "v2_json \<Rightarrow> bytes \<Rightarrow> PlanV2Operation protocol_result" where
  "declared_operation js document = ok_or (read_operation js document) InvalidInput"

text \<open>The strict decoding the declared group selects.\<close>

definition decode_shape :: "v2_json \<Rightarrow> bytes \<Rightarrow> PlanV2Group \<Rightarrow> PlanDocumentV2 protocol_result" where
  "decode_shape js document grp =
     (case grp of
       GroupWebService \<Rightarrow>
         and_then (ok_or (read_web_service js document) InvalidInput) (\<lambda>d. Inr (V2WebService d))
     | GroupEntrypoint \<Rightarrow>
         and_then (ok_or (read_entrypoint js document) InvalidInput) (\<lambda>d. Inr (V2Entrypoint d))
     | GroupRoute \<Rightarrow>
         and_then (ok_or (read_route js document) InvalidInput) (\<lambda>d. Inr (V2Route d))
     | GroupPrivateService \<Rightarrow>
         and_then (ok_or (read_private_service js document) InvalidInput) (\<lambda>d. Inr (V2PrivateService d))
     | GroupLinkRoute \<Rightarrow>
         and_then (ok_or (read_link_route js document) InvalidInput) (\<lambda>d. Inr (V2LinkRoute d))
     | GroupSnapshot \<Rightarrow>
         and_then (ok_or (read_snapshot js document) InvalidInput) (\<lambda>d. Inr (V2Snapshot d))
     | GroupRestore \<Rightarrow>
         and_then (ok_or (read_restore js document) InvalidInput) (\<lambda>d. Inr (V2Restore d))
     | GroupUserService \<Rightarrow>
         and_then (ok_or (read_user_service js document) InvalidInput) (\<lambda>d. Inr (V2UserService d)))"

definition decode_plan_v2_document :: "v2_json \<Rightarrow> bytes \<Rightarrow> PlanDocumentV2 protocol_result" where
  "decode_plan_v2_document js document =
     (if document = [] \<or> length document > MAX_PLAN_DOCUMENT_BYTES then Inl InvalidInput
      else and_then (declared_operation js document) (\<lambda>declared.
           and_then (decode_shape js document (plan_v2_operation_group declared))
             plan_v2_validate))"

definition verify_plan_v2_document ::
  "v2_json \<Rightarrow> sha256 \<Rightarrow> bytes \<Rightarrow> string \<Rightarrow> PlanDocumentV2 protocol_result" where
  "verify_plan_v2_document js sha document expected_sha256 =
     and_then (ok_or (decode_digest expected_sha256) InvalidInput) (\<lambda>expected.
     and_then (decode_plan_v2_document js document) (\<lambda>parsed.
     and_then (plan_v2_digest sha parsed) (\<lambda>digest.
     if digest \<noteq> expected then Inl InvalidInput else Inr parsed)))"

end
