(* ===== verification/Plan_V2_Facts.thy ===== *)
theory Plan_V2_Facts
  imports Plan_V2
begin

text \<open>
  What the schema 2 plans keep: the head and the operation decide the shape, the
  transcript of a validated document decides the document, a plan has one
  document that undoes it, and a document is accepted only under its own digest.
\<close>

section \<open>Operations\<close>

lemma plan_v2_operation_str_inject [simp]:
  "plan_v2_operation_str a = plan_v2_operation_str b \<longleftrightarrow> a = b"
  by (cases a; cases b) simp_all

lemma fits_plan_v2_operation_str [simp]: "fits_u32 (as_bytes (plan_v2_operation_str a))"
  by (cases a) (simp_all add: fits_u32_small)

lemma plan_v2_operation_inverse_twice [simp]:
  "plan_v2_operation_inverse (plan_v2_operation_inverse a) = a"
  by (cases a) simp_all

lemma plan_v2_operation_inverse_group [simp]:
  "plan_v2_operation_group (plan_v2_operation_inverse a) = plan_v2_operation_group a"
  by (cases a) simp_all

lemma plan_v2_operation_inverse_fixed:
  "plan_v2_operation_inverse a = a \<longleftrightarrow> plan_v2_operation_group a = GroupRestore"
  by (cases a) simp_all

section \<open>Heads\<close>

definition head_bytes :: "u8 \<times> string \<times> string \<times> PlanV2Operation \<Rightarrow> bytes" where
  "head_bytes = (\<lambda>(v, i, m, op). PLAN_V2_TRANSCRIPT_DOMAIN @ u8_be v @ field (as_bytes i)
     @ field (as_bytes m) @ field (as_bytes (plan_v2_operation_str op)))"

definition fits_head :: "u8 \<times> string \<times> string \<times> PlanV2Operation \<Rightarrow> bool" where
  "fits_head = (\<lambda>(v, i, m, op). fits_u32 (as_bytes i) \<and> fits_u32 (as_bytes m))"

interpretation v2_head_code: prefix_code head_bytes fits_head
proof
  fix x y r s
  assume "fits_head x" "fits_head y" "head_bytes x @ r = head_bytes y @ s"
  then show "x = y \<and> r = s"
    by (cases x; cases y) (simp add: head_bytes_def fits_head_def wire_simps)
qed

lemmas [wire_simps] = v2_head_code.ser_cancel_iff

lemma v2_head_Inr:
  "v2_head v i m op = Inr t \<longleftrightarrow> fits_head (v, i, m, op) \<and> t = head_bytes (v, i, m, op)"
  by (auto simp: v2_head_def and_then_Inr_iff fits_head_def head_bytes_def)

lemma valid_v2_head_fits: "valid_v2_head v i m op grp \<Longrightarrow> fits_head (v, i, m, op)"
  by (simp add: valid_v2_head_def fits_head_def fits_canonical)

lemma valid_v2_head_inverse [simp]:
  "valid_v2_head v i m (plan_v2_operation_inverse op) grp = valid_v2_head v i m op grp"
  by (simp add: valid_v2_head_def)

section \<open>Validation, shape by shape\<close>

fun plan_v2_shape :: "PlanDocumentV2 \<Rightarrow> PlanV2Group" where
  "plan_v2_shape (V2WebService d) = GroupWebService"
| "plan_v2_shape (V2Entrypoint d) = GroupEntrypoint"
| "plan_v2_shape (V2Route d) = GroupRoute"
| "plan_v2_shape (V2PrivateService d) = GroupPrivateService"
| "plan_v2_shape (V2LinkRoute d) = GroupLinkRoute"
| "plan_v2_shape (V2Snapshot d) = GroupSnapshot"
| "plan_v2_shape (V2Restore d) = GroupRestore"
| "plan_v2_shape (V2UserService d) = GroupUserService"

fun plan_v2_head :: "PlanDocumentV2 \<Rightarrow> u8 \<times> string \<times> string \<times> PlanV2Operation" where
  "plan_v2_head (V2WebService d) = (v2_schema_version d, v2_infrastructure_id d, v2_machine_id d, v2_operation d)"
| "plan_v2_head (V2Entrypoint d) = (v2_schema_version d, v2_infrastructure_id d, v2_machine_id d, v2_operation d)"
| "plan_v2_head (V2Route d) = (v2_schema_version d, v2_infrastructure_id d, v2_machine_id d, v2_operation d)"
| "plan_v2_head (V2PrivateService d) = (v2_schema_version d, v2_infrastructure_id d, v2_machine_id d, v2_operation d)"
| "plan_v2_head (V2LinkRoute d) = (v2_schema_version d, v2_infrastructure_id d, v2_machine_id d, v2_operation d)"
| "plan_v2_head (V2Snapshot d) = (v2_schema_version d, v2_infrastructure_id d, v2_machine_id d, v2_operation d)"
| "plan_v2_head (V2Restore d) = (v2_schema_version d, v2_infrastructure_id d, v2_machine_id d, v2_operation d)"
| "plan_v2_head (V2UserService d) = (v2_schema_version d, v2_infrastructure_id d, v2_machine_id d, v2_operation d)"

lemmas shape_validate_defs = web_service_validate_def entrypoint_validate_def route_validate_def
  private_service_validate_def link_route_validate_def snapshot_validate_def restore_validate_def
  user_service_validate_def

lemmas shape_transcript_defs = web_service_transcript_def entrypoint_transcript_def
  route_transcript_def private_service_transcript_def link_route_transcript_def
  snapshot_transcript_def restore_transcript_def user_service_transcript_def

lemma shape_validate_same:
  "web_service_validate w = Inr w' \<Longrightarrow> w' = w"
  "entrypoint_validate e = Inr e' \<Longrightarrow> e' = e"
  "route_validate r = Inr r' \<Longrightarrow> r' = r"
  "private_service_validate p = Inr p' \<Longrightarrow> p' = p"
  "link_route_validate l = Inr l' \<Longrightarrow> l' = l"
  "snapshot_validate s = Inr s' \<Longrightarrow> s' = s"
  "restore_validate b = Inr b' \<Longrightarrow> b' = b"
  "user_service_validate u = Inr u' \<Longrightarrow> u' = u"
  by (simp_all add: shape_validate_defs split: if_splits option.splits)

lemma plan_v2_validate_same: "plan_v2_validate d = Inr d' \<Longrightarrow> d' = d"
  by (cases d) (auto simp: and_then_Inr_iff dest: shape_validate_same)

lemma plan_v2_validate_head:
  assumes "plan_v2_validate d = Inr d'"
  shows "case plan_v2_head d of (v, i, m, op) \<Rightarrow> valid_v2_head v i m op (plan_v2_shape d)"
  using assms
  by (cases d)
    (simp_all add: and_then_Inr_iff shape_validate_defs split: if_splits option.splits)

lemma plan_v2_head_operation: "plan_v2_head d = (v, i, m, op) \<Longrightarrow>
    plan_v2_operation d = op \<and> plan_v2_infrastructure_id d = i \<and> plan_v2_machine_id d = m"
  by (cases d) simp_all

lemma plan_v2_validate_group:
  assumes "plan_v2_validate d = Inr d'"
  shows "plan_v2_group d = plan_v2_shape d"
proof -
  obtain v i m op where head: "plan_v2_head d = (v, i, m, op)" by (cases "plan_v2_head d")
  with plan_v2_validate_head [OF assms] plan_v2_head_operation [OF head] show ?thesis
    by (simp add: plan_v2_group_def valid_v2_head_def)
qed

section \<open>Transcripts\<close>

lemma shape_transcript_Inr:
  "web_service_transcript w = Inr t \<longleftrightarrow>
     (\<exists>pinned. decode_image_digest (ws_image_digest w) = Some pinned
        \<and> fits_head (plan_v2_head (V2WebService w))
        \<and> fits_u32 (as_bytes (ws_service_profile w)) \<and> fits_u32 (as_bytes (ws_image_reference w))
        \<and> t = head_bytes (plan_v2_head (V2WebService w))
            @ field (as_bytes (ws_service_profile w)) @ field (as_bytes (ws_image_reference w))
            @ field pinned @ u32_be (ws_local_port w))"
  "entrypoint_transcript e = Inr t \<longleftrightarrow>
     (\<exists>pinned. decode_image_digest (ep_image_digest e) = Some pinned
        \<and> fits_head (plan_v2_head (V2Entrypoint e)) \<and> fits_u32 (as_bytes (ep_image_reference e))
        \<and> t = head_bytes (plan_v2_head (V2Entrypoint e))
            @ field (as_bytes (ep_image_reference e)) @ field pinned)"
  "route_transcript r = Inr t \<longleftrightarrow>
     fits_head (plan_v2_head (V2Route r)) \<and> fits_u32 (as_bytes (rt_route_host r))
     \<and> t = head_bytes (plan_v2_head (V2Route r))
         @ field (as_bytes (rt_route_host r)) @ u32_be (rt_backend_port r)"
  "private_service_transcript p = Inr t \<longleftrightarrow>
     (\<exists>pinned. decode_image_digest (ps_image_digest p) = Some pinned
        \<and> fits_head (plan_v2_head (V2PrivateService p))
        \<and> fits_u32 (as_bytes (ps_service_profile p)) \<and> fits_u32 (as_bytes (ps_image_reference p))
        \<and> fits_u32 (as_bytes (ps_origin_host p))
        \<and> t = head_bytes (plan_v2_head (V2PrivateService p))
            @ field (as_bytes (ps_service_profile p)) @ field (as_bytes (ps_image_reference p))
            @ field pinned @ u32_be (ps_local_port p) @ field (as_bytes (ps_origin_host p)))"
  "link_route_transcript l = Inr t \<longleftrightarrow>
     fits_head (plan_v2_head (V2LinkRoute l)) \<and> fits_u32 (as_bytes (lr_route_host l))
     \<and> t = head_bytes (plan_v2_head (V2LinkRoute l))
         @ field (as_bytes (lr_route_host l)) @ u32_be (lr_backend_port l)"
  "snapshot_transcript s = Inr t \<longleftrightarrow>
     fits_head (plan_v2_head (V2Snapshot s)) \<and> fits_u32 (as_bytes (sn_service_profile s))
     \<and> fits_u32 (as_bytes (sn_snapshot_slot s))
     \<and> t = head_bytes (plan_v2_head (V2Snapshot s))
         @ field (as_bytes (sn_service_profile s)) @ field (as_bytes (sn_snapshot_slot s))"
  "restore_transcript b = Inr t \<longleftrightarrow>
     fits_head (plan_v2_head (V2Restore b)) \<and> fits_u32 (as_bytes (rs_service_profile b))
     \<and> fits_u32 (as_bytes (rs_snapshot_slot b))
     \<and> t = head_bytes (plan_v2_head (V2Restore b))
         @ field (as_bytes (rs_service_profile b)) @ field (as_bytes (rs_snapshot_slot b))"
  "user_service_transcript u = Inr t \<longleftrightarrow>
     (\<exists>revision pinned. decode_digest (us_definition_digest u) = Some revision
        \<and> decode_image_digest (us_image_digest u) = Some pinned
        \<and> fits_head (plan_v2_head (V2UserService u))
        \<and> fits_u32 (as_bytes (us_definition_slug u)) \<and> fits_u32 (as_bytes (us_image_reference u))
        \<and> fits_u32 (as_bytes (us_origin_host u))
        \<and> t = head_bytes (plan_v2_head (V2UserService u))
            @ field (as_bytes (us_definition_slug u)) @ field revision
            @ field (as_bytes (us_image_reference u)) @ field pinned
            @ u32_be (us_local_port u) @ field (as_bytes (us_origin_host u)))"
  by (auto simp: shape_transcript_defs result_iff v2_head_Inr decode_image_digest_iff
      decode_digest_iff limits fits_u32_small)

lemma plan_v2_transcript_head:
  "plan_v2_transcript d = Inr t \<Longrightarrow>
     fits_head (plan_v2_head d) \<and> (\<exists>rest. t = head_bytes (plan_v2_head d) @ rest)"
  by (cases d) (auto simp: shape_transcript_Inr)

lemma plan_v2_transcript_inject_head:
  assumes "plan_v2_transcript d = Inr t" "plan_v2_transcript d' = Inr t"
  shows "plan_v2_head d = plan_v2_head d'"
  using plan_v2_transcript_head [OF assms(1)] plan_v2_transcript_head [OF assms(2)]
  by (auto simp: wire_simps)

lemmas shape_equalities = WebServicePlanDocumentV2.equality EntrypointPlanDocumentV2.equality
  RoutePlanDocumentV2.equality PrivateServicePlanDocumentV2.equality
  LinkRoutePlanDocumentV2.equality SnapshotPlanDocumentV2.equality
  RestorePlanDocumentV2.equality UserServicePlanDocumentV2.equality

lemma plan_v2_transcript_inject_shape:
  assumes "plan_v2_transcript d = Inr t" "plan_v2_transcript d' = Inr t"
    and "plan_v2_shape d = plan_v2_shape d'"
  shows "d = d'"
  using assms
  by (cases d; cases d')
    (auto simp: shape_transcript_Inr wire_simps decode_image_digest_iff decode_digest_iff
      limits fits_u32_small intro!: shape_equalities)

lemma plan_v2_transcript_inject:
  assumes "plan_v2_validate d = Inr d" "plan_v2_validate d' = Inr d'"
    and "plan_v2_transcript d = Inr t" "plan_v2_transcript d' = Inr t"
  shows "d = d'"
proof (rule plan_v2_transcript_inject_shape [OF assms(3,4)])
  have "plan_v2_operation d = plan_v2_operation d'"
    using plan_v2_transcript_inject_head [OF assms(3,4)] plan_v2_head_operation
    by (metis prod_cases4)
  then show "plan_v2_shape d = plan_v2_shape d'"
    using assms(1,2) by (simp flip: plan_v2_validate_group add: plan_v2_group_def)
qed

section \<open>A validated plan has a transcript\<close>

lemma profile_image_Some:
  "profile_image p = Some i \<Longrightarrow> length p \<le> 65536"
  "private_profile_image p = Some i \<Longrightarrow> length p \<le> 65536"
  by (simp_all add: profile_image_def private_profile_image_def SERVICE_PROFILE_BENTOPDF_def
      SERVICE_PROFILE_VAULTWARDEN_def split: if_splits)

lemma pin_references_short:
  "profile_image p = Some i \<Longrightarrow> length (pin_reference i) \<le> 65536"
  "private_profile_image p = Some i \<Longrightarrow> length (pin_reference i) \<le> 65536"
  "length (pin_reference ENTRYPOINT_IMAGE) \<le> 65536"
  by (auto simp: profile_image_def private_profile_image_def ENTRYPOINT_IMAGE_def
      BENTOPDF_IMAGE_REFERENCE_def VAULTWARDEN_IMAGE_REFERENCE_def ENTRYPOINT_IMAGE_REFERENCE_def
      split: if_splits)

lemma pinned_image_matches_iff:
  "pinned_image_matches reference digest pinned \<longleftrightarrow>
     reference = pin_reference pinned \<and> digest = pin_digest pinned
     \<and> (\<exists>d. decode_image_digest digest = Some d)"
  by (auto simp: pinned_image_matches_def)

lemma grammar_lengths:
  "canonical_route_host h \<Longrightarrow> length h \<le> 65536"
  "canonical_user_service_origin h \<Longrightarrow> length h \<le> 65536"
  "canonical_snapshot_slot s \<Longrightarrow> length s \<le> 65536"
  "canonical_definition_slug s \<Longrightarrow> length s \<le> 65536"
  by (auto simp: canonical_route_host_def canonical_user_service_origin_def limits
      canonical_snapshot_slot_def canonical_definition_slug_def canonical_service_slug_def
      split: if_splits)

lemma archives_data_short: "archives_data p \<Longrightarrow> length p \<le> 65536"
  by (auto simp: archives_data_def grammar_lengths profile_image_Some)

lemma repository_short: "canonical_image_repository r \<Longrightarrow> length r \<le> 65536"
  using canonical_image_repository_length [of r] by simp

lemma fits_short: "length s \<le> 65536 \<Longrightarrow> fits_u32 (as_bytes s)"
  by (simp add: fits_u32_small)

lemma pinned_fits:
  assumes "pinned_image_matches reference digest pinned" "length (pin_reference pinned) \<le> 65536"
  shows "fits_u32 (as_bytes reference) \<and> (\<exists>d. decode_image_digest digest = Some d)"
  using assms by (auto simp: pinned_image_matches_iff fits_short)

lemma shape_validate_transcript:
  "web_service_validate w = Inr w \<Longrightarrow> fits_head (plan_v2_head (V2WebService w)) \<Longrightarrow>
     \<exists>t. web_service_transcript w = Inr t"
  "entrypoint_validate e = Inr e \<Longrightarrow> fits_head (plan_v2_head (V2Entrypoint e)) \<Longrightarrow>
     \<exists>t. entrypoint_transcript e = Inr t"
  "route_validate r = Inr r \<Longrightarrow> fits_head (plan_v2_head (V2Route r)) \<Longrightarrow>
     \<exists>t. route_transcript r = Inr t"
  "private_service_validate p = Inr p \<Longrightarrow> fits_head (plan_v2_head (V2PrivateService p)) \<Longrightarrow>
     \<exists>t. private_service_transcript p = Inr t"
  "link_route_validate l = Inr l \<Longrightarrow> fits_head (plan_v2_head (V2LinkRoute l)) \<Longrightarrow>
     \<exists>t. link_route_transcript l = Inr t"
  "snapshot_validate s = Inr s \<Longrightarrow> fits_head (plan_v2_head (V2Snapshot s)) \<Longrightarrow>
     \<exists>t. snapshot_transcript s = Inr t"
  "restore_validate b = Inr b \<Longrightarrow> fits_head (plan_v2_head (V2Restore b)) \<Longrightarrow>
     \<exists>t. restore_transcript b = Inr t"
  "user_service_validate u = Inr u \<Longrightarrow> fits_head (plan_v2_head (V2UserService u)) \<Longrightarrow>
     \<exists>t. user_service_transcript u = Inr t"
proof -
  assume fits: "fits_head (plan_v2_head (V2WebService w))" and v: "web_service_validate w = Inr w"
  then obtain pinned where p: "profile_image (ws_service_profile w) = Some pinned"
    "pinned_image_matches (ws_image_reference w) (ws_image_digest w) pinned"
    by (auto simp: web_service_validate_def split: if_splits option.splits)
  with pinned_fits [OF p(2) pin_references_short(1) [OF p(1)]]
    fits_short [OF profile_image_Some(1) [OF p(1)]] fits
  show "\<exists>t. web_service_transcript w = Inr t" by (auto simp only: shape_transcript_Inr)
next
  assume fits: "fits_head (plan_v2_head (V2Entrypoint e))" and v: "entrypoint_validate e = Inr e"
  then have "pinned_image_matches (ep_image_reference e) (ep_image_digest e) ENTRYPOINT_IMAGE"
    by (auto simp: entrypoint_validate_def split: if_splits)
  from pinned_fits [OF this pin_references_short(3)] fits
  show "\<exists>t. entrypoint_transcript e = Inr t" by (auto simp only: shape_transcript_Inr)
next
  assume fits: "fits_head (plan_v2_head (V2PrivateService p))" and v: "private_service_validate p = Inr p"
  then obtain pinned where p: "private_profile_image (ps_service_profile p) = Some pinned"
    "pinned_image_matches (ps_image_reference p) (ps_image_digest p) pinned"
    "canonical_route_host (ps_origin_host p)"
    by (auto simp: private_service_validate_def split: if_splits option.splits)
  with pinned_fits [OF p(2) pin_references_short(2) [OF p(1)]]
    fits_short [OF profile_image_Some(2) [OF p(1)]] fits_short [OF grammar_lengths(1) [OF p(3)]] fits
  show "\<exists>t. private_service_transcript p = Inr t" by (auto simp only: shape_transcript_Inr)
next
  assume fits: "fits_head (plan_v2_head (V2UserService u))" and v: "user_service_validate u = Inr u"
  then have u: "canonical_definition_slug (us_definition_slug u)"
    "canonical_image_repository (us_image_reference u)"
    "canonical_user_service_origin (us_origin_host u)"
    "\<exists>d. decode_digest (us_definition_digest u) = Some d"
    "\<exists>d. decode_image_digest (us_image_digest u) = Some d"
    by (auto simp: user_service_validate_def split: if_splits)
  from fits_short [OF grammar_lengths(4) [OF u(1)]] fits_short [OF repository_short [OF u(2)]]
    fits_short [OF grammar_lengths(2) [OF u(3)]] u(4,5) fits
  show "\<exists>t. user_service_transcript u = Inr t" by (auto simp only: shape_transcript_Inr)
qed (auto simp: route_validate_def link_route_validate_def snapshot_validate_def restore_validate_def
      shape_transcript_Inr fits_short grammar_lengths archives_data_short split: if_splits)

lemma plan_v2_validate_transcript:
  assumes "plan_v2_validate d = Inr d'"
  shows "\<exists>t. plan_v2_transcript d = Inr t"
proof -
  obtain v i m op where head: "plan_v2_head d = (v, i, m, op)" by (cases "plan_v2_head d")
  with plan_v2_validate_head [OF assms] have fits: "fits_head (plan_v2_head d)"
    by (auto dest: valid_v2_head_fits)
  from plan_v2_validate_same [OF assms] assms have "plan_v2_validate d = Inr d" by simp
  with fits show ?thesis
    by (cases d)
      (simp_all add: and_then_Inr_iff shape_validate_transcript)
qed

section \<open>Decoding\<close>

lemma decode_shape_shape:
  "decode_shape js document grp = Inr d \<Longrightarrow> plan_v2_shape d = grp"
  by (cases grp) (auto simp: decode_shape_def and_then_Inr_iff)

lemma decode_plan_v2_document_Inr:
  assumes "decode_plan_v2_document js document = Inr d"
  shows "document \<noteq> [] \<and> length document \<le> MAX_PLAN_DOCUMENT_BYTES
    \<and> plan_v2_validate d = Inr d
    \<and> (\<exists>op. read_operation js document = Some op
          \<and> plan_v2_shape d = plan_v2_operation_group op)"
proof -
  obtain op parsed where op: "read_operation js document = Some op"
    and read: "decode_shape js document (plan_v2_operation_group op) = Inr parsed"
    and ok: "plan_v2_validate parsed = Inr d"
    and len: "document \<noteq> []" "length document \<le> MAX_PLAN_DOCUMENT_BYTES"
    using assms
    by (auto simp: decode_plan_v2_document_def declared_operation_def result_iff split: if_splits)
  from decode_shape_shape [OF read] plan_v2_validate_same [OF ok] ok op len show ?thesis by simp
qed

interpretation v2_gate: document_gate "decode_plan_v2_document js" plan_v2_transcript sha
    "verify_plan_v2_document js sha" for js sha
proof
  fix document :: bytes and hex :: string
  show "verify_plan_v2_document js sha document hex =
      and_then (ok_or (decode_digest hex) InvalidInput) (\<lambda>expected.
      and_then (decode_plan_v2_document js document) (\<lambda>parsed.
      and_then (and_then (plan_v2_transcript parsed) (\<lambda>t. Inr (sha t))) (\<lambda>digest.
      if digest \<noteq> expected then Inl InvalidInput else Inr parsed)))"
    by (simp add: verify_plan_v2_document_def plan_v2_digest_def)
next
  fix document d
  assume "decode_plan_v2_document js document = Inr d"
  then show "\<exists>t. plan_v2_transcript d = Inr t"
    using plan_v2_validate_transcript decode_plan_v2_document_Inr by blast
next
  fix document document' d d' t
  assume "decode_plan_v2_document js document = Inr d" "decode_plan_v2_document js document' = Inr d'"
    and "plan_v2_transcript d = Inr t" "plan_v2_transcript d' = Inr t"
  then show "d = d'"
    using plan_v2_transcript_inject decode_plan_v2_document_Inr by blast
qed

section \<open>Undoing\<close>

fun plan_v2_inverted :: "PlanDocumentV2 \<Rightarrow> PlanDocumentV2" where
  "plan_v2_inverted (V2WebService d) = V2WebService (web_service_inverted d)"
| "plan_v2_inverted (V2Entrypoint d) = V2Entrypoint (entrypoint_inverted d)"
| "plan_v2_inverted (V2Route d) = V2Route (route_inverted d)"
| "plan_v2_inverted (V2PrivateService d) = V2PrivateService (private_service_inverted d)"
| "plan_v2_inverted (V2LinkRoute d) = V2LinkRoute (link_route_inverted d)"
| "plan_v2_inverted (V2Snapshot d) = V2Snapshot (snapshot_inverted d)"
| "plan_v2_inverted (V2Restore d) = V2Restore (restore_inverted d)"
| "plan_v2_inverted (V2UserService d) = V2UserService (user_service_inverted d)"

lemmas shape_inverted_defs = web_service_inverted_def entrypoint_inverted_def route_inverted_def
  private_service_inverted_def link_route_inverted_def snapshot_inverted_def restore_inverted_def
  user_service_inverted_def

lemmas shape_undone_by_defs = web_service_is_undone_by_def entrypoint_is_undone_by_def
  route_is_undone_by_def private_service_is_undone_by_def link_route_is_undone_by_def
  snapshot_is_undone_by_def restore_is_undone_by_def user_service_is_undone_by_def

lemma reserved_slot_canonical: "canonical_snapshot_slot RESERVED_SNAPSHOT_SLOT"
  by (simp add: canonical_snapshot_slot_def RESERVED_SNAPSHOT_SLOT_def limits ascii_simps)

lemma plan_v2_inverted_valid:
  "plan_v2_validate d = Inr d' \<Longrightarrow> plan_v2_validate (plan_v2_inverted d) = Inr (plan_v2_inverted d)"
  by (cases d)
    (auto simp: and_then_Inr_iff shape_validate_defs shape_inverted_defs reserved_slot_canonical
      split: if_splits option.splits)

lemma plan_v2_inverted_shape [simp]: "plan_v2_shape (plan_v2_inverted d) = plan_v2_shape d"
  by (cases d) simp_all

lemma plan_v2_inverted_twice:
  "plan_v2_inverted (plan_v2_inverted d) =
     (if plan_v2_shape d = GroupRestore then plan_v2_inverted d else d)"
  by (cases d) (simp_all add: shape_inverted_defs)

interpretation v2_undo: undoing plan_v2_inverted plan_v2_is_undone_by
    "\<lambda>d. plan_v2_validate d = Inr d"
proof
  fix plan rollback
  show "plan_v2_is_undone_by plan rollback \<longleftrightarrow> rollback = plan_v2_inverted plan"
    by (cases plan; cases rollback) (auto simp: plan_v2_is_undone_by_def shape_undone_by_defs)
qed (rule plan_v2_inverted_valid)

section \<open>Archives\<close>

lemma definition_slug_not_profile:
  "canonical_definition_slug s \<Longrightarrow> private_profile_image s = None \<and> profile_image s = None"
  by (auto simp: canonical_definition_slug_def RESERVED_SERVICE_SLUGS_def private_profile_image_def
      profile_image_def SERVICE_PROFILE_VAULTWARDEN_def SERVICE_PROFILE_BENTOPDF_def)

lemma snapshot_slot_plain:
  "canonical_snapshot_slot s \<Longrightarrow>
     s \<noteq> [] \<and> length s \<le> 32 \<and> CHR ''/'' \<notin> set s \<and> CHR ''.'' \<notin> set s \<and> hd s \<noteq> CHR ''-''"
  by (cases s) (auto simp: canonical_snapshot_slot_def limits list_all_iff ascii_simps split: if_splits)

section \<open>Concrete plans\<close>

definition sample_route :: RoutePlanDocumentV2 where
  "sample_route =
     \<lparr>v2_schema_version = 2, v2_infrastructure_id = sample_uuid, v2_machine_id = ''node-1'',
      v2_operation = V2PublishRoute, rt_route_host = ''pdf.home'', rt_backend_port = 8080\<rparr>"

definition sample_restore :: RestorePlanDocumentV2 where
  "sample_restore =
     \<lparr>v2_schema_version = 2, v2_infrastructure_id = sample_uuid, v2_machine_id = ''node-1'',
      v2_operation = V2RestoreService, rs_service_profile = ''vaultwarden'',
      rs_snapshot_slot = ''monday''\<rparr>"

lemma sample_route_valid: "plan_v2_validate (V2Route sample_route) = Inr (V2Route sample_route)"
  by (simp add: sample_route_def route_validate_def valid_v2_head_def sample_uuid_canonical
      sample_machine_canonical canonical_route_host_def limits ascii_simps is_ascii_def)

lemma sample_restore_valid:
  "plan_v2_validate (V2Restore sample_restore) = Inr (V2Restore sample_restore)"
  by (simp add: sample_restore_def restore_validate_def valid_v2_head_def sample_uuid_canonical
      sample_machine_canonical archives_data_def private_profile_image_def
      SERVICE_PROFILE_VAULTWARDEN_def canonical_snapshot_slot_def limits ascii_simps)

text \<open>A reader that recognises one document, the route above.\<close>

definition sample_v2_json :: v2_json where
  "sample_v2_json =
     \<lparr>read_operation = \<lambda>_. Some V2PublishRoute, read_web_service = \<lambda>_. None,
      read_entrypoint = \<lambda>_. None, read_route = \<lambda>_. Some sample_route,
      read_private_service = \<lambda>_. None, read_link_route = \<lambda>_. None, read_snapshot = \<lambda>_. None,
      read_restore = \<lambda>_. None, read_user_service = \<lambda>_. None\<rparr>"

lemma sample_route_decodes:
  "decode_plan_v2_document sample_v2_json [123] = Inr (V2Route sample_route)"
  using sample_route_valid
  by (simp add: decode_plan_v2_document_def declared_operation_def decode_shape_def
      sample_v2_json_def limits)

lemma sample_route_verifies:
  "\<exists>hex. verify_plan_v2_document sample_v2_json sample_sha [123] hex = Inr (V2Route sample_route)"
  by (rule v2_gate.verify_some_digest [OF sample_route_decodes length_sample_sha])

section \<open>Properties\<close>

text \<open>C5: across all eight field lists the signed bytes determine the plan. Two plans
that validate and have the same transcript are the same document, of the same
shape: a route is never read as a link route with the same host and port, nor a
snapshot as a restore, and no field can lend a byte to its neighbour.\<close>

theorem plan_v2_transcript_determines_plan:
  assumes "plan_v2_validate d = Inr d" "plan_v2_validate d' = Inr d'"
    and "plan_v2_transcript d = plan_v2_transcript d'"
  shows "d = d'"
proof -
  obtain t where "plan_v2_transcript d = Inr t"
    using plan_v2_validate_transcript [OF assms(1)] by blast
  with assms show ?thesis by (metis plan_v2_transcript_inject)
qed

theorem plan_v2_transcript_determines_plan_witness:
  "plan_v2_transcript (V2Route sample_route) \<noteq> plan_v2_transcript (V2Restore sample_restore)"
  using plan_v2_transcript_determines_plan [OF sample_route_valid sample_restore_valid] by blast

text \<open>A digest names one plan. Bytes accepted under a digest decode to a plan that
validates, and whatever other bytes the same digest accepts carry that very plan,
unless the hash function collides on the two transcripts.\<close>

theorem verify_plan_v2_names_one_plan:
  assumes "verify_plan_v2_document js sha document hex = Inr d"
    and "verify_plan_v2_document js sha document' hex = Inr d'"
  shows "plan_v2_validate d = Inr d
    \<and> (d = d' \<or> (\<exists>t t'. plan_v2_transcript d = Inr t \<and> plan_v2_transcript d' = Inr t'
          \<and> t \<noteq> t' \<and> sha t = sha t'))"
proof -
  have "decode_plan_v2_document js document = Inr d"
    using assms(1) by (simp add: v2_gate.verify_iff)
  with decode_plan_v2_document_Inr v2_gate.verify_names_one [OF assms] show ?thesis by blast
qed

theorem verify_plan_v2_names_one_plan_witness:
  "\<exists>hex. verify_plan_v2_document sample_v2_json sample_sha [123] hex = Inr (V2Route sample_route)
     \<and> plan_v2_validate (V2Route sample_route) = Inr (V2Route sample_route)"
proof -
  from sample_route_verifies obtain hex where
    v: "verify_plan_v2_document sample_v2_json sample_sha [123] hex = Inr (V2Route sample_route)" ..
  from verify_plan_v2_names_one_plan [OF v v] v show ?thesis by auto
qed

text \<open>The operation is the discriminator. An accepted document is inside the size
bound, validates whole, and has the field list of the operation the first pass
read: its shape, the group of that operation and the group of the operation it
carries are one.\<close>

theorem decode_plan_v2_follows_operation:
  assumes "decode_plan_v2_document js document = Inr d"
  shows "0 < length document \<and> length document \<le> 4096 \<and> plan_v2_validate d = Inr d
    \<and> (\<exists>op. read_operation js document = Some op
          \<and> plan_v2_group d = plan_v2_operation_group op \<and> plan_v2_shape d = plan_v2_group d)"
  using decode_plan_v2_document_Inr [OF assms] plan_v2_validate_group by (fastforce simp: limits)

theorem decode_plan_v2_follows_operation_witness:
  "plan_v2_group (V2Route sample_route) = plan_v2_shape (V2Route sample_route)"
  using decode_plan_v2_follows_operation [OF sample_route_decodes] by auto

text \<open>Every plan has exactly one document that undoes it, and that document is
itself a plan: it validates, has the same shape and names the same infrastructure
and machine. Undoing twice is the plan itself, except for a restore, whose
undoing is a fixed point.\<close>

theorem plan_v2_has_one_undoing:
  assumes "plan_v2_validate d = Inr d"
  shows "\<exists>r. plan_v2_is_undone_by d = (\<lambda>s. s = r)
      \<and> plan_v2_validate r = Inr r \<and> plan_v2_group r = plan_v2_group d
      \<and> plan_v2_infrastructure_id r = plan_v2_infrastructure_id d
      \<and> plan_v2_machine_id r = plan_v2_machine_id d
      \<and> plan_v2_is_undone_by r (if plan_v2_group d = GroupRestore then r else d)"
proof (intro exI [of _ "plan_v2_inverted d"] conjI)
  show "plan_v2_is_undone_by d = (\<lambda>s. s = plan_v2_inverted d)"
    by (rule ext) (rule v2_undo.undone_by_iff)
  show valid: "plan_v2_validate (plan_v2_inverted d) = Inr (plan_v2_inverted d)"
    by (rule plan_v2_inverted_valid [OF assms])
  show "plan_v2_group (plan_v2_inverted d) = plan_v2_group d"
    using plan_v2_validate_group [OF assms] plan_v2_validate_group [OF valid] by simp
  show "plan_v2_infrastructure_id (plan_v2_inverted d) = plan_v2_infrastructure_id d"
    "plan_v2_machine_id (plan_v2_inverted d) = plan_v2_machine_id d"
    by (cases d; simp add: shape_inverted_defs)+
  show "plan_v2_is_undone_by (plan_v2_inverted d)
      (if plan_v2_group d = GroupRestore then plan_v2_inverted d else d)"
    using plan_v2_validate_group [OF assms] by (simp add: v2_undo.undone_by_iff plan_v2_inverted_twice)
qed

theorem plan_v2_has_one_undoing_witness:
  "\<exists>r. plan_v2_is_undone_by (V2Restore sample_restore) = (\<lambda>s. s = r) \<and> plan_v2_validate r = Inr r"
  using plan_v2_has_one_undoing [OF sample_restore_valid] by blast

text \<open>The slot of the return mechanism belongs to it alone. No archive a snapshot or
a discard names is the reserved one; the document that undoes a restore names
exactly that slot and nothing else of it differs; and the two documents of a
restore are one document exactly when the restore names it already.\<close>

theorem reserved_slot_belongs_to_restores:
  "(snapshot_validate s = Inr s \<longrightarrow> sn_snapshot_slot s \<noteq> RESERVED_SNAPSHOT_SLOT)
   \<and> (restore_is_undone_by b r \<longrightarrow> r = b\<lparr>rs_snapshot_slot := RESERVED_SNAPSHOT_SLOT\<rparr>)
   \<and> (restore_is_undone_by b b \<longleftrightarrow> rs_snapshot_slot b = RESERVED_SNAPSHOT_SLOT)"
proof -
  have "restore_is_undone_by b b \<longleftrightarrow> rs_snapshot_slot b = RESERVED_SNAPSHOT_SLOT"
  proof
    assume "restore_is_undone_by b b"
    then have "rs_snapshot_slot (restore_inverted b) = rs_snapshot_slot b"
      by (simp add: restore_is_undone_by_def)
    then show "rs_snapshot_slot b = RESERVED_SNAPSHOT_SLOT" by (simp add: restore_inverted_def)
  qed (simp add: restore_is_undone_by_def restore_inverted_def)
  then show ?thesis
    by (auto simp: snapshot_validate_def restore_is_undone_by_def restore_inverted_def split: if_splits)
qed

theorem reserved_slot_belongs_to_restores_witness:
  "restore_is_undone_by sample_restore (sample_restore\<lparr>rs_snapshot_slot := ''previous''\<rparr>)
   \<and> \<not> restore_is_undone_by sample_restore sample_restore"
  using reserved_slot_belongs_to_restores [of _ sample_restore]
  by (simp add: restore_is_undone_by_def restore_inverted_def RESERVED_SNAPSHOT_SLOT_def
      sample_restore_def)

text \<open>An archive name has one reading. A name the archive operations accept is
either a profile of the private door or the slug of a user definition, never both
and never a profile of the stateless door; and the slot is a plain file name, with
no separator, no dot and no leading hyphen.\<close>

theorem archive_names_are_unambiguous:
  assumes "snapshot_validate s = Inr s"
  shows "(private_profile_image (sn_service_profile s) = None)
      = canonical_definition_slug (sn_service_profile s)
    \<and> profile_image (sn_service_profile s) = None
    \<and> sn_snapshot_slot s \<noteq> [] \<and> length (sn_snapshot_slot s) \<le> 32
    \<and> hd (sn_snapshot_slot s) \<noteq> CHR ''-''
    \<and> set (sn_snapshot_slot s) \<inter> {CHR ''/'', CHR ''.''} = {}"
proof -
  from assms have archive: "archives_data (sn_service_profile s)"
    and slot: "canonical_snapshot_slot (sn_snapshot_slot s)"
    by (auto simp: snapshot_validate_def split: if_splits)
  from archive have "(private_profile_image (sn_service_profile s) = None)
      = canonical_definition_slug (sn_service_profile s)"
    using definition_slug_not_profile by (auto simp: archives_data_def)
  moreover have "profile_image (sn_service_profile s) = None"
  proof (cases "canonical_definition_slug (sn_service_profile s)")
    case True
    then show ?thesis using definition_slug_not_profile by blast
  next
    case False
    with archive show ?thesis
      by (auto simp: archives_data_def private_profile_image_def profile_image_def
          SERVICE_PROFILE_VAULTWARDEN_def SERVICE_PROFILE_BENTOPDF_def split: if_splits)
  qed
  ultimately show ?thesis using snapshot_slot_plain [OF slot] by simp
qed

definition sample_snapshot :: SnapshotPlanDocumentV2 where
  "sample_snapshot =
     \<lparr>v2_schema_version = 2, v2_infrastructure_id = sample_uuid, v2_machine_id = ''node-1'',
      v2_operation = V2SnapshotService, sn_service_profile = ''vaultwarden'',
      sn_snapshot_slot = ''monday''\<rparr>"

theorem archive_names_are_unambiguous_witness:
  "\<not> canonical_definition_slug ''vaultwarden''"
proof -
  have "snapshot_validate sample_snapshot = Inr sample_snapshot"
    by (simp add: sample_snapshot_def snapshot_validate_def valid_v2_head_def sample_uuid_canonical
        sample_machine_canonical archives_data_def private_profile_image_def
        SERVICE_PROFILE_VAULTWARDEN_def RESERVED_SNAPSHOT_SLOT_def canonical_snapshot_slot_def
        limits ascii_simps)
  from archive_names_are_unambiguous [OF this] show ?thesis
    by (simp add: sample_snapshot_def private_profile_image_def SERVICE_PROFILE_VAULTWARDEN_def)
qed

end
