(* ===== verification/Plan_V3.thy ===== *)
theory Plan_V3
  imports Plan_V2_Facts
begin

text \<open>
  Plan schema 3, the private passage (\<open>bootstrap-protocol/src/plan_v3.rs\<close>): six
  operations in three closed field lists. The lenient standard \<open>base64\<close> engine a
  peer key is read with is a parameter (\<open>std\<close>), as are the \<open>serde_json\<close> decoders
  and the SHA-256 function.
\<close>

section \<open>Bounds\<close>

definition PLAN_V3_SCHEMA_VERSION :: u8 where
  [limits]: "PLAN_V3_SCHEMA_VERSION = 3"

definition PLAN_V3_TRANSCRIPT_DOMAIN :: bytes where
  "PLAN_V3_TRANSCRIPT_DOMAIN = as_bytes ''your-cloud/oci-plan.v3'' @ [0]"

definition PEER_PUBLIC_KEY_BYTES :: nat where
  [limits]: "PEER_PUBLIC_KEY_BYTES = 32"

definition PEER_PUBLIC_KEY_ENCODED_BYTES :: nat where
  [limits]: "PEER_PUBLIC_KEY_ENCODED_BYTES = 44"

definition MIN_PLAN_SERVICE_PORT :: u32 where
  [limits]: "MIN_PLAN_SERVICE_PORT = MIN_PLAN_LOCAL_PORT"

definition MAX_PLAN_SERVICE_PORT :: u32 where
  [limits]: "MAX_PLAN_SERVICE_PORT = MAX_PLAN_LOCAL_PORT"

definition LINK_LISTENER_TUNNEL_ADDRESS :: string where
  "LINK_LISTENER_TUNNEL_ADDRESS = ''10.66.66.1''"

definition LINK_INITIATOR_TUNNEL_ADDRESS :: string where
  "LINK_INITIATOR_TUNNEL_ADDRESS = ''10.66.66.2''"

section \<open>Operations, groups and roles\<close>

datatype PlanV3Group = GroupLink | GroupListenerPeer | GroupInitiatorPeer

datatype PlanV3Operation =
    V3PrepareLink | V3WithdrawLink
  | V3AttachLinkPeer | V3DetachLinkPeer
  | V3JoinLinkPeer | V3LeaveLinkPeer

fun plan_v3_operation_str :: "PlanV3Operation \<Rightarrow> string" where
  "plan_v3_operation_str V3PrepareLink = ''prepare_link''"
| "plan_v3_operation_str V3WithdrawLink = ''withdraw_link''"
| "plan_v3_operation_str V3AttachLinkPeer = ''attach_link_peer''"
| "plan_v3_operation_str V3DetachLinkPeer = ''detach_link_peer''"
| "plan_v3_operation_str V3JoinLinkPeer = ''join_link_peer''"
| "plan_v3_operation_str V3LeaveLinkPeer = ''leave_link_peer''"

fun plan_v3_operation_inverse :: "PlanV3Operation \<Rightarrow> PlanV3Operation" where
  "plan_v3_operation_inverse V3PrepareLink = V3WithdrawLink"
| "plan_v3_operation_inverse V3WithdrawLink = V3PrepareLink"
| "plan_v3_operation_inverse V3AttachLinkPeer = V3DetachLinkPeer"
| "plan_v3_operation_inverse V3DetachLinkPeer = V3AttachLinkPeer"
| "plan_v3_operation_inverse V3JoinLinkPeer = V3LeaveLinkPeer"
| "plan_v3_operation_inverse V3LeaveLinkPeer = V3JoinLinkPeer"

fun plan_v3_operation_group :: "PlanV3Operation \<Rightarrow> PlanV3Group" where
  "plan_v3_operation_group V3PrepareLink = GroupLink"
| "plan_v3_operation_group V3WithdrawLink = GroupLink"
| "plan_v3_operation_group V3AttachLinkPeer = GroupListenerPeer"
| "plan_v3_operation_group V3DetachLinkPeer = GroupListenerPeer"
| "plan_v3_operation_group V3JoinLinkPeer = GroupInitiatorPeer"
| "plan_v3_operation_group V3LeaveLinkPeer = GroupInitiatorPeer"

datatype LinkRole = Listener | Initiator

fun link_role_str :: "LinkRole \<Rightarrow> string" where
  "link_role_str Listener = ''listener''"
| "link_role_str Initiator = ''initiator''"

fun tunnel_address :: "LinkRole \<Rightarrow> string" where
  "tunnel_address Listener = LINK_LISTENER_TUNNEL_ADDRESS"
| "tunnel_address Initiator = LINK_INITIATOR_TUNNEL_ADDRESS"

section \<open>Readers\<close>

definition decode_peer_public_key :: "base64_engine \<Rightarrow> string \<Rightarrow> bytes option" where
  "decode_peer_public_key std v =
     (if length v \<noteq> PEER_PUBLIC_KEY_ENCODED_BYTES \<or> \<not> is_ascii v then None
      else do {
        decoded \<leftarrow> b64_decode std v;
        if length decoded \<noteq> PEER_PUBLIC_KEY_BYTES \<or> b64_encode std decoded \<noteq> v then None
        else Some decoded })"

definition canonical_peer_endpoint_host :: "string \<Rightarrow> bool" where
  "canonical_peer_endpoint_host host =
     (if length host < MIN_ROUTE_HOST_BYTES \<or> length host > MAX_ROUTE_HOST_BYTES
         \<or> \<not> is_ascii host
      then False
      else if \<not> lower_alnum (host ! 0) \<or> \<not> lower_alnum (host ! (length host - 1))
              \<or> contains_str host ''..''
      then False
      else list_all (\<lambda>c. lower_alnum c \<or> c = CHR ''-'' \<or> c = CHR ''.'') host)"

section \<open>The head of every document\<close>

record PlanHeadV3 =
  v3_schema_version :: u8
  v3_infrastructure_id :: string
  v3_machine_id :: string
  v3_operation :: PlanV3Operation

definition valid_v3_head ::
  "u8 \<Rightarrow> string \<Rightarrow> string \<Rightarrow> PlanV3Operation \<Rightarrow> PlanV3Group \<Rightarrow> bool" where
  "valid_v3_head schema_version infrastructure_id machine_id operation grp =
     (schema_version = PLAN_V3_SCHEMA_VERSION
      \<and> canonical_uuid_v4 infrastructure_id
      \<and> canonical_machine_id machine_id
      \<and> plan_v3_operation_group operation = grp)"

definition v3_head ::
  "u8 \<Rightarrow> string \<Rightarrow> string \<Rightarrow> PlanV3Operation \<Rightarrow> bytes protocol_result" where
  "v3_head schema_version infrastructure_id machine_id operation =
     and_then (append_field (PLAN_V3_TRANSCRIPT_DOMAIN @ u8_be schema_version)
                 (as_bytes infrastructure_id)) (\<lambda>t.
     and_then (append_field t (as_bytes machine_id)) (\<lambda>t.
     append_field t (as_bytes (plan_v3_operation_str operation))))"

abbreviation head_valid3 :: "'a PlanHeadV3_scheme \<Rightarrow> PlanV3Group \<Rightarrow> bool" where
  "head_valid3 d \<equiv> valid_v3_head (v3_schema_version d) (v3_infrastructure_id d)
     (v3_machine_id d) (v3_operation d)"

abbreviation head_transcript3 :: "'a PlanHeadV3_scheme \<Rightarrow> bytes protocol_result" where
  "head_transcript3 d \<equiv> v3_head (v3_schema_version d) (v3_infrastructure_id d)
     (v3_machine_id d) (v3_operation d)"

section \<open>The three shapes\<close>

record LinkPlanDocumentV3 = PlanHeadV3 +
  ln_link_role :: LinkRole

record ListenerPeerPlanDocumentV3 = PlanHeadV3 +
  lp_peer_public_key :: string
  lp_service_port :: u32

record InitiatorPeerPlanDocumentV3 = PlanHeadV3 +
  ip_peer_public_key :: string
  ip_peer_endpoint_host :: string
  ip_service_port :: u32

definition link_validate :: "LinkPlanDocumentV3 \<Rightarrow> LinkPlanDocumentV3 protocol_result" where
  "link_validate d = (if \<not> head_valid3 d GroupLink then Inl InvalidInput else Inr d)"

definition link_transcript :: "LinkPlanDocumentV3 \<Rightarrow> bytes protocol_result" where
  "link_transcript d =
     and_then (head_transcript3 d) (\<lambda>t.
     append_field t (as_bytes (link_role_str (ln_link_role d))))"

definition link_inverted :: "LinkPlanDocumentV3 \<Rightarrow> LinkPlanDocumentV3" where
  "link_inverted d = d\<lparr>v3_operation := plan_v3_operation_inverse (v3_operation d)\<rparr>"

definition link_is_undone_by :: "LinkPlanDocumentV3 \<Rightarrow> LinkPlanDocumentV3 \<Rightarrow> bool" where
  "link_is_undone_by d rollback = (link_inverted d = rollback)"

definition listener_peer_validate ::
  "base64_engine \<Rightarrow> ListenerPeerPlanDocumentV3 \<Rightarrow> ListenerPeerPlanDocumentV3 protocol_result" where
  "listener_peer_validate std d =
     (if \<not> head_valid3 d GroupListenerPeer
         \<or> decode_peer_public_key std (lp_peer_public_key d) = None
         \<or> \<not> (MIN_PLAN_SERVICE_PORT \<le> lp_service_port d \<and> lp_service_port d \<le> MAX_PLAN_SERVICE_PORT)
      then Inl InvalidInput
      else Inr d)"

definition listener_peer_transcript ::
  "base64_engine \<Rightarrow> ListenerPeerPlanDocumentV3 \<Rightarrow> bytes protocol_result" where
  "listener_peer_transcript std d =
     and_then (ok_or (decode_peer_public_key std (lp_peer_public_key d)) InvalidInput) (\<lambda>key.
     and_then (head_transcript3 d) (\<lambda>t.
     and_then (append_field t key) (\<lambda>t.
     Inr (t @ u32_be (lp_service_port d)))))"

definition listener_peer_inverted :: "ListenerPeerPlanDocumentV3 \<Rightarrow> ListenerPeerPlanDocumentV3" where
  "listener_peer_inverted d = d\<lparr>v3_operation := plan_v3_operation_inverse (v3_operation d)\<rparr>"

definition listener_peer_is_undone_by ::
  "ListenerPeerPlanDocumentV3 \<Rightarrow> ListenerPeerPlanDocumentV3 \<Rightarrow> bool" where
  "listener_peer_is_undone_by d rollback = (listener_peer_inverted d = rollback)"

definition initiator_peer_validate ::
  "base64_engine \<Rightarrow> InitiatorPeerPlanDocumentV3 \<Rightarrow> InitiatorPeerPlanDocumentV3 protocol_result" where
  "initiator_peer_validate std d =
     (if \<not> head_valid3 d GroupInitiatorPeer
         \<or> decode_peer_public_key std (ip_peer_public_key d) = None
         \<or> \<not> canonical_peer_endpoint_host (ip_peer_endpoint_host d)
         \<or> \<not> (MIN_PLAN_SERVICE_PORT \<le> ip_service_port d \<and> ip_service_port d \<le> MAX_PLAN_SERVICE_PORT)
      then Inl InvalidInput
      else Inr d)"

definition initiator_peer_transcript ::
  "base64_engine \<Rightarrow> InitiatorPeerPlanDocumentV3 \<Rightarrow> bytes protocol_result" where
  "initiator_peer_transcript std d =
     and_then (ok_or (decode_peer_public_key std (ip_peer_public_key d)) InvalidInput) (\<lambda>key.
     and_then (head_transcript3 d) (\<lambda>t.
     and_then (append_field t key) (\<lambda>t.
     and_then (append_field t (as_bytes (ip_peer_endpoint_host d))) (\<lambda>t.
     Inr (t @ u32_be (ip_service_port d))))))"

definition initiator_peer_inverted :: "InitiatorPeerPlanDocumentV3 \<Rightarrow> InitiatorPeerPlanDocumentV3" where
  "initiator_peer_inverted d = d\<lparr>v3_operation := plan_v3_operation_inverse (v3_operation d)\<rparr>"

definition initiator_peer_is_undone_by ::
  "InitiatorPeerPlanDocumentV3 \<Rightarrow> InitiatorPeerPlanDocumentV3 \<Rightarrow> bool" where
  "initiator_peer_is_undone_by d rollback = (initiator_peer_inverted d = rollback)"

section \<open>One plan, whatever its group\<close>

datatype PlanDocumentV3 =
    V3Link LinkPlanDocumentV3
  | V3ListenerPeer ListenerPeerPlanDocumentV3
  | V3InitiatorPeer InitiatorPeerPlanDocumentV3

fun plan_v3_validate :: "base64_engine \<Rightarrow> PlanDocumentV3 \<Rightarrow> PlanDocumentV3 protocol_result" where
  "plan_v3_validate std (V3Link d) = and_then (link_validate d) (\<lambda>d. Inr (V3Link d))"
| "plan_v3_validate std (V3ListenerPeer d) =
     and_then (listener_peer_validate std d) (\<lambda>d. Inr (V3ListenerPeer d))"
| "plan_v3_validate std (V3InitiatorPeer d) =
     and_then (initiator_peer_validate std d) (\<lambda>d. Inr (V3InitiatorPeer d))"

fun plan_v3_transcript :: "base64_engine \<Rightarrow> PlanDocumentV3 \<Rightarrow> bytes protocol_result" where
  "plan_v3_transcript std (V3Link d) = link_transcript d"
| "plan_v3_transcript std (V3ListenerPeer d) = listener_peer_transcript std d"
| "plan_v3_transcript std (V3InitiatorPeer d) = initiator_peer_transcript std d"

definition plan_v3_digest ::
  "base64_engine \<Rightarrow> sha256 \<Rightarrow> PlanDocumentV3 \<Rightarrow> bytes protocol_result" where
  "plan_v3_digest std sha d = and_then (plan_v3_transcript std d) (\<lambda>t. Inr (sha t))"

definition plan_v3_sha256 ::
  "base64_engine \<Rightarrow> sha256 \<Rightarrow> PlanDocumentV3 \<Rightarrow> string protocol_result" where
  "plan_v3_sha256 std sha d = and_then (plan_v3_digest std sha d) (\<lambda>b. Inr (encode_lower_hex b))"

fun plan_v3_operation :: "PlanDocumentV3 \<Rightarrow> PlanV3Operation" where
  "plan_v3_operation (V3Link d) = v3_operation d"
| "plan_v3_operation (V3ListenerPeer d) = v3_operation d"
| "plan_v3_operation (V3InitiatorPeer d) = v3_operation d"

definition plan_v3_group :: "PlanDocumentV3 \<Rightarrow> PlanV3Group" where
  "plan_v3_group d = plan_v3_operation_group (plan_v3_operation d)"

fun plan_v3_infrastructure_id :: "PlanDocumentV3 \<Rightarrow> string" where
  "plan_v3_infrastructure_id (V3Link d) = v3_infrastructure_id d"
| "plan_v3_infrastructure_id (V3ListenerPeer d) = v3_infrastructure_id d"
| "plan_v3_infrastructure_id (V3InitiatorPeer d) = v3_infrastructure_id d"

fun plan_v3_machine_id :: "PlanDocumentV3 \<Rightarrow> string" where
  "plan_v3_machine_id (V3Link d) = v3_machine_id d"
| "plan_v3_machine_id (V3ListenerPeer d) = v3_machine_id d"
| "plan_v3_machine_id (V3InitiatorPeer d) = v3_machine_id d"

fun plan_v3_is_undone_by :: "PlanDocumentV3 \<Rightarrow> PlanDocumentV3 \<Rightarrow> bool" where
  "plan_v3_is_undone_by (V3Link plan) (V3Link rollback) = link_is_undone_by plan rollback"
| "plan_v3_is_undone_by (V3ListenerPeer plan) (V3ListenerPeer rollback) =
     listener_peer_is_undone_by plan rollback"
| "plan_v3_is_undone_by (V3InitiatorPeer plan) (V3InitiatorPeer rollback) =
     initiator_peer_is_undone_by plan rollback"
| "plan_v3_is_undone_by _ _ = False"

section \<open>Accepting a document\<close>

record v3_json =
  read_operation3 :: "bytes \<Rightarrow> PlanV3Operation option"
  read_link :: "bytes \<Rightarrow> LinkPlanDocumentV3 option"
  read_listener_peer :: "bytes \<Rightarrow> ListenerPeerPlanDocumentV3 option"
  read_initiator_peer :: "bytes \<Rightarrow> InitiatorPeerPlanDocumentV3 option"

definition declared_operation3 :: "v3_json \<Rightarrow> bytes \<Rightarrow> PlanV3Operation protocol_result" where
  "declared_operation3 js document = ok_or (read_operation3 js document) InvalidInput"

text \<open>The strict decoding the declared group selects.\<close>

definition decode_shape3 :: "v3_json \<Rightarrow> bytes \<Rightarrow> PlanV3Group \<Rightarrow> PlanDocumentV3 protocol_result" where
  "decode_shape3 js document grp =
     (case grp of
       GroupLink \<Rightarrow>
         and_then (ok_or (read_link js document) InvalidInput) (\<lambda>d. Inr (V3Link d))
     | GroupListenerPeer \<Rightarrow>
         and_then (ok_or (read_listener_peer js document) InvalidInput) (\<lambda>d. Inr (V3ListenerPeer d))
     | GroupInitiatorPeer \<Rightarrow>
         and_then (ok_or (read_initiator_peer js document) InvalidInput) (\<lambda>d. Inr (V3InitiatorPeer d)))"

definition decode_plan_v3_document ::
  "base64_engine \<Rightarrow> v3_json \<Rightarrow> bytes \<Rightarrow> PlanDocumentV3 protocol_result" where
  "decode_plan_v3_document std js document =
     (if document = [] \<or> length document > MAX_PLAN_DOCUMENT_BYTES then Inl InvalidInput
      else and_then (declared_operation3 js document) (\<lambda>declared.
           and_then (decode_shape3 js document (plan_v3_operation_group declared))
             (plan_v3_validate std)))"

definition verify_plan_v3_document ::
  "base64_engine \<Rightarrow> v3_json \<Rightarrow> sha256 \<Rightarrow> bytes \<Rightarrow> string \<Rightarrow> PlanDocumentV3 protocol_result" where
  "verify_plan_v3_document std js sha document expected_sha256 =
     and_then (ok_or (decode_digest expected_sha256) InvalidInput) (\<lambda>expected.
     and_then (decode_plan_v3_document std js document) (\<lambda>parsed.
     and_then (plan_v3_digest std sha parsed) (\<lambda>digest.
     if digest \<noteq> expected then Inl InvalidInput else Inr parsed)))"

section \<open>Lemmas\<close>

lemma plan_v3_operation_str_inject [simp]:
  "plan_v3_operation_str a = plan_v3_operation_str b \<longleftrightarrow> a = b"
  by (cases a; cases b) simp_all

lemma fits_plan_v3_operation_str [simp]: "fits_u32 (as_bytes (plan_v3_operation_str a))"
  by (cases a) (simp_all add: fits_u32_small)

lemma link_role_str_inject [simp]: "link_role_str a = link_role_str b \<longleftrightarrow> a = b"
  by (cases a; cases b) simp_all

lemma fits_link_role_str [simp]: "fits_u32 (as_bytes (link_role_str a))"
  by (cases a) (simp_all add: fits_u32_small)

lemma plan_v3_operation_inverse_twice [simp]:
  "plan_v3_operation_inverse (plan_v3_operation_inverse a) = a"
  by (cases a) simp_all

lemma plan_v3_operation_inverse_moves [simp]: "plan_v3_operation_inverse a \<noteq> a"
  by (cases a) simp_all

lemma plan_v3_operation_inverse_group [simp]:
  "plan_v3_operation_group (plan_v3_operation_inverse a) = plan_v3_operation_group a"
  by (cases a) simp_all

lemma endpoint_host_is_route_host: "canonical_peer_endpoint_host = canonical_route_host"
  by (rule ext) (simp add: canonical_peer_endpoint_host_def canonical_route_host_def)

lemma decode_peer_public_key_iff:
  "decode_peer_public_key std v = Some k \<longleftrightarrow>
     length v = 44 \<and> is_ascii v \<and> b64_decode std v = Some k \<and> length k = 32 \<and> v = b64_encode std k"
  by (auto simp: decode_peer_public_key_def limits split: Option.bind_splits)

definition head_bytes3 :: "u8 \<times> string \<times> string \<times> PlanV3Operation \<Rightarrow> bytes" where
  "head_bytes3 = (\<lambda>(v, i, m, op). PLAN_V3_TRANSCRIPT_DOMAIN @ u8_be v @ field (as_bytes i)
     @ field (as_bytes m) @ field (as_bytes (plan_v3_operation_str op)))"

definition fits_head3 :: "u8 \<times> string \<times> string \<times> PlanV3Operation \<Rightarrow> bool" where
  "fits_head3 = (\<lambda>(v, i, m, op). fits_u32 (as_bytes i) \<and> fits_u32 (as_bytes m))"

interpretation v3_head_code: prefix_code head_bytes3 fits_head3
proof
  fix x y r s
  assume "fits_head3 x" "fits_head3 y" "head_bytes3 x @ r = head_bytes3 y @ s"
  then show "x = y \<and> r = s"
    by (cases x; cases y) (simp add: head_bytes3_def fits_head3_def wire_simps)
qed

lemmas [wire_simps] = v3_head_code.ser_cancel_iff

lemma v3_head_Inr:
  "v3_head v i m op = Inr t \<longleftrightarrow> fits_head3 (v, i, m, op) \<and> t = head_bytes3 (v, i, m, op)"
  by (auto simp: v3_head_def and_then_Inr_iff fits_head3_def head_bytes3_def)

lemma valid_v3_head_fits: "valid_v3_head v i m op grp \<Longrightarrow> fits_head3 (v, i, m, op)"
  by (simp add: valid_v3_head_def fits_head3_def fits_canonical)

fun plan_v3_shape :: "PlanDocumentV3 \<Rightarrow> PlanV3Group" where
  "plan_v3_shape (V3Link d) = GroupLink"
| "plan_v3_shape (V3ListenerPeer d) = GroupListenerPeer"
| "plan_v3_shape (V3InitiatorPeer d) = GroupInitiatorPeer"

fun plan_v3_head :: "PlanDocumentV3 \<Rightarrow> u8 \<times> string \<times> string \<times> PlanV3Operation" where
  "plan_v3_head (V3Link d) =
     (v3_schema_version d, v3_infrastructure_id d, v3_machine_id d, v3_operation d)"
| "plan_v3_head (V3ListenerPeer d) =
     (v3_schema_version d, v3_infrastructure_id d, v3_machine_id d, v3_operation d)"
| "plan_v3_head (V3InitiatorPeer d) =
     (v3_schema_version d, v3_infrastructure_id d, v3_machine_id d, v3_operation d)"

lemmas shape3_validate_defs =
  link_validate_def listener_peer_validate_def initiator_peer_validate_def

lemmas shape3_transcript_defs =
  link_transcript_def listener_peer_transcript_def initiator_peer_transcript_def

lemmas shape3_inverted_defs =
  link_inverted_def listener_peer_inverted_def initiator_peer_inverted_def

lemmas shape3_undone_by_defs =
  link_is_undone_by_def listener_peer_is_undone_by_def initiator_peer_is_undone_by_def

lemma plan_v3_validate_same: "plan_v3_validate std d = Inr d' \<Longrightarrow> d' = d"
  by (cases d) (auto simp: and_then_Inr_iff shape3_validate_defs split: if_splits)

lemma plan_v3_validate_group:
  "plan_v3_validate std d = Inr d' \<Longrightarrow> plan_v3_group d = plan_v3_shape d"
  by (cases d)
    (auto simp: plan_v3_group_def and_then_Inr_iff shape3_validate_defs valid_v3_head_def
      split: if_splits)

lemma shape3_transcript_Inr:
  "link_transcript l = Inr t \<longleftrightarrow>
     fits_head3 (plan_v3_head (V3Link l))
     \<and> t = head_bytes3 (plan_v3_head (V3Link l)) @ field (as_bytes (link_role_str (ln_link_role l)))"
  "listener_peer_transcript std p = Inr t \<longleftrightarrow>
     (\<exists>key. decode_peer_public_key std (lp_peer_public_key p) = Some key
        \<and> fits_head3 (plan_v3_head (V3ListenerPeer p))
        \<and> t = head_bytes3 (plan_v3_head (V3ListenerPeer p)) @ field key @ u32_be (lp_service_port p))"
  "initiator_peer_transcript std q = Inr t \<longleftrightarrow>
     (\<exists>key. decode_peer_public_key std (ip_peer_public_key q) = Some key
        \<and> fits_head3 (plan_v3_head (V3InitiatorPeer q))
        \<and> fits_u32 (as_bytes (ip_peer_endpoint_host q))
        \<and> t = head_bytes3 (plan_v3_head (V3InitiatorPeer q)) @ field key
            @ field (as_bytes (ip_peer_endpoint_host q)) @ u32_be (ip_service_port q))"
  by (auto simp: shape3_transcript_defs result_iff v3_head_Inr decode_peer_public_key_iff
      fits_u32_small)

lemma plan_v3_transcript_head:
  "plan_v3_transcript std d = Inr t \<Longrightarrow>
     fits_head3 (plan_v3_head d) \<and> (\<exists>rest. t = head_bytes3 (plan_v3_head d) @ rest)"
  by (cases d) (auto simp: shape3_transcript_Inr)

lemma plan_v3_transcript_inject:
  assumes "plan_v3_validate std d = Inr d" "plan_v3_validate std d' = Inr d'"
    and "plan_v3_transcript std d = Inr t" "plan_v3_transcript std d' = Inr t"
  shows "d = d'"
proof -
  have "plan_v3_head d = plan_v3_head d'"
    using plan_v3_transcript_head [OF assms(3)] plan_v3_transcript_head [OF assms(4)]
    by (auto simp: wire_simps)
  then have "plan_v3_operation d = plan_v3_operation d'"
    by (cases d; cases d') simp_all
  with assms(1,2) have "plan_v3_shape d = plan_v3_shape d'"
    by (simp flip: plan_v3_validate_group add: plan_v3_group_def)
  with assms(3,4) show ?thesis
    by (cases d; cases d')
      (auto simp: shape3_transcript_Inr wire_simps decode_peer_public_key_iff fits_u32_small
        intro!: LinkPlanDocumentV3.equality ListenerPeerPlanDocumentV3.equality
          InitiatorPeerPlanDocumentV3.equality)
qed

lemma plan_v3_validate_transcript:
  "plan_v3_validate std d = Inr d' \<Longrightarrow> \<exists>t. plan_v3_transcript std d = Inr t"
  by (cases d)
    (auto simp: and_then_Inr_iff shape3_validate_defs shape3_transcript_Inr valid_v3_head_fits
      endpoint_host_is_route_host fits_short grammar_lengths split: if_splits)

lemma decode_plan_v3_document_Inr:
  assumes "decode_plan_v3_document std js document = Inr d"
  shows "document \<noteq> [] \<and> length document \<le> MAX_PLAN_DOCUMENT_BYTES
    \<and> plan_v3_validate std d = Inr d
    \<and> (\<exists>op. read_operation3 js document = Some op
          \<and> plan_v3_shape d = plan_v3_operation_group op)"
proof -
  obtain op parsed where op: "read_operation3 js document = Some op"
    and read: "decode_shape3 js document (plan_v3_operation_group op) = Inr parsed"
    and ok: "plan_v3_validate std parsed = Inr d"
    and len: "document \<noteq> []" "length document \<le> MAX_PLAN_DOCUMENT_BYTES"
    using assms
    by (auto simp: decode_plan_v3_document_def declared_operation3_def result_iff split: if_splits)
  from read have "plan_v3_shape parsed = plan_v3_operation_group op"
    by (cases "plan_v3_operation_group op") (auto simp: decode_shape3_def and_then_Inr_iff)
  with plan_v3_validate_same [OF ok] ok op len show ?thesis by simp
qed

interpretation v3_gate: document_gate "decode_plan_v3_document std js" "plan_v3_transcript std" sha
    "verify_plan_v3_document std js sha" for std js sha
proof
  fix document :: bytes and hex :: string
  show "verify_plan_v3_document std js sha document hex =
      and_then (ok_or (decode_digest hex) InvalidInput) (\<lambda>expected.
      and_then (decode_plan_v3_document std js document) (\<lambda>parsed.
      and_then (and_then (plan_v3_transcript std parsed) (\<lambda>t. Inr (sha t))) (\<lambda>digest.
      if digest \<noteq> expected then Inl InvalidInput else Inr parsed)))"
    by (simp add: verify_plan_v3_document_def plan_v3_digest_def)
next
  fix document d
  assume "decode_plan_v3_document std js document = Inr d"
  then show "\<exists>t. plan_v3_transcript std d = Inr t"
    using plan_v3_validate_transcript decode_plan_v3_document_Inr by blast
next
  fix document document' d d' t
  assume "decode_plan_v3_document std js document = Inr d"
    "decode_plan_v3_document std js document' = Inr d'"
    and "plan_v3_transcript std d = Inr t" "plan_v3_transcript std d' = Inr t"
  then show "d = d'"
    using plan_v3_transcript_inject decode_plan_v3_document_Inr by blast
qed

fun plan_v3_inverted :: "PlanDocumentV3 \<Rightarrow> PlanDocumentV3" where
  "plan_v3_inverted (V3Link d) = V3Link (link_inverted d)"
| "plan_v3_inverted (V3ListenerPeer d) = V3ListenerPeer (listener_peer_inverted d)"
| "plan_v3_inverted (V3InitiatorPeer d) = V3InitiatorPeer (initiator_peer_inverted d)"

lemma plan_v3_inverted_operation:
  "plan_v3_operation (plan_v3_inverted d) = plan_v3_operation_inverse (plan_v3_operation d)"
  by (cases d) (simp_all add: shape3_inverted_defs)

interpretation v3_undo: reversible plan_v3_inverted plan_v3_is_undone_by
    "\<lambda>d. plan_v3_validate std d = Inr d" for std
proof
  fix plan rollback
  show "plan_v3_is_undone_by plan rollback \<longleftrightarrow> rollback = plan_v3_inverted plan"
    by (cases plan; cases rollback) (auto simp: shape3_undone_by_defs)
  show "plan_v3_inverted (plan_v3_inverted plan) = plan"
    by (cases plan) (simp_all add: shape3_inverted_defs)
  show "plan_v3_inverted plan \<noteq> plan"
    using plan_v3_inverted_operation [of plan] by (metis plan_v3_operation_inverse_moves)
  assume "plan_v3_validate std plan = Inr plan"
  then show "plan_v3_validate std (plan_v3_inverted plan) = Inr (plan_v3_inverted plan)"
    by (cases plan)
      (auto simp: and_then_Inr_iff shape3_validate_defs shape3_inverted_defs valid_v3_head_def
        split: if_splits)
qed

section \<open>Concrete plans\<close>

text \<open>An engine that spells 32 bytes by 44 characters: the bytes, then padding.\<close>

definition sample_std :: base64_engine where
  "sample_std =
     \<lparr>b64_decode = (\<lambda>s. Some (as_bytes (take 32 s))),
      b64_encode = (\<lambda>b. map (\<lambda>w. char_of (unat w)) b @ replicate 12 CHR ''='')\<rparr>"

definition sample_peer :: ListenerPeerPlanDocumentV3 where
  "sample_peer =
     \<lparr>v3_schema_version = 3, v3_infrastructure_id = sample_uuid, v3_machine_id = ''node-1'',
      v3_operation = V3AttachLinkPeer,
      lp_peer_public_key = replicate 32 CHR ''k'' @ replicate 12 CHR ''='', lp_service_port = 8080\<rparr>"

lemma sample_peer_key:
  "decode_peer_public_key sample_std (replicate 32 CHR ''k'' @ replicate 12 CHR ''='')
     = Some (as_bytes (replicate 32 CHR ''k''))"
proof -
  have "is_ascii (replicate n c)" if "code c < 128" for n c
    using that by (induction n) auto
  from this [of "CHR ''k''" 32] this [of "CHR ''=''" 12] show ?thesis
    unfolding decode_peer_public_key_iff
    by (simp add: sample_std_def code_def chars_as_bytes)
qed

definition sample_v3_json :: v3_json where
  "sample_v3_json =
     \<lparr>read_operation3 = \<lambda>_. Some V3AttachLinkPeer, read_link = \<lambda>_. None,
      read_listener_peer = \<lambda>_. Some sample_peer, read_initiator_peer = \<lambda>_. None\<rparr>"

lemma sample_peer_valid:
  "plan_v3_validate sample_std (V3ListenerPeer sample_peer) = Inr (V3ListenerPeer sample_peer)"
  using sample_peer_key
  by (simp add: listener_peer_validate_def sample_peer_def valid_v3_head_def sample_uuid_canonical
      sample_machine_canonical limits)

lemma sample_peer_decodes:
  "decode_plan_v3_document sample_std sample_v3_json [123] = Inr (V3ListenerPeer sample_peer)"
  using sample_peer_valid
  by (simp add: decode_plan_v3_document_def declared_operation3_def decode_shape3_def
      sample_v3_json_def limits)

section \<open>Properties\<close>

text \<open>A digest names one plan of the passage. What a digest accepts has the field
list of the operation it was read under and validates whole; whatever else the
digest accepts is that same plan, unless the hash collides on two transcripts.\<close>

theorem verify_plan_v3_names_one_plan:
  assumes "verify_plan_v3_document std js sha document hex = Inr d"
    and "verify_plan_v3_document std js sha document' hex = Inr d'"
  shows "plan_v3_validate std d = Inr d \<and> plan_v3_group d = plan_v3_shape d
    \<and> map_option plan_v3_operation_group (read_operation3 js document) = Some (plan_v3_shape d)
    \<and> (d = d' \<or> (\<exists>t t'. plan_v3_transcript std d = Inr t \<and> plan_v3_transcript std d' = Inr t'
          \<and> t \<noteq> t' \<and> sha t = sha t'))"
proof -
  have "decode_plan_v3_document std js document = Inr d"
    using assms(1) by (simp add: v3_gate.verify_iff)
  from decode_plan_v3_document_Inr [OF this] plan_v3_validate_group [of std d d]
    v3_gate.verify_names_one [OF assms]
  show ?thesis by (auto simp only: option.map)
qed

theorem verify_plan_v3_names_one_plan_witness:
  "\<exists>hex. verify_plan_v3_document sample_std sample_v3_json sample_sha [123] hex
       = Inr (V3ListenerPeer sample_peer)
     \<and> plan_v3_group (V3ListenerPeer sample_peer) = GroupListenerPeer"
proof -
  from v3_gate.verify_some_digest [OF sample_peer_decodes length_sample_sha] obtain hex where
    v: "verify_plan_v3_document sample_std sample_v3_json sample_sha [123] hex
      = Inr (V3ListenerPeer sample_peer)" ..
  from verify_plan_v3_names_one_plan [OF v v] v show ?thesis by auto
qed



text \<open>Every plan of the passage has exactly one document that undoes it; that relation
is symmetric, relates no plan to itself, keeps the shape, the infrastructure and
the machine, and relates valid plans to valid plans only.\<close>

theorem plan_v3_undoing_is_an_involution:
  assumes "plan_v3_is_undone_by d r"
  shows "plan_v3_is_undone_by d = (\<lambda>s. s = r) \<and> plan_v3_is_undone_by r d \<and> d \<noteq> r
    \<and> plan_v3_shape r = plan_v3_shape d
    \<and> plan_v3_infrastructure_id r = plan_v3_infrastructure_id d
    \<and> plan_v3_machine_id r = plan_v3_machine_id d
    \<and> (plan_v3_validate std d = Inr d) = (plan_v3_validate std r = Inr r)"
proof -
  have r: "r = plan_v3_inverted d" using assms by (simp add: v3_undo.undone_by_iff)
  have "plan_v3_is_undone_by d = (\<lambda>s. s = r)"
    by (rule ext) (simp add: r v3_undo.undone_by_iff)
  moreover have "plan_v3_shape r = plan_v3_shape d
      \<and> plan_v3_infrastructure_id r = plan_v3_infrastructure_id d
      \<and> plan_v3_machine_id r = plan_v3_machine_id d"
    unfolding r by (cases d) (simp_all add: shape3_inverted_defs)
  ultimately show ?thesis
    using assms v3_undo.undone_by_sym [of d r] v3_undo.undone_by_irrefl [of d]
      v3_undo.undone_by_valid [OF assms, of std] by blast
qed

theorem plan_v3_undoing_is_an_involution_witness:
  "plan_v3_is_undone_by (V3ListenerPeer (sample_peer\<lparr>v3_operation := V3DetachLinkPeer\<rparr>))
     (V3ListenerPeer sample_peer)"
proof -
  have "plan_v3_is_undone_by (V3ListenerPeer sample_peer)
      (V3ListenerPeer (sample_peer\<lparr>v3_operation := V3DetachLinkPeer\<rparr>))"
    by (simp add: listener_peer_is_undone_by_def listener_peer_inverted_def sample_peer_def)
  from plan_v3_undoing_is_an_involution [OF this] show ?thesis by blast
qed

end
