(* ===== verification/Std_Text.thy ===== *)
theory Std_Text
  imports Prelude
begin

text \<open>
  The part of the Rust standard library the scope and the consent read text with:
  the characters of a UTF-8 string, ASCII case and trimming, and \<open>IpAddr\<close>, its
  parser and its \<open>Display\<close>.
\<close>

section \<open>Characters\<close>

text \<open>
  \<open>str::chars\<close>: the code points a string's bytes encode. A Rust string is always
  well-formed UTF-8; the equations for a sequence cut short are never reached.
\<close>

fun chars :: "string \<Rightarrow> nat list" where
  "chars [] = []"
| "chars (x # s) =
     (if code x < 128 then code x # chars s
      else (case s of
        [] \<Rightarrow> []
      | y # s1 \<Rightarrow>
          if code x < 224 then (code x mod 32 * 64 + code y mod 64) # chars s1
          else (case s1 of
            [] \<Rightarrow> []
          | z # s2 \<Rightarrow>
              if code x < 240
              then (code x mod 32 * 4096 + code y mod 64 * 64 + code z mod 64) # chars s2
              else (case s2 of
                [] \<Rightarrow> []
              | w # s3 \<Rightarrow>
                  (code x mod 8 * 262144 + code y mod 64 * 4096 + code z mod 64 * 64
                     + code w mod 64) # chars s3))))"

text \<open>\<open>char::is_control\<close>, the category Cc.\<close>

definition is_control :: "nat \<Rightarrow> bool" where
  "is_control c = (c < 32 \<or> (127 \<le> c \<and> c < 160))"

lemma chars_ascii: "is_ascii s \<Longrightarrow> chars s = map code s"
  by (induction s) (simp_all add: is_ascii_def)

lemma chars_append_ascii: "is_ascii s \<Longrightarrow> chars (s @ t) = map code s @ chars t"
  by (induction s) (simp_all add: is_ascii_def)

section \<open>ASCII case and trimming\<close>

definition ascii_lowercase :: "char \<Rightarrow> char" where
  "ascii_lowercase c = (if is_ascii_uppercase c then char_of (code c + 32) else c)"

definition to_ascii_lowercase :: "string \<Rightarrow> string" where
  "to_ascii_lowercase s = map ascii_lowercase s"

definition eq_ignore_ascii_case :: "string \<Rightarrow> string \<Rightarrow> bool" where
  "eq_ignore_ascii_case s t = (to_ascii_lowercase s = to_ascii_lowercase t)"

text \<open>\<open>str::trim\<close> on the white space below 128; the sources refuse every other string beside it.\<close>

definition is_white :: "char \<Rightarrow> bool" where
  "is_white c = ((9 \<le> code c \<and> code c \<le> 13) \<or> code c = 32)"

definition trim :: "string \<Rightarrow> string" where
  "trim s = rev (dropWhile is_white (rev (dropWhile is_white s)))"

lemma code_char_of: "n < 256 \<Longrightarrow> code (char_of n) = n"
  by (simp add: code_def)

lemma ascii_lowercase_idem [simp]: "ascii_lowercase (ascii_lowercase c) = ascii_lowercase c"
  by (auto simp: ascii_lowercase_def is_ascii_uppercase_def code_char_of)

lemma to_ascii_lowercase_idem [simp]:
  "to_ascii_lowercase (to_ascii_lowercase s) = to_ascii_lowercase s"
  by (simp add: to_ascii_lowercase_def)

section \<open>Internet addresses\<close>

datatype Ipv4Addr = Ipv4 u8 u8 u8 u8

text \<open>The eight 16-bit segments, most significant first.\<close>

datatype Ipv6Addr = Ipv6 "u16 list"

datatype IpAddr = V4 Ipv4Addr | V6 Ipv6Addr

fun octets :: "Ipv4Addr \<Rightarrow> u8 list" where
  "octets (Ipv4 a b c d) = [a, b, c, d]"

fun segments :: "Ipv6Addr \<Rightarrow> u16 list" where
  "segments (Ipv6 ss) = ss"

fun to_ipv4_mapped :: "Ipv6Addr \<Rightarrow> Ipv4Addr option" where
  "to_ipv4_mapped (Ipv6 ss) =
     (case ss of
        [a, b, c, d, e, f, g, h] \<Rightarrow>
          if a = 0 \<and> b = 0 \<and> c = 0 \<and> d = 0 \<and> e = 0 \<and> f = 0xFFFF
          then Some (Ipv4 (ucast (drop_bit 8 g)) (ucast g) (ucast (drop_bit 8 h)) (ucast h))
          else None
      | _ \<Rightarrow> None)"

text \<open>\<open>char::to_digit\<close> of radix ten and sixteen.\<close>

definition to_digit :: "nat \<Rightarrow> char \<Rightarrow> nat option" where
  "to_digit radix c =
     (let d = (if is_ascii_digit c then code c - 48
               else if 97 \<le> code c \<and> code c \<le> 122 then code c - 87
               else if 65 \<le> code c \<and> code c \<le> 90 then code c - 55
               else 99)
      in if d < radix then Some d else None)"

text \<open>\<open>Parser::read_number\<close>: every digit that follows, refused past \<open>max_digits\<close>.\<close>

fun read_digits :: "nat \<Rightarrow> string \<Rightarrow> nat list \<times> string" where
  "read_digits radix [] = ([], [])"
| "read_digits radix (c # s) =
     (case to_digit radix c of
        None \<Rightarrow> ([], c # s)
      | Some d \<Rightarrow> apfst (Cons d) (read_digits radix s))"

definition digits_value :: "nat \<Rightarrow> nat list \<Rightarrow> nat" where
  "digits_value radix ds = foldl (\<lambda>v d. v * radix + d) 0 ds"

definition read_number ::
  "nat \<Rightarrow> nat \<Rightarrow> bool \<Rightarrow> nat \<Rightarrow> string \<Rightarrow> (nat \<times> string) option" where
  "read_number radix max_digits allow_zero_prefix bound s =
     (case read_digits radix s of (ds, rest) \<Rightarrow>
        if ds = [] \<or> length ds > max_digits then None
        else if \<not> allow_zero_prefix \<and> hd ds = 0 \<and> length ds > 1 then None
        else if digits_value radix ds > bound then None
        else Some (digits_value radix ds, rest))"

fun read_given_char :: "char \<Rightarrow> string \<Rightarrow> string option" where
  "read_given_char c [] = None"
| "read_given_char c (x # s) = (if x = c then Some s else None)"

text \<open>\<open>Parser::read_separator\<close>: the separator stands before every item but the first.\<close>

definition read_separator ::
  "char \<Rightarrow> nat \<Rightarrow> (string \<Rightarrow> ('a \<times> string) option) \<Rightarrow> string \<Rightarrow> ('a \<times> string) option" where
  "read_separator sep index inner s =
     (if index = 0 then inner s
      else do { s \<leftarrow> read_given_char sep s; inner s })"

definition read_octet :: "nat \<Rightarrow> string \<Rightarrow> (nat \<times> string) option" where
  "read_octet index = read_separator CHR ''.'' index (read_number 10 3 False 255)"

definition read_ipv4_addr :: "string \<Rightarrow> (Ipv4Addr \<times> string) option" where
  "read_ipv4_addr s = do {
     (a, s) \<leftarrow> read_octet 0 s;
     (b, s) \<leftarrow> read_octet 1 s;
     (c, s) \<leftarrow> read_octet 2 s;
     (d, s) \<leftarrow> read_octet 3 s;
     Some (Ipv4 (of_nat a) (of_nat b) (of_nat c) (of_nat d), s) }"

text \<open>\<open>read_groups\<close>: what it read, whether an embedded IPv4 address closed it, what is left.\<close>

function read_groups :: "nat \<Rightarrow> nat \<Rightarrow> string \<Rightarrow> u16 list \<times> bool \<times> string" where
  "read_groups limit i s =
     (if i \<ge> limit then ([], False, s)
      else (case (if i < limit - 1 then read_separator CHR '':'' i read_ipv4_addr s else None) of
          Some (Ipv4 a b c d, s') \<Rightarrow>
            ([of_nat (unat a * 256 + unat b), of_nat (unat c * 256 + unat d)], True, s')
        | None \<Rightarrow>
            (case read_separator CHR '':'' i (read_number 16 4 True 65535) s of
               None \<Rightarrow> ([], False, s)
             | Some (g, s') \<Rightarrow>
                 (case read_groups limit (i + 1) s' of
                    (gs, v4, s'') \<Rightarrow> (of_nat g # gs, v4, s'')))))"
  by pat_completeness auto
termination
  by (relation "measure (\<lambda>(limit, i, s). limit - i)") auto

declare read_groups.simps [simp del]

definition read_ipv6_addr :: "string \<Rightarrow> (Ipv6Addr \<times> string) option" where
  "read_ipv6_addr s =
     (case read_groups 8 0 s of (head, head_ipv4, s) \<Rightarrow>
        if length head = 8 then Some (Ipv6 head, s)
        else if head_ipv4 then None
        else do {
          s \<leftarrow> read_given_char CHR '':'' s;
          s \<leftarrow> read_given_char CHR '':'' s;
          let (tail, _, s) = read_groups (8 - (length head + 1)) 0 s;
          Some (Ipv6 (head @ replicate (8 - length head - length tail) 0 @ tail), s) })"

text \<open>\<open>IpAddr::from_str\<close>: one of the two readers has to consume the whole text.\<close>

definition ip_from_str :: "string \<Rightarrow> IpAddr option" where
  "ip_from_str s =
     (case (case read_ipv4_addr s of
              Some (a, rest) \<Rightarrow> Some (V4 a, rest)
            | None \<Rightarrow> map_option (apfst V6) (read_ipv6_addr s)) of
        Some (a, []) \<Rightarrow> Some a
      | _ \<Rightarrow> None)"

subsection \<open>Display\<close>

fun decimal :: "nat \<Rightarrow> string" where
  "decimal n = (if n < 10 then [hex_digit n] else decimal (n div 10) @ [hex_digit (n mod 10)])"

declare decimal.simps [simp del]

fun hexadecimal :: "nat \<Rightarrow> string" where
  "hexadecimal n =
     (if n < 16 then [hex_digit n] else hexadecimal (n div 16) @ [hex_digit (n mod 16)])"

declare hexadecimal.simps [simp del]

fun ipv4_to_string :: "Ipv4Addr \<Rightarrow> string" where
  "ipv4_to_string (Ipv4 a b c d) =
     decimal (unat a) @ ''.'' @ decimal (unat b) @ ''.'' @ decimal (unat c) @ ''.'' @ decimal (unat d)"

definition fmt_subslice :: "u16 list \<Rightarrow> string" where
  "fmt_subslice chunk = join_on CHR '':'' (map (\<lambda>w. hexadecimal (unat w)) chunk)"

text \<open>The first longest run of zero segments, as the walk of \<open>Display\<close> keeps it.\<close>

fun zero_span :: "nat \<Rightarrow> nat \<times> nat \<Rightarrow> nat \<times> nat \<Rightarrow> u16 list \<Rightarrow> nat \<times> nat" where
  "zero_span i current longest [] = longest"
| "zero_span i (start, len) longest (w # ws) =
     (if w = 0
      then let current = (if len = 0 then (i, 1) else (start, len + 1))
           in zero_span (i + 1) current (if snd current > snd longest then current else longest) ws
      else zero_span (i + 1) (0, 0) longest ws)"

definition ipv6_to_string :: "Ipv6Addr \<Rightarrow> string" where
  "ipv6_to_string address =
     (case to_ipv4_mapped address of
        Some ipv4 \<Rightarrow> ''::ffff:'' @ ipv4_to_string ipv4
      | None \<Rightarrow>
          (case zero_span 0 (0, 0) (0, 0) (segments address) of (start, len) \<Rightarrow>
             if len > 1
             then fmt_subslice (take start (segments address)) @ ''::''
                  @ fmt_subslice (drop (start + len) (segments address))
             else fmt_subslice (segments address)))"

fun ip_to_string :: "IpAddr \<Rightarrow> string" where
  "ip_to_string (V4 a) = ipv4_to_string a"
| "ip_to_string (V6 a) = ipv6_to_string a"

end
