(* ===== verification/Std_Stream.thy ===== *)
theory Std_Stream
  imports Std_Text
begin

text \<open>
  The part of the Rust standard library the judges read a machine's answer with:
  \<open>str::from_utf8\<close>, \<open>lines\<close>, \<open>splitn\<close>, white space, \<open>parse::<u64>\<close>, and what these
  functions return.
\<close>

section \<open>Bytes that are text\<close>

definition continuation :: "u8 \<Rightarrow> bool" where
  "continuation b = (0x80 \<le> b \<and> b \<le> 0xBF)"

text \<open>
  The well-formed sequences of \<open>core::str::validations\<close>: no overlong form, no
  surrogate, nothing above 0x10FFFF.
\<close>

fun utf8_ok :: "bytes \<Rightarrow> bool" where
  "utf8_ok [] = True"
| "utf8_ok (x # s) =
     (if x < 0x80 then utf8_ok s
      else (case s of
        [] \<Rightarrow> False
      | y # s1 \<Rightarrow>
          if 0xC2 \<le> x \<and> x \<le> 0xDF then continuation y \<and> utf8_ok s1
          else (case s1 of
            [] \<Rightarrow> False
          | z # s2 \<Rightarrow>
              if 0xE0 \<le> x \<and> x \<le> 0xEF
              then (if x = 0xE0 then 0xA0 \<le> y \<and> y \<le> 0xBF
                    else if x = 0xED then 0x80 \<le> y \<and> y \<le> 0x9F
                    else continuation y)
                   \<and> continuation z \<and> utf8_ok s2
              else (case s2 of
                [] \<Rightarrow> False
              | w # s3 \<Rightarrow>
                  0xF0 \<le> x \<and> x \<le> 0xF4
                  \<and> (if x = 0xF0 then 0x90 \<le> y \<and> y \<le> 0xBF
                      else if x = 0xF4 then 0x80 \<le> y \<and> y \<le> 0x8F
                      else continuation y)
                  \<and> continuation z \<and> continuation w \<and> utf8_ok s3))))"

definition text_of :: "bytes \<Rightarrow> string" where
  "text_of bs = map (\<lambda>w. char_of (unat w)) bs"

definition from_utf8 :: "bytes \<Rightarrow> string option" where
  "from_utf8 bs = (if utf8_ok bs then Some (text_of bs) else None)"

lemma text_of_as_bytes [simp]: "text_of (as_bytes s) = s"
  by (simp add: text_of_def chars_as_bytes)

lemma utf8_ok_ascii: "list_all (\<lambda>b. b < 0x80) bs \<Longrightarrow> utf8_ok bs"
  by (induction bs) simp_all

lemma as_bytes_ascii: "is_ascii s \<Longrightarrow> list_all (\<lambda>b. b < 0x80) (as_bytes s)"
  by (induction s) (simp_all add: as_bytes_def is_ascii_def code_def word_less_nat_alt)

lemma from_utf8_ascii [simp]: "is_ascii s \<Longrightarrow> from_utf8 (as_bytes s) = Some s"
  by (simp add: from_utf8_def utf8_ok_ascii as_bytes_ascii)

lemma of_char_char_of_u8 [simp]: "(of_char (char_of (unat w)) :: u8) = w"
proof -
  have "unat w < 2 ^ LENGTH(8)" by (rule unsigned_less)
  then have "unat (of_char (char_of (unat w)) :: u8) = unat w" by simp
  then show ?thesis by (simp add: word_unat_eq_iff)
qed

lemma as_bytes_text_of [simp]: "as_bytes (text_of bs) = bs"
  by (induction bs) (simp_all add: text_of_def as_bytes_def)

lemma from_utf8_Some: "from_utf8 bs = Some s \<Longrightarrow> bs = as_bytes s"
  by (auto simp: from_utf8_def split: if_splits)

section \<open>Lines and fields\<close>

abbreviation newline :: char where "newline \<equiv> CHR 0x0A"

abbreviation carriage_return :: char where "carriage_return \<equiv> CHR 0x0D"

definition strip_suffix_char :: "char \<Rightarrow> string \<Rightarrow> string option" where
  "strip_suffix_char c s = (if s \<noteq> [] \<and> last s = c then Some (butlast s) else None)"

lemma strip_suffix_char_Some [simp]: "strip_suffix_char c s = Some r \<longleftrightarrow> s = r @ [c]"
  by (cases s rule: rev_cases) (auto simp: strip_suffix_char_def)

definition strip_carriage_return :: "string \<Rightarrow> string" where
  "strip_carriage_return s = (case strip_suffix_char carriage_return s of None \<Rightarrow> s | Some r \<Rightarrow> r)"

text \<open>
  \<open>str::lines\<close>: every piece a line feed ends, less one carriage return before it,
  and what follows the last line feed when anything does.
\<close>

definition lines :: "string \<Rightarrow> string list" where
  "lines s =
     (let pieces = split_on newline s
      in map strip_carriage_return (butlast pieces)
         @ (if last pieces = [] then [] else [last pieces]))"

text \<open>\<open>str::splitn\<close> of a count that is not zero: the last field keeps its separators.\<close>

fun splitn :: "nat \<Rightarrow> char \<Rightarrow> string \<Rightarrow> string list" where
  "splitn (Suc (Suc n)) c s =
     (case split_once c s of None \<Rightarrow> [s] | Some (a, rest) \<Rightarrow> a # splitn (Suc n) c rest)"
| "splitn n c s = (if n = 0 then [] else [s])"

text \<open>\<open>split_once\<close> on a pattern of several bytes: the first place it occurs.\<close>

fun split_once_str :: "string \<Rightarrow> string \<Rightarrow> (string \<times> string) option" where
  "split_once_str p s =
     (case strip_prefix p s of
        Some rest \<Rightarrow> Some ([], rest)
      | None \<Rightarrow> (case s of
          [] \<Rightarrow> None
        | c # s \<Rightarrow> map_option (apfst (Cons c)) (split_once_str p s)))"

declare split_once_str.simps [simp del]

lemma split_once_str_Some: "split_once_str p s = Some (a, b) \<Longrightarrow> s = a @ p @ b"
proof (induction p s arbitrary: a rule: split_once_str.induct)
  case (1 p s)
  from 1(2) show ?case
    by (subst (asm) split_once_str.simps)
      (auto simp: strip_prefix_Some split: option.splits list.splits dest: 1(1) intro: 1(1))
qed

section \<open>White space\<close>

text \<open>\<open>char::is_whitespace\<close>, the property White\_Space.\<close>

definition is_whitespace :: "nat \<Rightarrow> bool" where
  "is_whitespace c =
     ((9 \<le> c \<and> c \<le> 13) \<or> c = 32 \<or> c = 0x85 \<or> c = 0xA0 \<or> c = 0x1680
      \<or> (0x2000 \<le> c \<and> c \<le> 0x200A) \<or> c = 0x2028 \<or> c = 0x2029 \<or> c = 0x202F
      \<or> c = 0x205F \<or> c = 0x3000)"

text \<open>\<open>s.trim().is_empty()\<close>.\<close>

definition blank :: "string \<Rightarrow> bool" where
  "blank s = list_all is_whitespace (chars s)"

section \<open>Numbers\<close>

definition decimal_value :: "string \<Rightarrow> nat" where
  "decimal_value s = foldl (\<lambda>v c. v * 10 + (code c - 48)) 0 s"

text \<open>\<open>str::parse::<u64>\<close>: one leading plus is allowed, an empty or too large number is not.\<close>

definition parse_u64 :: "string \<Rightarrow> u64 option" where
  "parse_u64 s =
     (let digits = (case s of c # r \<Rightarrow> if c = CHR ''+'' then r else s | [] \<Rightarrow> s)
      in if digits = [] \<or> \<not> list_all is_ascii_digit digits then None
         else if decimal_value digits \<ge> 2 ^ 64 then None
         else Some (of_nat (decimal_value digits)))"

definition is_lower_hex_text :: "string \<Rightarrow> bool" where
  "is_lower_hex_text s = list_all is_lower_hex s"

end
