(* ===== verification/Std_White.thy ===== *)
theory Std_White
  imports Std_Stream
begin

text \<open>
  White space as \<open>str\<close> knows it, on text that may hold any character: a UTF-8 string
  cut into its characters, trimming, and the splits at white space.
\<close>

section \<open>The characters of a string, as pieces of it\<close>

definition continuation_bytes :: "char \<Rightarrow> nat" where
  "continuation_bytes c =
     (if code c < 128 then 0 else if code c < 224 then 1 else if code c < 240 then 2 else 3)"

function cells :: "string \<Rightarrow> string list" where
  "cells [] = []"
| "cells (c # s) =
     (c # take (continuation_bytes c) s) # cells (drop (continuation_bytes c) s)"
  by pat_completeness auto
termination by (relation "measure length") auto

definition white_cell :: "string \<Rightarrow> bool" where
  "white_cell cell = (case chars cell of [u] \<Rightarrow> is_whitespace u | _ \<Rightarrow> False)"

definition trim_start_str :: "string \<Rightarrow> string" where
  "trim_start_str s = concat (dropWhile white_cell (cells s))"

definition trim_str :: "string \<Rightarrow> string" where
  "trim_str s = concat (rev (dropWhile white_cell (rev (dropWhile white_cell (cells s)))))"

text \<open>\<open>split_once(char::is_whitespace)\<close>, and \<open>split_whitespace\<close>, which gives no empty piece.\<close>

definition split_once_white :: "string \<Rightarrow> (string \<times> string) option" where
  "split_once_white s =
     (case dropWhile (\<lambda>cell. \<not> white_cell cell) (cells s) of
        [] \<Rightarrow> None
      | _ # rest \<Rightarrow> Some (concat (takeWhile (\<lambda>cell. \<not> white_cell cell) (cells s)), concat rest))"

fun white_fields :: "string list \<Rightarrow> string list" where
  "white_fields [] = [[]]"
| "white_fields (cell # rest) =
     (if white_cell cell then [] # white_fields rest
      else (cell @ hd (white_fields rest)) # tl (white_fields rest))"

definition split_whitespace :: "string \<Rightarrow> string list" where
  "split_whitespace s = filter (\<lambda>field. field \<noteq> []) (white_fields (cells s))"

text \<open>\<open>contains(char::is_whitespace)\<close>.\<close>

definition contains_white :: "string \<Rightarrow> bool" where
  "contains_white s = list_ex white_cell (cells s)"

section \<open>On text of the printable kind\<close>

lemma concat_cells [simp]: "concat (cells s) = s"
  by (induction s rule: cells.induct) simp_all

lemma cells_ascii: "is_ascii s \<Longrightarrow> cells s = map (\<lambda>c. [c]) s"
  by (induction s) (simp_all add: is_ascii_def continuation_bytes_def)

lemma white_cell_ascii: "code c < 128 \<Longrightarrow> white_cell [c] \<longleftrightarrow> is_white c"
  by (auto simp: white_cell_def is_whitespace_def is_white_def)

lemma white_fields_not_Nil [simp]: "white_fields cs \<noteq> []"
  by (induction cs) simp_all

text \<open>A piece without white space, and one that opens and closes without it.\<close>

definition solid :: "string \<Rightarrow> bool" where
  "solid s = list_all (\<lambda>c. code c < 128 \<and> \<not> is_white c) s"

lemma solid_append [simp]: "solid (a @ b) \<longleftrightarrow> solid a \<and> solid b"
  by (simp add: solid_def)

lemma solid_is_ascii: "solid s \<Longrightarrow> is_ascii s"
  by (auto simp: solid_def is_ascii_def list_all_iff)

lemma solid_cells: "solid s \<Longrightarrow> list_all (\<lambda>cell. \<not> white_cell cell) (cells s)"
  by (induction s) (simp_all add: solid_def continuation_bytes_def white_cell_ascii)

lemma white_fields_solid:
  "list_all (\<lambda>cell. \<not> white_cell cell) cs \<Longrightarrow>
     white_fields (cs @ rest) = (concat cs @ hd (white_fields rest)) # tl (white_fields rest)"
  by (induction cs) simp_all

lemma cells_append_ascii: "is_ascii a \<Longrightarrow> cells (a @ b) = map (\<lambda>c. [c]) a @ cells b"
  by (induction a) (simp_all add: is_ascii_def continuation_bytes_def)

lemma split_whitespace_solid: "solid s \<Longrightarrow> split_whitespace s = (if s = [] then [] else [s])"
  using white_fields_solid [OF solid_cells, of s "[]"] by (simp add: split_whitespace_def)

lemma split_whitespace_Cons:
  assumes "solid a" "a \<noteq> []" "code c < 128" "is_white c"
  shows "split_whitespace (a @ c # rest) = a # split_whitespace rest"
proof -
  have "cells (a @ c # rest) = cells a @ [c] # cells rest"
    using assms cells_append_ascii [of a "c # rest"] cells_ascii [of a] solid_is_ascii
    by (simp add: continuation_bytes_def)
  then show ?thesis
    using white_fields_solid [OF solid_cells [OF assms(1)], of "[c] # cells rest"] assms(2-)
    by (simp add: split_whitespace_def white_cell_ascii)
qed

lemma split_once_white_solid:
  assumes "solid a" "code c < 128" "is_white c"
  shows "split_once_white (a @ c # rest) = Some (a, rest)"
proof -
  have cells: "cells (a @ c # rest) = map (\<lambda>c. [c]) a @ [c] # cells rest"
    using assms cells_append_ascii [of a "c # rest"] solid_is_ascii by (simp add: continuation_bytes_def)
  have "list_all (\<lambda>cell. \<not> white_cell cell) (map (\<lambda>c. [c]) a)"
    using assms(1) by (auto simp: solid_def white_cell_ascii list_all_iff)
  moreover have "white_cell [c]" using assms by (simp add: white_cell_ascii)
  ultimately have "dropWhile (\<lambda>cell. \<not> white_cell cell) (cells (a @ c # rest)) = [c] # cells rest"
      "takeWhile (\<lambda>cell. \<not> white_cell cell) (cells (a @ c # rest)) = map (\<lambda>c. [c]) a"
    unfolding cells by (auto simp: list_all_iff takeWhile_append dropWhile_append)
  then show ?thesis by (simp add: split_once_white_def)
qed

lemma trim_str_ascii: "is_ascii s \<Longrightarrow> trim_str s = trim s"
proof -
  assume s: "is_ascii s"
  have white: "dropWhile white_cell (map (\<lambda>c. [c]) t) = map (\<lambda>c. [c]) (dropWhile is_white t)"
    if "is_ascii t" for t
    using that by (induction t) (simp_all add: is_ascii_def white_cell_ascii)
  have part: "is_ascii (rev (dropWhile is_white s))"
    using s by (auto simp: is_ascii_def list_all_iff dest: set_dropWhileD)
  have single: "concat (rev (map (\<lambda>c. [c]) t)) = rev t" for t :: string
    by (induction t) simp_all
  show ?thesis
    using white [OF s] white [OF part]
    by (simp add: trim_str_def trim_def cells_ascii [OF s] rev_map [symmetric])
      (simp add: single rev_map)
qed

lemma trim_closed: "s = [] \<or> (\<not> is_white (hd s) \<and> \<not> is_white (last s)) \<Longrightarrow> trim s = s"
proof -
  assume s: "s = [] \<or> (\<not> is_white (hd s) \<and> \<not> is_white (last s))"
  have kept: "t = [] \<or> \<not> is_white (hd t) \<Longrightarrow> dropWhile is_white t = t" for t
    by (cases t) simp_all
  from s show ?thesis using kept [of s] kept [of "rev s"] by (auto simp: trim_def hd_rev)
qed

lemma trim_start_str_closed: "s = [] \<or> (code (hd s) < 128 \<and> \<not> is_white (hd s)) \<Longrightarrow> trim_start_str s = s"
  by (cases s) (auto simp: trim_start_str_def continuation_bytes_def white_cell_ascii)

end
