(* ===== verification/Scope.thy ===== *)
theory Scope
  imports Std_Text
begin

text \<open>
  What the App and the native assistant exchange (\<open>bootstrap-protocol/src/lib.rs\<close>):
  the scope a consent window is opened on, with the target it names, and the one
  terminal event that comes back. The \<open>base64\<close> engine of the host key is a parameter.
\<close>

section \<open>Bounds and exit codes\<close>

definition REQUEST_ID_BYTES :: nat where
  [limits]: "REQUEST_ID_BYTES = 16"

definition MAX_HOST_BYTES :: nat where
  [limits]: "MAX_HOST_BYTES = 253"

definition MAX_USERNAME_BYTES :: nat where
  [limits]: "MAX_USERNAME_BYTES = 32"

definition HOST_KEY_BYTES :: nat where
  [limits]: "HOST_KEY_BYTES = 32"

definition HOST_KEY_ENCODED_BYTES :: nat where
  [limits]: "HOST_KEY_ENCODED_BYTES = 43"

definition MAX_ASSISTANT_REMAINING_MILLIS :: u64 where
  [limits]: "MAX_ASSISTANT_REMAINING_MILLIS = 300000"

definition MAX_ASSISTANT_TARGET_ADDRESSES :: nat where
  [limits]: "MAX_ASSISTANT_TARGET_ADDRESSES = 8"

definition MAX_LEDGER_ITEMS :: nat where
  [limits]: "MAX_LEDGER_ITEMS = 16"

definition MAX_LEDGER_NAME_BYTES :: nat where
  [limits]: "MAX_LEDGER_NAME_BYTES = 128"

definition MAX_CONFIGURATION_VALUE_BYTES :: nat where
  [limits]: "MAX_CONFIGURATION_VALUE_BYTES = 253"

definition MAX_ATTESTED_PERMITS_BYTES :: nat where
  [limits]: "MAX_ATTESTED_PERMITS_BYTES = 512"

definition ASSISTANT_EXIT_ACCESS_VERIFIED :: u8 where
  [limits]: "ASSISTANT_EXIT_ACCESS_VERIFIED = 0"

definition ASSISTANT_EXIT_REFUSED :: u8 where
  [limits]: "ASSISTANT_EXIT_REFUSED = 66"

definition ASSISTANT_EXIT_CANCELLED :: u8 where
  [limits]: "ASSISTANT_EXIT_CANCELLED = 67"

definition ASSISTANT_EXIT_UNAVAILABLE :: u8 where
  [limits]: "ASSISTANT_EXIT_UNAVAILABLE = 69"

definition ASSISTANT_EXIT_WATCHDOG_EXPIRED :: u8 where
  [limits]: "ASSISTANT_EXIT_WATCHDOG_EXPIRED = 124"

section \<open>Targets\<close>

datatype BootstrapMode = Create | Replace

datatype BootstrapAccessKind = Administrator | Root

record BootstrapTarget =
  tg_host :: string
  tg_port :: u16
  tg_username :: string
  tg_host_key_sha256 :: string
  tg_access_kind :: BootstrapAccessKind

definition canonical_request_id :: "string \<Rightarrow> bool" where
  "canonical_request_id request_id =
     (length request_id = REQUEST_ID_BYTES * 2 \<and> list_all is_lower_hex request_id)"

fun valid_target_ipv4 :: "Ipv4Addr \<Rightarrow> bool" where
  "valid_target_ipv4 (Ipv4 a b c d) =
     (\<not> (a = 0 \<and> b = 0 \<and> c = 0 \<and> d = 0)
      \<and> \<not> a = 127
      \<and> \<not> (a = 169 \<and> b = 254)
      \<and> \<not> (224 \<le> a \<and> a \<le> 239)
      \<and> \<not> (a = 255 \<and> b = 255 \<and> c = 255 \<and> d = 255))"

definition valid_target_ipv6 :: "Ipv6Addr \<Rightarrow> bool" where
  "valid_target_ipv6 address =
     (case to_ipv4_mapped address of
        Some mapped \<Rightarrow> valid_target_ipv4 mapped
      | None \<Rightarrow>
          segments address \<noteq> replicate 8 0
          \<and> segments address \<noteq> replicate 7 0 @ [1]
          \<and> \<not> (segments address ! 0) AND 0xFFC0 = 0xFE80
          \<and> \<not> drop_bit 8 (segments address ! 0) = 0xFF)"

fun valid_target_address :: "IpAddr \<Rightarrow> bool" where
  "valid_target_address (V4 address) = valid_target_ipv4 address"
| "valid_target_address (V6 address) = valid_target_ipv6 address"

definition valid_dns_label :: "string \<Rightarrow> bool" where
  "valid_dns_label label =
     (if label = [] \<or> length label > 63 then False
      else is_ascii_alphanumeric (label ! 0)
        \<and> is_ascii_alphanumeric (label ! (length label - 1))
        \<and> list_all (\<lambda>c. is_ascii_alphanumeric c \<or> c = CHR ''-'') label)"

definition canonical_host :: "string \<Rightarrow> string protocol_result" where
  "canonical_host host =
     (if host = [] \<or> length host > MAX_HOST_BYTES \<or> trim host \<noteq> host \<or> \<not> is_ascii host
      then Inl InvalidInput
      else (case ip_from_str host of
          Some address \<Rightarrow>
            if \<not> valid_target_address address then Inl InvalidInput
            else Inr (ip_to_string address)
        | None \<Rightarrow>
            if list_all (\<lambda>c. is_ascii_digit c \<or> c = CHR ''.'') host then Inl InvalidInput
            else if eq_ignore_ascii_case host ''localhost''
                 \<or> suffix ''.localhost'' (to_ascii_lowercase host)
                 \<or> suffix ''.'' host
                 \<or> list_ex (\<lambda>label. \<not> valid_dns_label label) (split_on CHR ''.'' host)
            then Inl InvalidInput
            else Inr (to_ascii_lowercase host)))"

definition valid_username :: "string \<Rightarrow> BootstrapAccessKind \<Rightarrow> bool" where
  "valid_username username access_kind =
     (if username = [] \<or> length username > MAX_USERNAME_BYTES \<or> \<not> is_ascii username then False
      else if \<not> (is_ascii_lowercase (username ! 0) \<or> username ! 0 = CHR ''_'')
              \<or> \<not> list_all (\<lambda>c. is_ascii_lowercase c \<or> is_ascii_digit c
                               \<or> c = CHR ''_'' \<or> c = CHR ''-'') (drop 1 username)
      then False
      else (case access_kind of
          Administrator \<Rightarrow> username \<noteq> ''root''
        | Root \<Rightarrow> username = ''root''))"

definition validate_host_key :: "base64_engine \<Rightarrow> string \<Rightarrow> unit protocol_result" where
  "validate_host_key no_pad host_key_sha256 =
     and_then (ok_or (strip_prefix ''SHA256:'' host_key_sha256) InvalidInput) (\<lambda>encoded.
     if length encoded \<noteq> HOST_KEY_ENCODED_BYTES \<or> \<not> is_ascii encoded then Inl InvalidInput
     else and_then (ok_or (b64_decode no_pad encoded) InvalidInput) (\<lambda>decoded.
       if length decoded \<noteq> HOST_KEY_BYTES \<or> b64_encode no_pad decoded \<noteq> encoded
       then Inl InvalidInput
       else Inr ()))"

definition validate_target :: "base64_engine \<Rightarrow> BootstrapTarget \<Rightarrow> BootstrapTarget protocol_result" where
  "validate_target no_pad target =
     and_then (canonical_host (tg_host target)) (\<lambda>host.
     let target = target\<lparr>tg_host := host\<rparr> in
     if tg_port target = 0 \<or> \<not> valid_username (tg_username target) (tg_access_kind target)
     then Inl InvalidInput
     else and_then (validate_host_key no_pad (tg_host_key_sha256 target)) (\<lambda>_. Inr target))"

text \<open>The loop over the frozen addresses, with the ones already seen.\<close>

fun valid_addresses_from :: "IpAddr list \<Rightarrow> string list \<Rightarrow> bool" where
  "valid_addresses_from seen [] = True"
| "valid_addresses_from seen (entry # entries) =
     (case ip_from_str entry of
        None \<Rightarrow> False
      | Some address \<Rightarrow>
          if (case address of V6 v6 \<Rightarrow> to_ipv4_mapped v6 \<noteq> None | V4 _ \<Rightarrow> False) then False
          else if ip_to_string address \<noteq> entry \<or> \<not> valid_target_address address
                  \<or> address \<in> set seen
          then False
          else valid_addresses_from (seen @ [address]) entries)"

definition valid_target_addresses :: "string list \<Rightarrow> bool" where
  "valid_target_addresses addresses =
     (if length addresses > MAX_ASSISTANT_TARGET_ADDRESSES then False
      else valid_addresses_from [] addresses)"

section \<open>The scope\<close>

datatype BootstrapStep = PersonalAccess | UnlockPersonalKey | PrivilegeEscalation | RootAccess

datatype BootstrapAction =
    AuditTargetReadOnly | InstallServerBundle | ActivateApprovedController

datatype NativePromptKind =
    ConfirmPersonalAccess | KeyPassphrase | SudoPassword | ConfirmRootAccess

record DeclaredTarget =
  dt_private :: bool
  dt_normally_on :: bool

record MachineConfigurationValues =
  mc_listen :: string
  mc_allowed_source :: string
  mc_relay_endpoint :: string

definition configuration_values_valid :: "MachineConfigurationValues \<Rightarrow> bool" where
  "configuration_values_valid values =
     list_all (\<lambda>v. v \<noteq> [] \<and> length v \<le> MAX_CONFIGURATION_VALUE_BYTES
         \<and> \<not> list_ex is_control (chars v))
       [mc_listen values, mc_allowed_source values, mc_relay_endpoint values]"

record AssistantScopeV1 =
  sc_schema_version :: u8
  sc_request_id :: string
  sc_mode :: BootstrapMode
  sc_target :: BootstrapTarget
  sc_step :: BootstrapStep
  sc_actions :: "BootstrapAction list"
  sc_prompt :: NativePromptKind
  sc_target_addresses :: "string list"
  sc_machine_configuration :: "MachineConfigurationValues option"
  sc_declared_target :: "DeclaredTarget option"
  sc_issued_at_monotonic_nanos :: u64
  sc_remaining_millis :: u64

definition APPROVED_SCOPES :: "BootstrapAction list list" where
  "APPROVED_SCOPES = [[AuditTargetReadOnly], [InstallServerBundle, ActivateApprovedController]]"

definition approved_scope :: "BootstrapAction list \<Rightarrow> bool" where
  "approved_scope actions = list_ex (\<lambda>scope. scope = actions) APPROVED_SCOPES"

definition scope_covers :: "BootstrapAction list \<Rightarrow> BootstrapAction \<Rightarrow> bool" where
  "scope_covers actions action = (action \<in> set actions)"

definition declaration_matches_scope :: "DeclaredTarget option \<Rightarrow> BootstrapAction list \<Rightarrow> bool" where
  "declaration_matches_scope declaration actions =
     (let judges_a_placement = scope_covers actions InstallServerBundle
            \<or> scope_covers actions ActivateApprovedController
      in (declaration \<noteq> None) = judges_a_placement)"

definition configuration_matches_scope ::
  "MachineConfigurationValues option \<Rightarrow> BootstrapAction list \<Rightarrow> bool" where
  "configuration_matches_scope configuration actions =
     (case (configuration, scope_covers actions InstallServerBundle) of
        (Some values, True) \<Rightarrow> configuration_values_valid values
      | (None, False) \<Rightarrow> True
      | _ \<Rightarrow> False)"

fun prompt_matches_scope ::
  "NativePromptKind \<Rightarrow> BootstrapStep \<Rightarrow> BootstrapAccessKind \<Rightarrow> bool" where
  "prompt_matches_scope ConfirmPersonalAccess PersonalAccess Administrator = True"
| "prompt_matches_scope KeyPassphrase UnlockPersonalKey _ = True"
| "prompt_matches_scope SudoPassword PrivilegeEscalation Administrator = True"
| "prompt_matches_scope ConfirmRootAccess RootAccess Root = True"
| "prompt_matches_scope _ _ _ = False"

definition scope_validate :: "base64_engine \<Rightarrow> AssistantScopeV1 \<Rightarrow> AssistantScopeV1 protocol_result" where
  "scope_validate no_pad scope =
     (if sc_schema_version scope \<noteq> 1
         \<or> \<not> canonical_request_id (sc_request_id scope)
         \<or> \<not> (1 \<le> sc_remaining_millis scope \<and> sc_remaining_millis scope \<le> MAX_ASSISTANT_REMAINING_MILLIS)
         \<or> \<not> prompt_matches_scope (sc_prompt scope) (sc_step scope) (tg_access_kind (sc_target scope))
         \<or> \<not> valid_target_addresses (sc_target_addresses scope)
         \<or> \<not> approved_scope (sc_actions scope)
         \<or> \<not> configuration_matches_scope (sc_machine_configuration scope) (sc_actions scope)
         \<or> \<not> declaration_matches_scope (sc_declared_target scope) (sc_actions scope)
      then Inl InvalidInput
      else and_then (validate_target no_pad (sc_target scope)) (\<lambda>target.
           Inr (scope\<lparr>sc_target := target\<rparr>)))"

section \<open>The terminal event\<close>

datatype AssistantEventKind =
    PromptOpen | AccessVerified | EventRefused | EventCancelled | EventExpired | EventUnavailable

fun terminal_exit_code :: "AssistantEventKind \<Rightarrow> u8 option" where
  "terminal_exit_code PromptOpen = None"
| "terminal_exit_code AccessVerified = Some ASSISTANT_EXIT_ACCESS_VERIFIED"
| "terminal_exit_code EventRefused = Some ASSISTANT_EXIT_REFUSED"
| "terminal_exit_code EventCancelled = Some ASSISTANT_EXIT_CANCELLED"
| "terminal_exit_code EventExpired = Some ASSISTANT_EXIT_WATCHDOG_EXPIRED"
| "terminal_exit_code EventUnavailable = Some ASSISTANT_EXIT_UNAVAILABLE"

record AttestedInstallationScopeV1 =
  at_suffices :: bool
  at_permits :: string

datatype AssistantRefusalCauseV1 =
    PolicyUnreadableWithoutSecret | PolicyNeedsTerminal | SudoPasswordRefused | PolicyAmbiguous

record AssistantRefusalV1 =
  rf_cause :: AssistantRefusalCauseV1
  rf_detail :: string

datatype LedgerItemKind =
    KindPackage | KindAccount | KindDirectory | KindFile | KindUnitState
  | KindCredentialSource | KindAssociation

datatype LedgerProvenance = LedgerCreated | LedgerFound | LedgerUnknown

record LedgerItemV1 =
  li_kind :: LedgerItemKind
  li_name :: string
  li_provenance :: LedgerProvenance

record AssistantEventV1 =
  ev_schema_version :: u8
  ev_request_id :: string
  ev_event :: AssistantEventKind
  ev_installation_scope :: "AttestedInstallationScopeV1 option"
  ev_install_ledger :: "LedgerItemV1 list option"
  ev_refusal :: "AssistantRefusalV1 option"

text \<open>The three conditional checks of \<open>AssistantEventV1::validate\<close>, each on what it reads.\<close>

definition installation_scope_refused :: "bool \<Rightarrow> AttestedInstallationScopeV1 \<Rightarrow> bool" where
  "installation_scope_refused carrier scope =
     (let coherent = (at_suffices scope = (at_permits scope = []));
          bounded = (length (at_permits scope) \<le> MAX_ATTESTED_PERMITS_BYTES
                     \<and> is_ascii (at_permits scope))
      in \<not> carrier \<or> \<not> coherent \<or> \<not> bounded)"

definition refusal_refused :: "AssistantEventKind \<Rightarrow> AssistantRefusalV1 \<Rightarrow> bool" where
  "refusal_refused event refusal =
     (event \<noteq> EventRefused
      \<or> length (rf_detail refusal) > MAX_ATTESTED_PERMITS_BYTES
      \<or> \<not> is_ascii (rf_detail refusal)
      \<or> list_ex is_ascii_control (rf_detail refusal))"

definition ledger_refused :: "bool \<Rightarrow> LedgerItemV1 list \<Rightarrow> bool" where
  "ledger_refused carrier ledger =
     (\<not> carrier \<or> length ledger > MAX_LEDGER_ITEMS
      \<or> list_ex (\<lambda>item. li_name item = [] \<or> length (li_name item) > MAX_LEDGER_NAME_BYTES
             \<or> \<not> is_ascii (li_name item) \<or> list_ex is_ascii_control (li_name item)) ledger)"

definition event_validate :: "AssistantEventV1 \<Rightarrow> AssistantEventV1 protocol_result" where
  "event_validate event =
     (if ev_schema_version event \<noteq> 1 \<or> \<not> canonical_request_id (ev_request_id event)
      then Inl InvalidInput
      else let carrier = (ev_event event = AccessVerified \<or> ev_event event = EventRefused) in
        if (case ev_installation_scope event of
              Some scope \<Rightarrow> installation_scope_refused carrier scope | None \<Rightarrow> False)
        then Inl InvalidInput
        else if (case ev_refusal event of
              Some refusal \<Rightarrow> refusal_refused (ev_event event) refusal | None \<Rightarrow> False)
        then Inl InvalidInput
        else if (case ev_install_ledger event of
              Some ledger \<Rightarrow> ledger_refused carrier ledger | None \<Rightarrow> False)
        then Inl InvalidInput
        else Inr event)"

section \<open>Lemmas\<close>

lemma approved_scope_iff:
  "approved_scope actions \<longleftrightarrow>
     actions = [AuditTargetReadOnly] \<or> actions = [InstallServerBundle, ActivateApprovedController]"
  by (auto simp: approved_scope_def APPROVED_SCOPES_def)

lemma configuration_matches_scope_iff:
  "configuration_matches_scope configuration actions \<longleftrightarrow>
     (configuration \<noteq> None) = scope_covers actions InstallServerBundle
     \<and> pred_option configuration_values_valid configuration"
  by (cases "scope_covers actions InstallServerBundle")
    (auto simp: configuration_matches_scope_def split: option.splits)

text \<open>What one displayed entry has to be: the one spelling of an address a host may hold.\<close>

definition frozen_as :: "IpAddr \<Rightarrow> string \<Rightarrow> bool" where
  "frozen_as address entry =
     (ip_from_str entry = Some address \<and> entry = ip_to_string address
      \<and> valid_target_address address
      \<and> (case address of V6 v6 \<Rightarrow> to_ipv4_mapped v6 = None | V4 _ \<Rightarrow> True))"

lemma valid_addresses_from_iff:
  "valid_addresses_from seen entries \<longleftrightarrow>
     (\<exists>addresses. list_all2 frozen_as addresses entries
        \<and> distinct addresses \<and> set addresses \<inter> set seen = {})"
proof (induction entries arbitrary: seen)
  case (Cons entry entries)
  show ?case
  proof (cases "\<exists>address. frozen_as address entry")
    case True
    then obtain address where address: "frozen_as address entry" ..
    then have step: "valid_addresses_from seen (entry # entries) \<longleftrightarrow>
        address \<notin> set seen \<and> valid_addresses_from (seen @ [address]) entries"
      by (auto simp: frozen_as_def split: IpAddr.splits)
    have only: "frozen_as a entry \<longleftrightarrow> a = address" for a
      using address by (auto simp: frozen_as_def)
    have "(\<exists>as. list_all2 frozen_as as (entry # entries) \<and> distinct as \<and> set as \<inter> set seen = {})
        \<longleftrightarrow> (\<exists>as. list_all2 frozen_as as entries \<and> distinct (address # as)
              \<and> set (address # as) \<inter> set seen = {})"
      unfolding list_all2_Cons2 only by blast
    then show ?thesis unfolding step Cons.IH by auto
  next
    case False
    have "\<not> valid_addresses_from seen (entry # entries)"
    proof (cases "ip_from_str entry")
      case (Some address)
      with False have "\<not> frozen_as address entry" by blast
      with Some show ?thesis by (cases address) (auto simp: frozen_as_def)
    qed simp
    with False show ?thesis by (auto simp: list_all2_Cons2)
  qed
qed auto

lemma frozen_as_determined: "frozen_as a entry \<Longrightarrow> frozen_as b entry \<Longrightarrow> a = b"
  unfolding frozen_as_def by (metis option.inject)

lemma frozen_entries_distinct:
  "list_all2 frozen_as addresses entries \<Longrightarrow> distinct addresses \<Longrightarrow> distinct entries"
proof (induction rule: list_all2_induct)
  case (Cons a as e es)
  have "e \<notin> set es"
  proof
    assume "e \<in> set es"
    then obtain i where "i < length es" "es ! i = e" by (auto simp: in_set_conv_nth)
    with Cons.hyps have "frozen_as (as ! i) e" "i < length as"
      by (auto simp: list_all2_conv_all_nth)
    with Cons.hyps(1) have "a \<in> set as" using frozen_as_determined nth_mem by metis
    with Cons.prems show False by simp
  qed
  with Cons show ?case by simp
qed simp

lemma validate_host_key_Inr:
  "validate_host_key no_pad k = Inr u \<longleftrightarrow>
     (\<exists>d. length d = 32 \<and> k = ''SHA256:'' @ b64_encode no_pad d
        \<and> length (b64_encode no_pad d) = 43 \<and> is_ascii (b64_encode no_pad d)
        \<and> b64_decode no_pad (b64_encode no_pad d) = Some d)"
  by (auto simp: validate_host_key_def result_iff strip_prefix_Some limits split: if_splits)

lemma validate_target_Inr:
  "validate_target no_pad target = Inr target' \<longleftrightarrow>
     (\<exists>host. canonical_host (tg_host target) = Inr host \<and> target' = target\<lparr>tg_host := host\<rparr>)
     \<and> tg_port target \<noteq> 0 \<and> valid_username (tg_username target) (tg_access_kind target)
     \<and> validate_host_key no_pad (tg_host_key_sha256 target) = Inr ()"
  by (auto simp: validate_target_def result_iff Let_def split: if_splits)

lemma valid_dns_label_lower:
  "valid_dns_label label \<Longrightarrow> valid_dns_label (to_ascii_lowercase label)"
proof -
  have alnum: "is_ascii_alphanumeric c \<Longrightarrow> is_ascii_alphanumeric (ascii_lowercase c)" for c
    by (auto simp: ascii_lowercase_def is_ascii_alphanumeric_def is_ascii_digit_def
        is_ascii_uppercase_def is_ascii_lowercase_def code_char_of)
  assume l: "valid_dns_label label"
  then have "label \<noteq> []" "length label \<le> 63" by (auto simp: valid_dns_label_def split: if_splits)
  moreover have "ascii_lowercase CHR ''-'' = CHR ''-''"
    by (simp add: ascii_lowercase_def ascii_simps)
  ultimately show ?thesis
    using l alnum
    by (auto simp: valid_dns_label_def to_ascii_lowercase_def list_all_iff split: if_splits)
qed

lemma localhost_lower: "to_ascii_lowercase ''localhost'' = ''localhost''"
  by (simp add: to_ascii_lowercase_def ascii_lowercase_def ascii_simps)

lemma canonical_host_name:
  assumes "canonical_host host = Inr host'" "ip_from_str host = None"
  shows "host' = to_ascii_lowercase host" "length host' \<le> 253"
    "list_all valid_dns_label (split_on CHR ''.'' host)" "host' \<noteq> ''localhost''"
proof -
  have facts: "host' = to_ascii_lowercase host" "length host \<le> 253"
    "\<not> eq_ignore_ascii_case host ''localhost''"
    "\<not> list_ex (\<lambda>label. \<not> valid_dns_label label) (split_on CHR ''.'' host)"
    using assms by (simp_all add: canonical_host_def limits split: if_splits)
  then show "host' = to_ascii_lowercase host"
    "list_all valid_dns_label (split_on CHR ''.'' host)"
    by (simp_all add: list_ex_iff list_all_iff)
  show "length host' \<le> 253" using facts(1,2) by (simp add: to_ascii_lowercase_def)
  show "host' \<noteq> ''localhost''"
    using facts(1,3) localhost_lower by (simp add: eq_ignore_ascii_case_def)
qed

section \<open>A concrete scope\<close>

definition sample_target :: BootstrapTarget where
  "sample_target =
     \<lparr>tg_host = ''192.168.1.20'', tg_port = 22, tg_username = ''alice'',
      tg_host_key_sha256 = ''SHA256:'' @ replicate 32 CHR ''h'' @ replicate 11 CHR ''A'',
      tg_access_kind = Administrator\<rparr>"

text \<open>An engine that spells 32 bytes by 43 characters: the bytes, then filler.\<close>

definition sample_no_pad :: base64_engine where
  "sample_no_pad =
     \<lparr>b64_decode = (\<lambda>s. Some (as_bytes (take 32 s))),
      b64_encode = (\<lambda>b. map (\<lambda>w. char_of (unat w)) b @ replicate 11 CHR ''A'')\<rparr>"

definition sample_scope :: AssistantScopeV1 where
  "sample_scope =
     \<lparr>sc_schema_version = 1, sc_request_id = replicate 32 CHR ''a'', sc_mode = Create,
      sc_target = sample_target, sc_step = PersonalAccess,
      sc_actions = [InstallServerBundle, ActivateApprovedController],
      sc_prompt = ConfirmPersonalAccess, sc_target_addresses = [''192.168.1.20''],
      sc_machine_configuration = Some \<lparr>mc_listen = ''0.0.0.0:8443'',
        mc_allowed_source = ''192.168.1.0/24'', mc_relay_endpoint = ''relay.home:443''\<rparr>,
      sc_declared_target = Some \<lparr>dt_private = True, dt_normally_on = True\<rparr>,
      sc_issued_at_monotonic_nanos = 5, sc_remaining_millis = 60000\<rparr>"

lemma sample_address:
  "ip_from_str ''192.168.1.20'' = Some (V4 (Ipv4 192 168 1 20))"
  "ip_to_string (V4 (Ipv4 192 168 1 20)) = ''192.168.1.20''"
  by code_simp+

lemma sample_target_valid: "validate_target sample_no_pad sample_target = Inr sample_target"
proof -
  have host: "canonical_host ''192.168.1.20'' = Inr ''192.168.1.20''"
    using sample_address
    by (simp add: canonical_host_def limits trim_def is_white_def code_def)
  have key: "validate_host_key sample_no_pad (tg_host_key_sha256 sample_target) = Inr ()"
    unfolding validate_host_key_Inr
    using is_ascii_replicate [of "CHR ''h''" 32] is_ascii_replicate [of "CHR ''A''" 11]
    by (intro exI [of _ "as_bytes (replicate 32 CHR ''h'')"])
      (simp add: sample_no_pad_def sample_target_def chars_as_bytes code_def)
  have user: "valid_username ''alice'' Administrator"
    by (simp add: valid_username_def limits ascii_simps)
  show ?thesis
    unfolding validate_target_Inr using host key user by (simp add: sample_target_def)
qed

lemma sample_scope_valid: "scope_validate sample_no_pad sample_scope = Inr sample_scope"
proof -
  have request: "canonical_request_id (replicate 32 CHR ''a'')"
    by (simp add: canonical_request_id_def limits ascii_simps list_all_iff)
  have triple: "configuration_values_valid \<lparr>mc_listen = ''0.0.0.0:8443'',
        mc_allowed_source = ''192.168.1.0/24'', mc_relay_endpoint = ''relay.home:443''\<rparr>"
    by (simp add: configuration_values_valid_def limits is_control_def code_def)
  have addresses: "valid_target_addresses [''192.168.1.20'']"
    using sample_address by (simp add: valid_target_addresses_def limits)
  show ?thesis
    using request triple addresses sample_target_valid
    by (simp add: scope_validate_def sample_scope_def sample_target_def limits approved_scope_iff
        configuration_matches_scope_iff declaration_matches_scope_def scope_covers_def)
qed

section \<open>Properties\<close>



text \<open>The frozen addresses a human reads are the ones that are dialled. A set is
accepted exactly when it has at most eight entries, no two equal, and each is the
one text its address is displayed as, of an address a remote host may hold and not
an IPv4 address in IPv6 clothing.\<close>

theorem frozen_addresses_are_canonical:
  "valid_target_addresses entries \<longleftrightarrow>
     length entries \<le> 8 \<and> distinct entries
     \<and> list_all (\<lambda>entry. \<exists>address. frozen_as address entry) entries"
proof -
  have "(\<exists>addresses. list_all2 frozen_as addresses entries \<and> distinct addresses)
      \<longleftrightarrow> distinct entries \<and> list_all (\<lambda>entry. \<exists>address. frozen_as address entry) entries"
    (is "?frozen \<longleftrightarrow> ?texts")
  proof
    assume ?frozen
    then obtain addresses where a: "list_all2 frozen_as addresses entries" "distinct addresses"
      by blast
    from a(1) have "list_all (\<lambda>entry. \<exists>address. frozen_as address entry) entries"
      by (induction rule: list_all2_induct) auto
    with frozen_entries_distinct [OF a] show ?texts by simp
  next
    assume ?texts
    then obtain f where f: "\<forall>e \<in> set entries. frozen_as (f e) e"
      by (auto simp: list_all_iff) metis
    then have "list_all2 frozen_as (map f entries) entries"
      by (simp add: list_all2_map1 list_all2_same)
    moreover have "inj_on f (set entries)"
      using f unfolding frozen_as_def by (intro inj_onI) metis
    with \<open>?texts\<close> have "distinct (map f entries)" by (simp add: distinct_map)
    ultimately show ?frozen by blast
  qed
  then show ?thesis
    by (simp add: valid_target_addresses_def valid_addresses_from_iff limits)
qed

text \<open>A validated target is reachable, named once and bound to one host key. Its host
is the display of an address a remote host may hold or a lower-case DNS name of
valid labels other than localhost; its port is not zero; the user is root exactly
when root access is requested, and can never be read as an option; and the host
key is the one spelling of 32 bytes.\<close>

theorem validated_target_contract:
  assumes "validate_target no_pad target = Inr target'"
  shows "target' = target\<lparr>tg_host := tg_host target'\<rparr> \<and> tg_port target \<noteq> 0
    \<and> ((\<exists>address. valid_target_address address \<and> tg_host target' = ip_to_string address)
       \<or> (list_all valid_dns_label (split_on CHR ''.'' (tg_host target))
          \<and> tg_host target' = to_ascii_lowercase (tg_host target)
          \<and> tg_host target' \<noteq> ''localhost''))
    \<and> (tg_username target = ''root'') = (tg_access_kind target = Root)
    \<and> tg_username target \<noteq> [] \<and> hd (tg_username target) \<noteq> CHR ''-''
    \<and> length (tg_username target) \<le> 32
    \<and> (\<exists>!d. length d = 32 \<and> tg_host_key_sha256 target = ''SHA256:'' @ b64_encode no_pad d
          \<and> b64_decode no_pad (b64_encode no_pad d) = Some d)"
proof -
  from assms obtain host where host: "canonical_host (tg_host target) = Inr host"
    and t: "target' = target\<lparr>tg_host := host\<rparr>" "tg_port target \<noteq> 0"
    and user: "valid_username (tg_username target) (tg_access_kind target)"
    and key: "validate_host_key no_pad (tg_host_key_sha256 target) = Inr ()"
    by (auto simp: validate_target_Inr)
  have "(\<exists>address. valid_target_address address \<and> host = ip_to_string address)
       \<or> (list_all valid_dns_label (split_on CHR ''.'' (tg_host target))
          \<and> host = to_ascii_lowercase (tg_host target) \<and> host \<noteq> ''localhost'')"
  proof (cases "ip_from_str (tg_host target)")
    case None
    with canonical_host_name [OF host] show ?thesis by blast
  next
    case (Some address)
    with host show ?thesis by (auto simp: canonical_host_def split: if_splits)
  qed
  moreover from user have "(tg_username target = ''root'') = (tg_access_kind target = Root)
    \<and> tg_username target \<noteq> [] \<and> hd (tg_username target) \<noteq> CHR ''-''
    \<and> length (tg_username target) \<le> 32"
    by (cases "tg_username target"; cases "tg_access_kind target")
      (auto simp: valid_username_def limits ascii_simps split: if_splits)
  moreover from key have "\<exists>!d. length d = 32 \<and> tg_host_key_sha256 target = ''SHA256:'' @ b64_encode no_pad d
          \<and> b64_decode no_pad (b64_encode no_pad d) = Some d"
    unfolding validate_host_key_Inr by (metis (no_types, lifting) append_same_eq option.inject same_append_eq)
  ultimately show ?thesis using t by simp
qed

theorem validated_target_contract_witness:
  "tg_username sample_target \<noteq> ''root'' \<and> tg_port sample_target \<noteq> 0"
  using validated_target_contract [OF sample_target_valid] by (simp add: sample_target_def)

text \<open>Zero means a proven access and nothing else. Every event but an open prompt has
one exit code, no two events share one, and the code is zero exactly for a
verified access.\<close>

theorem terminal_exit_codes_are_closed:
  "(terminal_exit_code e = Some 0) = (e = AccessVerified)
   \<and> (terminal_exit_code e = None) = (e = PromptOpen)
   \<and> inj terminal_exit_code"
proof -
  have "terminal_exit_code a = terminal_exit_code b \<longleftrightarrow> a = b" for a b
    by (cases a; cases b) (simp_all add: limits)
  then show ?thesis by (cases e) (auto simp: limits inj_def)
qed

text \<open>A validated event claims no more than its nature can. Only a verified access or
a refusal carries an attested scope or a ledger, only a refusal carries a cause, an
attested scope names what it permits exactly when it does not suffice, and what it
shows is bounded, printable ASCII.\<close>

theorem validated_event_claims:
  assumes "event_validate e = Inr e'"
  shows "e' = e
    \<and> (ev_event e \<notin> {AccessVerified, EventRefused} \<longrightarrow>
         ev_installation_scope e = None \<and> ev_install_ledger e = None \<and> ev_refusal e = None)
    \<and> (ev_event e = AccessVerified \<longrightarrow> ev_refusal e = None)
    \<and> pred_option (\<lambda>s. at_suffices s = (at_permits s = []) \<and> length (at_permits s) \<le> 512)
        (ev_installation_scope e)
    \<and> pred_option (\<lambda>items. length items \<le> 16
          \<and> list_all (\<lambda>i. li_name i \<noteq> [] \<and> length (li_name i) \<le> 128
                \<and> list_all (\<lambda>c. 32 \<le> code c \<and> code c < 127) (li_name i)) items)
        (ev_install_ledger e)
    \<and> pred_option (\<lambda>r. length (rf_detail r) \<le> 512
          \<and> list_all (\<lambda>c. 32 \<le> code c \<and> code c < 127) (rf_detail r)) (ev_refusal e)"
proof -
  have printable: "list_all (\<lambda>c. 32 \<le> code c \<and> code c < 127) s"
    if "is_ascii s" "\<not> list_ex is_ascii_control s" for s
    using that by (induction s) (auto simp: is_ascii_control_def)
  from assms have same: "e' = e"
    by (auto simp: event_validate_def Let_def split: if_splits)
  from assms have scope: "ev_installation_scope e = Some s \<Longrightarrow>
        \<not> installation_scope_refused (ev_event e = AccessVerified \<or> ev_event e = EventRefused) s"
    and refusal: "ev_refusal e = Some r \<Longrightarrow> \<not> refusal_refused (ev_event e) r"
    and ledger: "ev_install_ledger e = Some l \<Longrightarrow>
        \<not> ledger_refused (ev_event e = AccessVerified \<or> ev_event e = EventRefused) l" for s r l
    by (auto simp: event_validate_def Let_def split: if_splits)
  have "pred_option (\<lambda>items. length items \<le> 16
          \<and> list_all (\<lambda>i. li_name i \<noteq> [] \<and> length (li_name i) \<le> 128
                \<and> list_all (\<lambda>c. 32 \<le> code c \<and> code c < 127) (li_name i)) items)
        (ev_install_ledger e)"
    using ledger printable
    by (cases "ev_install_ledger e") (auto simp: ledger_refused_def limits list_ex_iff list_all_iff)
  moreover have "pred_option (\<lambda>r. length (rf_detail r) \<le> 512
          \<and> list_all (\<lambda>c. 32 \<le> code c \<and> code c < 127) (rf_detail r)) (ev_refusal e)"
    using refusal printable
    by (cases "ev_refusal e") (auto simp: refusal_refused_def limits)
  moreover have "pred_option (\<lambda>s. at_suffices s = (at_permits s = []) \<and> length (at_permits s) \<le> 512)
        (ev_installation_scope e)"
    using scope
    by (cases "ev_installation_scope e") (auto simp: installation_scope_refused_def limits Let_def)
  moreover have "ev_installation_scope e = None" if "ev_event e \<notin> {AccessVerified, EventRefused}"
    using scope that
    by (cases "ev_installation_scope e") (simp_all add: installation_scope_refused_def)
  moreover have "ev_install_ledger e = None" if "ev_event e \<notin> {AccessVerified, EventRefused}"
    using ledger that by (cases "ev_install_ledger e") (simp_all add: ledger_refused_def)
  moreover have "ev_refusal e = None" if "ev_event e \<noteq> EventRefused"
    using refusal that by (cases "ev_refusal e") (simp_all add: refusal_refused_def)
  ultimately show ?thesis using same by simp
qed

definition sample_event :: AssistantEventV1 where
  "sample_event =
     \<lparr>ev_schema_version = 1, ev_request_id = replicate 32 CHR ''a'', ev_event = EventRefused,
      ev_installation_scope = Some \<lparr>at_suffices = False, at_permits = ''/usr/bin/true''\<rparr>,
      ev_install_ledger = None,
      ev_refusal = Some \<lparr>rf_cause = PolicyAmbiguous, rf_detail = ''ALL''\<rparr>\<rparr>"

theorem validated_event_claims_witness:
  "event_validate sample_event = Inr sample_event
   \<and> pred_option (\<lambda>s. at_suffices s = (at_permits s = []) \<and> length (at_permits s) \<le> 512)
       (ev_installation_scope sample_event)"
proof -
  have v: "event_validate sample_event = Inr sample_event"
    by (simp add: event_validate_def sample_event_def canonical_request_id_def limits
        installation_scope_refused_def refusal_refused_def ascii_simps is_ascii_def list_all_iff)
  from validated_event_claims [OF v] v show ?thesis by blast
qed

end
