(* ===== verification/Consent.thy ===== *)
theory Consent
  imports Scope Approval
begin

text \<open>
  What a human is shown before an approval is signed, and what the window answers
  (\<open>bootstrap-protocol/src/approval_consent.rs\<close>): the bounded sentences of a
  consent, the flat outcome document and the decision read out of it.
\<close>

section \<open>Bounds\<close>

definition APPROVAL_CONSENT_SCHEMA_VERSION :: u8 where
  [limits]: "APPROVAL_CONSENT_SCHEMA_VERSION = 1"

definition MAX_APPROVAL_CONSENT_LINES :: nat where
  [limits]: "MAX_APPROVAL_CONSENT_LINES = 24"

definition MAX_APPROVAL_CONSENT_LINE_BYTES :: nat where
  [limits]: "MAX_APPROVAL_CONSENT_LINE_BYTES = 384"

definition APPROVAL_CONSENT_FOLD_COLUMNS :: nat where
  [limits]: "APPROVAL_CONSENT_FOLD_COLUMNS = 72"

definition MAX_APPROVAL_CONSENT_FOLDED_LINES :: nat where
  [limits]: "MAX_APPROVAL_CONSENT_FOLDED_LINES = 32"

definition APPROVAL_CONSENT_LINE_ENCODING_BYTES :: nat where
  [limits]: "APPROVAL_CONSENT_LINE_ENCODING_BYTES = 3"

definition APPROVAL_CONSENT_FIXED_BYTES :: nat where
  [limits]: "APPROVAL_CONSENT_FIXED_BYTES = 640"

definition MAX_APPROVAL_CONSENT_FRAME_BYTES :: nat where
  [limits]: "MAX_APPROVAL_CONSENT_FRAME_BYTES = MAX_APPROVAL_CONSENT_LINES
     * (MAX_APPROVAL_CONSENT_LINE_BYTES + APPROVAL_CONSENT_LINE_ENCODING_BYTES)
     + APPROVAL_CONSENT_FIXED_BYTES"

section \<open>The sentences\<close>

definition div_ceil :: "nat \<Rightarrow> nat \<Rightarrow> nat" where
  "div_ceil n k = n div k + (if n mod k > 0 then 1 else 0)"

definition folded_line_count :: "string list \<Rightarrow> nat" where
  "folded_line_count lines =
     sum_list (map (\<lambda>line.
       let characters = length (chars line)
       in max (div_ceil characters APPROVAL_CONSENT_FOLD_COLUMNS) 1) lines)"

definition is_refused_display_character :: "nat \<Rightarrow> bool" where
  "is_refused_display_character c =
     (is_control c
      \<or> (0x202A \<le> c \<and> c \<le> 0x202E)
      \<or> (0x2066 \<le> c \<and> c \<le> 0x2069)
      \<or> c = 0x200E \<or> c = 0x200F \<or> c = 0x061C
      \<or> c = 0x2028 \<or> c = 0x2029
      \<or> c = 0x22 \<or> c = 0x5C)"

definition valid_confirmation_lines :: "string list \<Rightarrow> string \<Rightarrow> string \<Rightarrow> bool" where
  "valid_confirmation_lines lines plan_sha256 rollback_sha256 =
     (if length lines < 3 \<or> length lines > MAX_APPROVAL_CONSENT_LINES then False
      else if list_ex (\<lambda>line. line = [] \<or> length line > MAX_APPROVAL_CONSENT_LINE_BYTES
              \<or> list_ex is_refused_display_character (chars line)) lines
      then False
      else if folded_line_count lines > MAX_APPROVAL_CONSENT_FOLDED_LINES then False
      else suffix plan_sha256 (lines ! (length lines - 2))
         \<and> suffix rollback_sha256 (lines ! (length lines - 1)))"

section \<open>The consent and its outcome\<close>

datatype ApprovalConsentOutcomeKind =
    OutcomeConfirmed | OutcomeRefused | OutcomeCancelled | OutcomeExpired | OutcomeUnavailable

fun outcome_exit_code :: "ApprovalConsentOutcomeKind \<Rightarrow> u8" where
  "outcome_exit_code OutcomeConfirmed = ASSISTANT_EXIT_ACCESS_VERIFIED"
| "outcome_exit_code OutcomeRefused = ASSISTANT_EXIT_REFUSED"
| "outcome_exit_code OutcomeCancelled = ASSISTANT_EXIT_CANCELLED"
| "outcome_exit_code OutcomeExpired = ASSISTANT_EXIT_WATCHDOG_EXPIRED"
| "outcome_exit_code OutcomeUnavailable = ASSISTANT_EXIT_UNAVAILABLE"

datatype ApprovalConsentDecision =
    DecisionConfirmed string string
  | DecisionRefused | DecisionCancelled | DecisionExpired | DecisionUnavailable

fun decision_kind :: "ApprovalConsentDecision \<Rightarrow> ApprovalConsentOutcomeKind" where
  "decision_kind (DecisionConfirmed plan rollback) = OutcomeConfirmed"
| "decision_kind DecisionRefused = OutcomeRefused"
| "decision_kind DecisionCancelled = OutcomeCancelled"
| "decision_kind DecisionExpired = OutcomeExpired"
| "decision_kind DecisionUnavailable = OutcomeUnavailable"

record ApprovalConsentV1 =
  ac_schema_version :: u8
  ac_request_id :: string
  ac_infrastructure_id :: string
  ac_machine_id :: string
  ac_operation :: ApprovalOperation
  ac_plan_sha256 :: string
  ac_rollback_sha256 :: string
  ac_confirmation_lines :: "string list"
  ac_issued_at_monotonic_nanos :: u64
  ac_remaining_millis :: u64

record ApprovalConsentOutcomeV1 =
  ao_schema_version :: u8
  ao_request_id :: string
  ao_outcome :: ApprovalConsentOutcomeKind
  ao_confirmed_plan_sha256 :: string
  ao_confirmed_rollback_sha256 :: string

definition consent_validate :: "ApprovalConsentV1 \<Rightarrow> ApprovalConsentV1 protocol_result" where
  "consent_validate c =
     (if ac_schema_version c \<noteq> APPROVAL_CONSENT_SCHEMA_VERSION
         \<or> \<not> canonical_request_id (ac_request_id c)
         \<or> \<not> canonical_uuid_v4 (ac_infrastructure_id c)
         \<or> \<not> canonical_machine_id (ac_machine_id c)
         \<or> decode_digest (ac_plan_sha256 c) = None
         \<or> decode_digest (ac_rollback_sha256 c) = None
         \<or> ac_plan_sha256 c = ac_rollback_sha256 c
         \<or> \<not> (1 \<le> ac_remaining_millis c \<and> ac_remaining_millis c \<le> MAX_ASSISTANT_REMAINING_MILLIS)
         \<or> \<not> valid_confirmation_lines (ac_confirmation_lines c) (ac_plan_sha256 c)
               (ac_rollback_sha256 c)
      then Inl InvalidInput
      else Inr c)"

definition confirmed :: "ApprovalConsentV1 \<Rightarrow> ApprovalConsentOutcomeV1" where
  "confirmed c =
     \<lparr>ao_schema_version = APPROVAL_CONSENT_SCHEMA_VERSION,
      ao_request_id = ac_request_id c,
      ao_outcome = OutcomeConfirmed,
      ao_confirmed_plan_sha256 = ac_plan_sha256 c,
      ao_confirmed_rollback_sha256 = ac_rollback_sha256 c\<rparr>"

definition without_confirmation ::
  "string \<Rightarrow> ApprovalConsentOutcomeKind \<Rightarrow> ApprovalConsentOutcomeV1" where
  "without_confirmation request_id outcome =
     \<lparr>ao_schema_version = APPROVAL_CONSENT_SCHEMA_VERSION,
      ao_request_id = request_id,
      ao_outcome = outcome,
      ao_confirmed_plan_sha256 = [],
      ao_confirmed_rollback_sha256 = []\<rparr>"

definition outcome_validate ::
  "ApprovalConsentOutcomeV1 \<Rightarrow> ApprovalConsentOutcomeV1 protocol_result" where
  "outcome_validate out =
     (if ao_schema_version out \<noteq> APPROVAL_CONSENT_SCHEMA_VERSION
         \<or> \<not> canonical_request_id (ao_request_id out)
      then Inl InvalidInput
      else
        let confirms = (ao_outcome out = OutcomeConfirmed);
            names_a_pair = (decode_digest (ao_confirmed_plan_sha256 out) \<noteq> None
              \<and> decode_digest (ao_confirmed_rollback_sha256 out) \<noteq> None
              \<and> ao_confirmed_plan_sha256 out \<noteq> ao_confirmed_rollback_sha256 out);
            names_nothing = (ao_confirmed_plan_sha256 out = [] \<and> ao_confirmed_rollback_sha256 out = [])
        in if confirms \<noteq> names_a_pair \<or> confirms = names_nothing then Inl InvalidInput
           else Inr out)"

definition outcome_decision :: "ApprovalConsentOutcomeV1 \<Rightarrow> ApprovalConsentDecision option" where
  "outcome_decision out =
     (if \<not> is_ok (outcome_validate out) then None
      else Some (case ao_outcome out of
          OutcomeConfirmed \<Rightarrow>
            DecisionConfirmed (ao_confirmed_plan_sha256 out) (ao_confirmed_rollback_sha256 out)
        | OutcomeRefused \<Rightarrow> DecisionRefused
        | OutcomeCancelled \<Rightarrow> DecisionCancelled
        | OutcomeExpired \<Rightarrow> DecisionExpired
        | OutcomeUnavailable \<Rightarrow> DecisionUnavailable))"

section \<open>Lemmas\<close>

lemma folded_at_least: "length lines \<le> folded_line_count lines"
  by (induction lines) (simp_all add: folded_line_count_def Let_def)

lemma folded_covers:
  "sum_list (map (\<lambda>line. length (chars line)) lines) \<le> 72 * folded_line_count lines"
proof (induction lines)
  case (Cons line lines)
  have "n \<le> 72 * max (div_ceil n 72) 1" for n :: nat
  proof -
    have "n = 72 * (n div 72) + n mod 72" "n mod 72 < 72" by simp_all
    then have "n \<le> 72 * div_ceil n 72" unfolding div_ceil_def by (cases "n mod 72 = 0") simp_all
    then show ?thesis by (simp add: max_def)
  qed
  from this [of "length (chars line)"] Cons show ?case
    by (simp add: folded_line_count_def Let_def limits distrib_left)
qed (simp add: folded_line_count_def)

lemma decode_digest_not_empty: "decode_digest [] = None"
  by (simp add: decode_digest_def limits)

lemma outcome_validate_iff:
  "outcome_validate out = Inr out' \<longleftrightarrow>
     out' = out \<and> ao_schema_version out = 1 \<and> canonical_request_id (ao_request_id out)
     \<and> (if ao_outcome out = OutcomeConfirmed
        then canonical_digest (ao_confirmed_plan_sha256 out)
           \<and> canonical_digest (ao_confirmed_rollback_sha256 out)
           \<and> ao_confirmed_plan_sha256 out \<noteq> ao_confirmed_rollback_sha256 out
        else ao_confirmed_plan_sha256 out = [] \<and> ao_confirmed_rollback_sha256 out = [])"
  by (auto simp: outcome_validate_def Let_def limits canonical_digest_def decode_digest_not_empty
      split: if_splits)

text \<open>What is left once controls, bidirectional marks, line separators and escapes are refused.\<close>

definition displayable :: "nat \<Rightarrow> bool" where
  "displayable u =
     (32 \<le> u \<and> u \<notin> {0x22, 0x5C} \<union> {0x7F..0x9F} \<union> {0x200E, 0x200F, 0x61C}
        \<union> {0x2028..0x202E} \<union> {0x2066..0x2069})"

lemma displayable_iff: "displayable u \<longleftrightarrow> \<not> is_refused_display_character u"
  unfolding displayable_def is_refused_display_character_def is_control_def by simp linarith

lemma consent_validate_Inr:
  assumes "consent_validate c = Inr c'"
  shows "c' = c \<and> canonical_request_id (ac_request_id c)
    \<and> canonical_digest (ac_plan_sha256 c) \<and> canonical_digest (ac_rollback_sha256 c)
    \<and> ac_plan_sha256 c \<noteq> ac_rollback_sha256 c
    \<and> valid_confirmation_lines (ac_confirmation_lines c) (ac_plan_sha256 c) (ac_rollback_sha256 c)"
  using assms by (simp add: consent_validate_def canonical_digest_def split: if_splits)

section \<open>A concrete consent\<close>

definition sample_consent :: ApprovalConsentV1 where
  "sample_consent =
     \<lparr>ac_schema_version = 1, ac_request_id = replicate 32 CHR ''a'',
      ac_infrastructure_id = sample_uuid, ac_machine_id = ''node-1'',
      ac_operation = DeployOciProbe,
      ac_plan_sha256 = sample_hex CHR ''a'', ac_rollback_sha256 = sample_hex CHR ''b'',
      ac_confirmation_lines =
        [''Deploy the probe on node-1.'', ''Plan '' @ sample_hex CHR ''a'',
         ''Rollback '' @ sample_hex CHR ''b''],
      ac_issued_at_monotonic_nanos = 5, ac_remaining_millis = 60000\<rparr>"

lemma sample_request: "canonical_request_id (replicate 32 CHR ''a'')"
  by (simp add: canonical_request_id_def limits ascii_simps list_all_iff)

lemma sample_lines:
  "valid_confirmation_lines (ac_confirmation_lines sample_consent) (sample_hex CHR ''a'')
     (sample_hex CHR ''b'')"
proof -
  have ascii: "is_ascii (sample_hex CHR ''a'')" "is_ascii (sample_hex CHR ''b'')"
    unfolding sample_hex_def by (rule is_ascii_replicate; simp add: code_def)+
  have plain': "\<not> list_ex is_refused_display_character (map code (sample_hex c))"
    if "c = CHR ''a'' \<or> c = CHR ''b''" for c
    using that by (auto simp: sample_hex_def list_ex_iff is_refused_display_character_def is_control_def code_def)
  have line: "length (s @ sample_hex c) \<le> 80 \<and> chars (s @ sample_hex c) = map code s @ map code (sample_hex c)"
    if "is_ascii s" "length s \<le> 16" "c = CHR ''a'' \<or> c = CHR ''b''" for s c
    using that ascii by (auto simp: chars_append_ascii chars_ascii sample_hex_def simp del: chars.simps)
  show ?thesis
    using line [of "''Plan ''" "CHR ''a''"] line [of "''Rollback ''" "CHR ''b''"]
      plain' [of "CHR ''a''"] plain' [of "CHR ''b''"]
    by (simp add: sample_consent_def valid_confirmation_lines_def limits is_ascii_def suffix_append
        is_refused_display_character_def is_control_def folded_line_count_def div_ceil_def
        chars_ascii code_def sample_hex_def suffix_Cons)
qed

lemma sample_consent_valid: "consent_validate sample_consent = Inr sample_consent"
proof -
  have a: "decode_digest (sample_hex CHR ''a'') \<noteq> None" "decode_digest (sample_hex CHR ''b'') \<noteq> None"
    using sample_hex_decodes [of "CHR ''a''"] sample_hex_decodes [of "CHR ''b''"]
    by (auto simp: ascii_simps)
  have "sample_hex CHR ''a'' \<noteq> sample_hex CHR ''b''" by (simp add: sample_hex_def)
  with a sample_lines sample_request sample_uuid_canonical sample_machine_canonical show ?thesis
    by (simp add: consent_validate_def sample_consent_def limits)
qed

section \<open>Properties\<close>

text \<open>What a human accepts is bounded and cannot be reordered. A validated consent has
three to twenty-four sentences, none empty or above 384 bytes, no control,
bidirectional, line-breaking or escaped character among them; folded at 72 columns
they take at most 32 lines, so at most 2304 characters; and the last two sentences
end with the two different digests.\<close>

theorem validated_consent_is_readable:
  assumes "consent_validate c = Inr c'"
  shows "c' = c
    \<and> 3 \<le> length (ac_confirmation_lines c) \<and> length (ac_confirmation_lines c) \<le> 24
    \<and> list_all (\<lambda>line. line \<noteq> [] \<and> length line \<le> 384
          \<and> list_all displayable (chars line)) (ac_confirmation_lines c)
    \<and> folded_line_count (ac_confirmation_lines c) \<le> 32
    \<and> sum_list (map (\<lambda>line. length (chars line)) (ac_confirmation_lines c)) \<le> 2304
    \<and> suffix (ac_rollback_sha256 c) (last (ac_confirmation_lines c))
    \<and> suffix (ac_plan_sha256 c) (last (butlast (ac_confirmation_lines c)))
    \<and> ac_plan_sha256 c \<noteq> ac_rollback_sha256 c"
proof -
  let ?ls = "ac_confirmation_lines c"
  from consent_validate_Inr [OF assms]
  have lines: "valid_confirmation_lines ?ls (ac_plan_sha256 c) (ac_rollback_sha256 c)"
    and rest: "c' = c" "ac_plan_sha256 c \<noteq> ac_rollback_sha256 c"
    by simp_all
  from lines have len: "3 \<le> length ?ls" "length ?ls \<le> 24"
    and each: "\<not> list_ex (\<lambda>line. line = [] \<or> length line > 384
              \<or> list_ex is_refused_display_character (chars line)) ?ls"
    and fold: "folded_line_count ?ls \<le> 32"
    and ends: "suffix (ac_plan_sha256 c) (?ls ! (length ?ls - 2))"
      "suffix (ac_rollback_sha256 c) (?ls ! (length ?ls - 1))"
    by (simp_all add: valid_confirmation_lines_def limits split: if_splits)
  from each have "list_all (\<lambda>line. line \<noteq> [] \<and> length line \<le> 384
          \<and> list_all displayable (chars line)) ?ls"
    by (auto simp: list_ex_iff list_all_iff displayable_iff)
  moreover have "last ?ls = ?ls ! (length ?ls - 1)" using len by (intro last_conv_nth) auto
  moreover have "last (butlast ?ls) = ?ls ! (length ?ls - 2)"
  proof -
    have "butlast ?ls \<noteq> []" using len by (cases ?ls rule: rev_cases) auto
    then show ?thesis using len by (simp add: last_conv_nth nth_butlast numeral_2_eq_2)
  qed
  moreover have "sum_list (map (\<lambda>line. length (chars line)) ?ls) \<le> 2304"
    using folded_covers [of ?ls] fold by simp
  ultimately show ?thesis using len fold ends rest by simp
qed

theorem validated_consent_is_readable_witness:
  "sum_list (map (\<lambda>line. length (chars line)) (ac_confirmation_lines sample_consent)) \<le> 2304"
  using validated_consent_is_readable [OF sample_consent_valid] by blast

text \<open>A confirmation names the pair that was shown. The document a window writes when a
human accepts a validated consent is itself valid, correlates with the request, is
read as a confirmation of exactly the two digests of that consent, and is the only
one of its exit code.\<close>

theorem confirmation_echoes_the_consent:
  assumes "consent_validate c = Inr c'"
  shows "outcome_validate (confirmed c) = Inr (confirmed c)
    \<and> ao_request_id (confirmed c) = ac_request_id c
    \<and> outcome_decision (confirmed c)
        = Some (DecisionConfirmed (ac_plan_sha256 c) (ac_rollback_sha256 c))
    \<and> outcome_exit_code (ao_outcome (confirmed c)) = 0"
proof -
  have "outcome_validate (confirmed c) = Inr (confirmed c)"
    using consent_validate_Inr [OF assms] by (simp add: outcome_validate_iff confirmed_def limits)
  then show ?thesis by (simp add: outcome_decision_def) (simp add: confirmed_def limits)
qed

theorem confirmation_echoes_the_consent_witness:
  "outcome_decision (confirmed sample_consent)
     = Some (DecisionConfirmed (sample_hex CHR ''a'') (sample_hex CHR ''b''))"
  using confirmation_echoes_the_consent [OF sample_consent_valid] by (simp add: sample_consent_def)

text \<open>C25: an outcome document says exactly one decision. It states one exactly when it
validates; the decision is of the announced kind; only a confirmation names
digests and only it has exit code zero; a document built without confirmation
validates exactly for the other kinds; and two documents of one request with the
same decision are the same document.\<close>

theorem outcome_states_one_decision:
  "(outcome_decision out = None) = (\<not> is_ok (outcome_validate out))
   \<and> pred_option (\<lambda>d. decision_kind d = ao_outcome out
        \<and> (outcome_exit_code (ao_outcome out) = 0)
            = (d = DecisionConfirmed (ao_confirmed_plan_sha256 out) (ao_confirmed_rollback_sha256 out)))
      (outcome_decision out)
   \<and> is_ok (outcome_validate (without_confirmation request kind))
      = (canonical_request_id request \<and> kind \<noteq> OutcomeConfirmed)
   \<and> (outcome_decision out \<noteq> None \<longrightarrow> outcome_decision out = outcome_decision out'
        \<longrightarrow> ao_request_id out = ao_request_id out' \<longrightarrow> out = out')"
proof -
  have kinds: "pred_option (\<lambda>d. decision_kind d = ao_outcome out
        \<and> (outcome_exit_code (ao_outcome out) = 0)
            = (d = DecisionConfirmed (ao_confirmed_plan_sha256 out) (ao_confirmed_rollback_sha256 out)))
      (outcome_decision out)"
    by (cases "ao_outcome out") (simp_all add: outcome_decision_def limits)
  have some: "\<exists>p. outcome_validate x = Inr p" if "outcome_decision x \<noteq> None" for x
    using that by (auto simp: outcome_decision_def is_ok_iff split: if_splits)
  have same: "out = out'" if d: "outcome_decision out \<noteq> None"
    "outcome_decision out = outcome_decision out'" and r: "ao_request_id out = ao_request_id out'"
  proof -
    obtain p q where v: "outcome_validate out = Inr p" "outcome_validate out' = Inr q"
      using some [of out] some [of out'] d by auto
    from v d(2) have kind: "ao_outcome out = ao_outcome out'"
      by (cases "ao_outcome out"; cases "ao_outcome out'") (simp_all add: outcome_decision_def)
    have pair: "ao_confirmed_plan_sha256 out = ao_confirmed_plan_sha256 out'
        \<and> ao_confirmed_rollback_sha256 out = ao_confirmed_rollback_sha256 out'"
    proof (cases "ao_outcome out = OutcomeConfirmed")
      case True
      with v d(2) kind show ?thesis by (simp add: outcome_decision_def)
    next
      case False
      with v kind show ?thesis by (simp add: outcome_validate_iff)
    qed
    show ?thesis
      using v r kind pair by (simp add: outcome_validate_iff)
  qed
  have without: "is_ok (outcome_validate (without_confirmation request kind))
      = (canonical_request_id request \<and> kind \<noteq> OutcomeConfirmed)"
    by (auto simp: is_ok_iff outcome_validate_iff without_confirmation_def canonical_digest_def
        decode_digest_not_empty limits)
  have "(outcome_decision out = None) = (\<not> is_ok (outcome_validate out))"
    by (simp add: outcome_decision_def)
  with kinds without same show ?thesis by blast
qed

theorem outcome_states_one_decision_witness:
  "outcome_decision (without_confirmation (replicate 32 CHR ''a'') OutcomeRefused) = Some DecisionRefused
   \<and> outcome_decision (without_confirmation (replicate 32 CHR ''a'') OutcomeConfirmed) = None"
  using outcome_states_one_decision [of "without_confirmation (replicate 32 CHR ''a'') OutcomeConfirmed"
      "replicate 32 CHR ''a''" OutcomeConfirmed]
    outcome_states_one_decision [of "without_confirmation (replicate 32 CHR ''a'') OutcomeRefused"
      "replicate 32 CHR ''a''" OutcomeRefused] sample_request
  by (simp add: outcome_decision_def without_confirmation_def)

end
