(* ===== verification/Ledger.thy ===== *)
theory Ledger
  imports Scope
begin

text \<open>
  What a failed installation may take back
  (\<open>native-bootstrap-assistant/src/installation/rollback.rs\<close>): the append-only
  ledger of what each step touched, and the unwinding computed from it.
\<close>

section \<open>The ledger\<close>

datatype ItemKind =
    Package | Account | Directory | File | UnitState | CredentialSource | Association

datatype Provenance = Created | Found | Unknown

record Item =
  it_kind :: ItemKind
  it_name :: string
  it_provenance :: Provenance

record Removal =
  rm_kind :: ItemKind
  rm_name :: string

datatype Unwind =
    Complete "Removal list"
  | Incomplete "Removal list" "string list"
  | AfterTransfer

record Ledger =
  ld_items :: "Item list"
  ld_authority_transferred :: bool

definition ledger_new :: Ledger where
  "ledger_new = \<lparr>ld_items = [], ld_authority_transferred = False\<rparr>"

definition ledger_record :: "ItemKind \<Rightarrow> string \<Rightarrow> Provenance \<Rightarrow> Ledger \<Rightarrow> Ledger" where
  "ledger_record kind name provenance ledger =
     ledger\<lparr>ld_items := ld_items ledger
       @ [\<lparr>it_kind = kind, it_name = name, it_provenance = provenance\<rparr>]\<rparr>"

definition authority_transferred :: "Ledger \<Rightarrow> Ledger" where
  "authority_transferred ledger = ledger\<lparr>ld_authority_transferred := True\<rparr>"

fun kind_to_protocol :: "ItemKind \<Rightarrow> LedgerItemKind" where
  "kind_to_protocol Package = KindPackage"
| "kind_to_protocol Account = KindAccount"
| "kind_to_protocol Directory = KindDirectory"
| "kind_to_protocol File = KindFile"
| "kind_to_protocol UnitState = KindUnitState"
| "kind_to_protocol CredentialSource = KindCredentialSource"
| "kind_to_protocol Association = KindAssociation"

fun provenance_to_protocol :: "Provenance \<Rightarrow> LedgerProvenance" where
  "provenance_to_protocol Created = LedgerCreated"
| "provenance_to_protocol Found = LedgerFound"
| "provenance_to_protocol Unknown = LedgerUnknown"

definition to_protocol :: "Ledger \<Rightarrow> LedgerItemV1 list" where
  "to_protocol ledger =
     map (\<lambda>item. \<lparr>li_kind = kind_to_protocol (it_kind item), li_name = it_name item,
       li_provenance = provenance_to_protocol (it_provenance item)\<rparr>) (ld_items ledger)"

definition ledger_unwind :: "Ledger \<Rightarrow> Unwind" where
  "ledger_unwind ledger =
     (if ld_authority_transferred ledger then AfterTransfer
      else
        let removals = map (\<lambda>item. \<lparr>rm_kind = it_kind item, rm_name = it_name item\<rparr>)
              (filter (\<lambda>item. it_provenance item = Created) (rev (ld_items ledger)));
            unknown = map it_name (filter (\<lambda>item. it_provenance item = Unknown) (ld_items ledger))
        in if unknown = [] then Complete removals else Incomplete removals unknown)"

section \<open>A machine, and what a run does to it\<close>

text \<open>
  The abstract machine the ledger speaks of: the set of items present on it. A run
  is a sequence of touches. Each either looks at the machine and records what it
  saw, making the item present, or loses the answer, and the item is then present
  or not without anybody knowing.
\<close>

type_synonym machine = "(ItemKind \<times> string) set"

datatype Touch =
    Looked ItemKind string
  | Lost ItemKind string bool

fun touch :: "Touch \<Rightarrow> machine \<times> Ledger \<Rightarrow> machine \<times> Ledger" where
  "touch (Looked kind name) (present, ledger) =
     (insert (kind, name) present,
      ledger_record kind name (if (kind, name) \<in> present then Found else Created) ledger)"
| "touch (Lost kind name took_effect) (present, ledger) =
     (if took_effect then insert (kind, name) present else present,
      ledger_record kind name Unknown ledger)"

definition perform :: "Removal list \<Rightarrow> machine \<Rightarrow> machine" where
  "perform removals present =
     foldl (\<lambda>m r. m - {(rm_kind r, rm_name r)}) present removals"

definition played :: "machine \<Rightarrow> Touch list \<Rightarrow> machine \<times> Ledger" where
  "played present touches = fold touch touches (present, ledger_new)"

section \<open>Lemmas\<close>

definition created_in :: "Ledger \<Rightarrow> machine" where
  "created_in ledger =
     {(it_kind i, it_name i) | i. i \<in> set (ld_items ledger) \<and> it_provenance i = Created}"

definition unknown_names :: "Ledger \<Rightarrow> string list" where
  "unknown_names ledger = map it_name (filter (\<lambda>i. it_provenance i = Unknown) (ld_items ledger))"

fun unwind_removals :: "Unwind \<Rightarrow> Removal list" where
  "unwind_removals (Complete rs) = rs"
| "unwind_removals (Incomplete rs us) = rs"
| "unwind_removals AfterTransfer = []"

lemma perform_diff: "perform rs m = m - {(rm_kind r, rm_name r) | r. r \<in> set rs}"
  by (induction rs arbitrary: m) (auto simp: perform_def)

lemma unwind_removals_set:
  "\<not> ld_authority_transferred l \<Longrightarrow>
     {(rm_kind r, rm_name r) | r. r \<in> set (unwind_removals (ledger_unwind l))} = created_in l"
  by (force simp: ledger_unwind_def Let_def created_in_def)

lemma unwind_Complete_iff:
  "(\<exists>rs. ledger_unwind l = Complete rs) \<longleftrightarrow> \<not> ld_authority_transferred l \<and> unknown_names l = []"
  by (auto simp: ledger_unwind_def Let_def unknown_names_def)

lemma unwind_Incomplete:
  "ledger_unwind l = Incomplete rs us \<Longrightarrow> us = unknown_names l \<and> us \<noteq> []"
  by (auto simp: ledger_unwind_def Let_def unknown_names_def split: if_splits)

text \<open>What a run keeps: nothing it found is gone, nothing it created was there, and every
  other difference from the machine it started on has a name in the ledger.\<close>

definition run_invariant :: "machine \<Rightarrow> machine \<times> Ledger \<Rightarrow> bool" where
  "run_invariant start = (\<lambda>(present, ledger).
     start \<subseteq> present \<and> created_in ledger \<inter> start = {}
     \<and> (\<forall>(k, n) \<in> present - start. (k, n) \<in> created_in ledger \<or> n \<in> set (unknown_names ledger))
     \<and> \<not> ld_authority_transferred ledger)"

lemma created_in_record [simp]:
  "created_in (ledger_record k n p l) = (if p = Created then insert (k, n) (created_in l) else created_in l)"
proof (cases "p = Created")
  case True
  let ?new = "\<lparr>it_kind = k, it_name = n, it_provenance = Created\<rparr>"
  have "ld_items (ledger_record k n p l) = ld_items l @ [?new]"
    using True by (simp add: ledger_record_def)
  then have "created_in (ledger_record k n p l) = created_in l \<union> {(it_kind ?new, it_name ?new)}"
    unfolding created_in_def by force
  with True show ?thesis by simp
qed (auto simp: created_in_def ledger_record_def)

lemma unknown_names_record [simp]:
  "unknown_names (ledger_record k n p l) = unknown_names l @ (if p = Unknown then [n] else [])"
  by (simp add: unknown_names_def ledger_record_def)

lemma transferred_record [simp]:
  "ld_authority_transferred (ledger_record k n p l) = ld_authority_transferred l"
  by (simp add: ledger_record_def)

lemma touch_invariant: "run_invariant start s \<Longrightarrow> run_invariant start (touch t s)"
  by (cases s; cases t) (auto simp: run_invariant_def)

lemma played_invariant: "run_invariant start (played start ts)"
proof -
  have "run_invariant start s \<Longrightarrow> run_invariant start (fold touch ts s)" for s
    by (induction ts arbitrary: s) (simp_all add: touch_invariant del: split_paired_All)
  moreover have "run_invariant start (start, ledger_new)"
    by (auto simp: run_invariant_def created_in_def ledger_new_def)
  ultimately show ?thesis by (simp add: played_def)
qed

lemma kind_to_protocol_inject [simp]: "kind_to_protocol a = kind_to_protocol b \<longleftrightarrow> a = b"
  by (cases a; cases b) simp_all

lemma provenance_to_protocol_inject [simp]:
  "provenance_to_protocol a = provenance_to_protocol b \<longleftrightarrow> a = b"
  by (cases a; cases b) simp_all

section \<open>Properties\<close>



text \<open>Removals come back in the reverse of the order things were made, only what this
run created is ever listed, and past the transfer of authority nothing is.\<close>

theorem unwind_is_the_created_suffix_reversed:
  "unwind_removals (ledger_unwind ledger) =
     (if ld_authority_transferred ledger then []
      else rev (map (\<lambda>i. \<lparr>rm_kind = it_kind i, rm_name = it_name i\<rparr>)
             (filter (\<lambda>i. it_provenance i = Created) (ld_items ledger))))
   \<and> ledger_unwind (ledger_record k n p (authority_transferred ledger)) = AfterTransfer"
  by (simp add: ledger_unwind_def Let_def rev_map rev_filter authority_transferred_def)

text \<open>What is shown is what was recorded. The transported ledger has one entry per item,
in the same order, and two ledgers with the same transported form recorded the same
items: no kind, name or provenance is lost on the way.\<close>

theorem to_protocol_loses_nothing:
  "length (to_protocol ledger) = length (ld_items ledger)
   \<and> map li_name (to_protocol ledger) = map it_name (ld_items ledger)
   \<and> (to_protocol ledger = to_protocol ledger') = (ld_items ledger = ld_items ledger')"
proof -
  have "inj (\<lambda>item :: Item. \<lparr>li_kind = kind_to_protocol (it_kind item), li_name = it_name item,
       li_provenance = provenance_to_protocol (it_provenance item)\<rparr>)"
    by (rule injI) (rule Item.equality; simp)
  from inj_map_eq_map [OF this] show ?thesis by (simp add: to_protocol_def)
qed

end
