(* ===== verification/Placement.thy ===== *)
theory Placement
  imports Prelude
begin

text \<open>
  What may be proposed on an audited machine
  (\<open>native-bootstrap-assistant/src/personal_access/placement.rs\<close>), over the facts of
  an audit (the data types of \<open>audit.rs\<close>): the compatibility of a role, the proposal
  and the approval that is a witness of it.
\<close>

section \<open>Observed facts\<close>

datatype Unverified = NotAnswered | NotProduced | Unreadable

datatype 'a Observed = Known 'a | NotKnown Unverified

fun observed_known :: "'a Observed \<Rightarrow> 'a option" where
  "observed_known (Known v) = Some v"
| "observed_known (NotKnown _) = None"

fun observed_unverified :: "'a Observed \<Rightarrow> Unverified option" where
  "observed_unverified (Known _) = None"
| "observed_unverified (NotKnown reason) = Some reason"

record Distribution =
  ds_id :: string
  ds_version_id :: string

definition SUPPORTED_DISTRIBUTION_ID :: string where
  "SUPPORTED_DISTRIBUTION_ID = ''debian''"

definition SUPPORTED_DISTRIBUTION_VERSION :: string where
  "SUPPORTED_DISTRIBUTION_VERSION = ''13''"

datatype Architecture = Amd64 | OtherArchitecture string

datatype InitSystem = Systemd | OtherInit string

datatype CgroupHierarchy = CgroupV2 | Legacy

datatype Role = Controller | Relay | Agent | Auxiliary

fun role_str :: "Role \<Rightarrow> string" where
  "role_str Controller = ''controller''"
| "role_str Relay = ''relay''"
| "role_str Agent = ''agent''"
| "role_str Auxiliary = ''auxiliary''"

datatype Installation = NotDeclared | Declared "Role list"

record ObservedMachine =
  om_uid :: "u32 Observed"
  om_hostname :: "string Observed"
  om_distribution :: "Distribution Observed"
  om_architecture :: "Architecture Observed"
  om_init :: "InitSystem Observed"
  om_cgroup :: "CgroupHierarchy Observed"
  om_memory_kib :: "u64 Observed"
  om_processors :: "u32 Observed"
  om_free_disk_kib :: "u64 Observed"
  om_installation :: "Installation Observed"

definition machine_unanswered :: "Unverified \<Rightarrow> ObservedMachine" where
  "machine_unanswered reason =
     \<lparr>om_uid = NotKnown reason, om_hostname = NotKnown reason, om_distribution = NotKnown reason,
      om_architecture = NotKnown reason, om_init = NotKnown reason, om_cgroup = NotKnown reason,
      om_memory_kib = NotKnown reason, om_processors = NotKnown reason,
      om_free_disk_kib = NotKnown reason, om_installation = NotKnown reason\<rparr>"

section \<open>Declarations and requirements\<close>

datatype Exposure = Private | Exposed

datatype Availability = NormallyOn | Intermittent

record DeclaredEndpoint =
  de_name :: string
  de_port :: u16
  de_exposure :: Exposure
  de_availability :: Availability
  de_relay_candidate :: bool

record RoleRequirements =
  rq_memory_kib :: u64
  rq_processors :: u32
  rq_free_disk_kib :: u64

definition CONTROLLER_REQUIREMENTS :: RoleRequirements where
  "CONTROLLER_REQUIREMENTS =
     \<lparr>rq_memory_kib = 524288, rq_processors = 1, rq_free_disk_kib = 2097152\<rparr>"

definition RELAY_REQUIREMENTS :: RoleRequirements where
  "RELAY_REQUIREMENTS =
     \<lparr>rq_memory_kib = 262144, rq_processors = 1, rq_free_disk_kib = 1048576\<rparr>"

definition AGENT_REQUIREMENTS :: RoleRequirements where
  "AGENT_REQUIREMENTS =
     \<lparr>rq_memory_kib = 262144, rq_processors = 1, rq_free_disk_kib = 262144\<rparr>"

fun requirements :: "Role \<Rightarrow> RoleRequirements" where
  "requirements Relay = RELAY_REQUIREMENTS"
| "requirements Agent = AGENT_REQUIREMENTS"
| "requirements _ = CONTROLLER_REQUIREMENTS"

datatype Resource = Memory | Processors | FreeDisk

datatype Facility = FacilityInit | FacilityCgroupV2

datatype Incompatibility =
    WrongDistribution Distribution
  | WrongArchitecture Architecture
  | MissingFacility Facility "InitSystem option" "CgroupHierarchy option"
  | TooLittle Resource u64 u64
  | FactUnverified string Unverified

datatype PlacementRefusal =
    Incompatible "Incompatibility list"
  | ControllerOnExposedEndpoint
  | ControllerOnIntermittentEndpoint
  | ControllerBesideRelay
  | RelayOnUndeclaredCandidate
  | RoleOutsideThisPalier Role
  | RoleNotApproved

datatype Cohabitation = NoDeclaredInstallation | WithDeclaredRoles "Role list"

datatype FaultDomain = OwnHost | SharedWithDeclaredRoles

record UnverifiedFact =
  uf_fact :: string
  uf_why :: Unverified

record Flow =
  fl_description :: string
  fl_port :: u16

record Proposal =
  pr_role :: Role
  pr_endpoint :: string
  pr_cohabitation :: Cohabitation
  pr_fault_domain :: FaultDomain
  pr_required :: RoleRequirements
  pr_observed_memory_kib :: u64
  pr_observed_processors :: u32
  pr_observed_free_disk_kib :: u64
  pr_accounts :: "string list"
  pr_artifacts :: "string list"
  pr_flows :: "Flow list"
  pr_privileges :: "string list"
  pr_unverified :: "UnverifiedFact list"

definition CONTROLLER_ACCOUNTS :: "string list" where
  "CONTROLLER_ACCOUNTS = [''your-cloud-controller'']"

definition CONTROLLER_ARTIFACTS :: "string list" where
  "CONTROLLER_ARTIFACTS =
     [''/etc/your-cloud/roles'', ''/usr/local/lib/your-cloud/controller'',
      ''/var/lib/your-cloud/controller'']"

definition CONTROLLER_FLOWS :: "Flow list" where
  "CONTROLLER_FLOWS =
     [\<lparr>fl_description = ''controller api, private network only'', fl_port = 8443\<rparr>]"

definition CONTROLLER_PRIVILEGES :: "string list" where
  "CONTROLLER_PRIVILEGES = [''one systemd unit, no ambient capability'']"

definition RELAY_ACCOUNTS :: "string list" where
  "RELAY_ACCOUNTS = [''your-cloud-relay'']"

definition RELAY_ARTIFACTS :: "string list" where
  "RELAY_ARTIFACTS =
     [''/etc/your-cloud/roles'', ''/usr/local/lib/your-cloud/relay'', ''/var/lib/your-cloud/relay'']"

definition RELAY_FLOWS :: "Flow list" where
  "RELAY_FLOWS =
     [\<lparr>fl_description = ''public ingress terminated by the relay'', fl_port = 443\<rparr>]"

definition RELAY_PRIVILEGES :: "string list" where
  "RELAY_PRIVILEGES = [''one systemd unit, no ambient capability'']"

definition AGENT_ACCOUNTS :: "string list" where
  "AGENT_ACCOUNTS = [''your-cloud-daemon'']"

definition AGENT_ARTIFACTS :: "string list" where
  "AGENT_ARTIFACTS =
     [''/etc/your-cloud/roles'', ''/etc/your-cloud/daemon.env'', ''/var/lib/private/your-cloud-daemon'']"

definition AGENT_FLOWS :: "Flow list" where
  "AGENT_FLOWS =
     [\<lparr>fl_description = ''daemon to relay ingestion, outbound only'', fl_port = 8443\<rparr>]"

definition AGENT_PRIVILEGES :: "string list" where
  "AGENT_PRIVILEGES = [''one systemd unit, no ambient capability'']"

section \<open>Compatibility\<close>

fun widen :: "u32 Observed \<Rightarrow> u64 Observed" where
  "widen (Known v) = Known (ucast v)"
| "widen (NotKnown why) = NotKnown why"

text \<open>What \<open>resource\<close> pushes onto the refusals.\<close>

fun resource_refusal :: "string \<Rightarrow> Resource \<Rightarrow> u64 Observed \<Rightarrow> u64 \<Rightarrow> Incompatibility list" where
  "resource_refusal name resource (Known v) required =
     (if v \<ge> required then [] else [TooLittle resource v required])"
| "resource_refusal name resource (NotKnown why) required = [FactUnverified name why]"

definition distribution_refusal :: "Distribution Observed \<Rightarrow> Incompatibility list" where
  "distribution_refusal observed =
     (case observed of
        Known d \<Rightarrow>
          if ds_id d = SUPPORTED_DISTRIBUTION_ID \<and> ds_version_id d = SUPPORTED_DISTRIBUTION_VERSION
          then [] else [WrongDistribution d]
      | NotKnown why \<Rightarrow> [FactUnverified ''distribution'' why])"

definition architecture_refusal :: "Architecture Observed \<Rightarrow> Incompatibility list" where
  "architecture_refusal observed =
     (case observed of
        Known Amd64 \<Rightarrow> []
      | Known other \<Rightarrow> [WrongArchitecture other]
      | NotKnown why \<Rightarrow> [FactUnverified ''architecture'' why])"

definition init_refusal :: "InitSystem Observed \<Rightarrow> Incompatibility list" where
  "init_refusal observed =
     (case observed of
        Known Systemd \<Rightarrow> []
      | Known other \<Rightarrow> [MissingFacility FacilityInit (Some other) None]
      | NotKnown why \<Rightarrow> [FactUnverified ''init'' why])"

definition cgroup_refusal :: "CgroupHierarchy Observed \<Rightarrow> Incompatibility list" where
  "cgroup_refusal observed =
     (case observed of
        Known CgroupV2 \<Rightarrow> []
      | Known hierarchy \<Rightarrow> [MissingFacility FacilityCgroupV2 None (Some hierarchy)]
      | NotKnown why \<Rightarrow> [FactUnverified ''cgroup'' why])"

definition compatibility :: "Role \<Rightarrow> ObservedMachine \<Rightarrow> Incompatibility list" where
  "compatibility role machine =
     (let required = requirements role in
      distribution_refusal (om_distribution machine)
      @ architecture_refusal (om_architecture machine)
      @ init_refusal (om_init machine)
      @ cgroup_refusal (om_cgroup machine)
      @ resource_refusal ''memory'' Memory (om_memory_kib machine) (rq_memory_kib required)
      @ resource_refusal ''processors'' Processors (widen (om_processors machine))
          (ucast (rq_processors required))
      @ resource_refusal ''free disk'' FreeDisk (om_free_disk_kib machine)
          (rq_free_disk_kib required))"

definition note_fact :: "string \<Rightarrow> Unverified option \<Rightarrow> UnverifiedFact list" where
  "note_fact name why =
     (case why of None \<Rightarrow> [] | Some why \<Rightarrow> [\<lparr>uf_fact = name, uf_why = why\<rparr>])"

definition unverified_facts :: "ObservedMachine \<Rightarrow> UnverifiedFact list" where
  "unverified_facts machine =
     note_fact ''uid'' (observed_unverified (om_uid machine))
     @ note_fact ''hostname'' (observed_unverified (om_hostname machine))
     @ note_fact ''distribution'' (observed_unverified (om_distribution machine))
     @ note_fact ''architecture'' (observed_unverified (om_architecture machine))
     @ note_fact ''init'' (observed_unverified (om_init machine))
     @ note_fact ''cgroup'' (observed_unverified (om_cgroup machine))
     @ note_fact ''memory'' (observed_unverified (om_memory_kib machine))
     @ note_fact ''processors'' (observed_unverified (om_processors machine))
     @ note_fact ''free disk'' (observed_unverified (om_free_disk_kib machine))
     @ note_fact ''installation'' (observed_unverified (om_installation machine))"

section \<open>Proposing and approving\<close>

definition declared_roles :: "ObservedMachine \<Rightarrow> Role list" where
  "declared_roles machine =
     (case om_installation machine of Known (Declared roles) \<Rightarrow> roles | _ \<Rightarrow> [])"

text \<open>The placement rules, which come before the facts of the machine.\<close>

fun placement_rule :: "Role \<Rightarrow> DeclaredEndpoint \<Rightarrow> Role list \<Rightarrow> PlacementRefusal option" where
  "placement_rule Controller endpoint roles =
     (if de_exposure endpoint \<noteq> Private then Some ControllerOnExposedEndpoint
      else if de_availability endpoint \<noteq> NormallyOn then Some ControllerOnIntermittentEndpoint
      else if Relay \<in> set roles then Some ControllerBesideRelay
      else None)"
| "placement_rule Relay endpoint roles =
     (if \<not> de_relay_candidate endpoint then Some RelayOnUndeclaredCandidate else None)"
| "placement_rule Agent endpoint roles = None"
| "placement_rule other endpoint roles = Some (RoleOutsideThisPalier other)"

fun sheet :: "Role \<Rightarrow> string list \<times> string list \<times> Flow list \<times> string list" where
  "sheet Relay = (RELAY_ACCOUNTS, RELAY_ARTIFACTS, RELAY_FLOWS, RELAY_PRIVILEGES)"
| "sheet Agent = (AGENT_ACCOUNTS, AGENT_ARTIFACTS, AGENT_FLOWS, AGENT_PRIVILEGES)"
| "sheet _ = (CONTROLLER_ACCOUNTS, CONTROLLER_ARTIFACTS, CONTROLLER_FLOWS, CONTROLLER_PRIVILEGES)"

definition known_or_zero :: "('a :: zero) Observed \<Rightarrow> 'a" where
  "known_or_zero observed = (case observed_known observed of Some v \<Rightarrow> v | None \<Rightarrow> 0)"

definition propose ::
  "Role \<Rightarrow> DeclaredEndpoint \<Rightarrow> ObservedMachine \<Rightarrow> PlacementRefusal + Proposal" where
  "propose role endpoint machine =
     (let roles = declared_roles machine in
      case placement_rule role endpoint roles of
        Some refusal \<Rightarrow> Inl refusal
      | None \<Rightarrow>
          let refusals = compatibility role machine in
          if refusals \<noteq> [] then Inl (Incompatible refusals)
          else
            let (accounts, artifacts, flows, privileges) = sheet role in
            Inr \<lparr>pr_role = role, pr_endpoint = de_name endpoint,
              pr_cohabitation =
                (if roles = [] then NoDeclaredInstallation else WithDeclaredRoles roles),
              pr_fault_domain = (if roles = [] then OwnHost else SharedWithDeclaredRoles),
              pr_required = requirements role,
              pr_observed_memory_kib = known_or_zero (om_memory_kib machine),
              pr_observed_processors = known_or_zero (om_processors machine),
              pr_observed_free_disk_kib = known_or_zero (om_free_disk_kib machine),
              pr_accounts = accounts, pr_artifacts = artifacts, pr_flows = flows,
              pr_privileges = privileges, pr_unverified = unverified_facts machine\<rparr>)"

record PlacementApproval =
  ap_role :: Role
  ap_endpoint :: string

record ApprovedPlacement =
  apl_role :: Role
  apl_endpoint :: string

definition approve :: "Proposal \<Rightarrow> PlacementApproval \<Rightarrow> PlacementRefusal + ApprovedPlacement" where
  "approve proposal approval =
     (if ap_role approval \<noteq> pr_role proposal \<or> ap_endpoint approval \<noteq> pr_endpoint proposal
      then Inl RoleNotApproved
      else Inr \<lparr>apl_role = pr_role proposal, apl_endpoint = pr_endpoint proposal\<rparr>)"

section \<open>Lemmas\<close>

lemma resource_refusal_Nil:
  "resource_refusal name resource observed required = [] \<longleftrightarrow>
     (\<exists>v. observed = Known v \<and> required \<le> v)"
  by (cases observed) auto

lemma widen_Known: "widen observed = Known w \<longleftrightarrow> (\<exists>v. observed = Known v \<and> w = ucast v)"
  by (cases observed) auto

lemma distribution_refusal_Nil:
  "distribution_refusal observed = [] \<longleftrightarrow>
     observed = Known \<lparr>ds_id = ''debian'', ds_version_id = ''13''\<rparr>"
  by (cases observed)
    (auto simp: distribution_refusal_def SUPPORTED_DISTRIBUTION_ID_def
      SUPPORTED_DISTRIBUTION_VERSION_def)

lemma platform_refusals_Nil:
  "architecture_refusal a = [] \<longleftrightarrow> a = Known Amd64"
  "init_refusal i = [] \<longleftrightarrow> i = Known Systemd"
  "cgroup_refusal c = [] \<longleftrightarrow> c = Known CgroupV2"
  by (auto simp: architecture_refusal_def init_refusal_def cgroup_refusal_def
      split: Observed.splits Architecture.splits InitSystem.splits CgroupHierarchy.splits)

lemma compatibility_Nil:
  "compatibility role machine = [] \<longleftrightarrow>
     om_distribution machine = Known \<lparr>ds_id = ''debian'', ds_version_id = ''13''\<rparr>
     \<and> om_architecture machine = Known Amd64 \<and> om_init machine = Known Systemd
     \<and> om_cgroup machine = Known CgroupV2
     \<and> (\<exists>v. om_memory_kib machine = Known v \<and> rq_memory_kib (requirements role) \<le> v)
     \<and> (\<exists>v. om_processors machine = Known v
          \<and> (ucast (rq_processors (requirements role)) :: u64) \<le> ucast v)
     \<and> (\<exists>v. om_free_disk_kib machine = Known v \<and> rq_free_disk_kib (requirements role) \<le> v)"
  by (auto simp: compatibility_def Let_def resource_refusal_Nil widen_Known
      distribution_refusal_Nil platform_refusals_Nil)

lemma propose_Inr:
  assumes "propose role endpoint machine = Inr p"
  shows "placement_rule role endpoint (declared_roles machine) = None"
    "compatibility role machine = []" "pr_role p = role" "pr_endpoint p = de_name endpoint"
    "pr_required p = requirements role" "pr_unverified p = unverified_facts machine"
    "pr_observed_memory_kib p = known_or_zero (om_memory_kib machine)"
    "pr_observed_processors p = known_or_zero (om_processors machine)"
    "pr_observed_free_disk_kib p = known_or_zero (om_free_disk_kib machine)"
    "(pr_cohabitation p = NoDeclaredInstallation) = (declared_roles machine = [])"
  using assms
  by (auto simp: propose_def Let_def split: option.splits if_splits prod.splits)

lemma placement_rule_None:
  "placement_rule role endpoint roles = None \<longleftrightarrow>
     (role = Controller \<and> de_exposure endpoint = Private \<and> de_availability endpoint = NormallyOn
        \<and> Relay \<notin> set roles)
     \<or> (role = Relay \<and> de_relay_candidate endpoint) \<or> role = Agent"
  by (cases role) simp_all

section \<open>Concrete machines\<close>

definition sample_machine :: "Installation Observed \<Rightarrow> ObservedMachine" where
  "sample_machine installation =
     \<lparr>om_uid = Known 1000, om_hostname = Known ''node-1'',
      om_distribution = Known \<lparr>ds_id = ''debian'', ds_version_id = ''13''\<rparr>,
      om_architecture = Known Amd64, om_init = Known Systemd, om_cgroup = Known CgroupV2,
      om_memory_kib = Known 1048576, om_processors = Known 2, om_free_disk_kib = Known 4194304,
      om_installation = installation\<rparr>"

definition sample_endpoint :: DeclaredEndpoint where
  "sample_endpoint =
     \<lparr>de_name = ''node-1'', de_port = 22, de_exposure = Private, de_availability = NormallyOn,
      de_relay_candidate = False\<rparr>"

lemma sample_compatible: "compatibility Controller (sample_machine installation) = []"
  by (simp add: compatibility_Nil sample_machine_def CONTROLLER_REQUIREMENTS_def)

lemma sample_proposed:
  assumes "declared_roles (sample_machine installation) = []"
  shows "\<exists>p. propose Controller sample_endpoint (sample_machine installation) = Inr p"
  using assms sample_compatible
  by (simp add: propose_def Let_def sample_endpoint_def)

section \<open>Properties\<close>



text \<open>The rule that keeps the Controller away from the Relay rests on a fact that may
never have been read. A Controller is refused beside a declared Relay, but when
the installation could not be established at all it is proposed, as if none were
declared, and only the list of unverified facts says so.\<close>

theorem controller_proposed_on_unread_installation:
  "(Relay \<in> set roles \<longrightarrow>
      propose Controller sample_endpoint (sample_machine (Known (Declared roles)))
        = Inl ControllerBesideRelay)
   \<and> (\<exists>p. propose Controller sample_endpoint (sample_machine (NotKnown why)) = Inr p
        \<and> pr_cohabitation p = NoDeclaredInstallation \<and> pr_fault_domain p = OwnHost
        \<and> \<lparr>uf_fact = ''installation'', uf_why = why\<rparr> \<in> set (pr_unverified p))"
proof -
  have "declared_roles (sample_machine (NotKnown why)) = []"
    by (simp add: declared_roles_def sample_machine_def)
  from sample_proposed [OF this] obtain p where
    p: "propose Controller sample_endpoint (sample_machine (NotKnown why)) = Inr p" ..
  then have "pr_cohabitation p = NoDeclaredInstallation \<and> pr_fault_domain p = OwnHost
      \<and> \<lparr>uf_fact = ''installation'', uf_why = why\<rparr> \<in> set (pr_unverified p)"
    by (auto simp: propose_def Let_def declared_roles_def sample_machine_def unverified_facts_def
        note_fact_def split: option.splits if_splits prod.splits)
  with p show ?thesis
    by (auto simp: propose_def Let_def declared_roles_def sample_machine_def sample_endpoint_def)
qed

theorem controller_proposed_on_unread_installation_witness:
  "propose Controller sample_endpoint (sample_machine (Known (Declared [Relay])))
     = Inl ControllerBesideRelay"
  using controller_proposed_on_unread_installation [of "[Relay]"] by simp

text \<open>A refusal names every reason. A role fits a machine exactly when its list of
reasons is empty; each of the seven checks contributes at most one, so no reason
hides another; and of a machine that never answered every check says that it is the
fact that is missing, not the machine that is wrong.\<close>

theorem compatibility_names_every_reason:
  "length (compatibility role machine) =
     (if om_distribution machine = Known \<lparr>ds_id = ''debian'', ds_version_id = ''13''\<rparr> then 0 else 1)
     + (if om_architecture machine = Known Amd64 then 0 else 1)
     + (if om_init machine = Known Systemd then 0 else 1)
     + (if om_cgroup machine = Known CgroupV2 then 0 else 1)
     + (if \<exists>v. om_memory_kib machine = Known v \<and> rq_memory_kib (requirements role) \<le> v then 0 else 1)
     + (if \<exists>v. om_processors machine = Known v
             \<and> (ucast (rq_processors (requirements role)) :: u64) \<le> ucast v then 0 else 1)
     + (if \<exists>v. om_free_disk_kib machine = Known v \<and> rq_free_disk_kib (requirements role) \<le> v then 0 else 1)
   \<and> compatibility role (machine_unanswered why) = map (\<lambda>name. FactUnverified name why)
       [''distribution'', ''architecture'', ''init'', ''cgroup'', ''memory'', ''processors'', ''free disk'']"
proof -
  have resource: "length (resource_refusal name resource observed required) =
      (if \<exists>v. observed = Known v \<and> required \<le> v then 0 else 1)" for name resource observed required
    by (cases observed) auto
  have widened: "(\<exists>v. widen observed = Known v \<and> required \<le> v) \<longleftrightarrow>
      (\<exists>v. observed = Known v \<and> required \<le> ucast v)" for observed required
    by (cases observed) auto
  have one: "length (distribution_refusal d) = (if distribution_refusal d = [] then 0 else 1)"
    "length (architecture_refusal a) = (if architecture_refusal a = [] then 0 else 1)"
    "length (init_refusal i) = (if init_refusal i = [] then 0 else 1)"
    "length (cgroup_refusal c) = (if cgroup_refusal c = [] then 0 else 1)" for d a i c
    by (auto simp: distribution_refusal_def architecture_refusal_def init_refusal_def
        cgroup_refusal_def split: Observed.splits Architecture.splits InitSystem.splits
        CgroupHierarchy.splits)
  have "compatibility role (machine_unanswered why) = map (\<lambda>name. FactUnverified name why)
       [''distribution'', ''architecture'', ''init'', ''cgroup'', ''memory'', ''processors'', ''free disk'']"
    by (simp add: compatibility_def Let_def machine_unanswered_def distribution_refusal_def
        architecture_refusal_def init_refusal_def cgroup_refusal_def)
  then show ?thesis
    by (simp only: compatibility_def Let_def length_append one resource widened
        distribution_refusal_Nil platform_refusals_Nil simp_thms)
qed

text \<open>An approval is a witness of one exact proposal: it exists exactly when the answer
names the proposed role on the proposed endpoint, and it carries those two and
nothing else.\<close>

theorem approval_is_of_the_proposal:
  "approve proposal answer =
     (if answer = \<lparr>ap_role = pr_role proposal, ap_endpoint = pr_endpoint proposal\<rparr>
      then Inr \<lparr>apl_role = pr_role proposal, apl_endpoint = pr_endpoint proposal\<rparr>
      else Inl RoleNotApproved)"
  by (cases answer) (simp add: approve_def)

end
