(* ===== verification/Preflight.thy ===== *)
theory Preflight
  imports Std_Stream
begin

text \<open>
  \<open>installation/preflight.rs\<close>: the Controller's own attempt on every declared
  endpoint. One clearance covers the whole declared set or there is none.
\<close>

definition HOST_KEY_FINGERPRINT_BYTES :: nat where [limits]: "HOST_KEY_FINGERPRINT_BYTES = 7 + 43"

datatype Observation = Presented string | UnreachableEndpoint | SilentEndpoint

record EndpointAttempt =
  ea_name :: string
  ea_confirmed_fingerprint :: string
  ea_observed :: Observation

datatype PreflightRefusal =
    NothingDeclared
  | DuplicateEndpoint string
  | NeverConfirmed string
  | ConfirmedMalformed string
  | Unreachable string
  | NoAnswer string
  | HostKeyMismatch string

record PreflightCleared =
  pc_endpoints :: "string list"

definition covers :: "PreflightCleared \<Rightarrow> string \<Rightarrow> bool" where
  "covers cleared name = list_ex (\<lambda>endpoint. endpoint = name) (pc_endpoints cleared)"

definition judge :: "EndpointAttempt \<Rightarrow> PreflightRefusal + unit" where
  "judge attempt =
     (let name = ea_name attempt; confirmed = ea_confirmed_fingerprint attempt in
      if blank confirmed then Inl (NeverConfirmed name)
      else if length confirmed \<noteq> HOST_KEY_FINGERPRINT_BYTES \<or> \<not> prefix ''SHA256:'' confirmed
      then Inl (ConfirmedMalformed name)
      else (case ea_observed attempt of
          UnreachableEndpoint \<Rightarrow> Inl (Unreachable name)
        | SilentEndpoint \<Rightarrow> Inl (NoAnswer name)
        | Presented fingerprint \<Rightarrow>
            if fingerprint = confirmed then Inr () else Inl (HostKeyMismatch name)))"

text \<open>The loop of \<open>clear\<close>, over the names it has accepted so far.\<close>

fun clear_from :: "string list \<Rightarrow> EndpointAttempt list \<Rightarrow> PreflightRefusal + string list" where
  "clear_from names [] = Inr names"
| "clear_from names (attempt # attempts) =
     (if ea_name attempt \<in> set names then Inl (DuplicateEndpoint (ea_name attempt))
      else and_then (judge attempt) (\<lambda>_. clear_from (names @ [ea_name attempt]) attempts))"

definition clear :: "EndpointAttempt list \<Rightarrow> PreflightRefusal + PreflightCleared" where
  "clear attempts =
     (if attempts = [] then Inl NothingDeclared
      else and_then (clear_from [] attempts) (\<lambda>names. Inr \<lparr>pc_endpoints = names\<rparr>))"

section \<open>All or nothing\<close>

text \<open>The one way an attempt is accepted.\<close>

definition confirmed_answer :: "EndpointAttempt \<Rightarrow> bool" where
  "confirmed_answer attempt =
     (ea_observed attempt = Presented (ea_confirmed_fingerprint attempt)
      \<and> length (ea_confirmed_fingerprint attempt) = 50
      \<and> prefix ''SHA256:'' (ea_confirmed_fingerprint attempt))"

lemma judge_Inr [simp]: "judge attempt = Inr u \<longleftrightarrow> confirmed_answer attempt"
proof -
  have "\<not> blank s" if "prefix ''SHA256:'' s" for s
    using that by (auto simp: prefix_def blank_def is_whitespace_def code_def)
  then show ?thesis
    by (auto simp: judge_def Let_def confirmed_answer_def limits split: Observation.splits if_splits)
qed

lemma clear_from_Inr:
  "clear_from names attempts = Inr names' \<longleftrightarrow>
     list_all confirmed_answer attempts \<and> names' = names @ map ea_name attempts
     \<and> distinct (map ea_name attempts) \<and> set names \<inter> set (map ea_name attempts) = {}"
  by (induction attempts arbitrary: names) (auto simp: result_iff)

lemma clear_Inr:
  "clear attempts = Inr c \<longleftrightarrow>
     attempts \<noteq> [] \<and> pc_endpoints c = map ea_name attempts
     \<and> list_all confirmed_answer attempts \<and> distinct (map ea_name attempts)"
  by (cases c) (auto simp: clear_def result_iff clear_from_Inr)

lemma covers_iff: "covers c name \<longleftrightarrow> name \<in> set (pc_endpoints c)"
  by (auto simp: covers_def list_ex_iff)

definition refused_name :: "PreflightRefusal \<Rightarrow> string option" where
  "refused_name refusal = (case refusal of NothingDeclared \<Rightarrow> None
     | DuplicateEndpoint n \<Rightarrow> Some n | NeverConfirmed n \<Rightarrow> Some n | ConfirmedMalformed n \<Rightarrow> Some n
     | Unreachable n \<Rightarrow> Some n | NoAnswer n \<Rightarrow> Some n | HostKeyMismatch n \<Rightarrow> Some n)"

lemma judge_names: "judge attempt = Inl refusal \<Longrightarrow> refused_name refusal = Some (ea_name attempt)"
  by (auto simp: judge_def Let_def refused_name_def split: if_splits Observation.splits)

lemma clear_from_names:
  "clear_from names attempts = Inl refusal \<Longrightarrow>
     \<exists>attempt \<in> set attempts. refused_name refusal = Some (ea_name attempt)"
proof (induction attempts arbitrary: names)
  case (Cons attempt attempts)
  show ?case
  proof (cases "judge attempt")
    case (Inl r)
    with Cons.prems show ?thesis
      using judge_names [OF Inl] by (auto simp: refused_name_def split: if_splits)
  next
    case (Inr u)
    then have "and_then (judge attempt) f = f u" for f :: "unit \<Rightarrow> PreflightRefusal + string list"
      by (simp only: and_then_simps)
    with Cons show ?thesis by (fastforce simp: refused_name_def split: if_splits)
  qed
qed simp

text \<open>The clearance is all or nothing. A declared set is cleared exactly when it is
not empty, no name stands twice in it, and every endpoint of it presented the very
fingerprint already confirmed, in its SHA256 form; the clearance then covers those
names and no other; and any refusal but that of an empty set names a declared endpoint.\<close>

theorem clearance_is_all_or_nothing:
  "(clear attempts = Inr cleared) =
     (attempts \<noteq> [] \<and> pc_endpoints cleared = map ea_name attempts
      \<and> list_all confirmed_answer attempts \<and> distinct (map ea_name attempts))
   \<and> {name. \<exists>c. clear attempts = Inr c \<and> covers c name}
       = (if is_ok (clear attempts) then ea_name ` set attempts else {})
   \<and> {r. clear attempts = Inl r} \<subseteq> {r. r = NothingDeclared \<and> attempts = []}
       \<union> {r. \<exists>attempt. attempt \<in> set attempts \<and> refused_name r = Some (ea_name attempt)}"
proof -
  have "\<exists>attempt. attempt \<in> set attempts \<and> refused_name r = Some (ea_name attempt)"
    if "clear attempts = Inl r" "attempts \<noteq> []" for r
    using that clear_from_names [of "[]" attempts r]
    by (cases "clear_from [] attempts") (auto simp: clear_def)
  moreover have "r = NothingDeclared" if "clear [] = Inl r" for r
    using that by (simp add: clear_def)
  ultimately show ?thesis
    by (auto simp: is_ok_iff clear_Inr covers_iff) (metis PreflightCleared.select_convs(1))+
qed

end
