(* ===== verification/Bundle.thy ===== *)
theory Bundle
  imports Std_Stream Document_Gate
begin

text \<open>
  \<open>installation/bundle.rs\<close>: the server bundle an Assistant may carry. The anchor
  answers for the manifest, the manifest for the artifact. The signature scheme, the
  JSON reader and the hash are third-party code and are parameters.
\<close>

section \<open>Bounds and refusals\<close>

definition BUNDLE_KIND :: string where [limits]: "BUNDLE_KIND = ''your-cloud-server-bundle''"

definition SUPPORTED_TARGET :: string where [limits]: "SUPPORTED_TARGET = ''debian-13-amd64''"

definition BUNDLE_SCHEMA_VERSION :: u64 where [limits]: "BUNDLE_SCHEMA_VERSION = 1"

definition MAX_MANIFEST_BYTES :: nat where [limits]: "MAX_MANIFEST_BYTES = 4096"

definition ANCHOR_PUBLIC_KEY_BYTES :: nat where [limits]: "ANCHOR_PUBLIC_KEY_BYTES = 32"

definition BUNDLE_SIGNATURE_BYTES :: nat where [limits]: "BUNDLE_SIGNATURE_BYTES = 64"

definition DIGEST_ENCODED_BYTES :: nat where [limits]: "DIGEST_ENCODED_BYTES = 64"

definition MAX_ARTIFACT_BYTES :: nat where [limits]: "MAX_ARTIFACT_BYTES = 64 * 1024 * 1024"

datatype BundleRefusal =
    ManifestTooLarge | AnchorNotAKey | SignatureMalformed | SignatureNotByAnchor
  | ManifestUnreadable | ManifestUnknownField | SchemaNotSupported | ForeignKind
  | UnsupportedTarget | UnexpectedVersion | ArtifactTooLarge | SizeMismatch | DigestMismatch

record Manifest =
  mf_version :: string
  mf_target :: string
  mf_size :: u64
  mf_sha256 :: string

record VerifiedBundle =
  vb_version :: string
  vb_target :: string
  vb_size :: u64
  vb_sha256 :: string

section \<open>What the third-party code answers\<close>

text \<open>
  \<open>VerifyingKey::from_bytes\<close> and \<open>Verifier::verify\<close>; and a \<open>serde_json::Value\<close> as
  far as the source looks into it, an object being its keys with their values.
\<close>

record 'k ed25519 =
  verifying_key :: "bytes \<Rightarrow> 'k option"
  key_verifies :: "'k \<Rightarrow> bytes \<Rightarrow> bytes \<Rightarrow> bool"

datatype json_value =
    JsonString string | JsonU64 u64 | JsonObject "(string \<times> json_value) list" | JsonOther

fun as_object :: "json_value \<Rightarrow> (string \<times> json_value) list option" where
  "as_object (JsonObject members) = Some members"
| "as_object _ = None"

fun as_u64 :: "json_value \<Rightarrow> u64 option" where
  "as_u64 (JsonU64 n) = Some n"
| "as_u64 _ = None"

fun as_str :: "json_value \<Rightarrow> string option" where
  "as_str (JsonString s) = Some s"
| "as_str _ = None"

section \<open>Reading the manifest\<close>

definition json_text :: "(string \<times> json_value) list \<Rightarrow> string \<Rightarrow> BundleRefusal + string" where
  "json_text object name =
     ok_or (do {
       value \<leftarrow> map_of object name;
       text \<leftarrow> as_str value;
       if text = [] then None else Some text }) ManifestUnreadable"

definition json_u64 :: "(string \<times> json_value) list \<Rightarrow> string \<Rightarrow> BundleRefusal + u64" where
  "json_u64 object name = ok_or (do { value \<leftarrow> map_of object name; as_u64 value }) ManifestUnreadable"

definition MANIFEST_FIELDS :: "string list" where
  "MANIFEST_FIELDS = [''schema_version'', ''kind'', ''version'', ''target'', ''sha256'']"

definition read_manifest :: "(bytes \<Rightarrow> json_value option) \<Rightarrow> bytes \<Rightarrow> BundleRefusal + Manifest" where
  "read_manifest from_slice manifest_bytes =
     and_then (ok_or (from_slice manifest_bytes) ManifestUnreadable) (\<lambda>document.
     and_then (ok_or (as_object document) ManifestUnreadable) (\<lambda>object.
     if list_ex (\<lambda>name. name \<notin> set MANIFEST_FIELDS \<and> name \<noteq> ''size'') (map fst object)
     then Inl ManifestUnknownField
     else
       and_then (json_u64 object ''schema_version'') (\<lambda>schema_version.
       if schema_version \<noteq> BUNDLE_SCHEMA_VERSION then Inl SchemaNotSupported
       else
         and_then (json_text object ''kind'') (\<lambda>kind.
         if kind \<noteq> BUNDLE_KIND then Inl ForeignKind
         else
           and_then (json_text object ''sha256'') (\<lambda>sha256.
           if length sha256 \<noteq> DIGEST_ENCODED_BYTES \<or> \<not> is_lower_hex_text sha256
           then Inl ManifestUnreadable
           else
             and_then (json_text object ''version'') (\<lambda>version.
             and_then (json_text object ''target'') (\<lambda>target.
             and_then (json_u64 object ''size'') (\<lambda>size.
             Inr \<lparr>mf_version = version, mf_target = target, mf_size = size,
                   mf_sha256 = sha256\<rparr>))))))))"

section \<open>The one gate\<close>

definition anchor_key :: "'k ed25519 \<Rightarrow> bytes \<Rightarrow> BundleRefusal + 'k" where
  "anchor_key ed anchor =
     (if length anchor \<noteq> ANCHOR_PUBLIC_KEY_BYTES then Inl AnchorNotAKey
      else ok_or (verifying_key ed anchor) AnchorNotAKey)"

definition detached_signature :: "bytes \<Rightarrow> BundleRefusal + bytes" where
  "detached_signature sig =
     (if length sig \<noteq> BUNDLE_SIGNATURE_BYTES then Inl SignatureMalformed else Inr sig)"

definition digest_matches :: "sha256 \<Rightarrow> string \<Rightarrow> bytes \<Rightarrow> bool" where
  "digest_matches sha expected artifact =
     (length expected = DIGEST_ENCODED_BYTES \<and> encode_lower_hex (sha artifact) = expected)"

definition verify_bundle ::
  "'k ed25519 \<Rightarrow> (bytes \<Rightarrow> json_value option) \<Rightarrow> sha256 \<Rightarrow>
     bytes \<Rightarrow> bytes \<Rightarrow> bytes \<Rightarrow> string \<Rightarrow> bytes \<Rightarrow> BundleRefusal + VerifiedBundle" where
  "verify_bundle ed from_slice sha anchor manifest_bytes sig expected_version artifact =
     (if length manifest_bytes > MAX_MANIFEST_BYTES then Inl ManifestTooLarge
      else if length artifact > MAX_ARTIFACT_BYTES then Inl ArtifactTooLarge
      else
        and_then (anchor_key ed anchor) (\<lambda>key.
        and_then (detached_signature sig) (\<lambda>signature.
        if \<not> key_verifies ed key manifest_bytes signature then Inl SignatureNotByAnchor
        else
          and_then (read_manifest from_slice manifest_bytes) (\<lambda>manifest.
          if mf_target manifest \<noteq> SUPPORTED_TARGET then Inl UnsupportedTarget
          else if mf_version manifest \<noteq> expected_version then Inl UnexpectedVersion
          else if mf_size manifest \<noteq> of_nat (length artifact) then Inl SizeMismatch
          else if \<not> digest_matches sha (mf_sha256 manifest) artifact then Inl DigestMismatch
          else Inr \<lparr>vb_version = mf_version manifest, vb_target = mf_target manifest,
                     vb_size = mf_size manifest, vb_sha256 = mf_sha256 manifest\<rparr>))))"

section \<open>What a verified bundle says\<close>

lemma verify_bundle_Inr:
  "verify_bundle ed from_slice sha anchor manifest signature version artifact = Inr b \<longleftrightarrow>
     length manifest \<le> MAX_MANIFEST_BYTES \<and> length artifact \<le> MAX_ARTIFACT_BYTES
     \<and> length anchor = ANCHOR_PUBLIC_KEY_BYTES \<and> length signature = BUNDLE_SIGNATURE_BYTES
     \<and> (\<exists>key. verifying_key ed anchor = Some key \<and> key_verifies ed key manifest signature)
     \<and> read_manifest from_slice manifest
         = Inr \<lparr>mf_version = vb_version b, mf_target = vb_target b, mf_size = vb_size b,
               mf_sha256 = vb_sha256 b\<rparr>
     \<and> vb_target b = SUPPORTED_TARGET \<and> vb_version b = version
     \<and> vb_size b = of_nat (length artifact) \<and> digest_matches sha (vb_sha256 b) artifact"
proof -
  have "(\<exists>m. read_manifest from_slice manifest = Inr m \<and> mf_target m = t \<and> mf_version m = v
        \<and> mf_size m = z \<and> digest_matches sha (mf_sha256 m) artifact
        \<and> \<lparr>vb_version = mf_version m, vb_target = mf_target m, vb_size = mf_size m,
            vb_sha256 = mf_sha256 m\<rparr> = b)
    \<longleftrightarrow> read_manifest from_slice manifest
         = Inr \<lparr>mf_version = vb_version b, mf_target = vb_target b, mf_size = vb_size b,
               mf_sha256 = vb_sha256 b\<rparr>
       \<and> vb_target b = t \<and> vb_version b = v \<and> vb_size b = z
       \<and> digest_matches sha (vb_sha256 b) artifact" (is "(\<exists>m. ?built m) \<longleftrightarrow> ?read") for t v z
  proof
    assume "\<exists>m. ?built m"
    then obtain m where "?built m" ..
    then show ?read by (cases m) auto
  next
    assume ?read
    then show "\<exists>m. ?built m" by (cases b) auto
  qed
  then show ?thesis
    by (simp add: verify_bundle_def anchor_key_def detached_signature_def result_iff guard_Inr_iff
        not_less) blast
qed

lemma read_manifest_hex:
  "read_manifest from_slice manifest = Inr m \<Longrightarrow>
     is_lower_hex_text (mf_sha256 m) \<and> length (mf_sha256 m) = 64"
  by (auto simp: read_manifest_def result_iff guard_Inr_iff limits)

lemma digest_matches_iff:
  "length (sha artifact) = 32 \<Longrightarrow>
     digest_matches sha expected artifact \<longleftrightarrow> expected = encode_lower_hex (sha artifact)"
  by (auto simp: digest_matches_def limits)

lemma artifact_size: "length artifact \<le> MAX_ARTIFACT_BYTES \<Longrightarrow> unat (of_nat (length artifact) :: u64) = length artifact"
  by (simp add: limits unat_of_nat)

lemma verified_bundle_measures:
  assumes "verify_bundle ed from_slice sha anchor manifest signature version artifact = Inr b"
    and "length (sha artifact) = 32"
  shows "unat (vb_size b) = length artifact" "vb_sha256 b = encode_lower_hex (sha artifact)"
  using assms by (simp_all add: verify_bundle_Inr digest_matches_iff artifact_size)

lemma verified_bundle_unique:
  assumes "verify_bundle ed from_slice sha anchor manifest signature version artifact = Inr b"
    and "verify_bundle ed from_slice sha anchor manifest signature version artifact' = Inr b'"
  shows "b = b'"
proof -
  from assms have "Inr \<lparr>mf_version = vb_version b, mf_target = vb_target b, mf_size = vb_size b,
        mf_sha256 = vb_sha256 b\<rparr>
      = (Inr \<lparr>mf_version = vb_version b', mf_target = vb_target b', mf_size = vb_size b',
        mf_sha256 = vb_sha256 b'\<rparr> :: BundleRefusal + Manifest)"
    by (metis verify_bundle_Inr)
  then show ?thesis by (intro VerifiedBundle.equality) simp_all
qed

text \<open>A key that accepts any signature of 64 bytes, and a JSON reader of one manifest, for the witness.\<close>

definition sample_ed25519 :: "unit ed25519" where
  "sample_ed25519 = \<lparr>verifying_key = (\<lambda>anchor. Some ()), key_verifies = (\<lambda>key message signature. True)\<rparr>"

definition sample_manifest :: "bytes \<Rightarrow> json_value option" where
  "sample_manifest manifest =
     Some (JsonObject
       [(''schema_version'', JsonU64 1), (''kind'', JsonString ''your-cloud-server-bundle''),
        (''version'', JsonString ''0.0.3''), (''target'', JsonString ''debian-13-amd64''),
        (''size'', JsonU64 3), (''sha256'', JsonString (encode_lower_hex (sample_sha [1, 2, 3])))])"

definition sample_bundle :: VerifiedBundle where
  "sample_bundle = \<lparr>vb_version = ''0.0.3'', vb_target = ''debian-13-amd64'', vb_size = 3,
     vb_sha256 = encode_lower_hex (sample_sha [1, 2, 3])\<rparr>"

lemma lower_hex_encoded [simp]: "is_lower_hex_text (encode_lower_hex d)"
proof (induction d)
  case (Cons b d)
  obtain n m where nm: "n < 16" "m < 16" "b = push_bit 4 (of_nat n) OR of_nat m"
    using hex_byte_ex by blast
  with Cons show ?case
    by (simp add: encode_lower_hex_def hex_byte_join is_lower_hex_text_def is_lower_hex_def is_ascii_digit_def code_hex_digit)
qed (simp add: encode_lower_hex_def is_lower_hex_text_def)

lemma sample_bundle_verified:
  "verify_bundle sample_ed25519 sample_manifest sample_sha (replicate 32 0) [] (replicate 64 0)
     ''0.0.3'' [1, 2, 3] = Inr sample_bundle"
proof -
  have "encode_lower_hex (sample_sha [1, 2, 3]) \<noteq> []"
    by (simp add: encode_lower_hex_def sample_sha_def hex_byte_def)
  then show ?thesis
    by (simp add: verify_bundle_Inr sample_ed25519_def sample_bundle_def read_manifest_def
        sample_manifest_def json_u64_def json_text_def MANIFEST_FIELDS_def digest_matches_def limits)
qed

text \<open>C18: a verified bundle is the very artifact the anchor answered for. Its manifest was
signed under the embedded anchor, names the expected version and the one supported
target, and its size and digest are those of the bytes in hand; so two artifacts
accepted under one manifest have one length and one digest.\<close>

theorem verified_bundle_is_the_artifact:
  assumes "verify_bundle ed from_slice sha anchor manifest signature version artifact = Inr b"
    and "length (sha artifact) = 32"
  shows "(\<exists>key. verifying_key ed anchor = Some key \<and> key_verifies ed key manifest signature)
    \<and> vb_version b = version \<and> vb_target b = ''debian-13-amd64''
    \<and> unat (vb_size b) = length artifact \<and> length artifact \<le> 67108864
    \<and> vb_sha256 b = encode_lower_hex (sha artifact)
    \<and> {artifact'. is_ok (verify_bundle ed from_slice sha anchor manifest signature version artifact')
          \<and> length (sha artifact') = 32}
        \<subseteq> {artifact'. length artifact' = length artifact \<and> sha artifact' = sha artifact}"
proof -
  let ?verify = "verify_bundle ed from_slice sha anchor manifest signature version"
  from assms have facts: "unat (vb_size b) = length artifact"
    "vb_sha256 b = encode_lower_hex (sha artifact)"
    by (simp_all add: verified_bundle_measures)
  have "length artifact' = length artifact \<and> sha artifact' = sha artifact"
    if "?verify artifact' = Inr b'" and "length (sha artifact') = 32" for artifact' b'
    using verified_bundle_measures [OF that] verified_bundle_unique [OF assms(1) that(1)] facts
    by simp
  then have "{artifact'. is_ok (?verify artifact') \<and> length (sha artifact') = 32}
        \<subseteq> {artifact'. length artifact' = length artifact \<and> sha artifact' = sha artifact}"
    by (auto simp: is_ok_iff)
  with assms(1) facts show ?thesis
    by (simp add: verify_bundle_Inr limits)
qed

theorem verified_bundle_is_the_artifact_witness:
  "vb_sha256 sample_bundle = encode_lower_hex (sample_sha [1, 2, 3])"
  using verified_bundle_is_the_artifact [OF sample_bundle_verified] by simp

end
