(* ===== verification/Sudo_Policy.thy ===== *)
theory Sudo_Policy
  imports Std_Stream
begin

text \<open>
  \<open>personal_access/sudo_policy.rs\<close>: whether the listing of a remote sudo policy can
  be trusted at all. It never sees a secret.
\<close>

definition MAX_PREFLIGHT_OUTPUT_BYTES :: nat where [limits]: "MAX_PREFLIGHT_OUTPUT_BYTES = 4 * 1024"

definition DEFAULTS_ANCHOR :: string where "DEFAULTS_ANCHOR = ''Matching Defaults entries for''"

definition COMMANDS_ANCHOR :: string where "COMMANDS_ANCHOR = ''may run the following commands''"

definition POLICY_TERMINAL_MARKERS :: "string list" where
  "POLICY_TERMINAL_MARKERS =
     [''a terminal is required'', ''sudo: no tty present'', ''sorry, you must have a tty'']"

definition SECRET_MARKERS :: "string list" where
  "SECRET_MARKERS = [''a password is required'']"

datatype SudoRefusal =
    AuthenticationRequired | PolicyTerminalRequired | PolicyOutputTooLarge | OutputNotAscii
  | Unattestable

record SudoDecision =
  sd_password_may_be_sent :: bool
  sd_relies_on_sudo_redaction :: bool

definition demands_a_terminal :: "string \<Rightarrow> bool" where
  "demands_a_terminal text =
     list_ex (contains_str (to_ascii_lowercase text)) POLICY_TERMINAL_MARKERS"

definition demands_a_secret :: "string \<Rightarrow> bool" where
  "demands_a_secret text = list_ex (contains_str (to_ascii_lowercase text)) SECRET_MARKERS"

definition trim_start :: "string \<Rightarrow> string" where
  "trim_start s = dropWhile is_white s"

text \<open>The lines from the one after the anchor up to the first blank one, cut at commas.\<close>

definition defaults_tokens :: "string \<Rightarrow> string list option" where
  "defaults_tokens text =
     (case dropWhile (\<lambda>line. \<not> prefix DEFAULTS_ANCHOR (trim_start line)) (lines text) of
        [] \<Rightarrow> None
      | _ # rest \<Rightarrow>
          Some (concat (map (\<lambda>line. filter (\<lambda>token. token \<noteq> []) (map trim (split_on CHR '','' (trim line))))
             (takeWhile (\<lambda>line. trim line \<noteq> []) rest))))"

definition is_ascii_bytes :: "bytes \<Rightarrow> bool" where
  "is_ascii_bytes bs = list_all (\<lambda>b. b < 0x80) bs"

definition evaluate :: "bool \<Rightarrow> bytes \<Rightarrow> bool \<Rightarrow> SudoRefusal + SudoDecision" where
  "evaluate succeeded output truncated =
     (if truncated \<or> length output > MAX_PREFLIGHT_OUTPUT_BYTES then Inl PolicyOutputTooLarge
      else if \<not> is_ascii_bytes output then Inl OutputNotAscii
      else
        and_then (ok_or (from_utf8 output) OutputNotAscii) (\<lambda>text.
        if demands_a_terminal text then Inl PolicyTerminalRequired
        else if demands_a_secret text then Inl AuthenticationRequired
        else if \<not> succeeded then Inl Unattestable
        else if \<not> contains_str text COMMANDS_ANCHOR then Inl Unattestable
        else
          and_then (ok_or (defaults_tokens text) Unattestable) (\<lambda>_.
          Inr \<lparr>sd_password_may_be_sent = True, sd_relies_on_sudo_redaction = False\<rparr>)))"

lemma from_utf8_ascii_bytes: "is_ascii_bytes bs \<Longrightarrow> from_utf8 bs = Some (text_of bs)"
  by (simp add: from_utf8_def is_ascii_bytes_def utf8_ok_ascii)

lemma evaluate_Inr:
  "evaluate succeeded output truncated = Inr d \<longleftrightarrow>
     \<not> truncated \<and> length output \<le> MAX_PREFLIGHT_OUTPUT_BYTES \<and> is_ascii_bytes output
     \<and> \<not> demands_a_terminal (text_of output) \<and> \<not> demands_a_secret (text_of output)
     \<and> succeeded \<and> contains_str (text_of output) COMMANDS_ANCHOR
     \<and> defaults_tokens (text_of output) \<noteq> None
     \<and> d = \<lparr>sd_password_may_be_sent = True, sd_relies_on_sudo_redaction = False\<rparr>"
  by (auto simp: evaluate_def result_iff guard_Inr_iff from_utf8_ascii_bytes)

end
