(* ===== verification/Elevation.thy ===== *)
theory Elevation
  imports Sudo_Policy Scope
begin

text \<open>
  \<open>personal_access/elevation.rs\<close>: what an entry of the sudo policy permits, and the
  one gate that states root was really reached.
\<close>

section \<open>Commands, routes and refusals\<close>

text \<open>A command line the crate fixes; nothing composes one.\<close>

datatype FixedCommand = FixedCommand (command_text: string)

definition PROMPT_SENTINEL :: string where "PROMPT_SENTINEL = ''your-cloud-sudo-prompt:''"

definition AUTHORISED_PROGRAM :: string where "AUTHORISED_PROGRAM = ''/usr/bin/id''"

definition ANY_COMMAND :: string where "ANY_COMMAND = ''ALL''"

definition ROOT_UID :: u32 where [limits]: "ROOT_UID = 0"

definition MAX_UID_DIGITS :: nat where [limits]: "MAX_UID_DIGITS = 10"

definition ELEVATE_WITHOUT_PASSWORD :: FixedCommand where
  "ELEVATE_WITHOUT_PASSWORD = FixedCommand ''/usr/bin/sudo -N -n -- /usr/bin/id -u''"

definition ELEVATE_WITH_PASSWORD :: FixedCommand where
  "ELEVATE_WITH_PASSWORD =
     FixedCommand ''/usr/bin/sudo -k -S -p your-cloud-sudo-prompt: -- /usr/bin/id -u''"

datatype AccessRoute = AdministratorRoute | RootRoute

datatype RequiredScope = IdentityProbe | EveryCommand

fun for_action :: "BootstrapAction \<Rightarrow> RequiredScope" where
  "for_action AuditTargetReadOnly = IdentityProbe"
| "for_action InstallServerBundle = EveryCommand"
| "for_action ActivateApprovedController = EveryCommand"

definition for_actions :: "BootstrapAction list \<Rightarrow> RequiredScope" where
  "for_actions actions =
     (let strictest = fold (\<lambda>required strictest.
            if strictest = EveryCommand \<or> required = EveryCommand then EveryCommand
            else IdentityProbe) (map for_action actions) IdentityProbe
      in if actions = [] then EveryCommand else strictest)"

datatype ElevationRefusal =
    Policy SudoRefusal
  | NarrowerThanTheActionRequires string
  | AmbiguousPolicy string
  | DivergentCommand
  | UnexpectedPrompt
  | IncorrectPassword
  | TerminalRequired
  | OutputTooLarge
  | UnreadableUid
  | AlreadyRoot
  | NotRoot
  | NotElevated
  | DivergentOutcome

record Elevation =
  el_route :: AccessRoute

record InstallationScope =
  is_suffices :: bool
  is_permits :: string

record AttestedPolicy =
  atp_command :: FixedCommand
  atp_password_required :: bool
  atp_installation :: InstallationScope

section \<open>Streams and the identity probe\<close>

definition bounded :: "bytes \<Rightarrow> ElevationRefusal + string" where
  "bounded stream =
     (if length stream > MAX_PREFLIGHT_OUTPUT_BYTES then Inl OutputTooLarge
      else if \<not> is_ascii_bytes stream then Inl UnexpectedPrompt
      else ok_or (from_utf8 stream) UnexpectedPrompt)"

definition TERMINAL_MARKERS :: "string list" where
  "TERMINAL_MARKERS = [''a terminal is required'', ''sorry, you must have a tty'', ''no tty present'']"

definition REFUSED_PASSWORD_MARKER :: string where
  "REFUSED_PASSWORD_MARKER = ''incorrect password attempt''"

definition FOREIGN_PROMPT_MARKERS :: "string list" where
  "FOREIGN_PROMPT_MARKERS = [''[sudo]'', ''password for'', ''password:'', ''a password is required'']"

text \<open>\<open>text.matches(p).count()\<close>: the occurrences from the left that do not overlap.\<close>

function count_matches :: "string \<Rightarrow> string \<Rightarrow> nat" where
  "count_matches p s =
     (if p = [] \<or> s = [] then 0
      else case strip_prefix p s of
        Some rest \<Rightarrow> Suc (count_matches p rest)
      | None \<Rightarrow> count_matches p (tl s))"
  by pat_completeness auto
termination
  by (relation "measure (\<lambda>(p, s). length s)") (auto simp: strip_prefix_Some)

declare count_matches.simps [simp del]

definition prompt_free :: "bytes \<Rightarrow> ElevationRefusal + unit" where
  "prompt_free stderr =
     and_then (bounded stderr) (\<lambda>text.
     let lowered = to_ascii_lowercase text in
     if list_ex (contains_str lowered) TERMINAL_MARKERS then Inl TerminalRequired
     else if contains_str lowered REFUSED_PASSWORD_MARKER then Inl IncorrectPassword
     else if count_matches PROMPT_SENTINEL text > 1 then Inl UnexpectedPrompt
     else if list_ex (contains_str lowered) FOREIGN_PROMPT_MARKERS then Inl UnexpectedPrompt
     else Inr ())"

text \<open>\<open>parse::<u32>\<close> of a text already known to be one to ten digits.\<close>

definition parse_u32_digits :: "string \<Rightarrow> u32 option" where
  "parse_u32_digits digits =
     (if decimal_value digits \<ge> 2 ^ 32 then None else Some (of_nat (decimal_value digits)))"

definition read_uid :: "bytes \<Rightarrow> ElevationRefusal + u32" where
  "read_uid stdout =
     and_then (case bounded stdout of Inl _ \<Rightarrow> Inl UnreadableUid | Inr text \<Rightarrow> Inr text) (\<lambda>text.
     let digits = (case strip_suffix_char newline text of Some d \<Rightarrow> d | None \<Rightarrow> text) in
     if digits = [] \<or> length digits > MAX_UID_DIGITS \<or> \<not> list_all is_ascii_digit digits
        \<or> (length digits > 1 \<and> hd digits = CHR ''0'')
     then Inl UnreadableUid
     else ok_or (parse_u32_digits digits) UnreadableUid)"

definition verified_pair :: "AccessRoute \<Rightarrow> u32 \<Rightarrow> u32 \<Rightarrow> ElevationRefusal + Elevation" where
  "verified_pair route exit_status uid =
     (case (exit_status = 0, uid = ROOT_UID) of
        (True, True) \<Rightarrow> Inr \<lparr>el_route = route\<rparr>
      | (False, False) \<Rightarrow> Inl NotElevated
      | _ \<Rightarrow> Inl DivergentOutcome)"

definition attest_identity :: "AccessRoute \<Rightarrow> u32 \<Rightarrow> bytes \<Rightarrow> bytes \<Rightarrow> ElevationRefusal + u32" where
  "attest_identity route exit_status stdout stderr =
     and_then (bounded stderr) (\<lambda>_.
     if exit_status \<noteq> 0 then Inl NotElevated
     else
       and_then (read_uid stdout) (\<lambda>uid.
       case (route, uid = ROOT_UID) of
         (AdministratorRoute, True) \<Rightarrow> Inl AlreadyRoot
       | (RootRoute, False) \<Rightarrow> Inl NotRoot
       | _ \<Rightarrow> Inr uid))"

definition root_access :: "bool \<Rightarrow> u32 \<Rightarrow> bytes \<Rightarrow> bytes \<Rightarrow> ElevationRefusal + Elevation" where
  "root_access consented exit_status stdout stderr =
     (if \<not> consented then Inl NotRoot
      else and_then (attest_identity RootRoute exit_status stdout stderr) (\<lambda>_.
           verified_pair RootRoute exit_status ROOT_UID))"

definition elevated :: "u32 \<Rightarrow> bytes \<Rightarrow> bytes \<Rightarrow> ElevationRefusal + Elevation" where
  "elevated exit_status stdout stderr =
     and_then (prompt_free stderr) (\<lambda>_.
     and_then (read_uid stdout) (\<lambda>uid.
     verified_pair AdministratorRoute exit_status uid))"

section \<open>The entry that applies\<close>

record Entry =
  en_run_as_users :: "string option"
  en_authentication_waived :: bool
  en_commands :: "string list"

definition opens_an_entry :: "string \<Rightarrow> bool" where
  "opens_an_entry line = prefix ''Sudoers entry'' (trim_start line)"

definition joined :: "string \<Rightarrow> string list \<Rightarrow> string" where
  "joined separator parts = concat (case parts of [] \<Rightarrow> [] | p # ps \<Rightarrow> p # map (\<lambda>q. separator @ q) ps)"

text \<open>The loop of \<open>single_entry\<close> over the lines below the opening one.\<close>

fun entry_from :: "Entry \<Rightarrow> bool \<Rightarrow> string list \<Rightarrow> Entry" where
  "entry_from entry in_commands [] = entry"
| "entry_from entry in_commands (line # rest) =
     (let trimmed = trim line in
      if trimmed = [] then entry_from entry in_commands rest
      else case strip_prefix ''RunAsUsers:'' trimmed of
        Some users \<Rightarrow> entry_from (entry\<lparr>en_run_as_users := Some (trim users)\<rparr>) False rest
      | None \<Rightarrow> (case strip_prefix ''Options:'' trimmed of
          Some options \<Rightarrow>
            entry_from (entry\<lparr>en_authentication_waived :=
                list_ex (\<lambda>option. trim option = ''!authenticate'') (split_on CHR '','' options)\<rparr>)
              False rest
        | None \<Rightarrow>
            if prefix ''Commands:'' trimmed then entry_from entry True rest
            else if last trimmed = CHR '':'' \<and> hd trimmed \<noteq> CHR ''/''
            then entry_from entry False rest
            else if in_commands
            then entry_from (entry\<lparr>en_commands := en_commands entry @ [trimmed]\<rparr>) in_commands rest
            else entry_from entry in_commands rest))"

definition single_entry :: "string \<Rightarrow> ElevationRefusal + Entry" where
  "single_entry text =
     (let named = map trim (filter opens_an_entry (lines text));
          ambiguous = AmbiguousPolicy (joined '' ; '' named)
      in case dropWhile (\<lambda>line. \<not> opens_an_entry line) (lines text) of
           [] \<Rightarrow> Inl ambiguous
         | _ # rest \<Rightarrow>
             if list_ex opens_an_entry rest then Inl ambiguous
             else Inr (entry_from \<lparr>en_run_as_users = None, en_authentication_waived = False,
                         en_commands = []\<rparr> False rest))"

definition runs_as_root :: "Entry \<Rightarrow> bool" where
  "runs_as_root entry = (en_run_as_users entry \<in> {Some ''root'', Some ANY_COMMAND})"

text \<open>\<open>split_whitespace().next()\<close> of an ASCII text.\<close>

definition first_word :: "string \<Rightarrow> string option" where
  "first_word s =
     (let word = takeWhile (\<lambda>c. \<not> is_white c) (dropWhile is_white s)
      in if word = [] then None else Some word)"

definition negated :: "string \<Rightarrow> bool" where
  "negated command = prefix ''!'' command"

definition authorises_the_action :: "Entry \<Rightarrow> bool" where
  "authorises_the_action entry =
     (if list_ex negated (en_commands entry) then False
      else list_ex (\<lambda>command. first_word command \<in> {Some AUTHORISED_PROGRAM, Some ANY_COMMAND})
             (en_commands entry))"

definition authorises_every_command :: "Entry \<Rightarrow> bool" where
  "authorises_every_command entry =
     (if list_ex negated (en_commands entry) then False
      else list_ex (\<lambda>command. first_word command = Some ANY_COMMAND) (en_commands entry))"

section \<open>Attesting a policy\<close>

definition attest_policy ::
  "bool \<Rightarrow> bytes \<Rightarrow> bool \<Rightarrow> RequiredScope \<Rightarrow> ElevationRefusal + AttestedPolicy" where
  "attest_policy succeeded output truncated scope =
     and_then (case evaluate succeeded output truncated of Inl r \<Rightarrow> Inl (Policy r) | Inr d \<Rightarrow> Inr d)
       (\<lambda>decision.
     and_then (ok_or (from_utf8 output) (Policy OutputNotAscii)) (\<lambda>text.
     and_then (single_entry text) (\<lambda>entry.
     if \<not> runs_as_root entry then Inl DivergentCommand
     else if \<not> authorises_the_action entry then Inl DivergentCommand
     else
       let suffices = authorises_every_command entry;
           installation = \<lparr>is_suffices = suffices,
             is_permits = (if suffices then [] else joined '', '' (en_commands entry))\<rparr>
       in if scope = EveryCommand \<and> \<not> is_suffices installation
          then Inl (NarrowerThanTheActionRequires (is_permits installation))
          else
            let password_required = \<not> en_authentication_waived entry
            in Inr \<lparr>atp_command = (if password_required then ELEVATE_WITH_PASSWORD
                                  else ELEVATE_WITHOUT_PASSWORD),
                    atp_password_required = password_required, atp_installation = installation\<rparr>)))"

datatype PreflightVerdict =
    Attested AttestedPolicy
  | CostsTheSecret
  | PolicyRefused ElevationRefusal

definition read_policy :: "bool \<Rightarrow> bytes \<Rightarrow> bool \<Rightarrow> RequiredScope \<Rightarrow> PreflightVerdict" where
  "read_policy succeeded output truncated scope =
     (case attest_policy succeeded output truncated scope of
        Inr attested \<Rightarrow> Attested attested
      | Inl refusal \<Rightarrow>
          if refusal = Policy AuthenticationRequired then CostsTheSecret else PolicyRefused refusal)"

definition attest_policy_after_secret ::
  "bool \<Rightarrow> bytes \<Rightarrow> bytes \<Rightarrow> bool \<Rightarrow> RequiredScope \<Rightarrow> ElevationRefusal + AttestedPolicy" where
  "attest_policy_after_secret succeeded stdout stderr truncated scope =
     and_then (bounded stderr) (\<lambda>answered.
     if demands_a_terminal answered then Inl (Policy PolicyTerminalRequired)
     else if demands_a_secret answered then Inl (Policy AuthenticationRequired)
     else
       and_then (prompt_free stderr) (\<lambda>_.
       attest_policy succeeded stdout truncated scope))"

section \<open>Reading root\<close>

lemma bounded_Inr:
  "bounded stream = Inr text \<longleftrightarrow>
     length stream \<le> MAX_PREFLIGHT_OUTPUT_BYTES \<and> is_ascii_bytes stream \<and> text = text_of stream"
  by (auto simp: bounded_def guard_Inr_iff result_iff from_utf8_ascii_bytes)

lemma foldl_decimal_positive: "0 < v \<Longrightarrow> 0 < foldl (\<lambda>v c. v * 10 + (code c - 48)) v s"
  by (induction s arbitrary: v) simp_all

lemma decimal_value_zero:
  assumes "list_all is_ascii_digit digits" "digits \<noteq> []"
    and "length digits > 1 \<longrightarrow> hd digits \<noteq> CHR ''0''" "decimal_value digits = 0"
  shows "digits = ''0''"
proof (cases digits)
  case (Cons c cs)
  have zero: "c = CHR ''0''" if "code c - 48 = 0"
  proof -
    have "code c = code CHR ''0''" using that assms(1) Cons by (simp add: ascii_simps)
    then show ?thesis by (simp only: code_inject)
  qed
  have "code c - 48 = 0"
    using foldl_decimal_positive [of "code c - 48" cs] assms(4) Cons
    by (cases "code c - 48") (simp_all add: decimal_value_def)
  with zero have "c = CHR ''0''" by blast
  with assms(3) Cons show ?thesis by (cases cs) auto
qed (use assms in simp)

definition uid_digits :: "string \<Rightarrow> string" where
  "uid_digits s = (case strip_suffix_char newline s of Some d \<Rightarrow> d | None \<Rightarrow> s)"

lemma read_uid_Inr:
  "read_uid stdout = Inr uid \<longleftrightarrow>
     length stdout \<le> MAX_PREFLIGHT_OUTPUT_BYTES \<and> is_ascii_bytes stdout
     \<and> (let digits = uid_digits (text_of stdout) in
          digits \<noteq> [] \<and> length digits \<le> MAX_UID_DIGITS \<and> list_all is_ascii_digit digits
          \<and> (length digits > 1 \<longrightarrow> hd digits \<noteq> CHR ''0'') \<and> parse_u32_digits digits = Some uid)"
proof (cases "bounded stdout")
  case (Inl e)
  then have "\<not> (length stdout \<le> MAX_PREFLIGHT_OUTPUT_BYTES \<and> is_ascii_bytes stdout)"
    using bounded_Inr [of stdout "text_of stdout"] by auto
  with Inl show ?thesis by (auto simp: read_uid_def)
next
  case (Inr s)
  then show ?thesis
    using bounded_Inr [of stdout s]
    by (simp add: read_uid_def uid_digits_def [symmetric] Let_def guard_Inr_iff result_iff not_less) auto
qed

lemma parse_u32_zero: "parse_u32_digits digits = Some 0 \<longleftrightarrow> decimal_value digits = 0"
  by (auto simp: parse_u32_digits_def word_unat_eq_iff unat_of_nat)

lemma uid_digits_zero: "uid_digits s = ''0'' \<longleftrightarrow> s \<in> {''0'', ''0'' @ [newline]}"
  by (cases s rule: rev_cases) (auto simp: uid_digits_def strip_suffix_char_def)

lemma read_uid_root:
  "read_uid stdout = Inr ROOT_UID \<longleftrightarrow> text_of stdout \<in> {''0'', ''0'' @ [newline]}"
proof -
  have "read_uid stdout = Inr ROOT_UID \<Longrightarrow> uid_digits (text_of stdout) = ''0''"
    unfolding ROOT_UID_def read_uid_Inr Let_def parse_u32_zero using decimal_value_zero by blast
  moreover have "read_uid stdout = Inr ROOT_UID" if zero: "text_of stdout \<in> {''0'', ''0'' @ [newline]}"
  proof -
    have "stdout = as_bytes (text_of stdout)" by simp
    then have "is_ascii_bytes stdout \<and> length stdout \<le> MAX_PREFLIGHT_OUTPUT_BYTES"
      using zero as_bytes_ascii [of "text_of stdout"] length_as_bytes [of "text_of stdout"]
      by (auto simp: is_ascii_bytes_def code_def limits)
    moreover have "uid_digits (text_of stdout) = ''0''"
      using zero uid_digits_zero by blast
    ultimately show ?thesis
      by (simp add: read_uid_Inr limits parse_u32_zero decimal_value_def code_def is_ascii_digit_def)
  qed
  ultimately show ?thesis using uid_digits_zero by blast
qed

lemma verified_pair_Inr:
  "verified_pair route exit_status uid = Inr e \<longleftrightarrow>
     exit_status = 0 \<and> uid = ROOT_UID \<and> e = \<lparr>el_route = route\<rparr>"
  by (auto simp: verified_pair_def split: bool.splits)


section \<open>What an attested policy permits\<close>

lemma filter_dropWhile_not: "filter P (dropWhile (\<lambda>x. \<not> P x) xs) = filter P xs"
  by (induction xs) simp_all

lemma single_entry_one:
  assumes "single_entry text = Inr entry"
  shows "length (filter opens_an_entry (lines text)) = 1"
proof -
  let ?rest = "dropWhile (\<lambda>line. \<not> opens_an_entry line) (lines text)"
  have "filter opens_an_entry (lines text) = filter opens_an_entry ?rest"
    by (simp only: filter_dropWhile_not)
  moreover obtain line rest where rest: "?rest = line # rest" "\<not> list_ex opens_an_entry rest"
    using assms by (auto simp: single_entry_def Let_def split: list.splits if_splits)
  moreover have "opens_an_entry line"
    using hd_dropWhile [of "\<lambda>line. \<not> opens_an_entry line" "lines text"] rest by simp
  moreover have "filter opens_an_entry rest = []"
    using rest(2) by (auto simp: list_ex_iff filter_empty_conv)
  ultimately show ?thesis by simp
qed

lemma attest_policy_Inr:
  "attest_policy succeeded output truncated scope = Inr a \<longleftrightarrow>
     is_ok (evaluate succeeded output truncated)
     \<and> (\<exists>entry. single_entry (text_of output) = Inr entry \<and> runs_as_root entry
          \<and> authorises_the_action entry
          \<and> (scope = EveryCommand \<longrightarrow> authorises_every_command entry)
          \<and> a = \<lparr>atp_command = (if en_authentication_waived entry then ELEVATE_WITHOUT_PASSWORD
                                 else ELEVATE_WITH_PASSWORD),
                  atp_password_required = (\<not> en_authentication_waived entry),
                  atp_installation = \<lparr>is_suffices = authorises_every_command entry,
                    is_permits = (if authorises_every_command entry then []
                       else joined '', '' (en_commands entry))\<rparr>\<rparr>)"
proof (cases "evaluate succeeded output truncated")
  case (Inr d)
  then have "from_utf8 output = Some (text_of output)"
    by (simp add: evaluate_Inr from_utf8_ascii_bytes)
  with Inr show ?thesis
    by (auto simp: attest_policy_def result_iff guard_Inr_iff Let_def)
qed (simp add: attest_policy_def)

text \<open>A policy listing, for the witness.\<close>

definition sample_listing :: string where
  "sample_listing = ''Matching Defaults entries for a'' @ [newline, newline]
     @ ''a may run the following commands'' @ [newline] @ ''Sudoers entry: /etc/sudoers'' @ [newline]
     @ '' RunAsUsers: ALL'' @ [newline] @ '' Commands:'' @ [newline] @ ''  ALL'' @ [newline]"

definition sample_policy :: AttestedPolicy where
  "sample_policy = \<lparr>atp_command = ELEVATE_WITH_PASSWORD, atp_password_required = True,
     atp_installation = \<lparr>is_suffices = True, is_permits = []\<rparr>\<rparr>"

lemma sample_listing_reads:
  "is_ascii sample_listing" "length sample_listing \<le> 4096"
  "\<not> demands_a_terminal sample_listing" "\<not> demands_a_secret sample_listing"
  "contains_str sample_listing COMMANDS_ANCHOR" "defaults_tokens sample_listing \<noteq> None"
  "single_entry sample_listing = Inr \<lparr>en_run_as_users = Some ''ALL'',
     en_authentication_waived = False, en_commands = [''ALL'']\<rparr>"
  by code_simp+

lemma sample_policy_attested:
  "attest_policy True (as_bytes sample_listing) False EveryCommand = Inr sample_policy"
  using sample_listing_reads as_bytes_ascii [OF sample_listing_reads(1)]
  by (simp add: attest_policy_Inr is_ok_iff evaluate_Inr is_ascii_bytes_def limits sample_policy_def
      runs_as_root_def ANY_COMMAND_def authorises_the_action_def authorises_every_command_def
      negated_def first_word_def is_white_def code_def)

text \<open>C30: an attested policy permits what is about to run. Its listing was read whole and
names exactly one entry, which runs as root, negates no command and names the program
of the probe or every command; an action that installs is attested only on every
command; whether a secret will be spent is what the entry says of authentication; and
a policy that wants a terminal is never read as one that merely costs the secret.\<close>

theorem attested_policy_permits_the_action:
  assumes "attest_policy succeeded output truncated scope = Inr a"
  shows "succeeded \<and> \<not> truncated \<and> length output \<le> 4096
    \<and> length (filter opens_an_entry (lines (text_of output))) = 1
    \<and> (\<exists>entry. single_entry (text_of output) = Inr entry
         \<and> en_run_as_users entry \<in> {Some ''root'', Some ''ALL''}
         \<and> list_all (\<lambda>c. \<not> prefix ''!'' c) (en_commands entry)
         \<and> (\<exists>c. c \<in> set (en_commands entry) \<and> first_word c \<in> {Some ''/usr/bin/id'', Some ''ALL''})
         \<and> is_suffices (atp_installation a) = (\<exists>c. c \<in> set (en_commands entry) \<and> first_word c = Some ''ALL'')
         \<and> atp_password_required a = (\<not> en_authentication_waived entry))
    \<and> (scope = EveryCommand \<longrightarrow> is_suffices (atp_installation a))
    \<and> (atp_command a = ELEVATE_WITH_PASSWORD) = atp_password_required a
    \<and> (read_policy succeeded' output' truncated' scope' = CostsTheSecret
         \<longrightarrow> \<not> demands_a_terminal (text_of output') \<and> demands_a_secret (text_of output'))"
proof -
  obtain entry where entry: "single_entry (text_of output) = Inr entry" "runs_as_root entry"
      "authorises_the_action entry" "scope = EveryCommand \<longrightarrow> authorises_every_command entry"
    and a: "atp_command a = (if en_authentication_waived entry then ELEVATE_WITHOUT_PASSWORD
              else ELEVATE_WITH_PASSWORD)"
      "atp_password_required a = (\<not> en_authentication_waived entry)"
      "is_suffices (atp_installation a) = authorises_every_command entry"
    and read: "is_ok (evaluate succeeded output truncated)"
    using assms by (auto simp: attest_policy_Inr)
  have negation: "\<not> list_ex negated (en_commands entry)"
    using entry(3) by (auto simp: authorises_the_action_def split: if_splits)
  have "evaluate succeeded' output' truncated' = Inl AuthenticationRequired"
    if "read_policy succeeded' output' truncated' scope' = CostsTheSecret"
    using that by (auto simp: read_policy_def attest_policy_def and_then_def Let_def single_entry_def
        ok_or_def split: sum.splits if_splits option.splits list.splits)
  then have costs: "\<not> demands_a_terminal (text_of output') \<and> demands_a_secret (text_of output')"
    if "read_policy succeeded' output' truncated' scope' = CostsTheSecret"
    using that by (auto simp: evaluate_def and_then_def ok_or_def from_utf8_ascii_bytes
        split: sum.splits if_splits option.splits)
  show ?thesis
    using entry a read negation costs single_entry_one [OF entry(1)]
    by (auto simp: is_ok_iff evaluate_Inr limits runs_as_root_def ANY_COMMAND_def AUTHORISED_PROGRAM_def
        authorises_the_action_def authorises_every_command_def negated_def list_ex_iff list_all_iff
        ELEVATE_WITH_PASSWORD_def ELEVATE_WITHOUT_PASSWORD_def)
qed

theorem attested_policy_permits_the_action_witness:
  "is_suffices (atp_installation sample_policy)"
  using attested_policy_permits_the_action [OF sample_policy_attested] by blast

end
