(* ===== verification/Install_Plan.thy ===== *)
theory Install_Plan
  imports Bundle Preflight Placement Elevation
begin

text \<open>
  \<open>installation/plan.rs\<close>: the steps of an installation in their order, the slice of
  them an action authorises, and the plan that exists only against its witnesses.
\<close>

section \<open>What the package owns\<close>

definition CONTROLLER_UNIT :: string where
  "CONTROLLER_UNIT = ''your-cloud-controller.service''"

definition CONTROLLER_ACCOUNT :: string where "CONTROLLER_ACCOUNT = ''your-cloud-controller''"

definition CONTROLLER_STATE_DIRECTORY :: string where
  "CONTROLLER_STATE_DIRECTORY = ''/var/lib/private/your-cloud-controller''"

definition MACHINE_CONFIGURATION :: string where
  "MACHINE_CONFIGURATION = ''/etc/your-cloud/controller.env''"

definition CREDENTIAL_SOURCE_DIRECTORY :: string where
  "CREDENTIAL_SOURCE_DIRECTORY = ''/etc/your-cloud/controller-credentials''"

definition COMMAND_IDENTITY_DIRECTORY :: string where
  "COMMAND_IDENTITY_DIRECTORY = ''/etc/your-cloud/command-identities''"

definition COMMAND_ENDPOINT_DIRECTORY :: string where
  "COMMAND_ENDPOINT_DIRECTORY = ''/etc/your-cloud/command-endpoints''"

definition RELAY_ANCHOR_DIRECTORY :: string where
  "RELAY_ANCHOR_DIRECTORY = ''/etc/your-cloud/relay-anchor''"

definition READER_CERTIFICATE :: string where
  "READER_CERTIFICATE = ''/etc/your-cloud/controller-credentials/controller-reader.crt''"

definition READER_KEY :: string where
  "READER_KEY = ''/etc/your-cloud/controller-credentials/controller-reader.key''"

definition AUTHORITY_FILE :: string where
  "AUTHORITY_FILE = ''/var/lib/private/your-cloud-controller/authority.json''"

record Budgets =
  bg_tasks_max :: u32
  bg_memory_max_mib :: u32

definition CONTROLLER_BUDGETS :: Budgets where
  "CONTROLLER_BUDGETS = \<lparr>bg_tasks_max = 128, bg_memory_max_mib = 384\<rparr>"

section \<open>Steps\<close>

datatype Step =
    TransferBundle | InstallPackage | WriteMachineConfiguration | CreateState
  | InstallCredentialSources | InitialiseController | MintReaderIdentity | ActivateController
  | AssociateApp | PreflightStep

definition STEPS :: "Step list" where
  "STEPS = [TransferBundle, InstallPackage, WriteMachineConfiguration, CreateState,
     InstallCredentialSources, InitialiseController, MintReaderIdentity, ActivateController,
     AssociateApp, PreflightStep]"

fun authorized_steps :: "BootstrapAction \<Rightarrow> Step list" where
  "authorized_steps AuditTargetReadOnly = []"
| "authorized_steps InstallServerBundle =
     [TransferBundle, InstallPackage, WriteMachineConfiguration, CreateState,
      InstallCredentialSources, InitialiseController, MintReaderIdentity]"
| "authorized_steps ActivateApprovedController = [ActivateController, AssociateApp, PreflightStep]"

fun authorized_steps_for :: "BootstrapAction list \<Rightarrow> Step list" where
  "authorized_steps_for [InstallServerBundle, ActivateApprovedController] = STEPS"
| "authorized_steps_for [only] = authorized_steps only"
| "authorized_steps_for _ = []"

section \<open>The plan\<close>

datatype PlanRefusal =
    NotAControllerPlacement string
  | PlacementNotCleared string
  | BundleNotForThisTarget string

record InstallPlan =
  ip_endpoint :: string
  ip_version :: string

datatype Origin = Creation | Replacement PreflightCleared

definition authorize ::
  "VerifiedBundle \<Rightarrow> ApprovedPlacement \<Rightarrow> Elevation \<Rightarrow> Origin \<Rightarrow> PlanRefusal + InstallPlan" where
  "authorize b placement elevation origin =
     (if apl_role placement \<noteq> Controller
      then Inl (NotAControllerPlacement (role_str (apl_role placement)))
      else if vb_target b \<noteq> SUPPORTED_TARGET then Inl (BundleNotForThisTarget (vb_target b))
      else
        and_then (case origin of
            Replacement cleared \<Rightarrow>
              if \<not> covers cleared (apl_endpoint placement)
              then Inl (PlacementNotCleared (apl_endpoint placement)) else Inr ()
          | Creation \<Rightarrow> Inr ()) (\<lambda>_.
        Inr \<lparr>ip_endpoint = apl_endpoint placement, ip_version = vb_version b\<rparr>))"

lemma authorize_Inr:
  "authorize b placement elevation origin = Inr plan \<longleftrightarrow>
     apl_role placement = Controller \<and> vb_target b = SUPPORTED_TARGET
     \<and> (\<forall>cleared. origin = Replacement cleared \<longrightarrow> covers cleared (apl_endpoint placement))
     \<and> plan = \<lparr>ip_endpoint = apl_endpoint placement, ip_version = vb_version b\<rparr>"
  by (cases origin) (auto simp: authorize_def guard_Inr_iff result_iff)

lemma authorized_steps_for_cases:
  "authorized_steps_for actions =
     (if actions = [InstallServerBundle, ActivateApprovedController] then STEPS
      else case actions of [only] \<Rightarrow> authorized_steps only | _ \<Rightarrow> [])"
  by (cases actions rule: authorized_steps_for.cases) auto


definition sample_attempt :: EndpointAttempt where
  "sample_attempt = \<lparr>ea_name = ''node-1'',
     ea_confirmed_fingerprint = ''SHA256:'' @ replicate 43 CHR ''A'',
     ea_observed = Presented (''SHA256:'' @ replicate 43 CHR ''A'')\<rparr>"

definition sample_plan :: InstallPlan where
  "sample_plan = \<lparr>ip_endpoint = ''node-1'', ip_version = ''0.0.3''\<rparr>"

lemma sample_cleared: "clear [sample_attempt] = Inr \<lparr>pc_endpoints = [''node-1'']\<rparr>"
  by (simp add: clear_Inr sample_attempt_def confirmed_answer_def)

lemma sample_plan_authorized:
  "authorize sample_bundle \<lparr>apl_role = Controller, apl_endpoint = ''node-1''\<rparr> elevation
     (Replacement \<lparr>pc_endpoints = [''node-1'']\<rparr>) = Inr sample_plan"
  by (simp add: authorize_Inr covers_iff sample_plan_def sample_bundle_def limits)


end
