(* ===== verification/Deposit.thy ===== *)
theory Deposit
  imports Bundle Elevation
begin

text \<open>
  \<open>installation/transfer.rs\<close> and \<open>installation/configuration.rs\<close>: what crosses to the
  target before any privilege is spent, and the reading of it there.
\<close>

section \<open>The deposit of a file\<close>

definition STAGING_DIRECTORY :: string where "STAGING_DIRECTORY = ''$HOME/.your-cloud-bootstrap''"

definition STAGED_ARTIFACT_SUFFIX :: string where
  "STAGED_ARTIFACT_SUFFIX = ''/.your-cloud-bootstrap/your-cloud-server.deb''"

definition CREATE_STAGING :: FixedCommand where
  "CREATE_STAGING =
     FixedCommand ''/usr/bin/env LC_ALL=C /usr/bin/mkdir -m 0700 -- $HOME/.your-cloud-bootstrap''"

definition DEPOSIT_BUNDLE :: FixedCommand where
  "DEPOSIT_BUNDLE = FixedCommand (''/usr/bin/env LC_ALL=C /usr/bin/dd of=$HOME/.your-cloud-bootstrap/your-cloud-server.deb ''
     @ ''bs=65536 conv=fsync status=none'')"

definition MEASURE_STAGED_SIZE :: FixedCommand where
  "MEASURE_STAGED_SIZE = FixedCommand (''/usr/bin/env LC_ALL=C /usr/bin/stat -c %s -- ''
     @ ''$HOME/.your-cloud-bootstrap/your-cloud-server.deb'')"

definition MEASURE_STAGED :: FixedCommand where
  "MEASURE_STAGED = FixedCommand ''/usr/bin/env LC_ALL=C /usr/bin/sha256sum -- $HOME/.your-cloud-bootstrap/your-cloud-server.deb''"

definition MAX_MEASUREMENT_BYTES :: nat where [limits]: "MAX_MEASUREMENT_BYTES = 4096"

definition MEASUREMENT_SEPARATOR :: string where "MEASUREMENT_SEPARATOR = ''  ''"

datatype TransferRefusal =
    StagingNotFresh | DepositFailed | SizeUnreadable | StagedSizeMismatch | MeasurementFailed
  | MeasurementTooLarge | MeasurementUnreadable | ForeignPathMeasured | StagedDigestMismatch

record StagedFile =
  sf_path :: string
  sf_sha256 :: string

record TransferReadings =
  tr_deposit_status :: u32
  tr_size_status :: u32
  tr_size_stdout :: bytes
  tr_digest_status :: u32
  tr_digest_stdout :: bytes

definition staging_created :: "u32 \<Rightarrow> TransferRefusal + unit" where
  "staging_created status = (if status = 0 then Inr () else Inl StagingNotFresh)"

definition read_size :: "u64 \<Rightarrow> TransferReadings \<Rightarrow> TransferRefusal + unit" where
  "read_size expected readings =
     (if length (tr_size_stdout readings) > MAX_MEASUREMENT_BYTES then Inl MeasurementTooLarge
      else if tr_size_status readings \<noteq> 0 then Inl MeasurementFailed
      else
        and_then (ok_or (do {
            text \<leftarrow> from_utf8 (tr_size_stdout readings);
            line \<leftarrow> strip_suffix_char newline text;
            parse_u64 line }) SizeUnreadable) (\<lambda>observed.
        if observed = expected then Inr () else Inl StagedSizeMismatch))"

definition deposited ::
  "u64 \<Rightarrow> string \<Rightarrow> string \<Rightarrow> TransferReadings \<Rightarrow> TransferRefusal + StagedFile" where
  "deposited expected_size expected_sha256 expected_suffix readings =
     (if tr_deposit_status readings \<noteq> 0 then Inl DepositFailed
      else
        and_then (read_size expected_size readings) (\<lambda>_.
        if length (tr_digest_stdout readings) > MAX_MEASUREMENT_BYTES then Inl MeasurementTooLarge
        else if tr_digest_status readings \<noteq> 0 then Inl MeasurementFailed
        else
          and_then (ok_or (do {
              text \<leftarrow> from_utf8 (tr_digest_stdout readings);
              line \<leftarrow> strip_suffix_char newline text;
              split_once_str MEASUREMENT_SEPARATOR line }) MeasurementUnreadable) (\<lambda>(digest, path).
          if length digest \<noteq> DIGEST_ENCODED_BYTES \<or> \<not> is_lower_hex_text digest
          then Inl MeasurementUnreadable
          else if \<not> suffix expected_suffix path \<or> prefix '' '' path then Inl ForeignPathMeasured
          else if digest \<noteq> expected_sha256 then Inl StagedDigestMismatch
          else Inr \<lparr>sf_path = path, sf_sha256 = digest\<rparr>)))"

definition staged_bundle :: "VerifiedBundle \<Rightarrow> TransferReadings \<Rightarrow> TransferRefusal + StagedFile" where
  "staged_bundle b readings = deposited (vb_size b) (vb_sha256 b) STAGED_ARTIFACT_SUFFIX readings"

section \<open>The machine configuration\<close>

definition STAGED_CONFIGURATION_SUFFIX :: string where
  "STAGED_CONFIGURATION_SUFFIX = ''/.your-cloud-bootstrap/controller.env''"

definition CONFIGURATION_KEYS :: "string list" where
  "CONFIGURATION_KEYS =
     [''CONTROLLER_LISTEN'', ''CONTROLLER_ALLOWED_SOURCE'', ''CONTROLLER_RELAY_ENDPOINT'']"

definition DEPOSIT_CONFIGURATION :: FixedCommand where
  "DEPOSIT_CONFIGURATION = FixedCommand (''/usr/bin/env LC_ALL=C /usr/bin/dd of=$HOME/.your-cloud-bootstrap/controller.env ''
     @ ''bs=4096 conv=fsync status=none'')"

definition MEASURE_CONFIGURATION_SIZE :: FixedCommand where
  "MEASURE_CONFIGURATION_SIZE = FixedCommand ''/usr/bin/env LC_ALL=C /usr/bin/stat -c %s -- $HOME/.your-cloud-bootstrap/controller.env''"

definition MEASURE_CONFIGURATION :: FixedCommand where
  "MEASURE_CONFIGURATION = FixedCommand ''/usr/bin/env LC_ALL=C /usr/bin/sha256sum -- $HOME/.your-cloud-bootstrap/controller.env''"

record MachineConfiguration =
  cf_bytes :: bytes
  cf_sha256 :: string

definition configuration_size :: "MachineConfiguration \<Rightarrow> u64" where
  "configuration_size configuration = of_nat (length (cf_bytes configuration))"

datatype ConfigurationRefusal = EmptyValue string | UnrepresentableValue string

fun judge_values :: "(string \<times> string) list \<Rightarrow> ConfigurationRefusal + unit" where
  "judge_values [] = Inr ()"
| "judge_values ((key, v) # rest) =
     (if v = [] then Inl (EmptyValue key)
      else if list_ex (\<lambda>c. is_control c \<or> c = code CHR ''='') (chars v)
      then Inl (UnrepresentableValue key)
      else judge_values rest)"

definition compose :: "sha256 \<Rightarrow> string \<Rightarrow> string \<Rightarrow> string \<Rightarrow> ConfigurationRefusal + MachineConfiguration" where
  "compose sha listen allowed_source relay_endpoint =
     (let pairs = zip CONFIGURATION_KEYS [listen, allowed_source, relay_endpoint]
      in and_then (judge_values pairs) (\<lambda>_.
         let composed = concat (map (\<lambda>(key, v). as_bytes (key @ ''='' @ v @ [newline])) pairs)
         in Inr \<lparr>cf_bytes = composed, cf_sha256 = encode_lower_hex (sha composed)\<rparr>))"

definition staged_configuration ::
  "MachineConfiguration \<Rightarrow> TransferReadings \<Rightarrow> TransferRefusal + StagedFile" where
  "staged_configuration configuration readings =
     deposited (configuration_size configuration) (cf_sha256 configuration)
       STAGED_CONFIGURATION_SUFFIX readings"

section \<open>What a staged file is\<close>

lemma split_measurement:
  "CHR '' '' \<notin> set digest \<Longrightarrow>
     split_once_str MEASUREMENT_SEPARATOR (digest @ MEASUREMENT_SEPARATOR @ path) = Some (digest, path)"
proof (induction digest)
  case Nil
  then show ?case by (subst split_once_str.simps) simp
next
  case (Cons c digest)
  then have "strip_prefix MEASUREMENT_SEPARATOR (c # digest @ MEASUREMENT_SEPARATOR @ path) = None"
    by (simp add: strip_prefix_def MEASUREMENT_SEPARATOR_def)
  with Cons show ?case by (subst split_once_str.simps) simp
qed

lemma hex_no_space:
  assumes "is_lower_hex_text s"
  shows "CHR '' '' \<notin> set s"
proof -
  have "\<not> is_lower_hex CHR '' ''" by code_simp
  then show ?thesis using assms by (auto simp: is_lower_hex_text_def list_all_iff)
qed

lemma read_size_Inr:
  "read_size expected readings = Inr u \<longleftrightarrow>
     length (tr_size_stdout readings) \<le> MAX_MEASUREMENT_BYTES \<and> tr_size_status readings = 0
     \<and> (\<exists>line. from_utf8 (tr_size_stdout readings) = Some (line @ [newline])
          \<and> parse_u64 line = Some expected)"
  by (auto simp: read_size_def guard_Inr_iff result_iff bind_eq_Some_conv)

text \<open>What the two measures have to print for a file of a name, a size and a digest.\<close>

definition measured_as :: "u64 \<Rightarrow> string \<Rightarrow> string \<Rightarrow> string \<Rightarrow> TransferReadings \<Rightarrow> bool" where
  "measured_as n digest name_suffix path readings =
     ((\<exists>line. from_utf8 (tr_size_stdout readings) = Some (line @ [newline]) \<and> parse_u64 line = Some n)
      \<and> from_utf8 (tr_digest_stdout readings) = Some (digest @ ''  '' @ path @ [newline])
      \<and> suffix name_suffix path \<and> \<not> prefix '' '' path)"

lemma deposited_Inr:
  "deposited n sha256 name_suffix readings = Inr f \<longleftrightarrow>
     tr_deposit_status readings = 0 \<and> tr_size_status readings = 0 \<and> tr_digest_status readings = 0
     \<and> length (tr_size_stdout readings) \<le> MAX_MEASUREMENT_BYTES
     \<and> length (tr_digest_stdout readings) \<le> MAX_MEASUREMENT_BYTES
     \<and> length sha256 = DIGEST_ENCODED_BYTES \<and> is_lower_hex_text sha256
     \<and> sf_sha256 f = sha256 \<and> measured_as n sha256 name_suffix (sf_path f) readings"
proof -
  have line: "(\<exists>line. from_utf8 (tr_digest_stdout readings) = Some (line @ [newline])
        \<and> split_once_str MEASUREMENT_SEPARATOR line = Some (digest, path)) \<longleftrightarrow>
      from_utf8 (tr_digest_stdout readings) = Some (digest @ ''  '' @ path @ [newline])"
    if "is_lower_hex_text digest" for digest path
    using split_measurement [OF hex_no_space [OF that], of path]
    by (auto simp: MEASUREMENT_SEPARATOR_def dest: split_once_str_Some)
  have rec: "\<lparr>sf_path = p, sf_sha256 = d\<rparr> = f \<longleftrightarrow> p = sf_path f \<and> d = sf_sha256 f" for p d
    by (cases f) auto
  have "deposited n sha256 name_suffix readings = Inr f \<longleftrightarrow>
     tr_deposit_status readings = 0 \<and> (\<exists>u. read_size n readings = Inr u)
     \<and> tr_digest_status readings = 0 \<and> length (tr_digest_stdout readings) \<le> MAX_MEASUREMENT_BYTES
     \<and> length sha256 = DIGEST_ENCODED_BYTES \<and> is_lower_hex_text sha256
     \<and> suffix name_suffix (sf_path f) \<and> \<not> prefix '' '' (sf_path f) \<and> sf_sha256 f = sha256
     \<and> (\<exists>line. from_utf8 (tr_digest_stdout readings) = Some (line @ [newline])
        \<and> split_once_str MEASUREMENT_SEPARATOR line = Some (sha256, sf_path f))"
    by (auto simp: deposited_def guard_Inr_iff result_iff bind_eq_Some_conv rec not_less)
  then show ?thesis
    using line [of sha256 "sf_path f"] by (auto simp: read_size_Inr measured_as_def)
qed

section \<open>A machine that measures what it holds\<close>

lemma hex_digit_value: "n < 10 \<Longrightarrow> is_ascii_digit (hex_digit n) \<and> code (hex_digit n) - 48 = n"
  by (simp add: is_ascii_digit_def code_hex_digit)

lemma decimal_digits: "list_all is_ascii_digit (decimal n) \<and> decimal n \<noteq> []"
proof (induction n rule: decimal.induct)
  case (1 n)
  then show ?case by (simp add: decimal.simps [of n] hex_digit_value)
qed

lemma decimal_value_decimal: "decimal_value (decimal n) = n"
proof (induction n rule: decimal.induct)
  case (1 n)
  then show ?case by (simp add: decimal.simps [of n] decimal_value_def hex_digit_value)
qed

lemma length_decimal: "n < 10 ^ k \<Longrightarrow> 0 < k \<Longrightarrow> length (decimal n) \<le> k"
proof (induction k arbitrary: n)
  case (Suc k)
  show ?case
  proof (cases "n < 10")
    case False
    with Suc.prems have "0 < k" by (cases k) auto
    with Suc.IH [of "n div 10"] Suc.prems False show ?thesis
      by (subst decimal.simps) (simp add: div_less_iff_less_mult)
  qed (subst decimal.simps, simp)
qed simp

lemma is_ascii_digits: "list_all is_ascii_digit s \<Longrightarrow> is_ascii s"
  by (auto simp: is_ascii_def is_ascii_digit_def list_all_iff)

lemma parse_decimal: "n < 2 ^ 64 \<Longrightarrow> parse_u64 (decimal n) = Some (of_nat n)"
proof -
  assume n: "n < 2 ^ 64"
  obtain c r where cr: "decimal n = c # r" using decimal_digits by (cases "decimal n") auto
  moreover have "is_ascii_digit c" using decimal_digits [of n] cr by simp
  moreover have "\<not> is_ascii_digit CHR ''+''" by code_simp
  ultimately show ?thesis
    using n decimal_digits [of n] decimal_value_decimal [of n] by (auto simp: parse_u64_def Let_def)
qed

definition faithful_readings :: "sha256 \<Rightarrow> bytes \<Rightarrow> string \<Rightarrow> TransferReadings \<Rightarrow> bool" where
  "faithful_readings sha content path readings =
     (tr_deposit_status readings = 0 \<and> tr_size_status readings = 0 \<and> tr_digest_status readings = 0
      \<and> tr_size_stdout readings = as_bytes (decimal (length content) @ [newline])
      \<and> tr_digest_stdout readings
          = as_bytes (encode_lower_hex (sha content) @ ''  '' @ path @ [newline]))"

lemma faithful_readings_accepted:
  assumes "faithful_readings sha content path readings" "length content < 2 ^ 64"
    and "is_ascii path" "length path \<le> 4000" "length (sha content) = 32"
    and "suffix name_suffix path" "\<not> prefix '' '' path"
    and "is_lower_hex_text sha256" "length sha256 = 64"
  shows "(\<exists>f. deposited n sha256 name_suffix readings = Inr f \<and> sf_path f = path)
    \<longleftrightarrow> of_nat (length content) = n \<and> sha256 = encode_lower_hex (sha content)"
proof -
  have stat: "from_utf8 (tr_size_stdout readings) = Some (decimal (length content) @ [newline])"
    using assms(1) decimal_digits [of "length content"]
    by (simp add: faithful_readings_def is_ascii_digits code_def del: from_utf8_ascii)
      (subst from_utf8_ascii; simp add: is_ascii_digits code_def)
  have "length (decimal (length content)) \<le> 20"
    using length_decimal [of "length content" 20] assms(2) by simp
  then have lengths: "length (tr_size_stdout readings) \<le> 4096" "length (tr_digest_stdout readings) \<le> 4096"
    using assms by (simp_all add: faithful_readings_def)
  have line: "from_utf8 (tr_digest_stdout readings)
      = Some (encode_lower_hex (sha content) @ ''  '' @ path @ [newline])"
    using assms(1,3) by (simp add: faithful_readings_def is_ascii_encode_lower_hex code_def)
  have same: "encode_lower_hex (sha content) @ ''  '' @ path @ [newline] = sha256 @ ''  '' @ p @ [newline]
      \<longleftrightarrow> sha256 = encode_lower_hex (sha content) \<and> p = path" for p
    using assms(5,9) by (auto simp: append_eq_append_conv)
  show ?thesis
    using assms lengths stat line parse_decimal [OF assms(2)]
    by (auto simp: deposited_Inr measured_as_def limits same faithful_readings_def
        intro!: exI [of _ "\<lparr>sf_path = path, sf_sha256 = sha256\<rparr>"])
qed

section \<open>The configuration reads back\<close>

lemma u8_le_code: "n \<le> (of_char c :: u8) \<longleftrightarrow> unat n \<le> code c" "(of_char c :: u8) \<le> n \<longleftrightarrow> code c \<le> unat n"
    "(of_char c :: u8) < n \<longleftrightarrow> code c < unat n" "(of_char c :: u8) = n \<longleftrightarrow> code c = unat n"
  by (simp_all add: word_le_nat_alt word_less_nat_alt word_unat_eq_iff code_def)

lemma utf8_short:
  "128 \<le> code x \<Longrightarrow> \<not> utf8_ok (as_bytes [x])"
  "224 \<le> code x \<Longrightarrow> \<not> utf8_ok (as_bytes [x, y])"
  "240 \<le> code x \<Longrightarrow> \<not> utf8_ok (as_bytes [x, y, z])"
  by (simp_all add: as_bytes_def u8_le_code)

lemma utf8_lead:
  "128 \<le> code x \<Longrightarrow> code x < 194 \<Longrightarrow> \<not> utf8_ok (as_bytes (x # s))"
  by (cases s; cases "tl s"; cases "tl (tl s)") (simp_all add: as_bytes_def u8_le_code)

lemma utf8_two:
  assumes "128 \<le> code x" "code x < 224" "utf8_ok (as_bytes (x # y # s))"
  shows "128 \<le> code y \<and> utf8_ok (as_bytes s)"
proof -
  have "194 \<le> code x" using assms utf8_lead by force
  with assms show ?thesis by (simp add: as_bytes_def u8_le_code continuation_def)
qed

lemma utf8_three:
  "224 \<le> code x \<Longrightarrow> code x < 240 \<Longrightarrow> utf8_ok (as_bytes (x # y # z # s)) \<Longrightarrow>
     128 \<le> code y \<and> 128 \<le> code z \<and> utf8_ok (as_bytes s)"
  by (simp add: as_bytes_def u8_le_code continuation_def split: if_splits)

lemma utf8_four:
  "240 \<le> code x \<Longrightarrow> utf8_ok (as_bytes (x # y # z # w # s)) \<Longrightarrow>
     128 \<le> code y \<and> 128 \<le> code z \<and> 128 \<le> code w \<and> utf8_ok (as_bytes s)"
  by (simp add: as_bytes_def u8_le_code continuation_def split: if_splits)

lemma utf8_tail:
  assumes "128 \<le> code x" "utf8_ok (as_bytes (x # r))"
  shows "\<exists>p t. r = p @ t \<and> list_all (\<lambda>y. 128 \<le> code y) p \<and> utf8_ok (as_bytes t)
     \<and> set (chars t) \<subseteq> set (chars (x # r))"
proof -
  obtain y s1 where r: "r = y # s1" using assms utf8_short(1) by (cases r) auto
  show ?thesis
  proof (cases "code x < 224")
    case True
    with assms r show ?thesis using utf8_two [of x y s1]
      by (intro exI [of _ "[y]"] exI [of _ s1]) auto
  next
    case False
    then obtain z s2 where s1: "s1 = z # s2" using assms r utf8_short(2) by (cases s1) auto
    show ?thesis
    proof (cases "code x < 240")
      case True
      with False assms r s1 show ?thesis using utf8_three [of x y z s2]
        by (intro exI [of _ "[y, z]"] exI [of _ s2]) auto
    next
      case high: False
      then obtain w s3 where s2: "s2 = w # s3" using assms r s1 utf8_short(3) by (cases s2) auto
      with high False assms r s1 show ?thesis using utf8_four [of x y z w s3]
        by (intro exI [of _ "[y, z, w]"] exI [of _ s3]) auto
    qed
  qed
qed

lemma utf8_ascii_char:
  "utf8_ok (as_bytes s) \<Longrightarrow> c \<in> set s \<Longrightarrow> code c < 128 \<Longrightarrow> code c \<in> set (chars s)"
proof (induction "length s" arbitrary: s rule: less_induct)
  case less
  show ?case
  proof (cases s)
    case (Cons x r)
    show ?thesis
    proof (cases "code x < 128")
      case True
      with less.prems Cons have "utf8_ok (as_bytes r)" by (simp add: as_bytes_def u8_le_code)
      with less True Cons show ?thesis by auto
    next
      case False
      then obtain p t where t: "r = p @ t" "list_all (\<lambda>y. 128 \<le> code y) p" "utf8_ok (as_bytes t)"
          "set (chars t) \<subseteq> set (chars s)"
        using utf8_tail [of x r] less.prems(1) Cons by auto
      then have "c \<in> set t" using less.prems Cons False by (auto simp: list_all_iff)
      with less.hyps [of t] less.prems(3) t(1,3) Cons have "code c \<in> set (chars t)" by simp
      with t(4) show ?thesis by blast
    qed
  qed (use less in simp)
qed

lemma judge_values_Inr:
  "judge_values pairs = Inr u \<longleftrightarrow>
     list_all (\<lambda>(k, v). v \<noteq> [] \<and> list_all (\<lambda>c. \<not> is_control c \<and> c \<noteq> code CHR ''='') (chars v)) pairs"
  by (induction pairs rule: judge_values.induct)
    (auto simp: list_ex_iff list_all_iff guard_Inr_iff)

lemma plain_value:
  assumes "utf8_ok (as_bytes v)" "list_all (\<lambda>c. \<not> is_control c \<and> c \<noteq> code CHR ''='') (chars v)"
  shows "newline \<notin> set v" "carriage_return \<notin> set v" "CHR ''='' \<notin> set v"
proof -
  have "c \<notin> set v" if "code c < 128" "is_control (code c) \<or> code c = code CHR ''=''" for c
    using utf8_ascii_char [OF assms(1), of c] assms(2) that by (auto simp: list_all_iff)
  note no = this
  show "newline \<notin> set v" "carriage_return \<notin> set v" "CHR ''='' \<notin> set v"
    by (rule no; simp add: is_control_def code_def)+
qed

lemma lines_append:
  assumes "newline \<notin> set a" "carriage_return \<notin> set a"
  shows "lines (a @ newline # rest) = a # lines rest"
proof -
  have "split_on newline (a @ newline # rest) = a # split_on newline rest"
    using assms(1) by (induction a) auto
  moreover have "strip_carriage_return a = a"
    using assms(2) by (cases a rule: rev_cases) (auto simp: strip_carriage_return_def strip_suffix_char_def)
  ultimately show ?thesis by (simp add: lines_def Let_def)
qed

lemma text_of_append [simp]: "text_of (a @ b) = text_of a @ text_of b"
  by (simp add: text_of_def)

lemma compose_text:
  assumes "CONFIGURATION_KEYS = [k1, k2, k3]"
    and "compose sha listen allowed_source relay_endpoint = Inr c"
  shows "text_of (cf_bytes c) = (k1 @ ''='' @ listen) @ newline # (k2 @ ''='' @ allowed_source) @ newline
      # (k3 @ ''='' @ relay_endpoint) @ newline # []"
    and "cf_sha256 c = encode_lower_hex (sha (cf_bytes c))"
    and "list_all (\<lambda>v. v \<noteq> [] \<and> list_all (\<lambda>c. \<not> is_control c \<and> c \<noteq> code CHR ''='') (chars v))
      [listen, allowed_source, relay_endpoint]"
  using assms(2) unfolding compose_def assms(1) Let_def
  by (auto simp: result_iff judge_values_Inr simp del: judge_values.simps)

section \<open>Properties\<close>

text \<open>C19: what is installed is what was sent. Against a target that measures whatever it
holds, the staging of a verified bundle is accepted exactly when the held bytes have the
length and the digest of the artifact the anchor answered for: a truncated or an
altered deposit is refused, an exact one never is.\<close>

theorem staged_bundle_is_the_artifact:
  assumes "verify_bundle ed from_slice sha anchor manifest signature version artifact = Inr b"
    and "length (sha artifact) = 32" "length (sha content) = 32"
    and "faithful_readings sha content path readings" "length content < 2 ^ 64"
    and "is_ascii path" "length path \<le> 4000" "suffix STAGED_ARTIFACT_SUFFIX path"
    and "\<not> prefix '' '' path"
  shows "(\<exists>f. staged_bundle b readings = Inr f \<and> sf_path f = path)
    \<longleftrightarrow> length content = length artifact \<and> sha content = sha artifact"
proof -
  note b = verified_bundle_measures [OF assms(1,2)]
  have hex: "is_lower_hex_text (vb_sha256 b)" "length (vb_sha256 b) = 64"
    using assms(1) by (auto simp: verify_bundle_Inr dest: read_manifest_hex)
  have "(of_nat (length content) = vb_size b) = (length content = length artifact)"
    using b(1) assms(5) by (auto simp: word_unat_eq_iff unat_of_nat)
  then show ?thesis
    using faithful_readings_accepted [OF assms(4,5,6,7,3,8,9) hex, of "vb_size b"] b(2)
    by (auto simp: staged_bundle_def)
qed

definition sample_readings :: TransferReadings where
  "sample_readings = \<lparr>tr_deposit_status = 0, tr_size_status = 0,
     tr_size_stdout = as_bytes (decimal 3 @ [newline]), tr_digest_status = 0,
     tr_digest_stdout = as_bytes (encode_lower_hex (sample_sha [1, 2, 3]) @ ''  ''
       @ (''/root'' @ STAGED_ARTIFACT_SUFFIX) @ [newline])\<rparr>"

theorem staged_bundle_is_the_artifact_witness:
  "\<exists>f. staged_bundle sample_bundle sample_readings = Inr f
     \<and> sf_path f = ''/root'' @ STAGED_ARTIFACT_SUFFIX"
proof -
  have "faithful_readings sample_sha [1, 2, 3] (''/root'' @ STAGED_ARTIFACT_SUFFIX) sample_readings"
    by (simp add: faithful_readings_def sample_readings_def numeral_3_eq_3)
  from staged_bundle_is_the_artifact [OF sample_bundle_verified _ _ this] show ?thesis
    by (simp add: code_def STAGED_ARTIFACT_SUFFIX_def suffix_def)
qed

text \<open>The machine configuration says the three values it was composed of. The bytes
that travel are three lines; read back they are the three keys in their order, each
with exactly the value given, so no value can open a line or name a key of its own;
and the digest that travels beside them is theirs.\<close>

theorem configuration_reads_back:
  assumes "compose sha listen allowed_source relay_endpoint = Inr c"
    and "utf8_ok (as_bytes listen)" "utf8_ok (as_bytes allowed_source)"
    and "utf8_ok (as_bytes relay_endpoint)"
  shows "map (split_once CHR ''='') (lines (text_of (cf_bytes c)))
      = [Some (''CONTROLLER_LISTEN'', listen), Some (''CONTROLLER_ALLOWED_SOURCE'', allowed_source),
         Some (''CONTROLLER_RELAY_ENDPOINT'', relay_endpoint)]
    \<and> cf_sha256 c = encode_lower_hex (sha (cf_bytes c))
    \<and> [] \<notin> {listen, allowed_source, relay_endpoint}"
proof -
  note c = compose_text [OF CONFIGURATION_KEYS_def assms(1)]
  have line: "lines ((key @ ''='' @ v) @ newline # rest) = (key @ ''='' @ v) # lines rest"
    if "v \<in> {listen, allowed_source, relay_endpoint}" "key \<in> set CONFIGURATION_KEYS" for key v rest
    using that assms(2-4) c(3) plain_value [of v]
    by (intro lines_append) (auto simp: CONFIGURATION_KEYS_def)
  have "lines (text_of (cf_bytes c)) = [''CONTROLLER_LISTEN'' @ ''='' @ listen,
      ''CONTROLLER_ALLOWED_SOURCE'' @ ''='' @ allowed_source,
      ''CONTROLLER_RELAY_ENDPOINT'' @ ''='' @ relay_endpoint]"
    unfolding c(1) by (subst line, simp, simp add: CONFIGURATION_KEYS_def)+ (simp add: lines_def)
  with c(2,3) show ?thesis by auto
qed

theorem configuration_reads_back_witness:
  "\<exists>c. compose sample_sha ''127.0.0.1:443'' ''10.0.0.2'' ''10.0.0.3:443'' = Inr c
     \<and> cf_sha256 c = encode_lower_hex (sample_sha (cf_bytes c))"
proof -
  have ascii: "is_ascii ''127.0.0.1:443''" "is_ascii ''10.0.0.2''" "is_ascii ''10.0.0.3:443''"
    by (simp_all add: code_def)
  then have utf8: "utf8_ok (as_bytes ''127.0.0.1:443'')" "utf8_ok (as_bytes ''10.0.0.2'')"
      "utf8_ok (as_bytes ''10.0.0.3:443'')"
    by (simp_all only: utf8_ok_ascii as_bytes_ascii)
  have "judge_values (zip CONFIGURATION_KEYS [''127.0.0.1:443'', ''10.0.0.2'', ''10.0.0.3:443'']) = Inr ()"
    by code_simp
  then obtain c where "compose sample_sha ''127.0.0.1:443'' ''10.0.0.2'' ''10.0.0.3:443'' = Inr c"
    by (auto simp: compose_def Let_def)
  with configuration_reads_back [OF this utf8] show ?thesis by blast
qed

end
