(* ===== verification/Constats.thy ===== *)
theory Constats
  imports Install_Plan
begin

text \<open>
  The judges of what a machine became: \<open>installation/package.rs\<close>, \<open>unit.rs\<close>,
  \<open>nodes.rs\<close> and \<open>identity.rs\<close>. They receive what a fixed command printed and give
  a verdict; a Rust error string is a constructor with what the string quotes.
\<close>

section \<open>The package\<close>

definition PACKAGE_NAME :: string where "PACKAGE_NAME = ''your-cloud-server''"

definition QUERY_PACKAGE :: FixedCommand where
  "QUERY_PACKAGE = FixedCommand
     (''/usr/bin/env LC_ALL=C /usr/bin/dpkg-query -W -f='' @ [CHR 0x27]
      @ ''${Package} ${Status} ${Version}'' @ [CHR 0x5C, CHR ''n'', CHR 0x27] @ '' your-cloud-server'')"

definition MAX_PACKAGE_READING_BYTES :: nat where [limits]: "MAX_PACKAGE_READING_BYTES = 4096"

definition INSTALLED_STATUS :: string where "INSTALLED_STATUS = ''install ok installed''"

definition NO_PACKAGE_MATCHED :: u32 where [limits]: "NO_PACKAGE_MATCHED = 1"

datatype ReadingRefusal =
    PackageReadingTooLarge | QueryFailed | PackageReadingUnreadable | ForeignPackageNamed

datatype PackageState =
    PackageAbsent
  | PackageInstalled string
  | PackageAmbiguous string string

datatype Change =
    FromAbsence
  | FromVersion string
  | AlreadyAtThisVersion
  | RefusedAmbiguousState string

record PosedPackage =
  pp_version :: string

datatype PoseRefusal =
    NotInstalled
  | HalfConfigured string
  | UnexpectedPackageVersion string

definition read_package :: "u32 \<Rightarrow> bytes \<Rightarrow> ReadingRefusal + PackageState" where
  "read_package exit_status stdout =
     (if length stdout > MAX_PACKAGE_READING_BYTES then Inl PackageReadingTooLarge
      else if exit_status \<noteq> 0
      then (if exit_status = NO_PACKAGE_MATCHED \<and> stdout = [] then Inr PackageAbsent
            else Inl QueryFailed)
      else
        and_then (ok_or (do { s \<leftarrow> from_utf8 stdout; strip_suffix_char newline s })
                    PackageReadingUnreadable) (\<lambda>line.
        case split_on CHR '' '' line of
          [package, want, flag, status, version] \<Rightarrow>
            if package \<noteq> PACKAGE_NAME then Inl ForeignPackageNamed
            else if version = [] then Inl PackageReadingUnreadable
            else
              let status_words = want @ '' '' @ flag @ '' '' @ status
              in if status_words = INSTALLED_STATUS then Inr (PackageInstalled version)
                 else Inr (PackageAmbiguous status_words version)
        | _ \<Rightarrow> Inl PackageReadingUnreadable))"

fun package_change :: "PackageState \<Rightarrow> string \<Rightarrow> Change" where
  "package_change PackageAbsent expected = FromAbsence"
| "package_change (PackageInstalled version) expected =
     (if version = expected then AlreadyAtThisVersion else FromVersion version)"
| "package_change (PackageAmbiguous status _) expected = RefusedAmbiguousState status"

fun posed :: "PackageState \<Rightarrow> string \<Rightarrow> PoseRefusal + PosedPackage" where
  "posed PackageAbsent bound_version = Inl NotInstalled"
| "posed (PackageAmbiguous status _) bound_version = Inl (HalfConfigured status)"
| "posed (PackageInstalled version) bound_version =
     (if version = bound_version then Inr \<lparr>pp_version = version\<rparr>
      else Inl (UnexpectedPackageVersion version))"

section \<open>The unit\<close>

definition SHOW_CONTROLLER :: FixedCommand where
  "SHOW_CONTROLLER = FixedCommand (''/usr/bin/env LC_ALL=C /usr/bin/systemctl show --no-pager ''
     @ ''-p ActiveState,SubState,DynamicUser,User,TasksMax,MemoryMax,NoNewPrivileges,ProtectSystem,CapabilityBoundingSet ''
     @ ''-- your-cloud-controller.service'')"

definition MAX_UNIT_READING_BYTES :: nat where [limits]: "MAX_UNIT_READING_BYTES = 8192"

definition isolation :: "(string \<times> string) list" where
  "isolation =
     [(''DynamicUser'', ''yes''),
      (''User'', CONTROLLER_ACCOUNT),
      (''TasksMax'', decimal (unat (bg_tasks_max CONTROLLER_BUDGETS))),
      (''MemoryMax'', decimal (unat ((ucast (bg_memory_max_mib CONTROLLER_BUDGETS) :: u64) * 1024 * 1024))),
      (''NoNewPrivileges'', ''yes''),
      (''ProtectSystem'', ''strict''),
      (''CapabilityBoundingSet'', [])]"

datatype UnitRefusal =
    UnitReadingTooLarge
  | UnitReadingUnreadable
  | PropertyMissing string
  | NotRunning string string
  | IsolationDiverged string string

record RunningController =
  rc_account :: string

fun read_property_lines :: "string list \<Rightarrow> UnitRefusal + (string \<times> string) list" where
  "read_property_lines [] = Inr []"
| "read_property_lines (line # rest) =
     and_then (ok_or (split_once CHR ''='' line) UnitReadingUnreadable) (\<lambda>(name, v).
     if name = [] then Inl UnitReadingUnreadable
     else and_then (read_property_lines rest) (\<lambda>properties. Inr ((name, v) # properties)))"

definition read_properties :: "bytes \<Rightarrow> UnitRefusal + (string \<times> string) list" where
  "read_properties stdout =
     and_then (ok_or (from_utf8 stdout) UnitReadingUnreadable) (\<lambda>s.
     and_then (read_property_lines (lines s)) (\<lambda>properties.
     if properties = [] then Inl UnitReadingUnreadable else Inr properties))"

definition property :: "(string \<times> string) list \<Rightarrow> string \<Rightarrow> UnitRefusal + string" where
  "property properties name = ok_or (map_of properties name) (PropertyMissing name)"

fun confined :: "(string \<times> string) list \<Rightarrow> (string \<times> string) list \<Rightarrow> UnitRefusal + unit" where
  "confined properties [] = Inr ()"
| "confined properties ((name, expected) # rest) =
     and_then (property properties name) (\<lambda>observed.
     if observed \<noteq> expected then Inl (IsolationDiverged name observed)
     else confined properties rest)"

definition running :: "u32 \<Rightarrow> bytes \<Rightarrow> UnitRefusal + RunningController" where
  "running exit_status stdout =
     (if length stdout > MAX_UNIT_READING_BYTES then Inl UnitReadingTooLarge
      else if exit_status \<noteq> 0 then Inl UnitReadingUnreadable
      else
        and_then (read_properties stdout) (\<lambda>properties.
        and_then (property properties ''ActiveState'') (\<lambda>active_state.
        and_then (property properties ''SubState'') (\<lambda>sub_state.
        if active_state \<noteq> ''active'' \<or> sub_state \<noteq> ''running''
        then Inl (NotRunning active_state sub_state)
        else
          and_then (confined properties isolation) (\<lambda>_.
          and_then (property properties ''User'') (\<lambda>user.
          Inr \<lparr>rc_account = user\<rparr>))))))"

section \<open>The nodes\<close>

definition stat_operands :: string where
  "stat_operands = ''/etc/your-cloud/controller.env /var/lib/private/your-cloud-controller ''
     @ ''/etc/your-cloud/controller-credentials /etc/your-cloud/command-identities ''
     @ ''/etc/your-cloud/command-endpoints /etc/your-cloud/relay-anchor ''
     @ ''/etc/your-cloud/controller-credentials/controller-reader.crt ''
     @ ''/etc/your-cloud/controller-credentials/controller-reader.key''"

definition STAT_OWNED :: FixedCommand where
  "STAT_OWNED = FixedCommand (''/usr/bin/sudo -k -n -- /usr/bin/env LC_ALL=C /usr/bin/stat -c ''
     @ [CHR 0x27] @ ''%n %u %g %a %F'' @ [CHR 0x27] @ '' -- '' @ stat_operands)"

definition STAT_OWNED_WITH_PASSWORD :: FixedCommand where
  "STAT_OWNED_WITH_PASSWORD = FixedCommand
     (''/usr/bin/sudo -k -S -p your-cloud-sudo-prompt: -- /usr/bin/env LC_ALL=C /usr/bin/stat -c ''
     @ [CHR 0x27] @ ''%n %u %g %a %F'' @ [CHR 0x27] @ '' -- '' @ stat_operands)"

definition MAX_NODES_READING_BYTES :: nat where [limits]: "MAX_NODES_READING_BYTES = 4096"

definition ROOT_ID :: string where "ROOT_ID = ''0''"

record Expectation =
  ex_path :: string
  ex_kind :: string
  ex_mode :: string

definition EXPECTED_NODES :: "Expectation list" where
  "EXPECTED_NODES =
     [\<lparr>ex_path = MACHINE_CONFIGURATION, ex_kind = ''regular file'', ex_mode = ''600''\<rparr>,
      \<lparr>ex_path = CONTROLLER_STATE_DIRECTORY, ex_kind = ''directory'', ex_mode = ''700''\<rparr>,
      \<lparr>ex_path = CREDENTIAL_SOURCE_DIRECTORY, ex_kind = ''directory'', ex_mode = ''700''\<rparr>,
      \<lparr>ex_path = COMMAND_IDENTITY_DIRECTORY, ex_kind = ''directory'', ex_mode = ''700''\<rparr>,
      \<lparr>ex_path = COMMAND_ENDPOINT_DIRECTORY, ex_kind = ''directory'', ex_mode = ''700''\<rparr>,
      \<lparr>ex_path = RELAY_ANCHOR_DIRECTORY, ex_kind = ''directory'', ex_mode = ''700''\<rparr>,
      \<lparr>ex_path = READER_CERTIFICATE, ex_kind = ''regular file'', ex_mode = ''600''\<rparr>,
      \<lparr>ex_path = READER_KEY, ex_kind = ''regular file'', ex_mode = ''600''\<rparr>]"

datatype NodeRefusal =
    NodesReadingTooLarge
  | NodesReadingUnreadable
  | ForeignPathReported string
  | MissingNode string
  | WrongKind string string
  | WrongOwner string string string
  | WrongMode string string

record OwnedNodes =
  on_count :: nat

text \<open>One line of \<open>stat\<close>: the path, then the uid, the gid, the mode and the kind.\<close>

type_synonym node_reading = "string \<times> (string \<times> string \<times> string \<times> string)"

fun read_node_lines :: "string list \<Rightarrow> NodeRefusal + node_reading list" where
  "read_node_lines [] = Inr []"
| "read_node_lines (line # rest) =
     (case splitn 5 CHR '' '' line of
        [path, uid, gid, mode, kind] \<Rightarrow>
          and_then (read_node_lines rest) (\<lambda>readings. Inr ((path, (uid, gid, mode, kind)) # readings))
      | _ \<Rightarrow> Inl NodesReadingUnreadable)"

fun no_foreign_path :: "node_reading list \<Rightarrow> NodeRefusal + unit" where
  "no_foreign_path [] = Inr ()"
| "no_foreign_path ((path, _) # rest) =
     (if \<not> list_ex (\<lambda>node. ex_path node = path) EXPECTED_NODES then Inl (ForeignPathReported path)
      else no_foreign_path rest)"

fun judge_nodes :: "node_reading list \<Rightarrow> Expectation list \<Rightarrow> NodeRefusal + unit" where
  "judge_nodes readings [] = Inr ()"
| "judge_nodes readings (node # rest) =
     and_then (ok_or (map_of readings (ex_path node)) (MissingNode (ex_path node)))
       (\<lambda>(uid, gid, mode, kind).
     if kind \<noteq> ex_kind node then Inl (WrongKind (ex_path node) kind)
     else if uid \<noteq> ROOT_ID \<or> gid \<noteq> ROOT_ID then Inl (WrongOwner (ex_path node) uid gid)
     else if mode \<noteq> ex_mode node then Inl (WrongMode (ex_path node) mode)
     else judge_nodes readings rest)"

definition owned :: "bytes \<Rightarrow> NodeRefusal + OwnedNodes" where
  "owned stdout =
     (if length stdout > MAX_NODES_READING_BYTES then Inl NodesReadingTooLarge
      else
        and_then (ok_or (from_utf8 stdout) NodesReadingUnreadable) (\<lambda>s.
        and_then (read_node_lines (lines s)) (\<lambda>readings.
        if readings = [] then Inl NodesReadingUnreadable
        else
          and_then (no_foreign_path readings) (\<lambda>_.
          and_then (judge_nodes readings EXPECTED_NODES) (\<lambda>_.
          Inr \<lparr>on_count = length EXPECTED_NODES\<rparr>)))))"

section \<open>The identity acts\<close>

datatype IdentityRefusal =
    InitNotUtf8
  | MintNotUtf8
  | OutputEmpty
  | OutputMoreThanOneLine
  | InitWrongShape string
  | MintEndsBefore string
  | MintWrongShape string
  | MintMoreThanFourLines
  | ControllerIdNotCanonical string
  | InfrastructureIdNotCanonical string
  | ReaderSerialNotCanonical string
  | ReaderDigestNotCanonical string

definition canonical_identity_uuid :: "string \<Rightarrow> bool" where
  "canonical_identity_uuid candidate =
     (let parts = split_on CHR ''-'' candidate; sizes = [8, 4, 4, 4, 12]
      in length parts = length sizes
         \<and> list_all (\<lambda>(part, n). length part = n \<and> is_lower_hex_text part) (zip parts sizes))"

definition identity_uuid :: "(string \<Rightarrow> IdentityRefusal) \<Rightarrow> string \<Rightarrow> IdentityRefusal + unit" where
  "identity_uuid refusal candidate =
     (if canonical_identity_uuid candidate then Inr () else Inl (refusal candidate))"

definition single_line :: "string \<Rightarrow> IdentityRefusal + string" where
  "single_line s =
     (case lines s of [] \<Rightarrow> Inl OutputEmpty | [line] \<Rightarrow> Inr line | _ \<Rightarrow> Inl OutputMoreThanOneLine)"

definition initialised :: "bytes \<Rightarrow> IdentityRefusal + unit" where
  "initialised stdout =
     and_then (ok_or (from_utf8 stdout) InitNotUtf8) (\<lambda>s.
     and_then (single_line s) (\<lambda>line.
     and_then (ok_or (do {
         rest \<leftarrow> strip_prefix ''controller_id='' line;
         split_once_str '' infrastructure_id='' rest }) (InitWrongShape line))
       (\<lambda>(controller, infrastructure).
     and_then (identity_uuid ControllerIdNotCanonical controller) (\<lambda>_.
     identity_uuid InfrastructureIdNotCanonical infrastructure))))"

text \<open>The closure \<open>expect\<close>: the next line, less its prefix, and the lines after it.\<close>

definition expect_line :: "string \<Rightarrow> string list \<Rightarrow> IdentityRefusal + (string \<times> string list)" where
  "expect_line p ls =
     (case ls of
        [] \<Rightarrow> Inl (MintEndsBefore p)
      | line # rest \<Rightarrow>
          and_then (ok_or (strip_prefix p line) (MintWrongShape line)) (\<lambda>v. Inr (v, rest)))"

definition canonical_serial :: "string \<Rightarrow> bool" where
  "canonical_serial serial =
     (serial \<noteq> [] \<and> length serial \<le> 32 \<and> hd serial \<noteq> CHR ''0'' \<and> is_lower_hex_text serial)"

definition minted_reader :: "bytes \<Rightarrow> IdentityRefusal + unit" where
  "minted_reader stdout =
     and_then (ok_or (from_utf8 stdout) MintNotUtf8) (\<lambda>s.
     and_then (expect_line ''controller_id='' (lines s)) (\<lambda>(controller, ls).
     and_then (expect_line ''infrastructure_id='' ls) (\<lambda>(infrastructure, ls).
     and_then (expect_line ''reader_serial='' ls) (\<lambda>(serial, ls).
     and_then (expect_line ''reader_sha256='' ls) (\<lambda>(digest, ls).
     if ls \<noteq> [] then Inl MintMoreThanFourLines
     else
       and_then (identity_uuid ControllerIdNotCanonical controller) (\<lambda>_.
       and_then (identity_uuid InfrastructureIdNotCanonical infrastructure) (\<lambda>_.
       if \<not> canonical_serial serial then Inl (ReaderSerialNotCanonical serial)
       else if length digest \<noteq> 64 \<or> \<not> is_lower_hex_text digest
       then Inl (ReaderDigestNotCanonical digest)
       else Inr ())))))))"

section \<open>What the judges accept\<close>

lemma split_on_append: "c \<notin> set a \<Longrightarrow> split_on c (a @ c # rest) = a # split_on c rest"
  by (induction a) auto

lemma split_on_whole: "c \<notin> set a \<Longrightarrow> split_on c a = [a]"
  by (induction a) auto

lemma five_fields:
  assumes "split_on c line = [a, b, d, e, f]"
  shows "line = a @ c # (b @ c # d @ c # e) @ c # f" "c \<notin> set f"
  using assms join_split_on [of c line] split_on_no_sep [of f c line] by simp_all

lemma read_package_installed:
  "read_package exit_status stdout = Inr (PackageInstalled version) \<longleftrightarrow>
     exit_status = 0 \<and> length stdout \<le> MAX_PACKAGE_READING_BYTES
     \<and> from_utf8 stdout
         = Some ((PACKAGE_NAME @ CHR '' '' # INSTALLED_STATUS @ CHR '' '' # version) @ [newline])
     \<and> version \<noteq> [] \<and> CHR '' '' \<notin> set version" (is "?read \<longleftrightarrow> ?line")
proof
  assume ?read
  then obtain line where line: "from_utf8 stdout = Some (line @ [newline])"
      "exit_status = 0" "length stdout \<le> MAX_PACKAGE_READING_BYTES"
    and fields: "(case split_on CHR '' '' line of
          [package, want, flag, status, version] \<Rightarrow>
            if package \<noteq> PACKAGE_NAME then Inl ForeignPackageNamed
            else if version = [] then Inl PackageReadingUnreadable
            else
              let status_words = want @ '' '' @ flag @ '' '' @ status
              in if status_words = INSTALLED_STATUS then Inr (PackageInstalled version)
                 else Inr (PackageAmbiguous status_words version)
        | _ \<Rightarrow> Inl PackageReadingUnreadable) = Inr (PackageInstalled version)"
    by (auto simp: read_package_def guard_Inr_iff result_iff bind_eq_Some_conv not_less split: if_splits)
  from fields obtain want flag status where
    "split_on CHR '' '' line = [PACKAGE_NAME, want, flag, status, version]" "version \<noteq> []"
    "want @ '' '' @ flag @ '' '' @ status = INSTALLED_STATUS"
    by (auto simp: Let_def split: list.splits if_splits)
  with five_fields [OF this(1)] line show ?line by simp
next
  assume line: ?line
  define l where "l = PACKAGE_NAME @ CHR '' '' # INSTALLED_STATUS @ CHR '' '' # version"
  have "split_on CHR '' '' l = [PACKAGE_NAME, ''install'', ''ok'', ''installed'', version]"
    using line by (simp add: l_def PACKAGE_NAME_def INSTALLED_STATUS_def split_on_whole)
  moreover from line have "from_utf8 stdout = Some (l @ [newline])" by (simp add: l_def)
  ultimately show ?read
    using line by (simp add: read_package_def INSTALLED_STATUS_def strip_suffix_char_def)
qed

lemma posed_Inr: "posed state version = Inr p \<longleftrightarrow> state = PackageInstalled version \<and> p = \<lparr>pp_version = version\<rparr>"
  by (cases state) auto

text \<open>A package is posed when the machine says so in one line. The constat passes exactly
when the query exited zero and printed the one line of that package, installed and
configured, at the very version the plan carries: a half-configured state, another
version, another package or a line more are refused.\<close>

theorem posed_package_is_one_line:
  "(\<exists>state p. read_package exit_status stdout = Inr state \<and> posed state version = Inr p) \<longleftrightarrow>
     exit_status = 0 \<and> length stdout \<le> 4096 \<and> version \<noteq> [] \<and> CHR '' '' \<notin> set version
     \<and> from_utf8 stdout = Some (''your-cloud-server install ok installed '' @ version @ [newline])"
  by (auto simp: posed_Inr read_package_installed limits PACKAGE_NAME_def INSTALLED_STATUS_def)

lemma property_Inr: "property properties name = Inr v \<longleftrightarrow> map_of properties name = Some v"
  by (simp add: property_def result_iff)

lemma confined_Inr:
  "confined properties expected = Inr u \<longleftrightarrow>
     list_all (\<lambda>(name, v). map_of properties name = Some v) expected"
  by (induction properties expected rule: confined.induct)
    (auto simp: result_iff guard_Inr_iff property_Inr)

lemma isolation_values:
  "isolation =
     [(''DynamicUser'', ''yes''), (''User'', ''your-cloud-controller''), (''TasksMax'', ''128''),
      (''MemoryMax'', ''402653184''), (''NoNewPrivileges'', ''yes''), (''ProtectSystem'', ''strict''),
      (''CapabilityBoundingSet'', [])]"
  by (simp add: isolation_def CONTROLLER_ACCOUNT_def CONTROLLER_BUDGETS_def decimal.simps hex_digit_def)
    code_simp

text \<open>A running Controller is a confined one. The constat of the unit passes exactly when
systemd answered, says it is active and running, and for each property of the isolation
first says the value the plan fixes, down to the empty set of capabilities; the account
it reports is the Controller's.\<close>

theorem running_controller_is_confined:
  "running exit_status stdout = Inr r \<longleftrightarrow>
     exit_status = 0 \<and> length stdout \<le> 8192 \<and> rc_account r = ''your-cloud-controller''
     \<and> (\<exists>properties. read_properties stdout = Inr properties
          \<and> map_of properties ''ActiveState'' = Some ''active''
          \<and> map_of properties ''SubState'' = Some ''running''
          \<and> map_of properties ''DynamicUser'' = Some ''yes''
          \<and> map_of properties ''User'' = Some ''your-cloud-controller''
          \<and> map_of properties ''TasksMax'' = Some ''128''
          \<and> map_of properties ''MemoryMax'' = Some ''402653184''
          \<and> map_of properties ''NoNewPrivileges'' = Some ''yes''
          \<and> map_of properties ''ProtectSystem'' = Some ''strict''
          \<and> map_of properties ''CapabilityBoundingSet'' = Some [])"
proof -
  have account: "\<lparr>rc_account = u\<rparr> = r \<longleftrightarrow> rc_account r = u" for u by (cases r) auto
  show ?thesis
    by (auto simp: running_def guard_Inr_iff result_iff property_Inr confined_Inr isolation_values
        account limits not_less)
qed

lemma no_foreign_path_Inr:
  "no_foreign_path readings = Inr u \<longleftrightarrow> fst ` set readings \<subseteq> ex_path ` set EXPECTED_NODES"
  by (induction readings rule: no_foreign_path.induct) (auto simp: guard_Inr_iff list_ex_iff image_iff)

lemma judge_nodes_Inr:
  "judge_nodes readings nodes = Inr u \<longleftrightarrow>
     list_all (\<lambda>node. map_of readings (ex_path node)
        = Some (ROOT_ID, ROOT_ID, ex_mode node, ex_kind node)) nodes"
  by (induction readings nodes rule: judge_nodes.induct)
    (auto simp: guard_Inr_iff result_iff)

text \<open>Every node the Assistant wrote is there, is root's and is closed. The constat passes
exactly when the lines name nothing but the eight expected paths and the first line of
each says the expected kind and mode under root and root; so the configuration and the
reader's pair are regular files of mode 600 and the five directories have mode 700.\<close>

theorem owned_nodes_are_closed:
  "(\<exists>n. owned stdout = Inr n \<and> on_count n = 8) \<longleftrightarrow>
     length stdout \<le> 4096
     \<and> (\<exists>s readings. from_utf8 stdout = Some s \<and> read_node_lines (lines s) = Inr readings
          \<and> fst ` set readings \<subseteq> ex_path ` set EXPECTED_NODES
          \<and> list_all (\<lambda>path. map_of readings path = Some (''0'', ''0'', ''600'', ''regular file''))
              [MACHINE_CONFIGURATION, READER_CERTIFICATE, READER_KEY]
          \<and> list_all (\<lambda>path. map_of readings path = Some (''0'', ''0'', ''700'', ''directory''))
              [CONTROLLER_STATE_DIRECTORY, CREDENTIAL_SOURCE_DIRECTORY, COMMAND_IDENTITY_DIRECTORY,
               COMMAND_ENDPOINT_DIRECTORY, RELAY_ANCHOR_DIRECTORY])"
proof -
  have nodes: "judge_nodes readings EXPECTED_NODES = Inr () \<longleftrightarrow>
      list_all (\<lambda>path. map_of readings path = Some (''0'', ''0'', ''600'', ''regular file''))
        [MACHINE_CONFIGURATION, READER_CERTIFICATE, READER_KEY]
      \<and> list_all (\<lambda>path. map_of readings path = Some (''0'', ''0'', ''700'', ''directory''))
        [CONTROLLER_STATE_DIRECTORY, CREDENTIAL_SOURCE_DIRECTORY, COMMAND_IDENTITY_DIRECTORY,
         COMMAND_ENDPOINT_DIRECTORY, RELAY_ANCHOR_DIRECTORY]" for readings
    unfolding judge_nodes_Inr by (auto simp: EXPECTED_NODES_def ROOT_ID_def)
  have "owned stdout = Inr n \<longleftrightarrow> length stdout \<le> 4096 \<and> n = \<lparr>on_count = 8\<rparr>
     \<and> (\<exists>s readings. from_utf8 stdout = Some s \<and> read_node_lines (lines s) = Inr readings
          \<and> readings \<noteq> [] \<and> fst ` set readings \<subseteq> ex_path ` set EXPECTED_NODES
          \<and> judge_nodes readings EXPECTED_NODES = Inr ())" for n
    by (auto simp: owned_def guard_Inr_iff result_iff limits not_less no_foreign_path_Inr)
      (simp_all add: EXPECTED_NODES_def)
  then show ?thesis unfolding nodes by fastforce
qed

end
