(* ===== verification/Acts.thy ===== *)
theory Acts
  imports Constats Deposit
begin

text \<open>
  \<open>installation/acts.rs\<close>: the closed table of what may run as root, the step each act
  serves, the channels a step opens and the constat that establishes it.
\<close>

section \<open>The acts\<close>

record ActCommands =
  ac_without_password :: FixedCommand
  ac_with_password :: FixedCommand

text \<open>The two spellings every act of the table has around its own words.\<close>

definition without_prompt :: string where
  "without_prompt = ''/usr/bin/sudo -k -n -- /usr/bin/env LC_ALL=C ''"

definition with_prompt :: string where
  "with_prompt = ''/usr/bin/sudo -k -S -p your-cloud-sudo-prompt: -- /usr/bin/env LC_ALL=C ''"

definition INSTALL_PACKAGE :: ActCommands where
  "INSTALL_PACKAGE =
     \<lparr>ac_without_password = FixedCommand (without_prompt
        @ ''/usr/bin/dpkg --install -- $HOME/.your-cloud-bootstrap/your-cloud-server.deb''),
      ac_with_password = FixedCommand (with_prompt
        @ ''/usr/bin/dpkg --install -- $HOME/.your-cloud-bootstrap/your-cloud-server.deb'')\<rparr>"

definition RELOAD_UNITS :: ActCommands where
  "RELOAD_UNITS =
     \<lparr>ac_without_password = FixedCommand (without_prompt @ ''/usr/bin/systemctl daemon-reload''),
      ac_with_password = FixedCommand (with_prompt @ ''/usr/bin/systemctl daemon-reload'')\<rparr>"

definition ACTIVATE_CONTROLLER :: ActCommands where
  "ACTIVATE_CONTROLLER =
     \<lparr>ac_without_password = FixedCommand (without_prompt
        @ ''/usr/bin/systemctl enable --now -- your-cloud-controller.service''),
      ac_with_password = FixedCommand (with_prompt
        @ ''/usr/bin/systemctl enable --now -- your-cloud-controller.service'')\<rparr>"

definition CREATE_STATE :: ActCommands where
  "CREATE_STATE =
     \<lparr>ac_without_password = FixedCommand (without_prompt
        @ ''/usr/bin/install -d -o root -g root -m 0700 -- /var/lib/private/your-cloud-controller''),
      ac_with_password = FixedCommand (with_prompt
        @ ''/usr/bin/install -d -o root -g root -m 0700 -- /var/lib/private/your-cloud-controller'')\<rparr>"

definition INSTALL_CONFIGURATION :: ActCommands where
  "INSTALL_CONFIGURATION =
     \<lparr>ac_without_password = FixedCommand (without_prompt
        @ ''/usr/bin/install -o root -g root -m 0600 -- ''
        @ ''$HOME/.your-cloud-bootstrap/controller.env /etc/your-cloud/controller.env''),
      ac_with_password = FixedCommand (with_prompt
        @ ''/usr/bin/install -o root -g root -m 0600 -- ''
        @ ''$HOME/.your-cloud-bootstrap/controller.env /etc/your-cloud/controller.env'')\<rparr>"

definition CREATE_CREDENTIAL_SOURCES :: ActCommands where
  "CREATE_CREDENTIAL_SOURCES =
     \<lparr>ac_without_password = FixedCommand (without_prompt
        @ ''/usr/bin/install -d -o root -g root -m 0700 -- ''
        @ ''/etc/your-cloud/controller-credentials /etc/your-cloud/command-identities ''
        @ ''/etc/your-cloud/command-endpoints /etc/your-cloud/relay-anchor''),
      ac_with_password = FixedCommand (with_prompt
        @ ''/usr/bin/install -d -o root -g root -m 0700 -- ''
        @ ''/etc/your-cloud/controller-credentials /etc/your-cloud/command-identities ''
        @ ''/etc/your-cloud/command-endpoints /etc/your-cloud/relay-anchor'')\<rparr>"

definition INITIALISE_CONTROLLER :: ActCommands where
  "INITIALISE_CONTROLLER =
     \<lparr>ac_without_password = FixedCommand (without_prompt
        @ ''/usr/lib/your-cloud/your-cloud controller init -state-dir=/var/lib/private/your-cloud-controller''),
      ac_with_password = FixedCommand (with_prompt
        @ ''/usr/lib/your-cloud/your-cloud controller init -state-dir=/var/lib/private/your-cloud-controller'')\<rparr>"

definition MINT_READER :: ActCommands where
  "MINT_READER =
     \<lparr>ac_without_password = FixedCommand (without_prompt
        @ ''/usr/lib/your-cloud/your-cloud controller mint-reader -state-dir=/var/lib/private/your-cloud-controller ''
        @ ''-credentials-dir=/etc/your-cloud/controller-credentials''),
      ac_with_password = FixedCommand (with_prompt
        @ ''/usr/lib/your-cloud/your-cloud controller mint-reader -state-dir=/var/lib/private/your-cloud-controller ''
        @ ''-credentials-dir=/etc/your-cloud/controller-credentials'')\<rparr>"

definition DROP_CREDENTIAL :: FixedCommand where "DROP_CREDENTIAL = FixedCommand ''/usr/bin/sudo -k''"

definition ACTS :: "(Step \<times> ActCommands) list" where
  "ACTS =
     [(InstallPackage, INSTALL_PACKAGE), (InstallPackage, RELOAD_UNITS),
      (WriteMachineConfiguration, INSTALL_CONFIGURATION), (CreateState, CREATE_STATE),
      (InstallCredentialSources, CREATE_CREDENTIAL_SOURCES),
      (InitialiseController, INITIALISE_CONTROLLER), (MintReaderIdentity, MINT_READER),
      (ActivateController, ACTIVATE_CONTROLLER)]"

record ElevatedAct =
  ea_step :: Step
  ea_commands :: ActCommands

text \<open>An act exists only against a plan, which only \<open>authorize\<close> returns.\<close>

definition authorised_for :: "InstallPlan \<Rightarrow> Step \<Rightarrow> ElevatedAct list" where
  "authorised_for plan step =
     map (\<lambda>(step, commands). \<lparr>ea_step = step, ea_commands = commands\<rparr>)
       (filter (\<lambda>(candidate, _). candidate = step) ACTS)"

definition act_command :: "ElevatedAct \<Rightarrow> bool \<Rightarrow> FixedCommand" where
  "act_command act password_required =
     (if password_required then ac_with_password (ea_commands act)
      else ac_without_password (ea_commands act))"

section \<open>The channels\<close>

fun channels_for :: "Step \<Rightarrow> nat" where
  "channels_for TransferBundle = 4"
| "channels_for InstallPackage = 3"
| "channels_for WriteMachineConfiguration = 4"
| "channels_for CreateState = 1"
| "channels_for InstallCredentialSources = 1"
| "channels_for InitialiseController = 1"
| "channels_for MintReaderIdentity = 2"
| "channels_for ActivateController = 2"
| "channels_for AssociateApp = 0"
| "channels_for PreflightStep = 0"

definition MAX_EXEC_CHANNELS :: nat where [limits]: "MAX_EXEC_CHANNELS = 4"

definition OBSERVATION_CHANNELS :: nat where [limits]: "OBSERVATION_CHANNELS = 3"

definition channel_budget :: "BootstrapAction list \<Rightarrow> nat" where
  "channel_budget actions =
     (let opened = sum_list (map channels_for (authorized_steps_for actions))
      in if opened = 0 then 0 else MAX_EXEC_CHANNELS + OBSERVATION_CHANNELS + opened + 1)"

section \<open>The constats\<close>

datatype Constat = ConstatPackage | ConstatUnit | ConstatNodes

fun constat_command :: "Constat \<Rightarrow> bool \<Rightarrow> FixedCommand" where
  "constat_command ConstatPackage password_required = QUERY_PACKAGE"
| "constat_command ConstatUnit password_required = SHOW_CONTROLLER"
| "constat_command ConstatNodes password_required =
     (if password_required then STAT_OWNED_WITH_PASSWORD else STAT_OWNED)"

definition constat_elevated :: "Constat \<Rightarrow> bool" where
  "constat_elevated constat = (constat = ConstatNodes)"

fun covered_by :: "Constat \<Rightarrow> Step list" where
  "covered_by ConstatPackage = [InstallPackage]"
| "covered_by ConstatNodes =
     [WriteMachineConfiguration, CreateState, InstallCredentialSources, MintReaderIdentity]"
| "covered_by ConstatUnit = [ActivateController]"

fun constat_for :: "Step \<Rightarrow> Constat option" where
  "constat_for InstallPackage = Some ConstatPackage"
| "constat_for MintReaderIdentity = Some ConstatNodes"
| "constat_for ActivateController = Some ConstatUnit"
| "constat_for _ = None"

end
