(* ===== verification/Install_Sequence.thy ===== *)
theory Install_Sequence
  imports Acts Ledger
begin

text \<open>
  \<open>installation/sequence.rs\<close>: the orchestrator. It carries bytes between a fixed
  command and a judge, in the order of the plan, and keeps the ledger of what it did.

  The channel is the machine, which is not code of the repository: it is a pair of
  functions of everything the channel was asked so far, so a theorem about every such
  pair is a theorem about every machine, answering, lying or mute. A refusal carries the
  judge's value whose \<open>Debug\<close> form the source prints.
\<close>

section \<open>The channel\<close>

record Answer =
  an_exit_status :: u32
  an_stdout :: bytes

datatype ChannelInput = TerminalAnswer bytes | ExactBytes bytes

datatype Event = AdoptBudget nat | Ran FixedCommand "ChannelInput option"

record Machine =
  answers :: "Event list \<Rightarrow> Answer option"
  adopts :: "Event list \<Rightarrow> bool"

section \<open>Outcomes\<close>

datatype Reason =
    NoReason
  | TransferReason TransferRefusal
  | ReadingReason ReadingRefusal
  | PoseReason PoseRefusal
  | UnitReason UnitRefusal
  | NodeReason NodeRefusal
  | IdentityReason IdentityRefusal
  | ConfigurationMissingFromPayload

datatype SequenceStop =
    BudgetRefused
  | Unanswered Step
  | ActFailed Step u32
  | SequenceRefused Step Reason

record SequenceOutcome =
  so_ledger :: Ledger
  so_stopped :: "SequenceStop option"

record InstallPayload =
  pl_bundle :: VerifiedBundle
  pl_artifact :: bytes
  pl_configuration :: "MachineConfiguration option"

text \<open>
  \<open>SpentSecret\<close>, whose type parameter is read through the \<open>borrow\<close> closure wherever it is
  used: the bytes that closure gives stand for it.
\<close>

record SpentSecret =
  ss_secret :: "bytes option"

definition destroy :: "SpentSecret \<Rightarrow> SpentSecret" where
  "destroy secret = secret\<lparr>ss_secret := None\<rparr>"

text \<open>What the sequence is built and run with.\<close>

record Job =
  jb_machine :: Machine
  jb_actions :: "BootstrapAction list"
  jb_password_required :: bool
  jb_plan :: InstallPlan
  jb_payload :: InstallPayload
  jb_secret :: SpentSecret

record Progress =
  pg_trace :: "Event list"
  pg_ledger :: Ledger
  pg_pending :: "Step list"
  pg_last_refusal :: Reason

section \<open>Steps that may stop\<close>

type_synonym 'a run = "Progress \<Rightarrow> (SequenceStop + 'a) \<times> Progress"

definition pure :: "'a \<Rightarrow> 'a run" where
  "pure x p = (Inr x, p)"

definition stop :: "SequenceStop \<Rightarrow> 'a run" where
  "stop e p = (Inl e, p)"

definition after :: "'a run \<Rightarrow> ('a \<Rightarrow> 'b run) \<Rightarrow> 'b run" where
  "after m f p = (case m p of (Inl e, q) \<Rightarrow> (Inl e, q) | (Inr x, q) \<Rightarrow> f x q)"

definition alter :: "(Progress \<Rightarrow> Progress) \<Rightarrow> unit run" where
  "alter f p = (Inr (), f p)"

definition look :: "(Progress \<Rightarrow> 'a) \<Rightarrow> 'a run" where
  "look f p = (Inr (f p), p)"

text \<open>\<open>channel.run(...).map_err(Unanswered)\<close>: the question is asked whatever comes back.\<close>

definition ask :: "Job \<Rightarrow> Step \<Rightarrow> FixedCommand \<Rightarrow> ChannelInput option \<Rightarrow> Answer run" where
  "ask job step command input p =
     (let trace = pg_trace p @ [Ran command input]
      in (ok_or (answers (jb_machine job) trace) (Unanswered step), p\<lparr>pg_trace := trace\<rparr>))"

definition adopt_budget :: "Job \<Rightarrow> nat \<Rightarrow> unit run" where
  "adopt_budget job budget p =
     (let trace = pg_trace p @ [AdoptBudget budget]
      in (if adopts (jb_machine job) trace then Inr () else Inl BudgetRefused,
          p\<lparr>pg_trace := trace\<rparr>))"

definition inscribe :: "ItemKind \<Rightarrow> string \<Rightarrow> Provenance \<Rightarrow> unit run" where
  "inscribe kind name provenance =
     alter (\<lambda>p. p\<lparr>pg_ledger := ledger_record kind name provenance (pg_ledger p)\<rparr>)"

definition await :: "Step \<Rightarrow> unit run" where
  "await step = alter (\<lambda>p. p\<lparr>pg_pending := pg_pending p @ [step]\<rparr>)"

definition secret_input :: "Job \<Rightarrow> ChannelInput option" where
  "secret_input job =
     (if jb_password_required job then map_option TerminalAnswer (ss_secret (jb_secret job)) else None)"

section \<open>The ledger of a step\<close>

fun record_step :: "Step \<Rightarrow> Provenance \<Rightarrow> Ledger \<Rightarrow> Ledger" where
  "record_step InstallPackage provenance ledger = ledger_record Package PACKAGE_NAME provenance ledger"
| "record_step CreateState provenance ledger =
     ledger_record Directory CONTROLLER_STATE_DIRECTORY provenance ledger"
| "record_step InstallCredentialSources provenance ledger =
     ledger_record CredentialSource CREDENTIAL_SOURCE_DIRECTORY provenance ledger"
| "record_step ActivateController provenance ledger =
     ledger_record UnitState CONTROLLER_UNIT provenance ledger"
| "record_step WriteMachineConfiguration provenance ledger =
     ledger_record File MACHINE_CONFIGURATION provenance ledger"
| "record_step InitialiseController provenance ledger =
     ledger_record File AUTHORITY_FILE provenance ledger"
| "record_step MintReaderIdentity provenance ledger =
     ledger_record File READER_KEY provenance
       (ledger_record File READER_CERTIFICATE provenance ledger)"
| "record_step _ provenance ledger = ledger"

text \<open>\<open>pending.retain\<close>: every step the constat covers leaves, recorded as created.\<close>

fun settle :: "Step list \<Rightarrow> Step list \<Rightarrow> Ledger \<Rightarrow> Step list \<times> Ledger" where
  "settle covered [] ledger = ([], ledger)"
| "settle covered (waiting # pending) ledger =
     (if waiting \<in> set covered
      then settle covered pending (record_step waiting Created ledger)
      else apfst (Cons waiting) (settle covered pending ledger))"

section \<open>Deposits\<close>

definition readings_of :: "Answer \<Rightarrow> Answer \<Rightarrow> Answer \<Rightarrow> TransferReadings" where
  "readings_of deposit stat digest =
     \<lparr>tr_deposit_status = an_exit_status deposit, tr_size_status = an_exit_status stat,
      tr_size_stdout = an_stdout stat, tr_digest_status = an_exit_status digest,
      tr_digest_stdout = an_stdout digest\<rparr>"

definition deposit_and_measure ::
  "Job \<Rightarrow> Step \<Rightarrow> FixedCommand \<Rightarrow> bytes \<Rightarrow> FixedCommand \<Rightarrow> FixedCommand \<Rightarrow> TransferReadings run" where
  "deposit_and_measure job step deposit content stat digest =
     after (ask job step deposit (Some (ExactBytes content))) (\<lambda>deposited.
     after (ask job step stat None) (\<lambda>measured.
     after (ask job step digest None) (\<lambda>digested.
     pure (readings_of deposited measured digested))))"

definition record_deposit :: "Step \<Rightarrow> string \<Rightarrow> TransferRefusal + StagedFile \<Rightarrow> unit run" where
  "record_deposit step name verdict =
     (case verdict of
        Inr _ \<Rightarrow> inscribe File name Created
      | Inl refusal \<Rightarrow>
          after (inscribe File name Unknown) (\<lambda>_.
          stop (SequenceRefused step (TransferReason refusal))))"

fun deposit :: "Job \<Rightarrow> Step \<Rightarrow> unit run" where
  "deposit job TransferBundle =
     after (ask job TransferBundle CREATE_STAGING None) (\<lambda>created.
     case staging_created (an_exit_status created) of
       Inl refusal \<Rightarrow> stop (SequenceRefused TransferBundle (TransferReason refusal))
     | Inr _ \<Rightarrow>
         after (inscribe Directory STAGING_DIRECTORY Created) (\<lambda>_.
         after (deposit_and_measure job TransferBundle DEPOSIT_BUNDLE (pl_artifact (jb_payload job))
                  MEASURE_STAGED_SIZE MEASURE_STAGED) (\<lambda>readings.
         record_deposit TransferBundle STAGED_ARTIFACT_SUFFIX
           (staged_bundle (pl_bundle (jb_payload job)) readings))))"
| "deposit job WriteMachineConfiguration =
     (case pl_configuration (jb_payload job) of
        None \<Rightarrow> stop (SequenceRefused WriteMachineConfiguration ConfigurationMissingFromPayload)
      | Some configuration \<Rightarrow>
          after (deposit_and_measure job WriteMachineConfiguration DEPOSIT_CONFIGURATION
                   (cf_bytes configuration) MEASURE_CONFIGURATION_SIZE MEASURE_CONFIGURATION)
            (\<lambda>readings.
          record_deposit WriteMachineConfiguration STAGED_CONFIGURATION_SUFFIX
            (staged_configuration configuration readings)))"
| "deposit job _ = pure ()"

section \<open>Acts and constats\<close>

fun run_acts :: "Job \<Rightarrow> Step \<Rightarrow> Answer option \<Rightarrow> ElevatedAct list \<Rightarrow> Answer option run" where
  "run_acts job step last_answer [] = pure last_answer"
| "run_acts job step last_answer (act # acts) =
     after (ask job step (act_command act (jb_password_required job)) (secret_input job)) (\<lambda>answer.
     if an_exit_status answer \<noteq> 0
     then after (await step) (\<lambda>_. stop (ActFailed step (an_exit_status answer)))
     else run_acts job step (Some answer) acts)"

definition constat_verdict :: "Job \<Rightarrow> Constat \<Rightarrow> Answer \<Rightarrow> Reason + unit" where
  "constat_verdict job constat answer =
     (case constat of
        ConstatPackage \<Rightarrow>
          (case read_package (an_exit_status answer) (an_stdout answer) of
             Inl refusal \<Rightarrow> Inl (ReadingReason refusal)
           | Inr state \<Rightarrow>
               (case posed state (ip_version (jb_plan job)) of
                  Inl refusal \<Rightarrow> Inl (PoseReason refusal) | Inr _ \<Rightarrow> Inr ()))
      | ConstatUnit \<Rightarrow>
          (case running (an_exit_status answer) (an_stdout answer) of
             Inl refusal \<Rightarrow> Inl (UnitReason refusal) | Inr _ \<Rightarrow> Inr ())
      | ConstatNodes \<Rightarrow>
          (case owned (an_stdout answer) of
             Inl refusal \<Rightarrow> Inl (NodeReason refusal) | Inr _ \<Rightarrow> Inr ()))"

definition constate :: "Job \<Rightarrow> Step \<Rightarrow> bool option run" where
  "constate job step =
     (case constat_for step of
        None \<Rightarrow> pure None
      | Some constat \<Rightarrow>
          after (ask job step (constat_command constat (jb_password_required job))
                   (if constat_elevated constat then secret_input job else None)) (\<lambda>answer.
          case constat_verdict job constat answer of
            Inr _ \<Rightarrow> pure (Some True)
          | Inl reason \<Rightarrow>
              after (alter (\<lambda>p. p\<lparr>pg_last_refusal := reason\<rparr>)) (\<lambda>_. pure (Some False))))"

section \<open>The sequence\<close>

definition stdout_of :: "Answer option \<Rightarrow> bytes" where
  "stdout_of last_answer = (case last_answer of None \<Rightarrow> [] | Some answer \<Rightarrow> an_stdout answer)"

definition establish :: "Job \<Rightarrow> Step \<Rightarrow> bool \<Rightarrow> unit run" where
  "establish job step ran_an_act =
     after (if ran_an_act then await step else pure ()) (\<lambda>_.
     after (constate job step) (\<lambda>verdict.
     case verdict of
       Some True \<Rightarrow>
         alter (\<lambda>p. case settle (covered_by (the (constat_for step))) (pg_pending p) (pg_ledger p) of
           (pending, ledger) \<Rightarrow> p\<lparr>pg_pending := pending, pg_ledger := ledger\<rparr>)
     | Some False \<Rightarrow> after (look pg_last_refusal) (\<lambda>reason. stop (SequenceRefused step reason))
     | None \<Rightarrow> pure ()))"

definition drive_step :: "Job \<Rightarrow> Step \<Rightarrow> unit run" where
  "drive_step job step =
     after (deposit job step) (\<lambda>_.
     let acts = authorised_for (jb_plan job) step in
     after (run_acts job step None acts) (\<lambda>last_answer.
     case step of
       InitialiseController \<Rightarrow>
         (case initialised (stdout_of last_answer) of
            Inl reason \<Rightarrow> after (await step) (\<lambda>_. stop (SequenceRefused step (IdentityReason reason)))
          | Inr _ \<Rightarrow> alter (\<lambda>p. p\<lparr>pg_ledger := record_step step Created (pg_ledger p)\<rparr>))
     | MintReaderIdentity \<Rightarrow>
         (case minted_reader (stdout_of last_answer) of
            Inl reason \<Rightarrow> after (await step) (\<lambda>_. stop (SequenceRefused step (IdentityReason reason)))
          | Inr _ \<Rightarrow> establish job step (acts \<noteq> []))
     | _ \<Rightarrow> establish job step (acts \<noteq> [])))"

fun drive_steps :: "Job \<Rightarrow> Step list \<Rightarrow> unit run" where
  "drive_steps job [] = pure ()"
| "drive_steps job (step # steps) = after (drive_step job step) (\<lambda>_. drive_steps job steps)"

definition drive :: "Job \<Rightarrow> unit run" where
  "drive job =
     after (adopt_budget job (channel_budget (jb_actions job))) (\<lambda>_.
     drive_steps job (authorized_steps_for (jb_actions job)))"

definition started :: Progress where
  "started = \<lparr>pg_trace = [], pg_ledger = ledger_new, pg_pending = [], pg_last_refusal = NoReason\<rparr>"

text \<open>What \<open>run\<close> leaves: the outcome, everything the channel was asked, and the secret.\<close>

definition sequence_run :: "Job \<Rightarrow> SequenceOutcome \<times> Event list \<times> SpentSecret" where
  "sequence_run job =
     (case drive job started of
        (outcome, p) \<Rightarrow>
          let ledger = fold (\<lambda>step. record_step step Unknown) (pg_pending p) (pg_ledger p);
              secret = destroy (jb_secret job);
              trace = pg_trace p @ [Ran DROP_CREDENTIAL None]
          in (\<lparr>so_ledger = ledger,
               so_stopped = (case outcome of Inl e \<Rightarrow> Some e | Inr _ \<Rightarrow> None)\<rparr>, trace, secret))"

end
