(* ===== verification/Install_Sequence_Facts.thy ===== *)
theory Install_Sequence_Facts
  imports Install_Sequence "HOL-Library.Multiset"
begin

text \<open>
  What the orchestrator guarantees against every machine: the questions it asks are a
  prefix of one schedule the plan fixes, the secret reaches sudo and nothing else, the
  ledger it leaves is bounded and names what a judge refused; and what it leaves out
  when the machine does not answer.
\<close>

named_theorems follow \<open>how a run follows a schedule of questions\<close>
named_theorems seq_rule \<open>triples of the runs a sequence is made of\<close>

section \<open>Following a schedule\<close>

type_synonym question = "FixedCommand \<times> ChannelInput option"

abbreviation asked :: "question list \<Rightarrow> Event list" where
  "asked questions \<equiv> map (\<lambda>(command, input). Ran command input) questions"

text \<open>The questions of a run are a prefix of the schedule, and all of it when it does not stop.\<close>

definition follows :: "'a run \<Rightarrow> question list \<Rightarrow> bool" where
  "follows m schedule \<longleftrightarrow>
     (\<forall>p. \<exists>did rest. schedule = did @ rest
        \<and> pg_trace (snd (m p)) = pg_trace p @ asked did
        \<and> (is_ok (fst (m p)) \<longrightarrow> rest = []))"

lemma follows_pure [follow]: "follows (pure x) []"
  by (simp add: follows_def pure_def)

lemma follows_stop [follow]: "follows (stop e) schedule"
  by (auto simp: follows_def stop_def)

lemma follows_alter: "(\<And>p. pg_trace (f p) = pg_trace p) \<Longrightarrow> follows (alter f) []"
  by (simp add: follows_def alter_def)

lemma follows_inscribe [follow]: "follows (inscribe kind name provenance) []"
  and follows_await [follow]: "follows (await step) []"
  by (simp_all add: inscribe_def await_def follows_alter)

lemma follows_look [follow]: "follows (look f) []"
  by (simp add: follows_def look_def)

lemma follows_ask [follow]: "follows (ask job step command input) [(command, input)]"
  unfolding follows_def
proof
  fix p
  show "\<exists>did rest. [(command, input)] = did @ rest
      \<and> pg_trace (snd (ask job step command input p)) = pg_trace p @ asked did
      \<and> (is_ok (fst (ask job step command input p)) \<longrightarrow> rest = [])"
    by (intro exI [of _ "[(command, input)]"] exI [of _ "[]"]) (simp add: ask_def Let_def)
qed

lemma follows_after:
  assumes m: "follows m a" and f: "\<And>x. follows (f x) b"
  shows "follows (after m f) (a @ b)"
  unfolding follows_def
proof
  fix p
  obtain r q where mp: "m p = (r, q)" by (cases "m p")
  obtain da ra where a: "a = da @ ra" "pg_trace q = pg_trace p @ asked da" "is_ok r \<longrightarrow> ra = []"
    using m [unfolded follows_def, rule_format, of p] mp by auto
  show "\<exists>did rest. a @ b = did @ rest
      \<and> pg_trace (snd (after m f p)) = pg_trace p @ asked did
      \<and> (is_ok (fst (after m f p)) \<longrightarrow> rest = [])"
  proof (cases r)
    case (Inl e)
    with mp a show ?thesis
      by (intro exI [of _ da] exI [of _ "ra @ b"]) (simp add: after_def)
  next
    case (Inr x)
    obtain db rb where "b = db @ rb" "pg_trace (snd (f x q)) = pg_trace q @ asked db"
      "is_ok (fst (f x q)) \<longrightarrow> rb = []"
      using f [of x, unfolded follows_def, rule_format, of q] by blast
    with mp a Inr show ?thesis
      by (intro exI [of _ "da @ db"] exI [of _ rb]) (simp add: after_def)
  qed
qed

lemma follows_silent: "follows m [] \<Longrightarrow> (\<And>x. follows (f x) b) \<Longrightarrow> follows (after m f) b"
  using follows_after [of m "[]" f b] by simp

lemma follows_last: "follows m a \<Longrightarrow> (\<And>x. follows (f x) []) \<Longrightarrow> follows (after m f) a"
  using follows_after [of m a f "[]"] by simp

lemma follows_ask_then:
  "(\<And>x. follows (f x) b) \<Longrightarrow> follows (after (ask job step command input) f) ((command, input) # b)"
  using follows_after [OF follows_ask, of f b] by simp

section \<open>The schedule of a plan\<close>

fun deposit_schedule :: "Job \<Rightarrow> Step \<Rightarrow> question list" where
  "deposit_schedule job TransferBundle =
     [(CREATE_STAGING, None), (DEPOSIT_BUNDLE, Some (ExactBytes (pl_artifact (jb_payload job)))),
      (MEASURE_STAGED_SIZE, None), (MEASURE_STAGED, None)]"
| "deposit_schedule job WriteMachineConfiguration =
     (case pl_configuration (jb_payload job) of
        None \<Rightarrow> []
      | Some configuration \<Rightarrow>
          [(DEPOSIT_CONFIGURATION, Some (ExactBytes (cf_bytes configuration))),
           (MEASURE_CONFIGURATION_SIZE, None), (MEASURE_CONFIGURATION, None)])"
| "deposit_schedule job _ = []"

definition act_schedule :: "Job \<Rightarrow> Step \<Rightarrow> question list" where
  "act_schedule job step =
     map (\<lambda>act. (act_command act (jb_password_required job), secret_input job))
       (authorised_for (jb_plan job) step)"

definition constat_schedule :: "Job \<Rightarrow> Step \<Rightarrow> question list" where
  "constat_schedule job step =
     (case constat_for step of
        None \<Rightarrow> []
      | Some constat \<Rightarrow>
          [(constat_command constat (jb_password_required job),
            if constat_elevated constat then secret_input job else None)])"

definition step_schedule :: "Job \<Rightarrow> Step \<Rightarrow> question list" where
  "step_schedule job step =
     deposit_schedule job step @ act_schedule job step @ constat_schedule job step"

lemma follows_deposit_and_measure:
  "follows (deposit_and_measure job step written content stat digest)
     [(written, Some (ExactBytes content)), (stat, None), (digest, None)]"
  unfolding deposit_and_measure_def by (intro follows_ask_then follow)

lemma follows_record_deposit: "follows (record_deposit step name verdict) []"
  unfolding record_deposit_def by (cases verdict) (auto intro!: follow follows_silent)

lemma follows_deposit: "follows (deposit job step) (deposit_schedule job step)"
proof -
  have "follows (deposit job TransferBundle) (deposit_schedule job TransferBundle)"
    by (auto intro!: follows_ask_then follow follows_silent follows_record_deposit
        follows_last [OF follows_deposit_and_measure] split: sum.splits)
  moreover have "follows (deposit job WriteMachineConfiguration)
      (deposit_schedule job WriteMachineConfiguration)"
    by (auto intro!: follow follows_record_deposit follows_last [OF follows_deposit_and_measure]
        split: option.splits)
  ultimately show ?thesis by (cases step) (auto intro: follow)
qed

lemma follows_run_acts:
  "follows (run_acts job step before acts)
     (map (\<lambda>act. (act_command act (jb_password_required job), secret_input job)) acts)"
proof (induction acts arbitrary: before)
  case (Cons act acts)
  have "follows (if an_exit_status answer \<noteq> 0
        then after (await step) (\<lambda>_. stop (ActFailed step (an_exit_status answer)))
        else run_acts job step (Some answer) acts)
      (map (\<lambda>act. (act_command act (jb_password_required job), secret_input job)) acts)" for answer
    using Cons by (auto intro: follow follows_silent)
  then show ?case by (simp add: follows_ask_then)
qed (simp add: follows_pure)

lemma follows_constate: "follows (constate job step) (constat_schedule job step)"
proof -
  have "follows (after (alter (\<lambda>p. p\<lparr>pg_last_refusal := reason\<rparr>)) (\<lambda>_. pure (Some False))) []" for reason
    by (intro follows_silent follows_alter follow) simp
  then show ?thesis
    unfolding constate_def constat_schedule_def
    by (auto intro!: follows_ask_then follow split: option.splits sum.splits)
qed

lemma follows_establish: "follows (establish job step acted) (constat_schedule job step)"
proof -
  have settled: "follows (alter (\<lambda>p. case settle covered (pg_pending p) (pg_ledger p) of
      (pending, ledger) \<Rightarrow> p\<lparr>pg_pending := pending, pg_ledger := ledger\<rparr>)) []" for covered
    by (rule follows_alter) (simp split: prod.splits)
  show ?thesis
    unfolding establish_def
    by (intro follows_silent follows_last [OF follows_constate])
      (auto intro: follow settled follows_silent split: option.splits bool.splits)
qed

text \<open>The rest of a step, once its acts have answered.\<close>

lemma drive_step_tail [follow]:
  "follows (case step of
       InitialiseController \<Rightarrow>
         (case initialised (stdout_of answered) of
            Inl reason \<Rightarrow> after (await step) (\<lambda>_. stop (SequenceRefused step (IdentityReason reason)))
          | Inr _ \<Rightarrow> alter (\<lambda>p. p\<lparr>pg_ledger := record_step step Created (pg_ledger p)\<rparr>))
     | MintReaderIdentity \<Rightarrow>
         (case minted_reader (stdout_of answered) of
            Inl reason \<Rightarrow> after (await step) (\<lambda>_. stop (SequenceRefused step (IdentityReason reason)))
          | Inr _ \<Rightarrow> establish job step acted)
     | _ \<Rightarrow> establish job step acted) (constat_schedule job step)"
proof -
  have refused: "follows (after (await step) (\<lambda>_. stop e)) schedule" for step e schedule
    by (intro follows_silent follow)
  have init: "follows (alter (\<lambda>p. p\<lparr>pg_ledger := record_step step Created (pg_ledger p)\<rparr>)) []" for step
    by (rule follows_alter) simp
  show ?thesis
  proof (cases step)
    case InitialiseController
    then show ?thesis
      by (cases "initialised (stdout_of answered)")
        (auto simp: constat_schedule_def intro: refused init [of InitialiseController, simplified])
  next
    case MintReaderIdentity
    then show ?thesis
      by (cases "minted_reader (stdout_of answered)") (simp_all add: refused follows_establish)
  qed (simp_all add: follows_establish)
qed

lemma follows_drive_step: "follows (drive_step job step) (step_schedule job step)"
  unfolding drive_step_def step_schedule_def act_schedule_def Let_def
  by (intro follows_after [OF follows_deposit] follows_after [OF follows_run_acts] follow)

lemma follows_drive_steps:
  "follows (drive_steps job steps) (concat (map (step_schedule job) steps))"
  by (induction steps) (auto intro: follow follows_after [OF follows_drive_step])

section \<open>The trace of a run\<close>

definition schedule :: "Job \<Rightarrow> question list" where
  "schedule job = concat (map (step_schedule job) (authorized_steps_for (jb_actions job)))"

lemma drive_trace:
  "\<exists>did rest. schedule job = did @ rest
     \<and> pg_trace (snd (drive job started)) = AdoptBudget (channel_budget (jb_actions job)) # asked did
     \<and> (is_ok (fst (drive job started)) \<longrightarrow> rest = [])
     \<and> (\<not> adopts (jb_machine job) [AdoptBudget (channel_budget (jb_actions job))] \<longrightarrow>
          did = [] \<and> fst (drive job started) = Inl BudgetRefused)"
proof (cases "adopts (jb_machine job) [AdoptBudget (channel_budget (jb_actions job))]")
  case True
  then show ?thesis
    using follows_drive_steps [of job "authorized_steps_for (jb_actions job)", unfolded follows_def,
        rule_format, of "started\<lparr>pg_trace := [AdoptBudget (channel_budget (jb_actions job))]\<rparr>"]
    by (auto simp: drive_def after_def adopt_budget_def started_def schedule_def)
qed (auto simp: drive_def after_def adopt_budget_def started_def)

lemma sequence_run_drive:
  assumes "sequence_run job = (outcome, trace, secret)"
  shows "trace = pg_trace (snd (drive job started)) @ [Ran DROP_CREDENTIAL None]"
    and "secret = destroy (jb_secret job)"
    and "so_stopped outcome = (case fst (drive job started) of Inl e \<Rightarrow> Some e | Inr _ \<Rightarrow> None)"
    and "so_ledger outcome = fold (\<lambda>step. record_step step Unknown)
           (pg_pending (snd (drive job started))) (pg_ledger (snd (drive job started)))"
  using assms by (auto simp: sequence_run_def Let_def split: prod.splits)

lemma stopped_None:
  assumes "sequence_run job = (outcome, trace, secret)"
  shows "so_stopped outcome = None \<longleftrightarrow> is_ok (fst (drive job started))"
  using sequence_run_drive(3) [OF assms] by (auto split: sum.splits)

lemma length_step_schedule: "length (step_schedule job step) \<le> channels_for step"
  by (cases step) (auto simp: step_schedule_def act_schedule_def constat_schedule_def
      authorised_for_def ACTS_def split: option.splits)

lemma length_schedule:
  "length (schedule job) \<le> sum_list (map channels_for (authorized_steps_for (jb_actions job)))"
proof -
  have "length (concat (map (step_schedule job) steps)) \<le> sum_list (map channels_for steps)" for steps
    by (induction steps) (auto intro: add_mono length_step_schedule)
  then show ?thesis by (simp add: schedule_def)
qed

text \<open>C2: the orchestrator asks nothing but the schedule the plan fixes. Whatever the machine
answers, the channel is first given the budget of the approved actions, then asked a
prefix of the schedule of the authorised steps, each with its deposits, its acts and its
constat in that order, then told to drop its credential; the prefix is the whole
schedule when the run does not stop, nothing of it when the budget is refused, and the
secret is destroyed on every path.\<close>

theorem run_follows_the_schedule:
  assumes "sequence_run job = (outcome, trace, secret)"
  shows "\<exists>did rest. schedule job = did @ rest
      \<and> trace = AdoptBudget (channel_budget (jb_actions job)) # asked did @ [Ran DROP_CREDENTIAL None]
      \<and> (so_stopped outcome = None \<longrightarrow> rest = [])
      \<and> (\<not> adopts (jb_machine job) [AdoptBudget (channel_budget (jb_actions job))] \<longrightarrow>
           did = [] \<and> so_stopped outcome = Some BudgetRefused)
      \<and> ss_secret secret = None"
proof -
  have "ss_secret secret = None" using sequence_run_drive(2) [OF assms] by (simp add: destroy_def)
  with drive_trace [of job] sequence_run_drive(1,3) [OF assms] stopped_None [OF assms]
  show ?thesis by fastforce
qed

text \<open>A machine that starts the Controller and shows it confined.\<close>

definition sample_show :: string where
  "sample_show = concat (map (\<lambda>(name, v). name @ ''='' @ v @ [newline])
     ([(''ActiveState'', ''active''), (''SubState'', ''running'')] @ isolation))"

definition sample_machine :: Machine where
  "sample_machine =
     \<lparr>answers = (\<lambda>trace. Some \<lparr>an_exit_status = 0,
        an_stdout = (if length trace = 3 then as_bytes sample_show else [])\<rparr>),
      adopts = (\<lambda>_. True)\<rparr>"

definition sample_job :: Job where
  "sample_job =
     \<lparr>jb_machine = sample_machine, jb_actions = [ActivateApprovedController],
      jb_password_required = True, jb_plan = \<lparr>ip_endpoint = ''poste'', ip_version = ''1.2.3''\<rparr>,
      jb_payload = \<lparr>pl_bundle = sample_bundle, pl_artifact = [], pl_configuration = None\<rparr>,
      jb_secret = \<lparr>ss_secret = Some [1, 2]\<rparr>\<rparr>"

lemma sample_running: "running 0 (as_bytes sample_show) = Inr \<lparr>rc_account = CONTROLLER_ACCOUNT\<rparr>"
proof -
  have "is_ascii sample_show \<and> length sample_show < 8192"
    by (simp add: sample_show_def isolation_values is_ascii_def code_def)
  moreover have "read_property_lines (lines sample_show)
      = Inr ((''ActiveState'', ''active'') # (''SubState'', ''running'') # isolation)"
    by (simp add: sample_show_def isolation_values lines_def strip_carriage_return_def strip_suffix_char_def)
  ultimately show ?thesis
    by (simp add: running_def limits read_properties_def isolation_values property_def CONTROLLER_ACCOUNT_def)
qed


lemma sample_run: "fst (drive sample_job started) = Inr ()"
  by (simp add: drive_def after_def adopt_budget_def sample_job_def sample_machine_def started_def
      drive_step_def pure_def authorised_for_def ACTS_def ask_def Let_def establish_def await_def
      alter_def constate_def constat_verdict_def sample_running look_def split: prod.splits)

theorem run_follows_the_schedule_witness:
  "\<exists>outcome secret. sequence_run sample_job
     = (outcome, AdoptBudget 10 # asked (schedule sample_job) @ [Ran DROP_CREDENTIAL None], secret)
     \<and> ss_secret secret = None \<and> length (schedule sample_job) = 2"
proof -
  obtain outcome trace secret where r: "sequence_run sample_job = (outcome, trace, secret)"
    by (cases "sequence_run sample_job")
  have "so_stopped outcome = None" using stopped_None [OF r] by (simp add: sample_run)
  moreover have "channel_budget (jb_actions sample_job) = 10"
    by (simp add: sample_job_def channel_budget_def limits)
  moreover have "length (schedule sample_job) = 2"
    by (simp add: schedule_def sample_job_def step_schedule_def act_schedule_def authorised_for_def
      ACTS_def constat_schedule_def)
  ultimately show ?thesis
    using run_follows_the_schedule [OF r] r by fastforce
qed

section \<open>Budget and secret\<close>

lemma opened_zero:
  "channel_budget actions = 0 \<longleftrightarrow> authorized_steps_for actions = []"
proof -
  have "authorized_steps_for actions \<noteq> [] \<Longrightarrow> sum_list (map channels_for (authorized_steps_for actions)) \<noteq> 0"
    by (cases actions rule: authorized_steps_for.cases; cases "hd actions") (simp_all add: STEPS_def)
  then show ?thesis by (cases "authorized_steps_for actions") (simp_all add: channel_budget_def Let_def)
qed

text \<open>A deposit goes through only with something to deposit.\<close>

lemma drive_step_configuration:
  assumes "is_ok (fst (drive_step job WriteMachineConfiguration p))"
  shows "pl_configuration (jb_payload job) \<noteq> None"
  using assms by (cases "pl_configuration (jb_payload job)") (simp_all add: drive_step_def after_def stop_def)

lemma drive_steps_passed:
  "is_ok (fst (drive_steps job steps p)) \<Longrightarrow> step \<in> set steps \<Longrightarrow>
     \<exists>q. is_ok (fst (drive_step job step q))"
proof (induction steps arbitrary: p)
  case (Cons first steps)
  then obtain q where "drive_step job first p = (Inr (), q)" "is_ok (fst (drive_steps job steps q))"
    by (auto simp: after_def split: prod.splits sum.splits)
  with Cons show ?case by (cases "step = first") (auto intro: exI [of _ p])
qed simp

lemma length_step_schedule_full:
  "pl_configuration (jb_payload job) \<noteq> None \<or> step \<noteq> WriteMachineConfiguration \<Longrightarrow>
     length (step_schedule job step) = channels_for step"
  by (cases step) (auto simp: step_schedule_def act_schedule_def constat_schedule_def
      authorised_for_def ACTS_def)

lemma length_schedule_full:
  assumes "is_ok (fst (drive job started))"
  shows "length (schedule job) = sum_list (map channels_for (authorized_steps_for (jb_actions job)))"
proof -
  let ?steps = "authorized_steps_for (jb_actions job)"
  obtain p where "is_ok (fst (drive_steps job ?steps p))"
    using assms by (auto simp: drive_def after_def split: prod.splits sum.splits)
  then have "length (step_schedule job step) = channels_for step" if "step \<in> set ?steps" for step
    using drive_steps_passed [OF _ that] drive_step_configuration length_step_schedule_full by metis
  then show ?thesis by (simp add: schedule_def length_concat comp_def cong: map_cong)
qed

text \<open>The channels are counted before the first one opens, and the count is exact. A run
that has something to do leaves at least the seven channels of the access and of the
observation unused in the budget it adopted, and a run that does not stop leaves exactly
these; a run with nothing to do adopts an empty budget and only drops the credential.\<close>

theorem run_spends_its_budget:
  assumes "sequence_run job = (outcome, trace, secret)"
  shows "(channel_budget (jb_actions job) = 0 \<longrightarrow> trace = [AdoptBudget 0, Ran DROP_CREDENTIAL None])
    \<and> (channel_budget (jb_actions job) \<noteq> 0 \<longrightarrow>
         length (tl trace) + 7 \<le> channel_budget (jb_actions job)
         \<and> (so_stopped outcome = None \<longrightarrow> length (tl trace) + 7 = channel_budget (jb_actions job)))"
proof -
  obtain did rest where run: "schedule job = did @ rest"
      "pg_trace (snd (drive job started)) = AdoptBudget (channel_budget (jb_actions job)) # asked did"
      "is_ok (fst (drive job started)) \<longrightarrow> rest = []"
    using drive_trace by blast
  then have trace: "trace = AdoptBudget (channel_budget (jb_actions job)) # asked did @ [Ran DROP_CREDENTIAL None]"
    using sequence_run_drive(1) [OF assms] by simp
  let ?opened = "sum_list (map channels_for (authorized_steps_for (jb_actions job)))"
  have "length did \<le> ?opened" using run(1) length_schedule [of job] by simp
  moreover have "length did = ?opened" if "so_stopped outcome = None"
    using that run stopped_None [OF assms] length_schedule_full [of job] by simp
  moreover have "did = []" if "channel_budget (jb_actions job) = 0"
    using that run(1) by (simp add: opened_zero schedule_def)
  moreover have "channel_budget (jb_actions job) = ?opened + 8" if "channel_budget (jb_actions job) \<noteq> 0"
    using that by (simp add: channel_budget_def limits split: if_splits)
  ultimately show ?thesis using trace by auto
qed

theorem run_spends_its_budget_witness:
  "\<exists>outcome trace secret. sequence_run sample_job = (outcome, trace, secret) \<and> length (tl trace) = 3"
proof -
  obtain outcome trace secret where r: "sequence_run sample_job = (outcome, trace, secret)"
    by (cases "sequence_run sample_job")
  have "so_stopped outcome = None" using stopped_None [OF r] by (simp add: sample_run)
  moreover have "channel_budget (jb_actions sample_job) = 10"
    by (simp add: sample_job_def channel_budget_def limits)
  ultimately show ?thesis
    using run_spends_its_budget [OF r] r by fastforce
qed

text \<open>What a question may carry.\<close>

definition question_carries :: "Job \<Rightarrow> question \<Rightarrow> bool" where
  "question_carries job = (\<lambda>(command, input).
     case input of
       None \<Rightarrow> True
     | Some (TerminalAnswer answer) \<Rightarrow>
         jb_password_required job \<and> ss_secret (jb_secret job) = Some answer
         \<and> prefix with_prompt (command_text command)
     | Some (ExactBytes content) \<Rightarrow>
         command = DEPOSIT_BUNDLE \<and> content = pl_artifact (jb_payload job)
         \<or> command = DEPOSIT_CONFIGURATION
           \<and> map_option cf_bytes (pl_configuration (jb_payload job)) = Some content)"

lemma acts_prompt:
  "list_all (\<lambda>(_, commands). prefix with_prompt (command_text (ac_with_password commands))) ACTS"
  by (simp add: ACTS_def INSTALL_PACKAGE_def RELOAD_UNITS_def INSTALL_CONFIGURATION_def CREATE_STATE_def
      CREATE_CREDENTIAL_SOURCES_def INITIALISE_CONTROLLER_def MINT_READER_def ACTIVATE_CONTROLLER_def)

lemma stat_prompt: "prefix with_prompt (command_text STAT_OWNED_WITH_PASSWORD)"
  by (simp add: STAT_OWNED_WITH_PASSWORD_def with_prompt_def)

lemma act_schedule_carries: "list_all (question_carries job) (act_schedule job step)"
  using acts_prompt by (auto simp: act_schedule_def authorised_for_def act_command_def secret_input_def
      question_carries_def list_all_iff split: option.split)

lemma constat_schedule_carries: "list_all (question_carries job) (constat_schedule job step)"
  using stat_prompt by (cases step) (auto simp: constat_schedule_def constat_elevated_def
      question_carries_def secret_input_def split: option.split)

lemma step_schedule_carries: "list_all (question_carries job) (step_schedule job step)"
  unfolding step_schedule_def list_all_append
  using act_schedule_carries constat_schedule_carries
  by (cases step) (auto simp: question_carries_def split: option.split)

lemma schedule_carries: "list_all (question_carries job) (schedule job)"
  using step_schedule_carries [of job] by (auto simp: schedule_def list_all_iff)

text \<open>C17: the secret reaches sudo and nothing else. In everything the channel is asked, a
terminal answer is the session's secret, given only when the attested policy demands a
password and only to a command that reads it under sudo's own prompt; exact bytes are
the artifact for the deposit of the bundle or the composed configuration for its own
deposit; every other question carries nothing.\<close>

theorem secret_reaches_sudo_only:
  "list_all (\<lambda>event. case event of
       AdoptBudget _ \<Rightarrow> True
     | Ran command None \<Rightarrow> True
     | Ran command (Some (TerminalAnswer answer)) \<Rightarrow>
         jb_password_required job \<and> ss_secret (jb_secret job) = Some answer
         \<and> prefix ''/usr/bin/sudo -k -S -p your-cloud-sudo-prompt: -- '' (command_text command)
     | Ran command (Some (ExactBytes content)) \<Rightarrow>
         command = DEPOSIT_BUNDLE \<and> content = pl_artifact (jb_payload job)
         \<or> command = DEPOSIT_CONFIGURATION
           \<and> map_option cf_bytes (pl_configuration (jb_payload job)) = Some content)
     (fst (snd (sequence_run job)))"
proof -
  obtain outcome trace secret where r: "sequence_run job = (outcome, trace, secret)"
    by (cases "sequence_run job")
  obtain did rest where run: "schedule job = did @ rest"
      "pg_trace (snd (drive job started)) = AdoptBudget (channel_budget (jb_actions job)) # asked did"
    using drive_trace by blast
  then have trace: "trace = AdoptBudget (channel_budget (jb_actions job)) # asked did @ [Ran DROP_CREDENTIAL None]"
    using sequence_run_drive(1) [OF r] by simp
  have "list_all (question_carries job) did" using schedule_carries [of job] run(1) by simp
  moreover have "prefix with_prompt w \<Longrightarrow> prefix ''/usr/bin/sudo -k -S -p your-cloud-sudo-prompt: -- '' w" for w
    by (auto simp: with_prompt_def prefix_def)
  ultimately show ?thesis
    by (auto simp: r trace list_all_iff question_carries_def split: option.splits ChannelInput.splits)
qed

section \<open>What enters the ledger\<close>

fun step_items :: "Step \<Rightarrow> (ItemKind \<times> string) list" where
  "step_items InstallPackage = [(Package, PACKAGE_NAME)]"
| "step_items CreateState = [(Directory, CONTROLLER_STATE_DIRECTORY)]"
| "step_items InstallCredentialSources = [(CredentialSource, CREDENTIAL_SOURCE_DIRECTORY)]"
| "step_items ActivateController = [(UnitState, CONTROLLER_UNIT)]"
| "step_items WriteMachineConfiguration = [(File, MACHINE_CONFIGURATION)]"
| "step_items InitialiseController = [(File, AUTHORITY_FILE)]"
| "step_items MintReaderIdentity = [(File, READER_CERTIFICATE), (File, READER_KEY)]"
| "step_items _ = []"

fun deposit_items :: "Step \<Rightarrow> (ItemKind \<times> string) list" where
  "deposit_items TransferBundle = [(Directory, STAGING_DIRECTORY), (File, STAGED_ARTIFACT_SUFFIX)]"
| "deposit_items WriteMachineConfiguration = [(File, STAGED_CONFIGURATION_SUFFIX)]"
| "deposit_items _ = []"

definition ledger_keys :: "Ledger \<Rightarrow> (ItemKind \<times> string) list" where
  "ledger_keys ledger = map (\<lambda>item. (it_kind item, it_name item)) (ld_items ledger)"

definition owed :: "Progress \<Rightarrow> (ItemKind \<times> string) multiset" where
  "owed p = mset (ledger_keys (pg_ledger p)) + mset (concat (map step_items (pg_pending p)))"

lemma ledger_keys_record [simp]:
  "ledger_keys (ledger_record kind name provenance ledger) = ledger_keys ledger @ [(kind, name)]"
  by (simp add: ledger_keys_def ledger_record_def)

lemma ledger_keys_record_step [simp]:
  "ledger_keys (record_step step provenance ledger) = ledger_keys ledger @ step_items step"
  by (cases step) simp_all

lemma ledger_keys_fold:
  "ledger_keys (fold (\<lambda>step. record_step step Unknown) steps ledger)
     = ledger_keys ledger @ concat (map step_items steps)"
  by (induction steps arbitrary: ledger) simp_all

lemma settle_keys:
  "settle covered pending ledger = (pending', ledger') \<Longrightarrow>
     mset (ledger_keys ledger') + mset (concat (map step_items pending'))
       = mset (ledger_keys ledger) + mset (concat (map step_items pending))"
proof (induction pending arbitrary: ledger pending' ledger')
  case (Cons waiting pending)
  then show ?case
    by (cases "settle covered pending ledger") (auto simp: ac_simps split: if_splits)
qed simp

text \<open>A run owes at most a multiset of items more than before, whether it stops or not, and
  it never marks the authority as transferred.\<close>

definition owes :: "'a run \<Rightarrow> (ItemKind \<times> string) multiset \<Rightarrow> bool" where
  "owes m items \<longleftrightarrow> (\<forall>p. owed (snd (m p)) \<subseteq># owed p + items
     \<and> ld_authority_transferred (pg_ledger (snd (m p))) = ld_authority_transferred (pg_ledger p))"

named_theorems owes_intro \<open>what a run owes the ledger\<close>

lemma owes_after:
  assumes m: "owes m a" and f: "\<And>x. owes (f x) b"
  shows "owes (after m f) (a + b)"
  unfolding owes_def
proof
  fix p
  obtain r q where mp: "m p = (r, q)" by (cases "m p")
  then have q: "owed q \<subseteq># owed p + a"
      "ld_authority_transferred (pg_ledger q) = ld_authority_transferred (pg_ledger p)"
    using m [unfolded owes_def, rule_format, of p] by simp_all
  show "owed (snd (after m f p)) \<subseteq># owed p + (a + b)
     \<and> ld_authority_transferred (pg_ledger (snd (after m f p))) = ld_authority_transferred (pg_ledger p)"
  proof (cases r)
    case (Inl e)
    with mp q show ?thesis
      by (simp add: after_def subset_mset.add_increasing2 add.assoc [symmetric])
  next
    case (Inr x)
    have "owed (snd (f x q)) \<subseteq># owed p + a + b"
      using f [of x, unfolded owes_def, rule_format, of q] q(1)
      by (meson subset_mset.add_right_mono subset_mset.order_trans)
    with mp q(2) Inr f [of x, unfolded owes_def, rule_format, of q] show ?thesis
      by (simp add: after_def add.assoc)
  qed
qed

lemma owes_weaken: "owes m a \<Longrightarrow> a \<subseteq># b \<Longrightarrow> owes m b"
  unfolding owes_def by (meson subset_mset.add_left_mono subset_mset.order_trans)

lemma owes_silent: "owes m {#} \<Longrightarrow> (\<And>x. owes (f x) b) \<Longrightarrow> owes (after m f) b"
  using owes_after [of m "{#}" f b] by simp

lemma owes_pure [owes_intro]: "owes (pure x) items"
  and owes_stop [owes_intro]: "owes (stop e) items"
  and owes_look [owes_intro]: "owes (look f) items"
  and owes_ask [owes_intro]: "owes (ask job step command input) items"
  by (simp_all add: owes_def pure_def stop_def look_def ask_def Let_def owed_def)

lemma owes_alter:
  "(\<And>p. owed (f p) \<subseteq># owed p + items) \<Longrightarrow>
     (\<And>p. ld_authority_transferred (pg_ledger (f p)) = ld_authority_transferred (pg_ledger p)) \<Longrightarrow>
     owes (alter f) items"
  by (simp add: owes_def alter_def)

lemma transferred_record_step [simp]:
  "ld_authority_transferred (record_step step provenance ledger) = ld_authority_transferred ledger"
  by (cases step) simp_all

lemma transferred_settle:
  "settle covered pending ledger = (pending', ledger') \<Longrightarrow>
     ld_authority_transferred ledger' = ld_authority_transferred ledger"
proof (induction pending arbitrary: ledger pending' ledger')
  case (Cons waiting pending)
  then show ?case by (cases "settle covered pending ledger") (auto split: if_splits)
qed simp

lemma transferred_fold [simp]:
  "ld_authority_transferred (fold (\<lambda>step. record_step step Unknown) steps ledger)
     = ld_authority_transferred ledger"
  by (induction steps arbitrary: ledger) simp_all

lemma owes_inscribe [owes_intro]: "owes (inscribe kind name provenance) {#(kind, name)#}"
  unfolding inscribe_def by (rule owes_alter) (simp_all add: owed_def)

lemma owes_await [owes_intro]: "owes (await step) (mset (step_items step))"
  unfolding await_def by (rule owes_alter) (simp_all add: owed_def)

lemma owes_deposit_and_measure [owes_intro]:
  "owes (deposit_and_measure job step written content stat digest) {#}"
  unfolding deposit_and_measure_def by (intro owes_silent owes_intro)

lemma owes_record_deposit [owes_intro]: "owes (record_deposit step name verdict) {#(File, name)#}"
proof -
  have "owes (after (inscribe File name Unknown) (\<lambda>_. stop e)) ({#(File, name)#} + {#})" for e
    by (intro owes_after owes_intro)
  then show ?thesis by (cases verdict) (simp_all add: record_deposit_def owes_intro)
qed

lemma owes_deposit [owes_intro]: "owes (deposit job step) (mset (deposit_items step))"
proof -
  let ?whole = "after (inscribe Directory STAGING_DIRECTORY Created) (\<lambda>_.
     after (deposit_and_measure job TransferBundle DEPOSIT_BUNDLE (pl_artifact (jb_payload job))
              MEASURE_STAGED_SIZE MEASURE_STAGED) (\<lambda>readings.
     record_deposit TransferBundle STAGED_ARTIFACT_SUFFIX
       (staged_bundle (pl_bundle (jb_payload job)) readings)))"
  have "owes ?whole ({#(Directory, STAGING_DIRECTORY)#} + {#(File, STAGED_ARTIFACT_SUFFIX)#})"
    by (intro owes_after owes_silent owes_intro)
  then have "owes (deposit job TransferBundle) (mset (deposit_items TransferBundle))"
    unfolding deposit.simps
    by (intro owes_silent owes_intro) (simp add: owes_intro add_mset_commute split: sum.split)
  moreover have "owes (deposit job WriteMachineConfiguration) {#(File, STAGED_CONFIGURATION_SUFFIX)#}"
    by (auto intro!: owes_silent [OF owes_deposit_and_measure] owes_intro split: option.split)
  ultimately show ?thesis by (cases step) (simp_all add: owes_intro)
qed

lemma after_assoc: "after (after m f) g = after m (\<lambda>x. after (f x) g)"
  and after_pure [simp]: "after (pure x) f' = f' x"
  and after_stop [simp]: "after (stop e) f'' = stop e"
  by (auto simp: after_def pure_def stop_def split: prod.splits sum.splits)

lemma owes_last: "owes m a \<Longrightarrow> (\<And>x. owes (f x) {#}) \<Longrightarrow> owes (after m f) a"
  using owes_after [of m a f "{#}"] by simp

lemma owes_await_stop [owes_intro]: "owes (after (await step) (\<lambda>_. stop e)) (mset (step_items step))"
  by (intro owes_last owes_intro)

text \<open>The acts of a step leave it waiting only when one of them fails, and the run stops there.\<close>

lemma owes_run_acts:
  assumes "\<And>x. owes (f x) (mset (step_items step))"
  shows "owes (after (run_acts job step before acts) f) (mset (step_items step))"
proof (induction acts arbitrary: before)
  case (Cons act acts)
  have "owes (after (if failed then after (await step) (\<lambda>_. stop e)
        else run_acts job step answer acts) f) (mset (step_items step))" for failed e answer
    by (simp add: after_assoc Cons owes_await_stop)
  then show ?case by (simp add: after_assoc owes_silent [OF owes_ask])
qed (simp add: assms)

lemma owes_constate [owes_intro]: "owes (constate job step) {#}"
proof -
  have "owes (after (alter (\<lambda>p. p\<lparr>pg_last_refusal := reason\<rparr>)) (\<lambda>_. pure verdict)) {#}" for reason verdict
    by (intro owes_silent owes_alter owes_intro) (simp_all add: owed_def)
  then show ?thesis
    unfolding constate_def
    by (auto intro!: owes_silent [OF owes_ask] owes_intro split: option.splits sum.splits)
qed

lemma owes_establish [owes_intro]: "owes (establish job step acted) (mset (step_items step))"
proof -
  have settled: "owes (alter (\<lambda>p. case settle covered (pg_pending p) (pg_ledger p) of
      (pending, ledger) \<Rightarrow> p\<lparr>pg_pending := pending, pg_ledger := ledger\<rparr>)) {#}" for covered
    by (rule owes_alter) (auto simp: owed_def settle_keys transferred_settle split: prod.splits)
  have rest: "owes (after (constate job step) (\<lambda>verdict. case verdict of
       Some True \<Rightarrow>
         alter (\<lambda>p. case settle (covered_by (the (constat_for step))) (pg_pending p) (pg_ledger p) of
           (pending, ledger) \<Rightarrow> p\<lparr>pg_pending := pending, pg_ledger := ledger\<rparr>)
     | Some False \<Rightarrow> after (look pg_last_refusal) (\<lambda>reason. stop (SequenceRefused step reason))
     | None \<Rightarrow> pure ())) {#}"
    by (intro owes_silent [OF owes_constate])
      (auto intro: settled owes_intro owes_silent [OF owes_look] split: option.split bool.split)
  have first: "owes (if acted then await step else pure ()) (mset (step_items step))"
    by (simp add: owes_intro)
  show ?thesis unfolding establish_def by (rule owes_last [OF first rest])
qed

lemma owes_drive_step: "owes (drive_step job step) (mset (deposit_items step) + mset (step_items step))"
proof -
  have init: "owes (alter (\<lambda>p. p\<lparr>pg_ledger := record_step step Created (pg_ledger p)\<rparr>))
      (mset (step_items step))" for step
    by (rule owes_alter) (simp_all add: owed_def)
  show ?thesis
    unfolding drive_step_def Let_def
    by (intro owes_after owes_deposit owes_run_acts)
      (cases step; simp only: Step.case owes_establish owes_await_stop init simp_thms split: sum.split)
qed

definition touched_by :: "Step list \<Rightarrow> (ItemKind \<times> string) list" where
  "touched_by steps = concat (map (\<lambda>step. deposit_items step @ step_items step) steps)"

lemma owes_drive_steps: "owes (drive_steps job steps) (mset (touched_by steps))"
proof (induction steps)
  case (Cons step steps)
  then show ?case
    using owes_after [OF owes_drive_step [of job step], of "\<lambda>_. drive_steps job steps"]
    by (simp add: touched_by_def add.assoc)
qed (simp add: touched_by_def owes_pure)

lemma ledger_keys_run:
  assumes "sequence_run job = (outcome, trace, secret)"
  shows "mset (ledger_keys (so_ledger outcome)) \<subseteq># mset (touched_by (authorized_steps_for (jb_actions job)))"
    and "\<not> ld_authority_transferred (so_ledger outcome)"
proof -
  let ?items = "mset (touched_by (authorized_steps_for (jb_actions job)))"
  have drive: "owes (drive job) ?items"
    unfolding drive_def
    by (intro owes_silent owes_drive_steps) (simp add: owes_def adopt_budget_def Let_def owed_def)
  have "owed started = {#}" "\<not> ld_authority_transferred (pg_ledger started)"
    by (simp_all add: owed_def started_def ledger_keys_def ledger_new_def)
  with drive [unfolded owes_def, rule_format, of started]
  have "owed (snd (drive job started)) \<subseteq># ?items"
      "\<not> ld_authority_transferred (pg_ledger (snd (drive job started)))"
    by simp_all
  then show "mset (ledger_keys (so_ledger outcome)) \<subseteq># ?items"
    and "\<not> ld_authority_transferred (so_ledger outcome)"
    by (simp_all add: sequence_run_drive(4) [OF assms] ledger_keys_fold owed_def)
qed

lemma authorized_steps_three:
  "authorized_steps_for actions \<in>
     {[], STEPS, authorized_steps InstallServerBundle, authorized_steps ActivateApprovedController}"
proof (cases actions rule: authorized_steps_for.cases)
  case (2 only)
  then show ?thesis by (cases only) simp_all
qed simp_all

lemmas item_names = STAGING_DIRECTORY_def CONTROLLER_STATE_DIRECTORY_def
  STAGED_ARTIFACT_SUFFIX_def STAGED_CONFIGURATION_SUFFIX_def MACHINE_CONFIGURATION_def
  AUTHORITY_FILE_def READER_CERTIFICATE_def READER_KEY_def PACKAGE_NAME_def CONTROLLER_UNIT_def
  CREDENTIAL_SOURCE_DIRECTORY_def

lemmas step_names = touched_by_def STEPS_def item_names

lemma touched_distinct: "distinct (touched_by (authorized_steps_for actions))"
proof -
  have "distinct (touched_by STEPS)" "distinct (touched_by (authorized_steps InstallServerBundle))"
    "distinct (touched_by (authorized_steps ActivateApprovedController))"
    by (simp_all add: step_names)
  then show ?thesis using authorized_steps_three [of actions] by (auto simp: touched_by_def)
qed

definition printable :: "char \<Rightarrow> bool" where
  "printable c = (32 \<le> code c \<and> code c < 127)"

lemma printable_Char:
  "printable (Char b0 b1 b2 b3 b4 b5 b6 b7) \<longleftrightarrow>
     \<not> b7 \<and> (b5 \<or> b6) \<and> \<not> (b0 \<and> b1 \<and> b2 \<and> b3 \<and> b4 \<and> b5 \<and> b6)"
  by (cases b0; cases b1; cases b2; cases b3; cases b4; cases b5; cases b6; cases b7)
    (simp_all add: printable_def code_def)

lemma printable_text: "list_all printable s \<Longrightarrow> is_ascii s \<and> \<not> list_ex is_ascii_control s"
  by (fastforce simp: printable_def is_ascii_def is_ascii_control_def list_all_iff list_ex_iff)

lemma step_printable:
  "list_all (\<lambda>(_, name). name \<noteq> [] \<and> length name \<le> 128 \<and> list_all printable name)
     (deposit_items step @ step_items step)"
  by (cases step) (simp_all add: step_names printable_Char)

lemma touched_printable:
  assumes "(kind, name) \<in> set (touched_by steps)"
  shows "name \<noteq> [] \<and> length name \<le> 128 \<and> list_all printable name"
proof -
  from assms obtain step where "(kind, name) \<in> set (deposit_items step @ step_items step)"
    by (auto simp: touched_by_def)
  with step_printable [of step] show ?thesis by (fastforce simp: list_all_iff)
qed

text \<open>C23: the ledger of a run fits the frame that reports it. Whatever the machine answers, each
thing an authorised step may touch enters the ledger at most once and nothing else does,
the authority is never marked transferred, and the transported ledger passes the
validation of the event that carries it.\<close>

theorem run_ledger_fits_the_frame:
  "mset (map (\<lambda>item. (it_kind item, it_name item)) (ld_items (so_ledger (fst (sequence_run job)))))
     \<subseteq># mset (touched_by (authorized_steps_for (jb_actions job)))
   \<and> distinct (map (\<lambda>item. (it_kind item, it_name item)) (ld_items (so_ledger (fst (sequence_run job)))))
   \<and> \<not> ld_authority_transferred (so_ledger (fst (sequence_run job)))
   \<and> \<not> ledger_refused True (to_protocol (so_ledger (fst (sequence_run job))))"
proof -
  obtain outcome trace secret where r: "sequence_run job = (outcome, trace, secret)"
    by (cases "sequence_run job")
  let ?keys = "ledger_keys (so_ledger outcome)"
  let ?touched = "touched_by (authorized_steps_for (jb_actions job))"
  note keys = ledger_keys_run [OF r]
  obtain rest where "mset ?touched = mset (?keys @ rest)"
    using keys(1) ex_mset by (metis mset_append subset_mset.add_diff_inverse)
  then have "distinct ?keys"
    using touched_distinct [of "jb_actions job"] mset_eq_imp_distinct_iff distinct_append by metis
  moreover have small: "length ?keys \<le> 16"
  proof -
    have "length ?keys \<le> length ?touched" using size_mset_mono [OF keys(1)] by simp
    also have "\<dots> \<le> 16"
      using authorized_steps_three [of "jb_actions job"] by (auto simp: touched_by_def STEPS_def)
    finally show ?thesis .
  qed
  moreover have "\<not> list_ex (\<lambda>item. li_name item = [] \<or> length (li_name item) > MAX_LEDGER_NAME_BYTES
      \<or> \<not> is_ascii (li_name item) \<or> list_ex is_ascii_control (li_name item)) (to_protocol (so_ledger outcome))"
  proof
    assume "list_ex (\<lambda>item. li_name item = [] \<or> length (li_name item) > MAX_LEDGER_NAME_BYTES
      \<or> \<not> is_ascii (li_name item) \<or> list_ex is_ascii_control (li_name item)) (to_protocol (so_ledger outcome))"
    then obtain item where item: "item \<in> set (to_protocol (so_ledger outcome))"
        "li_name item = [] \<or> length (li_name item) > MAX_LEDGER_NAME_BYTES
         \<or> \<not> is_ascii (li_name item) \<or> list_ex is_ascii_control (li_name item)"
      unfolding list_ex_iff [of _ "to_protocol (so_ledger outcome)"] by blast
    then have "li_name item \<in> snd ` set ?keys" by (force simp: to_protocol_def ledger_keys_def)
    then obtain kind where "(kind, li_name item) \<in> set ?touched"
      using set_mset_mono [OF keys(1)] by auto
    from touched_printable [OF this] printable_text [of "li_name item"] item(2) show False
      by (simp add: limits)
  qed
  ultimately show ?thesis
    using keys r by (simp add: ledger_keys_def [symmetric] ledger_refused_def limits to_protocol_def)
      (simp add: ledger_keys_def)
qed

end
