(* ===== verification/Install_Outcome.thy ===== *)
theory Install_Outcome
  imports Install_Sequence_Facts
begin

text \<open>
  What a run of the orchestrator leaves: the complete ledger when it does not stop, the
  name of what a judge refused when it does, and what the ledger says of an act whose
  answer never came.
\<close>

section \<open>A run that does not stop\<close>

type_synonym books = "Step list \<times> Ledger"

definition books :: "Progress \<Rightarrow> books" where
  "books p = (pg_pending p, pg_ledger p)"

definition deposited_items :: "Step \<Rightarrow> books \<Rightarrow> books" where
  "deposited_items step = apsnd (fold (\<lambda>(kind, name). ledger_record kind name Created) (deposit_items step))"

definition awaited :: "Step \<Rightarrow> books \<Rightarrow> books" where
  "awaited step = apfst (\<lambda>pending. pending @ [step])"

text \<open>The specification of a step that passes, over the books alone.\<close>

definition passed :: "Step \<Rightarrow> books \<Rightarrow> books" where
  "passed step b =
     (let deposits = deposited_items step b;
          waiting = (if step \<in> fst ` set ACTS then awaited step deposits else deposits)
      in if step = InitialiseController then apsnd (record_step step Created) deposits
         else (case constat_for step of
             None \<Rightarrow> waiting
           | Some constat \<Rightarrow> settle (covered_by constat) (fst waiting) (snd waiting)))"

definition gives :: "'a run \<Rightarrow> (books \<Rightarrow> books) \<Rightarrow> bool" where
  "gives m g \<longleftrightarrow> (\<forall>p x q. m p = (Inr x, q) \<longrightarrow> books q = g (books p))"

named_theorems gives_intro \<open>what a run that passes does to the books\<close>

lemma gives_after: "gives m g \<Longrightarrow> (\<And>x. gives (f x) h) \<Longrightarrow> gives (after m f) (\<lambda>b. h (g b))"
  by (fastforce simp: gives_def after_def split: prod.splits sum.splits)

lemma gives_silent: "gives m (\<lambda>b. b) \<Longrightarrow> (\<And>x. gives (f x) h) \<Longrightarrow> gives (after m f) h"
  using gives_after [of m "\<lambda>b. b" f h] by simp

lemma gives_stop [gives_intro]: "gives (stop e) g"
  by (simp add: gives_def stop_def)

lemma gives_after_stop [gives_intro]: "gives (after m (\<lambda>_. stop e)) g"
  by (auto simp: gives_def after_def stop_def split: prod.splits sum.splits)

lemma gives_pure [gives_intro]: "gives (pure x) (\<lambda>b. b)"
  and gives_look [gives_intro]: "gives (look f) (\<lambda>b. b)"
  and gives_ask [gives_intro]: "gives (ask job step command input) (\<lambda>b. b)"
  and gives_await [gives_intro]: "gives (await step) (awaited step)"
  and gives_inscribe [gives_intro]: "gives (inscribe kind name provenance) (apsnd (ledger_record kind name provenance))"
  by (auto simp: gives_def pure_def look_def ask_def Let_def await_def alter_def awaited_def inscribe_def books_def)

lemma gives_deposit_and_measure [gives_intro]:
  "gives (deposit_and_measure job step written content stat digest) (\<lambda>b. b)"
  unfolding deposit_and_measure_def by (intro gives_silent gives_intro)

lemma gives_record_deposit [gives_intro]:
  "gives (record_deposit step name verdict) (apsnd (ledger_record File name Created))"
  by (cases verdict) (simp_all add: record_deposit_def gives_intro)

lemma gives_deposit: "gives (deposit job step) (deposited_items step)"
proof -
  let ?whole = "after (inscribe Directory STAGING_DIRECTORY Created) (\<lambda>_.
     after (deposit_and_measure job TransferBundle DEPOSIT_BUNDLE (pl_artifact (jb_payload job))
              MEASURE_STAGED_SIZE MEASURE_STAGED) (\<lambda>readings.
     record_deposit TransferBundle STAGED_ARTIFACT_SUFFIX
       (staged_bundle (pl_bundle (jb_payload job)) readings)))"
  have "gives ?whole (\<lambda>b. apsnd (ledger_record File STAGED_ARTIFACT_SUFFIX Created)
      (apsnd (ledger_record Directory STAGING_DIRECTORY Created) b))"
    by (intro gives_after [OF gives_inscribe] gives_silent gives_intro)
  moreover have "(\<lambda>b. apsnd (ledger_record File STAGED_ARTIFACT_SUFFIX Created)
      (apsnd (ledger_record Directory STAGING_DIRECTORY Created) b)) = deposited_items TransferBundle"
    by (auto simp: deposited_items_def)
  ultimately have transfer: "gives (deposit job TransferBundle) (deposited_items TransferBundle)"
    unfolding deposit.simps
    by (intro gives_silent [OF gives_ask]) (simp add: gives_intro split: sum.split)
  have configuration: "gives (deposit job WriteMachineConfiguration) (deposited_items WriteMachineConfiguration)"
    by (auto simp: deposited_items_def intro!: gives_silent [OF gives_deposit_and_measure] gives_intro
        split: option.split)
  show ?thesis
  proof (cases step)
    case TransferBundle then show ?thesis by (simp only: transfer)
  next
    case WriteMachineConfiguration then show ?thesis by (simp only: configuration)
  qed (simp_all add: deposited_items_def gives_def pure_def)
qed

lemma gives_run_acts [gives_intro]: "gives (run_acts job step before acts) (\<lambda>b. b)"
proof (induction acts arbitrary: before)
  case (Cons act acts)
  have "gives (if failed then after (await step) (\<lambda>_. stop e) else run_acts job step answer acts) (\<lambda>b. b)"
    for failed e answer by (simp add: Cons gives_after_stop)
  then show ?case by (simp add: gives_silent [OF gives_ask])
qed (simp add: gives_pure)

text \<open>A constat that passes is the constat of its step.\<close>

lemma constate_passes:
  assumes "constate job step p = (Inr verdict, q)"
  shows "books q = books p" and "verdict = None \<longleftrightarrow> constat_for step = None"
  using assms by (auto simp: constate_def after_def ask_def Let_def alter_def pure_def books_def
      split: option.splits sum.splits prod.splits)
lemma gives_establish:
  "gives (establish job step acted)
     (\<lambda>b. let waiting = (if acted then awaited step b else b)
       in case constat_for step of
            None \<Rightarrow> waiting
          | Some constat \<Rightarrow> settle (covered_by constat) (fst waiting) (snd waiting))"
  unfolding gives_def
proof (intro allI impI)
  fix p x q
  assume passes: "establish job step acted p = (Inr x, q)"
  let ?p = "if acted then p\<lparr>pg_pending := pg_pending p @ [step]\<rparr> else p"
  have waiting: "books ?p = (if acted then awaited step (books p) else books p)"
    by (simp add: books_def awaited_def)
  have first: "(if acted then await step else pure ()) p = (Inr (), ?p)"
    by (simp add: await_def alter_def pure_def)
  obtain verdict r where constated: "constate job step ?p = (Inr verdict, r)"
    and rest: "(case verdict of
       Some True \<Rightarrow>
         alter (\<lambda>p. case settle (covered_by (the (constat_for step))) (pg_pending p) (pg_ledger p) of
           (pending, ledger) \<Rightarrow> p\<lparr>pg_pending := pending, pg_ledger := ledger\<rparr>)
     | Some False \<Rightarrow> after (look pg_last_refusal) (\<lambda>reason. stop (SequenceRefused step reason))
     | None \<Rightarrow> pure ()) r = (Inr x, q)"
    using passes first by (auto simp: establish_def after_def split: prod.splits sum.splits)
  have verdict: "verdict \<noteq> Some False"
    using rest by (auto simp: after_def look_def stop_def)
  show "books q = (let waiting = (if acted then awaited step (books p) else books p)
       in case constat_for step of
            None \<Rightarrow> waiting
          | Some constat \<Rightarrow> settle (covered_by constat) (fst waiting) (snd waiting))"
    using constate_passes [OF constated] rest verdict unfolding waiting [symmetric]
    by (auto simp: books_def pure_def alter_def Let_def split: option.splits prod.splits)
qed

lemma acts_of_step: "authorised_for plan step \<noteq> [] \<longleftrightarrow> step \<in> fst ` set ACTS"
  by (force simp: authorised_for_def filter_empty_conv)

lemma gives_drive_step: "gives (drive_step job step) (passed step)"
proof -
  let ?acted = "authorised_for (jb_plan job) step \<noteq> []"
  let ?waited = "\<lambda>b. let waiting = (if ?acted then awaited step b else b)
       in case constat_for step of
            None \<Rightarrow> waiting
          | Some constat \<Rightarrow> settle (covered_by constat) (fst waiting) (snd waiting)"
  let ?rest = "\<lambda>b. if step = InitialiseController then apsnd (record_step step Created) b else ?waited b"
  have init: "gives (alter (\<lambda>p. p\<lparr>pg_ledger := record_step step Created (pg_ledger p)\<rparr>))
      (apsnd (record_step step Created))" for step
    by (simp add: gives_def alter_def books_def)
  have tail: "gives (case step of
       InitialiseController \<Rightarrow>
         (case initialised (stdout_of answered) of
            Inl reason \<Rightarrow> after (await step) (\<lambda>_. stop (SequenceRefused step (IdentityReason reason)))
          | Inr _ \<Rightarrow> alter (\<lambda>p. p\<lparr>pg_ledger := record_step step Created (pg_ledger p)\<rparr>))
     | MintReaderIdentity \<Rightarrow>
         (case minted_reader (stdout_of answered) of
            Inl reason \<Rightarrow> after (await step) (\<lambda>_. stop (SequenceRefused step (IdentityReason reason)))
          | Inr _ \<Rightarrow> establish job step ?acted)
     | _ \<Rightarrow> establish job step ?acted) ?rest" for answered
    using gives_establish [of job step ?acted] init [of step]
    by (cases step) (auto simp: gives_after_stop split: sum.split)
  have "gives (drive_step job step) (\<lambda>b. ?rest (deposited_items step b))"
    unfolding drive_step_def Let_def
    by (intro gives_after [OF gives_deposit] gives_silent [OF gives_run_acts] tail [unfolded Let_def])
  moreover have "(\<lambda>b. ?rest (deposited_items step b)) = passed step"
    by (auto simp: passed_def Let_def acts_of_step fun_eq_iff)
  ultimately show ?thesis by simp
qed

lemma gives_drive_steps: "gives (drive_steps job steps) (fold passed steps)"
proof (induction steps)
  case (Cons step steps)
  then show ?case
    using gives_after [OF gives_drive_step, of "\<lambda>_. drive_steps job steps"] by (simp add: comp_def)
qed (simp add: gives_pure id_def)

section \<open>The complete ledger\<close>

lemma passed_books:
  assumes "sequence_run job = (outcome, trace, secret)" "so_stopped outcome = None"
  shows "\<exists>pending ledger. fold passed (authorized_steps_for (jb_actions job)) ([], ledger_new) = (pending, ledger)
     \<and> so_ledger outcome = fold (\<lambda>step. record_step step Unknown) pending ledger"
proof -
  have "gives (drive job) (fold passed (authorized_steps_for (jb_actions job)))"
    unfolding drive_def
    by (intro gives_silent gives_drive_steps) (auto simp: gives_def adopt_budget_def Let_def books_def)
  moreover have "books started = ([], ledger_new)" by (simp add: books_def started_def)
  moreover obtain u p where "drive job started = (Inr u, p)"
    using assms stopped_None [OF assms(1)] by (cases "drive job started"; cases "fst (drive job started)") auto
  ultimately have "books p = fold passed (authorized_steps_for (jb_actions job)) ([], ledger_new)"
    by (simp add: gives_def)
  then show ?thesis
    using sequence_run_drive(4) [OF assms(1)] \<open>drive job started = (Inr u, p)\<close>
    by (intro exI [of _ "pg_pending p"] exI [of _ "pg_ledger p"]) (simp add: books_def)
qed

definition complete_items :: "Step list \<Rightarrow> (ItemKind \<times> string) list" where
  "complete_items steps = map (\<lambda>item. (it_kind item, it_name item))
     (ld_items (snd (fold passed steps ([], ledger_new))))"

lemmas passing = passed_def deposited_items_def awaited_def ledger_record_def ledger_new_def Let_def
  ACTS_def

lemma fold_passed_install:
  "fold passed (authorized_steps InstallServerBundle) ([], ledger_new) =
     ([], \<lparr>ld_items = map (\<lambda>(kind, name). \<lparr>it_kind = kind, it_name = name, it_provenance = Created\<rparr>)
        [(Directory, STAGING_DIRECTORY), (File, STAGED_ARTIFACT_SUFFIX), (Package, PACKAGE_NAME),
         (File, STAGED_CONFIGURATION_SUFFIX), (File, AUTHORITY_FILE), (File, MACHINE_CONFIGURATION),
         (Directory, CONTROLLER_STATE_DIRECTORY), (CredentialSource, CREDENTIAL_SOURCE_DIRECTORY),
         (File, READER_CERTIFICATE), (File, READER_KEY)],
       ld_authority_transferred = False\<rparr>)"
  by (simp add: passing)

lemma fold_passed_activate:
  "fold passed (authorized_steps ActivateApprovedController) ([], ledger) =
     ([], ledger_record UnitState CONTROLLER_UNIT Created ledger)"
  by (simp add: passing)

lemma fold_passed_all:
  "fold passed STEPS ([], ledger_new) =
     ([], ledger_record UnitState CONTROLLER_UNIT Created
        (snd (fold passed (authorized_steps InstallServerBundle) ([], ledger_new))))"
proof -
  have steps: "STEPS = authorized_steps InstallServerBundle @ authorized_steps ActivateApprovedController"
    by (simp add: STEPS_def)
  show ?thesis
    unfolding steps fold_append comp_apply fold_passed_install fold_passed_activate by simp
qed

lemma touched_install:
  "touched_by (authorized_steps InstallServerBundle) =
     [(Directory, STAGING_DIRECTORY), (File, STAGED_ARTIFACT_SUFFIX), (Package, PACKAGE_NAME),
      (File, STAGED_CONFIGURATION_SUFFIX), (File, MACHINE_CONFIGURATION),
      (Directory, CONTROLLER_STATE_DIRECTORY), (CredentialSource, CREDENTIAL_SOURCE_DIRECTORY),
      (File, AUTHORITY_FILE), (File, READER_CERTIFICATE), (File, READER_KEY)]"
  and touched_activate:
  "touched_by (authorized_steps ActivateApprovedController) = [(UnitState, CONTROLLER_UNIT)]"
  and touched_all:
  "touched_by STEPS = touched_by (authorized_steps InstallServerBundle) @ [(UnitState, CONTROLLER_UNIT)]"
  and touched_none: "touched_by [] = []"
  by (simp_all add: touched_by_def STEPS_def)

lemma fold_passed_books:
  assumes "steps = authorized_steps_for actions"
  shows "fst (fold passed steps ([], ledger_new)) = []"
    and "list_all (\<lambda>item. it_provenance item = Created) (ld_items (snd (fold passed steps ([], ledger_new))))"
    and "mset (map (\<lambda>item. (it_kind item, it_name item)) (ld_items (snd (fold passed steps ([], ledger_new)))))
       = mset (touched_by steps)"
    and "\<not> ld_authority_transferred (snd (fold passed steps ([], ledger_new)))"
proof -
  have [simp]: "ld_items ledger_new = []" "\<not> ld_authority_transferred ledger_new"
    by (simp_all add: ledger_new_def)
  note unfolds = fold_passed_all fold_passed_install fold_passed_activate ledger_record_def
    touched_install touched_activate touched_all touched_none
  have steps: "steps = [] \<or> steps = STEPS \<or> steps = authorized_steps InstallServerBundle
      \<or> steps = authorized_steps ActivateApprovedController"
    using assms authorized_steps_three [of actions] by blast
  show "fst (fold passed steps ([], ledger_new)) = []"
    using steps by (elim disjE) (simp_all add: unfolds del: authorized_steps.simps)
  show "list_all (\<lambda>item. it_provenance item = Created) (ld_items (snd (fold passed steps ([], ledger_new))))"
    using steps by (elim disjE) (simp_all add: unfolds del: authorized_steps.simps)
  show "mset (map (\<lambda>item. (it_kind item, it_name item)) (ld_items (snd (fold passed steps ([], ledger_new)))))
       = mset (touched_by steps)"
    using steps by (elim disjE) (simp_all add: unfolds add_mset_commute del: authorized_steps.simps)
  show "\<not> ld_authority_transferred (snd (fold passed steps ([], ledger_new)))"
    using steps by (elim disjE) (simp_all add: unfolds del: authorized_steps.simps)
qed



section \<open>A run that stops\<close>

definition staged_name :: "Step \<Rightarrow> string" where
  "staged_name step = snd (last (deposit_items step))"

text \<open>The books carry what a failed act or a refused judgement leaves in doubt.\<close>

definition blamed :: "SequenceStop \<Rightarrow> books \<Rightarrow> bool" where
  "blamed e b =
     (case e of
        ActFailed step _ \<Rightarrow> step \<in> set (fst b) \<and> step \<in> fst ` set ACTS
      | SequenceRefused step (TransferReason refusal) \<Rightarrow>
          refusal = StagingNotFresh \<or> staged_name step \<in> set (unknown_names (snd b))
      | SequenceRefused step ConfigurationMissingFromPayload \<Rightarrow> True
      | SequenceRefused step _ \<Rightarrow> step \<in> set (fst b) \<and> step \<in> fst ` set ACTS
      | _ \<Rightarrow> True)"

definition blames :: "'a run \<Rightarrow> bool" where
  "blames m \<longleftrightarrow> (\<forall>p e q. m p = (Inl e, q) \<longrightarrow> blamed e (books q))"

named_theorems blames_intro \<open>runs whose stops leave their doubt in the books\<close>

lemma blames_after [blames_intro]: "blames m \<Longrightarrow> (\<And>x. blames (f x)) \<Longrightarrow> blames (after m f)"
  by (fastforce simp: blames_def after_def split: prod.splits sum.splits)

lemma blames_pure [blames_intro]: "blames (pure x)"
  and blames_alter [blames_intro]: "blames (alter g)"
  and blames_look [blames_intro]: "blames (look f)"
  and blames_await [blames_intro]: "blames (await step)"
  and blames_inscribe [blames_intro]: "blames (inscribe kind name provenance)"
  and blames_ask [blames_intro]: "blames (ask job step command input)"
  by (auto simp: blames_def pure_def alter_def look_def await_def inscribe_def ask_def Let_def ok_or_def
      blamed_def split: option.splits)

lemma blames_stop [blames_intro]: "(\<And>b. blamed e b) \<Longrightarrow> blames (stop e)"
  by (simp add: blames_def stop_def)

lemma blames_await_stop: "(\<And>b. step \<in> set (fst b) \<Longrightarrow> blamed e b) \<Longrightarrow> blames (after (await step) (\<lambda>_. stop e))"
  by (simp add: blames_def after_def await_def alter_def stop_def books_def)

lemma blames_deposit_and_measure [blames_intro]:
  "blames (deposit_and_measure job step written content stat digest)"
  unfolding deposit_and_measure_def by (intro blames_intro)

lemma blames_record_deposit: "name = staged_name step \<Longrightarrow> blames (record_deposit step name verdict)"
  by (cases verdict) (auto simp: record_deposit_def blames_inscribe blames_def after_def inscribe_def
      alter_def stop_def blamed_def books_def)

lemma blames_deposit [blames_intro]: "blames (deposit job step)"
proof -
  have "blames (deposit job TransferBundle)"
    unfolding deposit.simps
    by (intro blames_after blames_ask) (auto simp: blamed_def staging_created_def staged_name_def
        intro!: blames_intro blames_record_deposit split: sum.split if_splits)
  moreover have "blames (deposit job WriteMachineConfiguration)"
    by (auto simp: blamed_def staged_name_def intro!: blames_intro blames_record_deposit split: option.split)
  ultimately show ?thesis by (cases step) (simp_all add: blames_pure)
qed

lemma blames_act_failed:
  "step \<in> fst ` set ACTS \<Longrightarrow> blames (after (await step) (\<lambda>_. stop (ActFailed step st)))"
  by (intro blames_await_stop) (simp add: blamed_def)

lemma blames_run_acts:
  "set acts \<subseteq> set (authorised_for plan step) \<Longrightarrow> blames (run_acts job step before acts)"
proof (induction acts arbitrary: before)
  case (Cons act acts)
  then have "step \<in> fst ` set ACTS" using acts_of_step [of plan step] by force
  with Cons show ?case
    unfolding run_acts.simps by (intro blames_after [OF blames_ask]) (simp add: blames_act_failed)
qed (simp add: blames_pure)

lemma constat_has_acts: "constat_for step \<noteq> None \<Longrightarrow> step \<in> fst ` set ACTS"
  by (cases step) (simp_all add: ACTS_def)

lemma constat_verdict_reason:
  "constat_verdict job constat answer = Inl reason \<Longrightarrow>
     (\<forall>refusal. reason \<noteq> TransferReason refusal) \<and> reason \<noteq> ConfigurationMissingFromPayload \<and> reason \<noteq> NoReason"
  by (auto simp: constat_verdict_def split: Constat.splits sum.splits)

lemma constate_stops:
  assumes "constate job step p = (r, q)"
  shows "books q = books p" and "r = Inl e \<Longrightarrow> e = Unanswered step"
    and "r = Inr (Some False) \<Longrightarrow> (\<exists>constat answer. constat_for step = Some constat
           \<and> constat_verdict job constat answer = Inl (pg_last_refusal q))"
  using assms by (auto simp: constate_def after_def ask_def Let_def alter_def pure_def books_def ok_or_def
      split: option.splits sum.splits prod.splits)

lemma blamed_judged:
  "constat_verdict job constat answer = Inl reason \<Longrightarrow> step \<in> set (fst b) \<Longrightarrow> step \<in> fst ` set ACTS \<Longrightarrow>
     blamed (SequenceRefused step reason) b"
  using constat_verdict_reason [of job constat answer reason]
  by (cases reason) (simp_all add: blamed_def)

lemma blames_establish:
  assumes "step \<in> fst ` set ACTS \<Longrightarrow> acted"
  shows "blames (establish job step acted)"
  unfolding blames_def
proof (intro allI impI)
  fix p e q
  assume stops: "establish job step acted p = (Inl e, q)"
  let ?p = "if acted then p\<lparr>pg_pending := pg_pending p @ [step]\<rparr> else p"
  have first: "(if acted then await step else pure ()) p = (Inr (), ?p)"
    by (simp add: await_def alter_def pure_def)
  obtain r c where constated: "constate job step ?p = (r, c)" by (cases "constate job step ?p")
  show "blamed e (books q)"
  proof (cases r)
    case (Inl e')
    then show ?thesis
      using constate_stops(2) [OF constated] stops first constated
      by (auto simp: establish_def after_def blamed_def)
  next
    case (Inr verdict)
    then have "verdict = Some False \<and> e = SequenceRefused step (pg_last_refusal c) \<and> q = c"
      using stops first constated
      by (auto simp: establish_def after_def pure_def look_def stop_def alter_def
          split: option.splits bool.splits prod.splits)
    moreover from this Inr obtain constat answer where judged: "constat_for step = Some constat"
        "constat_verdict job constat answer = Inl (pg_last_refusal c)"
      using constate_stops(3) [OF constated] by blast
    moreover have "step \<in> fst ` set ACTS" using constat_has_acts judged(1) by simp
    moreover from this have "step \<in> set (fst (books c))"
      using assms constate_stops(1) [OF constated] by (simp add: books_def)
    ultimately show ?thesis using blamed_judged by simp
  qed
qed

lemma blames_drive_step: "blames (drive_step job step)"
proof -
  have refused: "blames (after (await step) (\<lambda>_. stop (SequenceRefused step (IdentityReason reason))))"
    if "step \<in> fst ` set ACTS" for step reason
    using that by (intro blames_await_stop) (simp add: blamed_def)
  have acts: "InitialiseController \<in> fst ` set ACTS" "MintReaderIdentity \<in> fst ` set ACTS"
    by (simp_all add: ACTS_def)
  have established: "blames (establish job step (authorised_for (jb_plan job) step \<noteq> []))" for step
    by (rule blames_establish) (simp add: acts_of_step)
  show ?thesis
    unfolding drive_step_def Let_def
    by (intro blames_after [OF blames_deposit] blames_after [OF blames_run_acts])
      (cases step; auto intro!: established refused acts blames_alter split: sum.split)+
qed

lemma blames_drive: "blames (drive job)"
proof -
  have "blames (drive_steps job steps)" for steps
    by (induction steps) (auto intro!: blames_intro blames_drive_step)
  moreover have "blames (adopt_budget job budget)" for budget
    by (simp add: blames_def adopt_budget_def Let_def blamed_def)
  ultimately show ?thesis unfolding drive_def by (intro blames_after)
qed

text \<open>What a stop says of the names the ledger leaves in doubt.\<close>

fun in_doubt :: "SequenceStop \<Rightarrow> string list" where
  "in_doubt (ActFailed step _) = map snd (step_items step)"
| "in_doubt (SequenceRefused step (TransferReason refusal)) =
     (if refusal = StagingNotFresh then [] else [staged_name step])"
| "in_doubt (SequenceRefused step ConfigurationMissingFromPayload) = []"
| "in_doubt (SequenceRefused step _) = map snd (step_items step)"
| "in_doubt _ = []"

lemma unknown_names_fold:
  "unknown_names (fold (\<lambda>step. record_step step Unknown) steps ledger)
     = unknown_names ledger @ concat (map (\<lambda>step. map snd (step_items step)) steps)"
proof (induction steps arbitrary: ledger)
  case (Cons step steps)
  then show ?case by (cases step) simp_all
qed simp

lemma blamed_in_doubt:
  "blamed e b \<Longrightarrow> set (in_doubt e)
     \<subseteq> set (unknown_names (fold (\<lambda>step. record_step step Unknown) (fst b) (snd b)))"
  by (cases e rule: in_doubt.cases) (auto simp: blamed_def unknown_names_fold)


definition failing_job :: Job where
  "failing_job = sample_job\<lparr>jb_machine :=
     \<lparr>answers = (\<lambda>_. Some \<lparr>an_exit_status = 5, an_stdout = []\<rparr>), adopts = (\<lambda>_. True)\<rparr>\<rparr>"


section \<open>A run nobody answers\<close>

text \<open>Every stop of a step names that step.\<close>

definition stops_at :: "Step \<Rightarrow> 'a run \<Rightarrow> bool" where
  "stops_at step m \<longleftrightarrow> (\<forall>p e q. m p = (Inl e, q) \<longrightarrow>
     (case e of BudgetRefused \<Rightarrow> False | Unanswered s \<Rightarrow> s = step | ActFailed s _ \<Rightarrow> s = step
      | SequenceRefused s _ \<Rightarrow> s = step))"

named_theorems stops_intro \<open>runs whose stops name one step\<close>

lemma stops_after [stops_intro]:
  "stops_at step m \<Longrightarrow> (\<And>x. stops_at step (f x)) \<Longrightarrow> stops_at step (after m f)"
  unfolding stops_at_def after_def by (fastforce split: prod.splits sum.splits)

lemma stops_pure [stops_intro]: "stops_at step (pure x)"
  and stops_alter [stops_intro]: "stops_at step (alter g)"
  and stops_look [stops_intro]: "stops_at step (look f)"
  and stops_await [stops_intro]: "stops_at step (await step)"
  and stops_inscribe [stops_intro]: "stops_at step (inscribe kind name provenance)"
  and stops_ask [stops_intro]: "stops_at step (ask job step command input)"
  and stops_act_failed [stops_intro]: "stops_at step (stop (ActFailed step st))"
  and stops_refused [stops_intro]: "stops_at step (stop (SequenceRefused step reason))"
  by (auto simp: stops_at_def pure_def alter_def look_def await_def inscribe_def ask_def Let_def ok_or_def
      stop_def split: option.splits)

lemma stops_deposit_and_measure [stops_intro]:
  "stops_at step (deposit_and_measure job step written content stat digest)"
  unfolding deposit_and_measure_def by (intro stops_intro)

lemma stops_record_deposit [stops_intro]: "stops_at step (record_deposit step name verdict)"
  by (cases verdict) (auto simp: record_deposit_def intro!: stops_intro)

lemma stops_deposit [stops_intro]: "stops_at step (deposit job step)"
  by (cases step) (auto intro!: stops_intro split: sum.split option.split)

lemma stops_run_acts [stops_intro]: "stops_at step (run_acts job step before acts)"
proof (induction acts arbitrary: before)
  case (Cons act acts)
  then show ?case
    unfolding run_acts.simps by (intro stops_after [OF stops_ask]) (auto intro!: stops_intro)
qed (simp add: stops_pure)

lemma stops_constate [stops_intro]: "stops_at step (constate job step)"
  unfolding constate_def by (auto intro!: stops_intro split: option.split sum.split)

lemma stops_establish [stops_intro]: "stops_at step (establish job step acted)"
  unfolding establish_def by (auto intro!: stops_intro split: option.split bool.split)

lemma stops_drive_step: "stops_at step (drive_step job step)"
  unfolding drive_step_def Let_def
  by (intro stops_after [OF stops_deposit] stops_after [OF stops_run_acts])
    (cases step; auto intro!: stops_intro split: sum.split)+

lemma stops_drive_steps:
  "drive_steps job steps p = (Inl (Unanswered step), q) \<Longrightarrow> step \<in> set steps"
proof (induction steps arbitrary: p)
  case (Cons first steps)
  obtain r c where step: "drive_step job first p = (r, c)" by (cases "drive_step job first p")
  with Cons show ?case
    using stops_drive_step [of first job, unfolded stops_at_def, rule_format, of p _ c]
    by (cases r) (auto simp: after_def)
qed (simp add: pure_def)

lemma acts_unanswered:
  assumes "run_acts job step before acts p = (Inl (Unanswered s), q)"
  shows "books q = books p \<and> (\<exists>act \<in> set acts. last (pg_trace q)
     = Ran (act_command act (jb_password_required job)) (secret_input job))"
  using assms
proof (induction acts arbitrary: before p)
  case (Cons act acts)
  let ?p = "p\<lparr>pg_trace := pg_trace p @ [Ran (act_command act (jb_password_required job)) (secret_input job)]\<rparr>"
  show ?case
  proof (cases "answers (jb_machine job) (pg_trace ?p)")
    case None
    with Cons.prems show ?thesis by (auto simp: after_def ask_def Let_def ok_or_def books_def)
  next
    case (Some answer)
    with Cons.prems have "run_acts job step (Some answer) acts ?p = (Inl (Unanswered s), q)"
      by (auto simp: after_def ask_def Let_def ok_or_def await_def alter_def stop_def split: if_splits)
    from Cons.IH [OF this] show ?thesis by (auto simp: books_def)
  qed
qed (simp add: pure_def)

lemma install_unanswered:
  assumes "drive_step job InstallPackage p = (Inl (Unanswered s), q)"
  shows "books q = books p \<and> (\<exists>act \<in> set (authorised_for (jb_plan job) InstallPackage).
           last (pg_trace q) = Ran (act_command act (jb_password_required job)) (secret_input job))
    \<or> books q = awaited InstallPackage (books p) \<and> last (pg_trace q) = Ran QUERY_PACKAGE None"
proof -
  let ?acts = "authorised_for (jb_plan job) InstallPackage"
  obtain r c where acts: "run_acts job InstallPackage None ?acts p = (r, c)"
    by (cases "run_acts job InstallPackage None ?acts p")
  show ?thesis
  proof (cases r)
    case (Inl e)
    with acts assms have "run_acts job InstallPackage None ?acts p = (Inl (Unanswered s), q)"
      by (simp add: drive_step_def after_def pure_def Let_def)
    from acts_unanswered [OF this] show ?thesis by simp
  next
    case (Inr answer)
    then have "books c = books p"
      using acts gives_run_acts [of job InstallPackage None ?acts] by (simp add: gives_def)
    moreover have "?acts \<noteq> []" by (simp add: acts_of_step ACTS_def)
    ultimately show ?thesis
      using assms acts Inr
      by (auto simp: drive_step_def after_def pure_def establish_def await_def alter_def constate_def ask_def
          Let_def ok_or_def stop_def look_def constat_elevated_def books_def awaited_def
          split: option.splits sum.splits bool.splits prod.splits)
  qed
qed

text \<open>What the ledger says when the installation of the package is never answered. If a run
stops there, either the question about the package was the one left without an answer,
and the package is in doubt; or an act that installs or reloads as root was, and then the
ledger has no word of the package and the unwinding calls itself complete.\<close>

theorem unanswered_install_is_not_recorded:
  assumes "sequence_run job = (outcome, trace, secret)"
    and "so_stopped outcome = Some (Unanswered InstallPackage)"
  shows "last (butlast trace) = Ran QUERY_PACKAGE None
       \<and> unknown_names (so_ledger outcome) = [''your-cloud-server'']
    \<or> (\<exists>act \<in> set (authorised_for (jb_plan job) InstallPackage).
          last (butlast trace) = Ran (act_command act (jb_password_required job)) (secret_input job))
       \<and> ledger_unwind (so_ledger outcome) =
           Complete [\<lparr>rm_kind = File, rm_name = ''/.your-cloud-bootstrap/your-cloud-server.deb''\<rparr>,
             \<lparr>rm_kind = Directory, rm_name = ''$HOME/.your-cloud-bootstrap''\<rparr>]"
proof -
  let ?steps = "authorized_steps_for (jb_actions job)"
  let ?p0 = "started\<lparr>pg_trace := [AdoptBudget (channel_budget (jb_actions job))]\<rparr>"
  obtain p where run: "drive job started = (Inl (Unanswered InstallPackage), p)"
    using assms(2) sequence_run_drive(3) [OF assms(1)]
    by (cases "drive job started"; cases "fst (drive job started)") auto
  then have driven: "drive_steps job ?steps ?p0 = (Inl (Unanswered InstallPackage), p)"
    by (auto simp: drive_def after_def adopt_budget_def Let_def started_def split: if_splits)
  then have "InstallPackage \<in> set ?steps" by (rule stops_drive_steps)
  then obtain rest where steps: "?steps = TransferBundle # InstallPackage # rest" "InstallPackage \<notin> set rest"
    using authorized_steps_three [of "jb_actions job"] by (auto simp: STEPS_def)
  obtain r c where first: "drive_step job TransferBundle ?p0 = (r, c)"
    by (cases "drive_step job TransferBundle ?p0")
  obtain u where r: "r = Inr u"
    using driven first stops_drive_step [of TransferBundle job, unfolded stops_at_def, rule_format, of ?p0 _ c]
    by (cases r) (auto simp: steps(1) after_def)
  obtain s d where second: "drive_step job InstallPackage c = (s, d)"
    by (cases "drive_step job InstallPackage c")
  have "s = Inl (Unanswered InstallPackage) \<and> d = p"
    using driven first second r stops_drive_steps [of job rest d InstallPackage p] steps(2)
    by (cases s) (auto simp: steps(1) after_def)
  with second have install: "drive_step job InstallPackage c = (Inl (Unanswered InstallPackage), p)" by simp
  have "books c = ([], ledger_record File STAGED_ARTIFACT_SUFFIX Created
      (ledger_record Directory STAGING_DIRECTORY Created ledger_new))"
    using first r gives_drive_step [of job TransferBundle]
    by (simp add: gives_def books_def started_def passed_def deposited_items_def ACTS_def)
  moreover have "trace = pg_trace p @ [Ran DROP_CREDENTIAL None]"
      "so_ledger outcome = fold (\<lambda>step. record_step step Unknown) (fst (books p)) (snd (books p))"
    using sequence_run_drive(1,4) [OF assms(1)] run by (simp_all add: books_def)
  ultimately show ?thesis
    using install_unanswered [OF install]
    by (auto simp: awaited_def ledger_unwind_def Let_def ledger_record_def ledger_new_def unknown_names_def
        item_names)
qed

text \<open>A machine that receives the bundle and never answers dpkg.\<close>

definition mute_job :: Job where
  "mute_job = sample_job\<lparr>jb_actions := [InstallServerBundle, ActivateApprovedController],
     jb_machine :=
       \<lparr>answers = (\<lambda>trace. map_option (\<lambda>stdout. \<lparr>an_exit_status = 0, an_stdout = stdout\<rparr>)
          (case length trace of
             Suc (Suc (Suc (Suc (Suc 0)))) \<Rightarrow> Some (tr_digest_stdout sample_readings)
           | Suc (Suc (Suc (Suc 0))) \<Rightarrow> Some (tr_size_stdout sample_readings)
           | n \<Rightarrow> if n < 4 then Some [] else None)),
        adopts = (\<lambda>_. True)\<rparr>\<rparr>"

lemma sample_staged: "\<exists>f. staged_bundle sample_bundle sample_readings = Inr f"
proof -
  have "faithful_readings sample_sha [1, 2, 3] (''/root'' @ STAGED_ARTIFACT_SUFFIX) sample_readings"
    by (simp add: faithful_readings_def sample_readings_def numeral_3_eq_3)
  moreover have "is_lower_hex_text (encode_lower_hex (sample_sha [1, 2, 3]))"
      "length (encode_lower_hex (sample_sha [1, 2, 3])) = 64"
    by (simp_all add: sample_sha_def)
  ultimately show ?thesis
    using faithful_readings_accepted [of sample_sha "[1, 2, 3]" "''/root'' @ STAGED_ARTIFACT_SUFFIX"
        sample_readings STAGED_ARTIFACT_SUFFIX "vb_sha256 sample_bundle" "vb_size sample_bundle"]
    by (auto simp: staged_bundle_def sample_bundle_def code_def STAGED_ARTIFACT_SUFFIX_def suffix_def)
qed

lemma mute_run:
  "fst (drive mute_job started) = Inl (Unanswered InstallPackage)
   \<and> last (pg_trace (snd (drive mute_job started)))
       = Ran (ac_with_password INSTALL_PACKAGE) (Some (TerminalAnswer [1, 2]))"
proof -
  obtain f where f: "staged_bundle sample_bundle sample_readings = Inr f" using sample_staged by blast
  have readings: "readings_of \<lparr>an_exit_status = 0, an_stdout = []\<rparr>
      \<lparr>an_exit_status = 0, an_stdout = tr_size_stdout sample_readings\<rparr>
      \<lparr>an_exit_status = 0, an_stdout = tr_digest_stdout sample_readings\<rparr> = sample_readings"
    by (simp add: readings_of_def sample_readings_def)
  show ?thesis
    by (simp add: mute_job_def sample_job_def drive_def after_def adopt_budget_def started_def STEPS_def
        drive_step_def pure_def authorised_for_def ACTS_def ask_def Let_def stop_def staging_created_def
        inscribe_def alter_def deposit_and_measure_def readings f record_deposit_def establish_def
        constate_def ok_or_def act_command_def secret_input_def)
qed

theorem unanswered_install_is_not_recorded_witness:
  "ledger_unwind (so_ledger (fst (sequence_run mute_job))) =
     Complete [\<lparr>rm_kind = File, rm_name = ''/.your-cloud-bootstrap/your-cloud-server.deb''\<rparr>,
       \<lparr>rm_kind = Directory, rm_name = ''$HOME/.your-cloud-bootstrap''\<rparr>]"
proof -
  obtain outcome trace secret where r: "sequence_run mute_job = (outcome, trace, secret)"
    by (cases "sequence_run mute_job")
  then have stopped: "so_stopped outcome = Some (Unanswered InstallPackage)"
    and asked: "last (butlast trace) = Ran (ac_with_password INSTALL_PACKAGE) (Some (TerminalAnswer [1, 2]))"
    using sequence_run_drive(1,3) [OF r] by (simp_all add: mute_run)
  from unanswered_install_is_not_recorded [OF r stopped] r show ?thesis by (auto simp: asked)
qed

end
