(* ===== verification/Machine_Identity.thy ===== *)
theory Machine_Identity
  imports Install_Plan
begin

text \<open>
  \<open>machine_identity/\<close>: \<open>identity.rs\<close>, one identity per machine and none shared;
  \<open>account.rs\<close>, the locked account it lands on; \<open>custody.rs\<close>, the path whose every
  ancestor that account cannot write; \<open>plan.rs\<close>, the enrolment of a machine, the
  verification of the new path and the activation of an approved role.
\<close>

section \<open>Identities\<close>

definition MAX_ENROLLED_MACHINES :: nat where [limits]: "MAX_ENROLLED_MACHINES = 64"

record MintedIdentity =
  mi_machine :: string
  mi_fingerprint :: string

record Declared =
  dc_machine :: string
  dc_fingerprint :: string

datatype IdentityError =
    NothingDeclared
  | TooManyMachines nat
  | MalformedMachine string
  | MalformedFingerprint string
  | DuplicateMachine string
  | SharedIdentity string string
  | UnknownMachine string
  | ForeignIdentity string string
  | Unattributed string

record Enrolled =
  en_identities :: "MintedIdentity list"

definition is_machine_name :: "string \<Rightarrow> bool" where
  "is_machine_name name =
     (\<not> (length name < 3 \<or> length name > 63)
      \<and> (is_ascii_lowercase (hd name) \<or> is_ascii_digit (hd name))
      \<and> list_all (\<lambda>c. is_ascii_lowercase c \<or> is_ascii_digit c \<or> c = CHR ''-'') name)"

definition is_fingerprint :: "string \<Rightarrow> bool" where
  "is_fingerprint v =
     (\<not> (length v \<noteq> HOST_KEY_FINGERPRINT_BYTES \<or> \<not> prefix ''SHA256:'' v)
      \<and> list_all (\<lambda>c. is_ascii_alphanumeric c \<or> c = CHR ''+'' \<or> c = CHR ''/'')
          (drop (length ''SHA256:'') v))"

text \<open>The loop of \<open>mint\<close>, with the identities already pushed.\<close>

fun mint_from :: "MintedIdentity list \<Rightarrow> Declared list \<Rightarrow> IdentityError + Enrolled" where
  "mint_from identities [] = Inr \<lparr>en_identities = identities\<rparr>"
| "mint_from identities (entry # rest) =
     (if \<not> is_machine_name (dc_machine entry) then Inl (MalformedMachine (dc_machine entry))
      else if \<not> is_fingerprint (dc_fingerprint entry) then Inl (MalformedFingerprint (dc_machine entry))
      else
        case find (\<lambda>minted. mi_machine minted = dc_machine entry) identities of
          Some previous \<Rightarrow> Inl (DuplicateMachine (mi_machine previous))
        | None \<Rightarrow>
            (case find (\<lambda>minted. mi_fingerprint minted = dc_fingerprint entry) identities of
               Some previous \<Rightarrow> Inl (SharedIdentity (dc_machine entry) (mi_machine previous))
             | None \<Rightarrow>
                 mint_from (identities @ [\<lparr>mi_machine = dc_machine entry,
                     mi_fingerprint = dc_fingerprint entry\<rparr>]) rest))"

definition mint :: "Declared list \<Rightarrow> IdentityError + Enrolled" where
  "mint declared =
     (if declared = [] then Inl NothingDeclared
      else if length declared > MAX_ENROLLED_MACHINES then Inl (TooManyMachines (length declared))
      else mint_from [] declared)"

definition identity_of :: "Enrolled \<Rightarrow> string \<Rightarrow> IdentityError + MintedIdentity" where
  "identity_of enrolled machine =
     ok_or (find (\<lambda>minted. mi_machine minted = machine) (en_identities enrolled)) (UnknownMachine machine)"

definition admits :: "Enrolled \<Rightarrow> string \<Rightarrow> string \<Rightarrow> IdentityError + MintedIdentity" where
  "admits enrolled machine presented =
     and_then (identity_of enrolled machine) (\<lambda>minted.
     if mi_fingerprint minted = presented then Inr minted
     else
       case find (\<lambda>other. mi_fingerprint other = presented) (en_identities enrolled) of
         Some owner \<Rightarrow> Inl (ForeignIdentity machine (mi_machine owner))
       | None \<Rightarrow> Inl (Unattributed machine))"

section \<open>The locked account\<close>

definition AUXILIARY_ACCOUNT :: string where "AUXILIARY_ACCOUNT = ''your-cloud-auxiliary''"

definition ROLE_ACCOUNTS :: "string list" where
  "ROLE_ACCOUNTS = [CONTROLLER_ACCOUNT, ''your-cloud-daemon'', ''your-cloud-relay'']"

definition REQUIRED_SHELL :: string where "REQUIRED_SHELL = ''/bin/sh''"

definition REQUIRED_HOME :: string where "REQUIRED_HOME = ''/nonexistent''"

definition LOCKED_WITHOUT_PASSWORD :: "string list" where
  "LOCKED_WITHOUT_PASSWORD = [''!'', ''!!'', ''*'', ''!*'']"

definition MAX_SYSTEM_UID :: u32 where [limits]: "MAX_SYSTEM_UID = 999"

record ObservedAccount =
  oa_name :: string
  oa_uid :: u32
  oa_gid :: u32
  oa_shell :: string
  oa_home :: string
  oa_password_field :: string
  oa_supplementary_groups :: "string list"

datatype AccountRefusal =
    NotTheAuxiliaryAccount string
  | IsRoot
  | SharesARoleAccount string
  | NotASystemAccount u32
  | ShellIsNotTheFixedOne string
  | HomeIsNotTheAbsentOne string
  | PasswordSet
  | NoPasswordRequired
  | NotLocked string
  | SupplementaryGroup string

record LockedAccount =
  la_name :: string
  la_uid :: u32
  la_gid :: u32

definition judge_account :: "ObservedAccount \<Rightarrow> AccountRefusal + LockedAccount" where
  "judge_account observed =
     (if oa_name observed \<noteq> AUXILIARY_ACCOUNT
      then (if oa_name observed \<in> set ROLE_ACCOUNTS then Inl (SharesARoleAccount (oa_name observed))
            else Inl (NotTheAuxiliaryAccount (oa_name observed)))
      else if oa_uid observed = 0 \<or> oa_gid observed = 0 then Inl IsRoot
      else if oa_uid observed > MAX_SYSTEM_UID then Inl (NotASystemAccount (oa_uid observed))
      else if oa_shell observed \<noteq> REQUIRED_SHELL then Inl (ShellIsNotTheFixedOne (oa_shell observed))
      else if oa_home observed \<noteq> REQUIRED_HOME then Inl (HomeIsNotTheAbsentOne (oa_home observed))
      else if CHR ''$'' \<in> set (oa_password_field observed) then Inl PasswordSet
      else if oa_password_field observed = [] then Inl NoPasswordRequired
      else if oa_password_field observed \<notin> set LOCKED_WITHOUT_PASSWORD
      then Inl (NotLocked (oa_password_field observed))
      else
        case oa_supplementary_groups observed of
          first_group # _ \<Rightarrow> Inl (SupplementaryGroup first_group)
        | [] \<Rightarrow> Inr \<lparr>la_name = oa_name observed, la_uid = oa_uid observed, la_gid = oa_gid observed\<rparr>)"

section \<open>Custody of a path\<close>

datatype PathKind = DirectoryPath | FilePath | OtherPath

record ObservedPath =
  op_path :: string
  op_uid :: u32
  op_gid :: u32
  op_mode :: u32
  op_kind :: PathKind

datatype CustodyRefusal =
    NothingObserved
  | NotRootedAtSlash string
  | NotTheParentChain string
  | NotCanonical string
  | NotADirectory string
  | NotAFile string
  | SymbolicLink string
  | NotRootOwned string u32
  | WritableByTheAccount string
  | GroupWritable string
  | WorldWritable string
  | SetUserOrGroup string

record Custody =
  cu_leaf :: string

definition is_child_of :: "string \<Rightarrow> string \<Rightarrow> bool" where
  "is_child_of parent child =
     (case strip_prefix (if parent = ''/'' then ''/'' else parent @ ''/'') child of
        None \<Rightarrow> False
      | Some remainder \<Rightarrow> remainder \<noteq> [] \<and> CHR ''/'' \<notin> set remainder)"

text \<open>The masks 0o6000, 0o200, 0o020 and 0o002 are written in base sixteen.\<close>

definition judge_one :: "ObservedPath \<Rightarrow> LockedAccount \<Rightarrow> CustodyRefusal + unit" where
  "judge_one observed account =
     (let path = op_path observed in
      if \<not> prefix ''/'' path \<or> contains_str path ''/..'' \<or> contains_str path ''/./''
         \<or> (length path > 1 \<and> suffix ''/'' path)
      then Inl (NotCanonical path)
      else if and (op_mode observed) 0xC00 \<noteq> 0 then Inl (SetUserOrGroup path)
      else if op_uid observed = la_uid account \<and> and (op_mode observed) 0x80 \<noteq> 0
      then Inl (WritableByTheAccount path)
      else if op_gid observed = la_gid account \<and> and (op_mode observed) 0x10 \<noteq> 0
      then Inl (WritableByTheAccount path)
      else if and (op_mode observed) 0x2 \<noteq> 0 then Inl (WorldWritable path)
      else if op_uid observed \<noteq> 0 then Inl (NotRootOwned path (op_uid observed))
      else if and (op_mode observed) 0x10 \<noteq> 0 then Inl (GroupWritable path)
      else Inr ())"

fun parent_chain :: "ObservedPath list \<Rightarrow> CustodyRefusal + unit" where
  "parent_chain (parent # child # rest) =
     (if \<not> is_child_of (op_path parent) (op_path child) then Inl (NotTheParentChain (op_path child))
      else parent_chain (child # rest))"
| "parent_chain _ = Inr ()"

fun only_directories :: "ObservedPath list \<Rightarrow> CustodyRefusal + unit" where
  "only_directories [] = Inr ()"
| "only_directories (observed # rest) =
     (case op_kind observed of
        DirectoryPath \<Rightarrow> only_directories rest
      | OtherPath \<Rightarrow> Inl (SymbolicLink (op_path observed))
      | FilePath \<Rightarrow> Inl (NotADirectory (op_path observed)))"

fun judge_each :: "ObservedPath list \<Rightarrow> LockedAccount \<Rightarrow> CustodyRefusal + unit" where
  "judge_each [] account = Inr ()"
| "judge_each (observed # rest) account =
     and_then (judge_one observed account) (\<lambda>_. judge_each rest account)"

definition judge_custody :: "ObservedPath list \<Rightarrow> LockedAccount \<Rightarrow> CustodyRefusal + Custody" where
  "judge_custody chain account =
     (if chain = [] then Inl NothingObserved
      else
        let leaf = last chain; ancestors = butlast chain in
        if op_path (hd chain) \<noteq> ''/'' then Inl (NotRootedAtSlash (op_path (hd chain)))
        else
          and_then (parent_chain chain) (\<lambda>_.
          and_then (only_directories ancestors) (\<lambda>_.
          case op_kind leaf of
            OtherPath \<Rightarrow> Inl (SymbolicLink (op_path leaf))
          | DirectoryPath \<Rightarrow> Inl (NotAFile (op_path leaf))
          | FilePath \<Rightarrow>
              and_then (judge_each chain account) (\<lambda>_. Inr \<lparr>cu_leaf = op_path leaf\<rparr>))))"

section \<open>The enrolment\<close>

definition PACKAGE_BINARY :: string where "PACKAGE_BINARY = ''/usr/lib/your-cloud/your-cloud''"

definition KEY_FILE_DIRECTORY :: string where "KEY_FILE_DIRECTORY = ''/etc/your-cloud/authorized-keys''"

definition AGENT_UNIT :: string where "AGENT_UNIT = ''your-cloud-daemon.service''"

definition RELAY_UNIT :: string where "RELAY_UNIT = ''your-cloud-relay.service''"

definition key_file :: string where "key_file = KEY_FILE_DIRECTORY @ ''/'' @ AUXILIARY_ACCOUNT"

datatype EnrolmentStep =
    InstallArtifact | CreateAccount | InstallApprovalAnchor | InstallReplayState
  | InstallElevationRule | ActivateForcedKey | WriteCommandEndpoint | VerifyNewPath
  | ActivateApprovedRoles | DestroyTemporaryState

definition ENROLMENT_STEPS :: "EnrolmentStep list" where
  "ENROLMENT_STEPS = [InstallArtifact, CreateAccount, InstallApprovalAnchor, InstallReplayState,
     InstallElevationRule, ActivateForcedKey, WriteCommandEndpoint, VerifyNewPath,
     ActivateApprovedRoles, DestroyTemporaryState]"

fun enrolment_step_str :: "EnrolmentStep \<Rightarrow> string" where
  "enrolment_step_str InstallArtifact = ''artifact''"
| "enrolment_step_str CreateAccount = ''account''"
| "enrolment_step_str InstallApprovalAnchor = ''anchor''"
| "enrolment_step_str InstallReplayState = ''replay''"
| "enrolment_step_str InstallElevationRule = ''elevation''"
| "enrolment_step_str ActivateForcedKey = ''key''"
| "enrolment_step_str WriteCommandEndpoint = ''endpoint''"
| "enrolment_step_str VerifyNewPath = ''verify''"
| "enrolment_step_str ActivateApprovedRoles = ''roles''"
| "enrolment_step_str DestroyTemporaryState = ''destroy''"

datatype EnrolmentRefusal =
    MachineNotCleared string
  | EnrolmentIdentity IdentityError
  | NoApprovedRole string
  | PlacementForAnotherMachine string
  | DuplicateRole string

record Enrolment =
  er_machine :: string
  er_fingerprint :: string
  er_roles :: "Role list"

fun enrolled_roles :: "string \<Rightarrow> Role list \<Rightarrow> ApprovedPlacement list \<Rightarrow> EnrolmentRefusal + Role list" where
  "enrolled_roles machine roles [] = Inr roles"
| "enrolled_roles machine roles (placement # rest) =
     (if apl_endpoint placement \<noteq> machine then Inl (PlacementForAnotherMachine (apl_endpoint placement))
      else if apl_role placement \<in> set roles then Inl (DuplicateRole (role_str (apl_role placement)))
      else enrolled_roles machine (roles @ [apl_role placement]) rest)"

definition authorize_enrolment ::
  "PreflightCleared \<Rightarrow> Elevation \<Rightarrow> ApprovedPlacement list \<Rightarrow> Enrolled \<Rightarrow> string \<Rightarrow>
     EnrolmentRefusal + Enrolment" where
  "authorize_enrolment cleared elevation placements enrolled machine =
     (if \<not> covers cleared machine then Inl (MachineNotCleared machine)
      else case identity_of enrolled machine of
        Inl refusal \<Rightarrow> Inl (EnrolmentIdentity refusal)
      | Inr identity \<Rightarrow>
          and_then (enrolled_roles machine [] placements) (\<lambda>roles.
          if roles = [] then Inl (NoApprovedRole machine)
          else Inr \<lparr>er_machine = machine, er_fingerprint = mi_fingerprint identity, er_roles = roles\<rparr>))"

record AuxiliaryReport =
  ar_machine :: string
  ar_operation :: string
  ar_changed :: bool
  ar_consumed_sequence :: u64
  ar_identity_fingerprint :: string

definition DIAGNOSTIC_OPERATION :: string where
  "DIAGNOSTIC_OPERATION = ''diagnose_protocol_read_only''"

datatype VerificationRefusal =
    AnotherMachine string
  | VerificationIdentity IdentityError
  | NotTheDiagnosticOperation string
  | AuxiliaryReportedAMutation
  | NothingConsumed

record PathVerified =
  pv_machine :: string

definition verify_path :: "Enrolled \<Rightarrow> Enrolment \<Rightarrow> AuxiliaryReport \<Rightarrow> VerificationRefusal + PathVerified" where
  "verify_path enrolled enrolment report =
     (if ar_machine report \<noteq> er_machine enrolment then Inl (AnotherMachine (ar_machine report))
      else case admits enrolled (er_machine enrolment) (ar_identity_fingerprint report) of
        Inl refusal \<Rightarrow> Inl (VerificationIdentity refusal)
      | Inr _ \<Rightarrow>
          if ar_changed report then Inl AuxiliaryReportedAMutation
          else if ar_operation report \<noteq> DIAGNOSTIC_OPERATION
          then Inl (NotTheDiagnosticOperation (ar_operation report))
          else if ar_consumed_sequence report = 0 then Inl NothingConsumed
          else Inr \<lparr>pv_machine = er_machine enrolment\<rparr>)"

datatype ActivationRefusal =
    VerifiedAnotherMachine string
  | RoleNotApproved string
  | AuxiliaryIsNeverAService
  | ControllerIsNotActivatedByAnEnrolment

record Activation =
  ac_machine :: string
  ac_unit :: string

definition activate :: "Enrolment \<Rightarrow> PathVerified \<Rightarrow> Role \<Rightarrow> ActivationRefusal + Activation" where
  "activate enrolment verified role =
     (if pv_machine verified \<noteq> er_machine enrolment
      then Inl (VerifiedAnotherMachine (pv_machine verified))
      else
        and_then (case role of
            Auxiliary \<Rightarrow> Inl AuxiliaryIsNeverAService
          | Controller \<Rightarrow> Inl ControllerIsNotActivatedByAnEnrolment
          | Agent \<Rightarrow> Inr AGENT_UNIT
          | Relay \<Rightarrow> Inr RELAY_UNIT) (\<lambda>unit_name.
        if role \<notin> set (er_roles enrolment) then Inl (RoleNotApproved (role_str role))
        else Inr \<lparr>ac_machine = er_machine enrolment, ac_unit = unit_name\<rparr>))"

section \<open>Lemmas\<close>

definition minted_of :: "Declared \<Rightarrow> MintedIdentity" where
  "minted_of entry = \<lparr>mi_machine = dc_machine entry, mi_fingerprint = dc_fingerprint entry\<rparr>"

lemma find_by_field: "find (\<lambda>x. f x = v) xs = None \<longleftrightarrow> v \<notin> f ` set xs"
  by (auto simp: find_None_iff)

lemma mint_from_Inr:
  "distinct (map mi_machine identities) \<Longrightarrow> distinct (map mi_fingerprint identities) \<Longrightarrow>
   mint_from identities declared = Inr enrolled \<longleftrightarrow>
     list_all (\<lambda>d. is_machine_name (dc_machine d) \<and> is_fingerprint (dc_fingerprint d)) declared
     \<and> distinct (map mi_machine (identities @ map minted_of declared))
     \<and> distinct (map mi_fingerprint (identities @ map minted_of declared))
     \<and> en_identities enrolled = identities @ map minted_of declared"
proof (induction identities declared rule: mint_from.induct)
  case (1 identities)
  then show ?case by (cases enrolled) auto
next
  case (2 identities entry rest)
  show ?case
  proof (cases "dc_machine entry \<in> mi_machine ` set identities
      \<or> dc_fingerprint entry \<in> mi_fingerprint ` set identities")
    case True
    then show ?thesis
      by (auto simp: minted_of_def find_by_field not_None_eq split: option.splits)
  next
    case False
    then have "find (\<lambda>minted. mi_machine minted = dc_machine entry) identities = None"
        "find (\<lambda>minted. mi_fingerprint minted = dc_fingerprint entry) identities = None"
      by (simp_all add: find_by_field)
    with False 2 show ?thesis by (auto simp: minted_of_def)
  qed
qed

lemma mint_Inr:
  "mint declared = Inr enrolled \<longleftrightarrow>
     declared \<noteq> [] \<and> length declared \<le> 64
     \<and> list_all (\<lambda>d. is_machine_name (dc_machine d) \<and> is_fingerprint (dc_fingerprint d)) declared
     \<and> distinct (map dc_machine declared) \<and> distinct (map dc_fingerprint declared)
     \<and> en_identities enrolled = map minted_of declared"
proof -
  have fields: "mi_machine \<circ> minted_of = dc_machine" "mi_fingerprint \<circ> minted_of = dc_fingerprint"
    by (simp_all add: minted_of_def fun_eq_iff)
  show ?thesis
    using mint_from_Inr [of "[]" declared enrolled] by (auto simp: mint_def limits fields)
qed

lemma find_distinct:
  "distinct (map f xs) \<Longrightarrow> find (\<lambda>x. f x = v) xs = Some y \<longleftrightarrow> y \<in> set xs \<and> f y = v"
  by (induction xs) (auto simp: image_iff)

lemma minted_iff:
  "i \<in> minted_of ` set declared \<longleftrightarrow>
     \<lparr>dc_machine = mi_machine i, dc_fingerprint = mi_fingerprint i\<rparr> \<in> set declared"
proof
  assume "i \<in> minted_of ` set declared"
  then obtain d where "d \<in> set declared" "i = minted_of d" by blast
  moreover obtain m f where "d = \<lparr>dc_machine = m, dc_fingerprint = f\<rparr>" by (rule Declared.cases)
  ultimately show "\<lparr>dc_machine = mi_machine i, dc_fingerprint = mi_fingerprint i\<rparr> \<in> set declared"
    by (simp add: minted_of_def)
next
  assume d: "\<lparr>dc_machine = mi_machine i, dc_fingerprint = mi_fingerprint i\<rparr> \<in> set declared"
  have "i = minted_of \<lparr>dc_machine = mi_machine i, dc_fingerprint = mi_fingerprint i\<rparr>"
    by (cases i) (simp add: minted_of_def)
  with d show "i \<in> minted_of ` set declared" by blast
qed

lemma found_machine:
  assumes "mint declared = Inr enrolled"
  shows "find (\<lambda>minted. mi_machine minted = machine) (en_identities enrolled) = Some i \<longleftrightarrow>
      mi_machine i = machine \<and> \<lparr>dc_machine = machine, dc_fingerprint = mi_fingerprint i\<rparr> \<in> set declared"
    and "find (\<lambda>minted. mi_fingerprint minted = presented) (en_identities enrolled) = Some i \<longleftrightarrow>
      mi_fingerprint i = presented \<and> \<lparr>dc_machine = mi_machine i, dc_fingerprint = presented\<rparr> \<in> set declared"
proof -
  have "mi_machine \<circ> minted_of = dc_machine" "mi_fingerprint \<circ> minted_of = dc_fingerprint"
    by (simp_all add: minted_of_def fun_eq_iff)
  then have distinct: "distinct (map mi_machine (en_identities enrolled))"
      "distinct (map mi_fingerprint (en_identities enrolled))"
    and set: "set (en_identities enrolled) = minted_of ` set declared"
    using assms by (auto simp: mint_Inr)
  show "find (\<lambda>minted. mi_machine minted = machine) (en_identities enrolled) = Some i \<longleftrightarrow>
      mi_machine i = machine \<and> \<lparr>dc_machine = machine, dc_fingerprint = mi_fingerprint i\<rparr> \<in> set declared"
    unfolding find_distinct [OF distinct(1)] set minted_iff by auto
  show "find (\<lambda>minted. mi_fingerprint minted = presented) (en_identities enrolled) = Some i \<longleftrightarrow>
      mi_fingerprint i = presented \<and> \<lparr>dc_machine = mi_machine i, dc_fingerprint = presented\<rparr> \<in> set declared"
    unfolding find_distinct [OF distinct(2)] set minted_iff by auto
qed

lemma identity_of_Inr:
  "mint declared = Inr enrolled \<Longrightarrow> identity_of enrolled machine = Inr i \<longleftrightarrow>
     mi_machine i = machine \<and> \<lparr>dc_machine = machine, dc_fingerprint = mi_fingerprint i\<rparr> \<in> set declared"
  by (simp add: identity_of_def result_iff found_machine)

lemma declared_once:
  assumes "mint declared = Inr enrolled"
    and "\<lparr>dc_machine = m, dc_fingerprint = f\<rparr> \<in> set declared"
    and "\<lparr>dc_machine = m', dc_fingerprint = f'\<rparr> \<in> set declared"
  shows "m = m' \<longleftrightarrow> f = f'"
proof -
  have "inj_on dc_machine (set declared)" "inj_on dc_fingerprint (set declared)"
    using assms(1) by (simp_all add: mint_Inr distinct_map)
  then show ?thesis
    using assms(2,3) inj_onD [of dc_machine "set declared" "\<lparr>dc_machine = m, dc_fingerprint = f\<rparr>"
        "\<lparr>dc_machine = m', dc_fingerprint = f'\<rparr>"]
      inj_onD [of dc_fingerprint "set declared" "\<lparr>dc_machine = m, dc_fingerprint = f\<rparr>"
        "\<lparr>dc_machine = m', dc_fingerprint = f'\<rparr>"] by auto
qed

text \<open>Identities are one to one with machines. Once minted, an identity is admitted on a
machine exactly when this very pair was declared; one that belongs to another machine is
refused as foreign under its owner's name, and one nobody declared is unattributed.\<close>

theorem identities_are_one_to_one:
  assumes "mint declared = Inr enrolled"
    and "\<lparr>dc_machine = machine, dc_fingerprint = own\<rparr> \<in> set declared"
  shows "admits enrolled machine presented =
     (if presented = own then Inr \<lparr>mi_machine = machine, mi_fingerprint = own\<rparr>
      else case find (\<lambda>d. dc_fingerprint d = presented) declared of
        Some d \<Rightarrow> Inl (ForeignIdentity machine (dc_machine d))
      | None \<Rightarrow> Inl (Unattributed machine))
    \<and> distinct (map dc_machine declared) \<and> distinct (map dc_fingerprint declared)
    \<and> length declared \<le> 64"
proof -
  have identity: "identity_of enrolled machine = Inr \<lparr>mi_machine = machine, mi_fingerprint = own\<rparr>"
    using assms by (simp add: identity_of_Inr [OF assms(1)])
  have "find (\<lambda>minted. mi_fingerprint minted = presented) (map minted_of declared)
      = map_option minted_of (find (\<lambda>d. dc_fingerprint d = presented) declared)"
    by (induction declared) (simp_all add: minted_of_def)
  then show ?thesis
    using assms(1) identity
    by (auto simp: admits_def mint_Inr minted_of_def split: option.split)
qed

definition sample_fingerprint :: "char \<Rightarrow> string" where
  "sample_fingerprint c = ''SHA256:'' @ replicate 43 c"

definition sample_declared :: "Declared list" where
  "sample_declared = [\<lparr>dc_machine = ''node-1'', dc_fingerprint = sample_fingerprint CHR ''A''\<rparr>,
     \<lparr>dc_machine = ''relais'', dc_fingerprint = sample_fingerprint CHR ''B''\<rparr>]"

lemma sample_minted: "\<exists>enrolled. mint sample_declared = Inr enrolled"
proof -
  have "mint sample_declared = Inr \<lparr>en_identities = map minted_of sample_declared\<rparr>"
    unfolding mint_Inr
    by (simp add: sample_declared_def sample_fingerprint_def is_machine_name_def is_fingerprint_def limits
        ascii_simps prefix_def list_all_iff code_def)
  then show ?thesis by blast
qed

theorem identities_are_one_to_one_witness:
  "\<exists>enrolled. mint sample_declared = Inr enrolled
     \<and> admits enrolled ''node-1'' (sample_fingerprint CHR ''B'') = Inl (ForeignIdentity ''node-1'' ''relais'')"
proof -
  obtain enrolled where e: "mint sample_declared = Inr enrolled" using sample_minted by blast
  have "\<lparr>dc_machine = ''node-1'', dc_fingerprint = sample_fingerprint CHR ''A''\<rparr> \<in> set sample_declared"
    by (simp add: sample_declared_def)
  from identities_are_one_to_one [OF e this] e show ?thesis
    by (auto simp: sample_declared_def sample_fingerprint_def)
qed

section \<open>The path to an active role\<close>

lemma enrolled_roles_Inr:
  "enrolled_roles machine roles placements = Inr all_roles \<longleftrightarrow>
     list_all (\<lambda>placement. apl_endpoint placement = machine) placements
     \<and> all_roles = roles @ map apl_role placements
     \<and> set roles \<inter> apl_role ` set placements = {} \<and> distinct (map apl_role placements)"
  by (induction machine roles placements rule: enrolled_roles.induct) auto

lemma admits_declared:
  "mint declared = Inr enrolled \<Longrightarrow> admits enrolled machine presented = Inr i \<Longrightarrow>
     \<lparr>dc_machine = machine, dc_fingerprint = presented\<rparr> \<in> set declared"
  by (auto simp: admits_def result_iff identity_of_Inr split: if_splits option.splits)

lemma authorize_enrolment_Inr:
  "authorize_enrolment cleared elevation placements enrolled machine = Inr enrolment \<longleftrightarrow>
     covers cleared machine \<and> placements \<noteq> []
     \<and> list_all (\<lambda>placement. apl_endpoint placement = machine) placements
     \<and> distinct (map apl_role placements)
     \<and> (\<exists>identity. identity_of enrolled machine = Inr identity
          \<and> enrolment = \<lparr>er_machine = machine, er_fingerprint = mi_fingerprint identity,
              er_roles = map apl_role placements\<rparr>)"
  by (auto simp: authorize_enrolment_def guard_Inr_iff result_iff enrolled_roles_Inr split: sum.splits)

lemma verify_path_Inr:
  "verify_path enrolled enrolment report = Inr verified \<longleftrightarrow>
     ar_machine report = er_machine enrolment
     \<and> (\<exists>identity. admits enrolled (er_machine enrolment) (ar_identity_fingerprint report) = Inr identity)
     \<and> \<not> ar_changed report \<and> ar_operation report = DIAGNOSTIC_OPERATION
     \<and> ar_consumed_sequence report \<noteq> 0 \<and> verified = \<lparr>pv_machine = er_machine enrolment\<rparr>"
  by (auto simp: verify_path_def guard_Inr_iff split: sum.splits)

lemma activate_Inr:
  "activate enrolment verified role = Inr activation \<longleftrightarrow>
     pv_machine verified = er_machine enrolment \<and> role \<in> set (er_roles enrolment)
     \<and> (role = Agent \<and> activation = \<lparr>ac_machine = er_machine enrolment, ac_unit = AGENT_UNIT\<rparr>
        \<or> role = Relay \<and> activation = \<lparr>ac_machine = er_machine enrolment, ac_unit = RELAY_UNIT\<rparr>)"
  by (cases role) (auto simp: activate_def)

text \<open>A role runs on a machine only at the end of its own path. When every witness was
obtained from the code that gives it, an activation means that the machine answered its
confirmed key among the cleared endpoints, that the role is an approved placement on that
very machine and neither an Auxiliary nor a Controller, and that the Auxiliary of that
machine, under the identity declared for it, reported a read-only diagnostic that
consumed a sequence and changed nothing.\<close>

theorem activation_rests_on_the_new_path:
  assumes "clear attempts = Inr cleared" and "mint declared = Inr enrolled"
    and "authorize_enrolment cleared elevation placements enrolled machine = Inr enrolment"
    and "verify_path enrolled enrolment report = Inr verified"
    and "activate enrolment verified role = Inr activation"
  shows "activation = \<lparr>ac_machine = machine, ac_unit =
        (if role = Agent then ''your-cloud-daemon.service'' else ''your-cloud-relay.service'')\<rparr>
    \<and> role \<in> {Agent, Relay}
    \<and> (\<exists>placement. placement \<in> set placements \<and> apl_role placement = role
         \<and> apl_endpoint placement = machine)
    \<and> (\<exists>attempt. attempt \<in> set attempts \<and> ea_name attempt = machine \<and> confirmed_answer attempt)
    \<and> \<lparr>dc_machine = machine, dc_fingerprint = ar_identity_fingerprint report\<rparr> \<in> set declared
    \<and> er_fingerprint enrolment = ar_identity_fingerprint report
    \<and> ar_machine report = machine \<and> \<not> ar_changed report
    \<and> ar_operation report = ''diagnose_protocol_read_only'' \<and> 0 < ar_consumed_sequence report"
proof -
  obtain identity where enrolment: "covers cleared machine"
      "list_all (\<lambda>placement. apl_endpoint placement = machine) placements"
      "identity_of enrolled machine = Inr identity"
      "enrolment = \<lparr>er_machine = machine, er_fingerprint = mi_fingerprint identity,
              er_roles = map apl_role placements\<rparr>"
    using assms(3) unfolding authorize_enrolment_Inr by blast
  have report: "ar_machine report = machine" "\<not> ar_changed report"
      "ar_operation report = DIAGNOSTIC_OPERATION" "ar_consumed_sequence report \<noteq> 0"
      "\<lparr>dc_machine = machine, dc_fingerprint = ar_identity_fingerprint report\<rparr> \<in> set declared"
    using assms(4) enrolment(4) by (auto simp: verify_path_Inr dest: admits_declared [OF assms(2)])
  have "mi_fingerprint identity = ar_identity_fingerprint report"
    using enrolment(3) report(5) declared_once [OF assms(2)] by (auto simp: identity_of_Inr [OF assms(2)])
  moreover have "\<exists>attempt. attempt \<in> set attempts \<and> ea_name attempt = machine \<and> confirmed_answer attempt"
    using enrolment(1) assms(1) by (auto simp: covers_iff clear_Inr list_all_iff)
  moreover have "0 < ar_consumed_sequence report" using report(4) by (simp add: word_neq_0_conv)
  ultimately show ?thesis
    using assms(5) enrolment(2,4) report
    by (auto simp: activate_Inr AGENT_UNIT_def RELAY_UNIT_def DIAGNOSTIC_OPERATION_def list_all_iff)
qed

theorem activation_rests_on_the_new_path_witness:
  "\<exists>enrolled enrolment verified. mint sample_declared = Inr enrolled
     \<and> authorize_enrolment \<lparr>pc_endpoints = [''node-1'']\<rparr> \<lparr>el_route = RootRoute\<rparr>
         [\<lparr>apl_role = Relay, apl_endpoint = ''node-1''\<rparr>] enrolled ''node-1'' = Inr enrolment
     \<and> activate enrolment verified Relay
         = Inr \<lparr>ac_machine = ''node-1'', ac_unit = ''your-cloud-relay.service''\<rparr>"
proof -
  let ?cleared = "\<lparr>pc_endpoints = [''node-1'']\<rparr>"
  let ?placements = "[\<lparr>apl_role = Relay, apl_endpoint = ''node-1''\<rparr>]"
  let ?report = "\<lparr>ar_machine = ''node-1'', ar_operation = DIAGNOSTIC_OPERATION, ar_changed = False,
    ar_consumed_sequence = 1, ar_identity_fingerprint = sample_fingerprint CHR ''A''\<rparr>"
  let ?enrolment = "\<lparr>er_machine = ''node-1'', er_fingerprint = sample_fingerprint CHR ''A'', er_roles = [Relay]\<rparr>"
  obtain enrolled where minted: "mint sample_declared = Inr enrolled" using sample_minted by blast
  have identity: "identity_of enrolled ''node-1''
      = Inr \<lparr>mi_machine = ''node-1'', mi_fingerprint = sample_fingerprint CHR ''A''\<rparr>"
    by (simp add: identity_of_Inr [OF minted] sample_declared_def)
  then have enrolment: "authorize_enrolment ?cleared \<lparr>el_route = RootRoute\<rparr> ?placements enrolled ''node-1''
      = Inr ?enrolment"
    by (simp add: authorize_enrolment_Inr covers_iff)
  have verified: "verify_path enrolled ?enrolment ?report = Inr \<lparr>pv_machine = ''node-1''\<rparr>"
    using identity by (simp add: verify_path_Inr admits_def)
  have active: "activate ?enrolment \<lparr>pv_machine = ''node-1''\<rparr> Relay
      = Inr \<lparr>ac_machine = ''node-1'', ac_unit = RELAY_UNIT\<rparr>"
    by (simp add: activate_Inr)
  from activation_rests_on_the_new_path [OF sample_cleared minted enrolment verified active]
  have "RELAY_UNIT = ''your-cloud-relay.service''" by simp
  with minted enrolment active show ?thesis by auto
qed

section \<open>What the account cannot write\<close>

text \<open>A node nobody but root can change: the conditions a judged path meets.\<close>

definition held_by_root :: "ObservedPath \<Rightarrow> bool" where
  "held_by_root observed =
     (op_uid observed = 0 \<and> and (op_mode observed) 0x10 = 0 \<and> and (op_mode observed) 0x2 = 0
      \<and> and (op_mode observed) 0xC00 = 0)"

lemma judge_one_Inr:
  "judge_one observed account = Inr u \<longleftrightarrow>
     prefix ''/'' (op_path observed) \<and> \<not> contains_str (op_path observed) ''/..''
     \<and> \<not> contains_str (op_path observed) ''/./''
     \<and> (1 < length (op_path observed) \<longrightarrow> \<not> suffix ''/'' (op_path observed))
     \<and> held_by_root observed
     \<and> (la_uid account = 0 \<longrightarrow> and (op_mode observed) 0x80 = 0)"
  by (auto simp: judge_one_def Let_def held_by_root_def)

lemma judge_each_Inr:
  "judge_each chain account = Inr u \<longleftrightarrow> list_all (\<lambda>observed. judge_one observed account = Inr ()) chain"
  by (induction chain account rule: judge_each.induct) (auto simp: result_iff)

lemma only_directories_Inr:
  "only_directories chain = Inr u \<longleftrightarrow> list_all (\<lambda>observed. op_kind observed = DirectoryPath) chain"
  by (induction chain rule: only_directories.induct) (auto split: PathKind.splits)

lemma is_child_of_iff:
  "is_child_of parent child \<longleftrightarrow>
     (\<exists>name. name \<noteq> [] \<and> CHR ''/'' \<notin> set name
        \<and> child = (if parent = ''/'' then ''/'' else parent @ ''/'') @ name)"
proof -
  have "(case r of None \<Rightarrow> False | Some x \<Rightarrow> P x) \<longleftrightarrow> (\<exists>x. r = Some x \<and> P x)" for r :: "string option" and P
    by (cases r) simp_all
  then show ?thesis unfolding is_child_of_def strip_prefix_Some by (simp only: strip_prefix_Some) blast
qed

text \<open>The path a list of names spells, and the chain of its ancestors.\<close>

definition spelled :: "string list \<Rightarrow> string" where
  "spelled names = (if names = [] then ''/'' else concat (map (\<lambda>name. ''/'' @ name) names))"

definition plain_name :: "string \<Rightarrow> bool" where
  "plain_name name = (name \<noteq> [] \<and> CHR ''/'' \<notin> set name)"

lemma spelled_child:
  "list_all plain_name names \<Longrightarrow>
     is_child_of (spelled names) child \<longleftrightarrow> (\<exists>name. plain_name name \<and> child = spelled (names @ [name]))"
proof -
  assume names: "list_all plain_name names"
  have "spelled names = ''/'' \<longleftrightarrow> names = []"
  proof (cases names)
    case (Cons a rest)
    with names have "a \<noteq> []" by (simp add: plain_name_def)
    with Cons show ?thesis by (simp add: spelled_def)
  qed (simp add: spelled_def)
  then show ?thesis
    unfolding is_child_of_iff by (auto simp: spelled_def plain_name_def)
qed

lemma parent_chain_snoc:
  "parent_chain (chain @ [leaf]) = Inr () \<longleftrightarrow>
     parent_chain chain = Inr () \<and> (chain = [] \<or> is_child_of (op_path (last chain)) (op_path leaf))"
  by (induction chain rule: parent_chain.induct) (auto split: if_splits)

lemma chain_spells:
  assumes "parent_chain chain = Inr ()" "chain \<noteq> []" "op_path (hd chain) = ''/''"
  shows "\<exists>names. list_all plain_name names \<and> op_path (last chain) = spelled names
    \<and> map op_path chain = map (\<lambda>i. spelled (take i names)) [0..<Suc (length names)]"
  using assms
proof (induction chain rule: rev_induct)
  case (snoc leaf chain)
  show ?case
  proof (cases "chain = []")
    case True
    with snoc.prems show ?thesis by (intro exI [of _ "[]"]) (simp add: spelled_def)
  next
    case False
    with snoc obtain names where names: "list_all plain_name names" "op_path (last chain) = spelled names"
        "map op_path chain = map (\<lambda>i. spelled (take i names)) [0..<Suc (length names)]"
      by (auto simp: parent_chain_snoc)
    moreover have "is_child_of (spelled names) (op_path leaf)"
      using snoc.prems False names(2) by (simp add: parent_chain_snoc)
    ultimately obtain name where name: "plain_name name" "op_path leaf = spelled (names @ [name])"
      using spelled_child by blast
    have "map op_path (chain @ [leaf])
        = map (\<lambda>i. spelled (take i (names @ [name]))) [0..<Suc (length (names @ [name]))]"
      using names(3) name(2) by simp
    with names(1) name show ?thesis by (intro exI [of _ "names @ [name]"]) simp
  qed
qed simp

lemma contains_append: "contains_str (a @ p @ b) p"
  by (auto simp: contains_str_iff)

text \<open>Custody means that root alone holds the whole path. Under a locked account, an accepted
chain spells one path name by name from the root of the file system, no name being an
ascent; every node on it but the last is a directory, the last is a file, and each is
owned by root and writable by no group, by no other user and under no borrowed identity.\<close>

theorem custody_is_held_by_root:
  assumes "judge_account observed = Inr account" and "judge_custody chain account = Inr custody"
  shows "\<exists>names. cu_leaf custody = spelled names
      \<and> list_all (\<lambda>name. plain_name name \<and> \<not> prefix ''..'' name) names
      \<and> map op_path chain = map (\<lambda>i. spelled (take i names)) [0..<Suc (length names)]
      \<and> map op_kind chain = replicate (length names) DirectoryPath @ [FilePath]
      \<and> list_all held_by_root chain \<and> la_uid account \<noteq> 0 \<and> la_uid account \<le> 999"
proof -
  have uid: "la_uid account \<noteq> 0 \<and> la_uid account \<le> 999"
    using assms(1) by (auto simp: judge_account_def limits split: if_splits list.splits)
  have chain: "chain \<noteq> []" "op_path (hd chain) = ''/''" "parent_chain chain = Inr ()"
      "list_all (\<lambda>x. op_kind x = DirectoryPath) (butlast chain)" "op_kind (last chain) = FilePath"
      "list_all (\<lambda>x. judge_one x account = Inr ()) chain" "cu_leaf custody = op_path (last chain)"
    using assms(2) by (auto simp: judge_custody_def Let_def result_iff only_directories_Inr judge_each_Inr
        split: if_splits PathKind.splits)
  obtain names where names: "list_all plain_name names" "op_path (last chain) = spelled names"
      "map op_path chain = map (\<lambda>i. spelled (take i names)) [0..<Suc (length names)]"
    using chain_spells [OF chain(3,1,2)] by blast
  have length: "length chain = Suc (length names)" using arg_cong [OF names(3), of length] by simp
  have "map op_kind (butlast chain) = replicate (length names) DirectoryPath"
    using chain(4) length by (intro replicate_eqI) (auto simp: list_all_iff)
  then have kinds: "map op_kind chain = replicate (length names) DirectoryPath @ [FilePath]"
    using append_butlast_last_id [OF chain(1)] chain(5) by (metis list.map(1,2) map_append)
  have last: "judge_one (last chain) account = Inr ()"
    using chain(1,6) by (simp add: list_all_iff)
  have "(@) ''/'' = (#) CHR ''/''" by (simp add: fun_eq_iff)
  have "\<not> prefix ''..'' name" if "name \<in> set names" for name
  proof
    assume "prefix ''..'' name"
    then obtain r where r: "name = ''..'' @ r" by (auto simp: prefix_def)
    from that obtain a b where "names = a @ name # b" by (auto dest: split_list)
    then have "spelled names = concat (map (\<lambda>name. ''/'' @ name) a) @ ''/..''
        @ (r @ concat (map (\<lambda>name. ''/'' @ name) b))"
      using r \<open>(@) ''/'' = (#) CHR ''/''\<close> by (simp add: spelled_def)
    then have "contains_str (spelled names) ''/..''" using contains_append by metis
    then show False using last names(2) by (simp add: judge_one_Inr)
  qed
  moreover have "list_all held_by_root chain"
    using chain(6) by (auto simp: judge_one_Inr list_all_iff)
  ultimately show ?thesis
    using names kinds uid chain(7) by (intro exI [of _ names]) (auto simp: list_all_iff)
qed

definition sample_chain :: "ObservedPath list" where
  "sample_chain =
     [\<lparr>op_path = ''/'', op_uid = 0, op_gid = 0, op_mode = 0x1ED, op_kind = DirectoryPath\<rparr>,
      \<lparr>op_path = ''/etc'', op_uid = 0, op_gid = 0, op_mode = 0x1ED, op_kind = DirectoryPath\<rparr>,
      \<lparr>op_path = ''/etc/keys'', op_uid = 0, op_gid = 0, op_mode = 0x1A4, op_kind = FilePath\<rparr>]"

definition sample_account :: ObservedAccount where
  "sample_account = \<lparr>oa_name = AUXILIARY_ACCOUNT, oa_uid = 998, oa_gid = 998, oa_shell = ''/bin/sh'',
     oa_home = ''/nonexistent'', oa_password_field = ''!'', oa_supplementary_groups = []\<rparr>"

theorem custody_is_held_by_root_witness:
  "\<exists>account custody. judge_account sample_account = Inr account
     \<and> judge_custody sample_chain account = Inr custody \<and> cu_leaf custody = ''/etc/keys''
     \<and> list_all held_by_root sample_chain"
proof -
  let ?account = "\<lparr>la_name = AUXILIARY_ACCOUNT, la_uid = 998, la_gid = 998\<rparr>"
  have account: "judge_account sample_account = Inr ?account"
    by (simp add: judge_account_def sample_account_def REQUIRED_SHELL_def REQUIRED_HOME_def
        LOCKED_WITHOUT_PASSWORD_def limits)
  have custody: "judge_custody sample_chain ?account = Inr \<lparr>cu_leaf = ''/etc/keys''\<rparr>"
    by (simp add: judge_custody_def sample_chain_def Let_def is_child_of_def strip_prefix_def judge_one_def
        suffix_def prefix_def)
  from custody_is_held_by_root [OF account custody] account custody show ?thesis by auto
qed

end
