(* ===== verification/Forced_Entry.thy ===== *)
theory Forced_Entry
  imports Machine_Identity Std_White Constats
begin

text \<open>
  \<open>machine_identity/entry.rs\<close>, the one \<open>authorized_keys\<close> entry, rendered and judged;
  and \<open>machine_identity/elevation_rule.rs\<close>, the one sudo rule, rendered and judged.
\<close>

section \<open>The entry\<close>

definition SUDO_BINARY :: string where "SUDO_BINARY = ''/usr/bin/sudo''"

definition AUXILIARY_SUBJECT :: "string list" where "AUXILIARY_SUBJECT = [''auxiliary'', ''approve'']"

definition REQUIRED_OPTIONS :: "string list" where
  "REQUIRED_OPTIONS = [''restrict'', ''no-agent-forwarding'', ''no-port-forwarding'', ''no-pty'',
     ''no-user-rc'', ''no-X11-forwarding'']"

definition KEY_ALGORITHM :: string where "KEY_ALGORITHM = ''ssh-ed25519''"

definition MAX_ENTRY_BYTES :: nat where [limits]: "MAX_ENTRY_BYTES = 1024"

definition forced_command :: string where
  "forced_command = SUDO_BINARY @ '' -n '' @ PACKAGE_BINARY @ '' '' @ AUXILIARY_SUBJECT ! 0 @ '' ''
     @ AUXILIARY_SUBJECT ! 1"

record BoundedEntry =
  be_algorithm :: string
  be_key :: string

datatype EntryRefusal =
    EmptyEntry
  | SeveralEntries nat
  | EntryTooLarge nat
  | NoOptions
  | MissingRestriction string
  | NoForcedCommand
  | ForcedCommandNotExact string
  | ForcedCommandCarriesTheClientCommand
  | UnknownOption string
  | UnsupportedAlgorithm string
  | MalformedEntry

definition is_base64 :: "string \<Rightarrow> bool" where
  "is_base64 v =
     (v \<noteq> [] \<and> list_all (\<lambda>c. is_ascii_alphanumeric c \<or> c = CHR ''+'' \<or> c = CHR ''/'' \<or> c = CHR ''='') v)"

text \<open>\<open>[..].join(",")\<close>.\<close>

abbreviation join_options :: "string list \<Rightarrow> string" where
  "join_options options \<equiv> join_on CHR '','' options"

definition render_entry :: "string \<Rightarrow> string \<Rightarrow> EntryRefusal + string" where
  "render_entry algorithm key =
     (if algorithm \<noteq> KEY_ALGORITHM then Inl (UnsupportedAlgorithm algorithm)
      else if key = [] \<or> \<not> is_base64 key then Inl MalformedEntry
      else
        let options = join_options REQUIRED_OPTIONS;
            line = ''command='' @ [CHR 0x22] @ forced_command @ [CHR 0x22] @ '','' @ options @ '' ''
              @ algorithm @ '' '' @ key @ [newline]
        in if length line > MAX_ENTRY_BYTES then Inl (EntryTooLarge (length line)) else Inr line)"

text \<open>\<open>current.push(byte as char)\<close>: a byte above 127 becomes the two bytes of its code point.\<close>

definition push_byte :: "string \<Rightarrow> char \<Rightarrow> string" where
  "push_byte current c =
     current @ (if code c < 128 then [c]
                else [char_of (192 + code c div 64), char_of (128 + code c mod 64)])"

text \<open>The loop of \<open>split_options\<close>, with its quoting, its options and the one being read.\<close>

fun split_options_from ::
  "bool \<Rightarrow> bool \<Rightarrow> string list \<Rightarrow> string \<Rightarrow> string \<Rightarrow> EntryRefusal + string list \<times> string" where
  "split_options_from quoted escaped options current [] = Inl MalformedEntry"
| "split_options_from quoted escaped options current (c # s) =
     (if escaped then split_options_from quoted False options (push_byte current c) s
      else if c = CHR 0x5C \<and> quoted then split_options_from quoted True options current s
      else if c = CHR 0x22 then split_options_from (\<not> quoted) escaped options (current @ [CHR 0x22]) s
      else if c = CHR '','' \<and> \<not> quoted
      then split_options_from quoted escaped (options @ [current]) [] s
      else if (c = CHR '' '' \<or> c = CHR 0x09) \<and> \<not> quoted
      then Inr (options @ [current], trim_start_str s)
      else split_options_from quoted escaped options (push_byte current c) s)"

definition split_options :: "string \<Rightarrow> EntryRefusal + string list \<times> string" where
  "split_options line =
     (if prefix KEY_ALGORITHM line then Inr ([], line)
      else split_options_from False False [] [] line)"

definition unquote :: "string \<Rightarrow> string" where
  "unquote v =
     (let trimmed = trim_str v in
      case (case strip_prefix [CHR 0x22] trimmed of
              None \<Rightarrow> None | Some rest \<Rightarrow> strip_suffix_char (CHR 0x22) rest) of
        Some inner \<Rightarrow> inner
      | None \<Rightarrow> trimmed)"

fun read_options :: "string list \<Rightarrow> string option \<Rightarrow> EntryRefusal + string option" where
  "read_options [] command = Inr command"
| "read_options (option # rest) command =
     (case strip_prefix ''command='' option of
        Some v \<Rightarrow> read_options rest (Some (unquote v))
      | None \<Rightarrow>
          if option \<notin> set REQUIRED_OPTIONS then Inl (UnknownOption option)
          else read_options rest command)"

fun all_restricted :: "string list \<Rightarrow> string list \<Rightarrow> EntryRefusal + unit" where
  "all_restricted options [] = Inr ()"
| "all_restricted options (required # rest) =
     (if required \<notin> set options then Inl (MissingRestriction required)
      else all_restricted options rest)"

definition judge_line :: "string \<Rightarrow> EntryRefusal + BoundedEntry" where
  "judge_line line =
     and_then (split_options line) (\<lambda>(options, remainder).
     if options = [] then Inl NoOptions
     else
       and_then (read_options options None) (\<lambda>found.
       and_then (ok_or found NoForcedCommand) (\<lambda>command.
       if contains_str command ''SSH_ORIGINAL_COMMAND'' then Inl ForcedCommandCarriesTheClientCommand
       else if command \<noteq> forced_command then Inl (ForcedCommandNotExact command)
       else
         and_then (all_restricted options REQUIRED_OPTIONS) (\<lambda>_.
         case split_whitespace remainder of
           algorithm # key # _ \<Rightarrow>
             if algorithm \<noteq> KEY_ALGORITHM then Inl (UnsupportedAlgorithm algorithm)
             else if \<not> is_base64 key then Inl MalformedEntry
             else Inr \<lparr>be_algorithm = algorithm, be_key = key\<rparr>
         | _ \<Rightarrow> Inl MalformedEntry))))"

definition judge_entry :: "string \<Rightarrow> EntryRefusal + BoundedEntry" where
  "judge_entry content =
     (if length content > MAX_ENTRY_BYTES then Inl (EntryTooLarge (length content))
      else
        case filter (\<lambda>line. line \<noteq> [] \<and> \<not> prefix ''#'' line) (map trim_str (lines content)) of
          [] \<Rightarrow> Inl EmptyEntry
        | [line] \<Rightarrow> judge_line line
        | several \<Rightarrow> Inl (SeveralEntries (length several)))"

section \<open>What is rendered is what is accepted\<close>

lemma split_plain:
  "list_all (\<lambda>c. code c < 128 \<and> c \<notin> {CHR 0x22, CHR '','', CHR '' '', CHR 0x09}) seg \<Longrightarrow>
     split_options_from False False options current (seg @ rest)
       = split_options_from False False options (current @ seg) rest"
  by (induction seg arbitrary: current) (auto simp: push_byte_def)

lemma split_quoted:
  "list_all (\<lambda>c. code c < 128 \<and> c \<notin> {CHR 0x22, CHR 0x5C}) seg \<Longrightarrow>
     split_options_from True False options current (seg @ rest)
       = split_options_from True False options (current @ seg) rest"
  by (induction seg arbitrary: current) (auto simp: push_byte_def)

lemma split_list:
  "list_all (list_all (\<lambda>c. code c < 128 \<and> c \<notin> {CHR 0x22, CHR '','', CHR '' '', CHR 0x09})) names \<Longrightarrow>
     names \<noteq> [] \<Longrightarrow>
     split_options_from False False options [] (join_on CHR '','' names @ CHR '' '' # rest)
       = Inr (options @ names, trim_start_str rest)"
proof (induction names arbitrary: options)
  case (Cons name names)
  then show ?case
    using split_plain [of name options "[]"] by (cases names) simp_all
qed simp

lemma required_plain:
  "list_all (list_all (\<lambda>c. code c < 128 \<and> c \<notin> {CHR 0x22, CHR '','', CHR '' '', CHR 0x09})) REQUIRED_OPTIONS"
  by (simp add: REQUIRED_OPTIONS_def code_def)

lemma command_plain:
  "list_all (\<lambda>c. code c < 128 \<and> c \<notin> {CHR 0x22, CHR 0x5C}) forced_command"
  by (simp add: forced_command_def SUDO_BINARY_def PACKAGE_BINARY_def AUXILIARY_SUBJECT_def code_def)

lemma base64_solid: "is_base64 key \<Longrightarrow> solid key \<and> key \<noteq> []"
  by (auto simp: is_base64_def solid_def list_all_iff is_white_def ascii_simps code_def)

text \<open>The line an entry is, without its line feed.\<close>

definition entry_line :: "string \<Rightarrow> string" where
  "entry_line key = ''command='' @ [CHR 0x22] @ forced_command @ [CHR 0x22] @ '','' @ join_options REQUIRED_OPTIONS
     @ '' '' @ KEY_ALGORITHM @ '' '' @ key"

lemma split_entry_line:
  "split_options (entry_line key)
     = Inr ((''command='' @ [CHR 0x22] @ forced_command @ [CHR 0x22]) # REQUIRED_OPTIONS,
            trim_start_str (KEY_ALGORITHM @ '' '' @ key))"
proof -
  have "\<not> prefix KEY_ALGORITHM (entry_line key)"
    by (simp add: KEY_ALGORITHM_def entry_line_def)
  moreover have "split_options_from False False [] [] (entry_line key)
      = split_options_from False False [] ''command='' ([CHR 0x22] @ forced_command @ [CHR 0x22]
          @ '','' @ join_options REQUIRED_OPTIONS @ '' '' @ KEY_ALGORITHM @ '' '' @ key)"
    unfolding entry_line_def by (subst split_plain) (simp_all add: code_def)
  moreover have "\<dots> = split_options_from True False [] (''command='' @ [CHR 0x22] @ forced_command)
      ([CHR 0x22] @ '','' @ join_options REQUIRED_OPTIONS @ '' '' @ KEY_ALGORITHM @ '' '' @ key)"
    using split_quoted [OF command_plain, of "[]" "''command='' @ [CHR 0x22]"] by simp
  ultimately show ?thesis
    using split_list [OF required_plain, of "[''command='' @ [CHR 0x22] @ forced_command @ [CHR 0x22]]"]
    by (simp add: split_options_def REQUIRED_OPTIONS_def [THEN arg_cong [where f = "\<lambda>x. x = []"]])
qed

lemma unquote_quoted:
  "s \<noteq> [] \<Longrightarrow> is_ascii s \<Longrightarrow> unquote ([CHR 0x22] @ s @ [CHR 0x22]) = s"
proof -
  assume s: "s \<noteq> []" "is_ascii s"
  have "\<not> is_white CHR 0x22" by (simp add: is_white_def code_def)
  then have "trim_str ([CHR 0x22] @ s @ [CHR 0x22]) = [CHR 0x22] @ s @ [CHR 0x22]"
    using s by (subst trim_str_ascii) (simp_all add: trim_closed code_def)
  moreover have "strip_prefix [CHR 0x22] ([CHR 0x22] @ s @ [CHR 0x22]) = Some (s @ [CHR 0x22])"
    by (simp add: strip_prefix_def)
  moreover have "strip_suffix_char CHR 0x22 (s @ [CHR 0x22]) = Some s"
    by (simp add: strip_suffix_char_def)
  ultimately show ?thesis
    unfolding unquote_def Let_def by (simp only: option.case)
qed

lemma forced_ascii: "is_ascii forced_command \<and> forced_command \<noteq> []"
  using command_plain by (simp add: is_ascii_def list_all_iff forced_command_def SUDO_BINARY_def)

lemma read_required: "read_options REQUIRED_OPTIONS command = Inr command"
  by (simp add: REQUIRED_OPTIONS_def strip_prefix_def)

lemma all_restricted_Inr: "all_restricted options required = Inr u \<longleftrightarrow> set required \<subseteq> set options"
  by (induction required) auto

lemma judge_entry_line:
  assumes "is_base64 key"
  shows "judge_line (entry_line key) = Inr \<lparr>be_algorithm = KEY_ALGORITHM, be_key = key\<rparr>"
proof -
  have key: "solid key" "key \<noteq> []" using base64_solid assms by auto
  have algorithm: "solid KEY_ALGORITHM" "KEY_ALGORITHM \<noteq> []"
    by (simp_all add: KEY_ALGORITHM_def solid_def is_white_def code_def)
  have "trim_start_str (KEY_ALGORITHM @ '' '' @ key) = KEY_ALGORITHM @ '' '' @ key"
    by (rule trim_start_str_closed) (simp add: KEY_ALGORITHM_def is_white_def code_def)
  moreover have "split_whitespace (KEY_ALGORITHM @ '' '' @ key) = [KEY_ALGORITHM, key]"
    using split_whitespace_Cons [OF algorithm, of "CHR '' ''" key] split_whitespace_solid [OF key(1)] key(2)
    by (simp add: is_white_def code_def)
  moreover have "read_options ((''command='' @ [CHR 0x22] @ forced_command @ [CHR 0x22]) # REQUIRED_OPTIONS) None
      = Inr (Some forced_command)"
    using unquote_quoted [of forced_command] forced_ascii by (simp add: strip_prefix_def read_required)
  moreover have "\<not> contains_str forced_command ''SSH_ORIGINAL_COMMAND''"
    by (simp add: forced_command_def SUDO_BINARY_def PACKAGE_BINARY_def AUXILIARY_SUBJECT_def)
  moreover have "all_restricted (option # REQUIRED_OPTIONS) REQUIRED_OPTIONS = Inr ()" for option
    by (simp only: all_restricted_Inr) auto
  ultimately show ?thesis
    using assms by (simp add: judge_line_def split_entry_line)
qed

lemma entry_plain:
  assumes "is_base64 key"
  shows "newline \<notin> set (entry_line key)" "is_ascii (entry_line key)" "\<not> is_white (last (entry_line key))"
proof -
  have "solid key" "key \<noteq> []" using base64_solid assms by auto
  then show "newline \<notin> set (entry_line key)" "is_ascii (entry_line key)" "\<not> is_white (last (entry_line key))"
    by (auto simp: entry_line_def forced_command_def SUDO_BINARY_def PACKAGE_BINARY_def AUXILIARY_SUBJECT_def
        REQUIRED_OPTIONS_def KEY_ALGORITHM_def is_ascii_def code_def solid_def list_all_iff is_white_def)
qed

lemma entry_lines: "is_base64 key \<Longrightarrow> lines (entry_line key @ [newline]) = [entry_line key]"
proof -
  assume key: "is_base64 key"
  have "strip_carriage_return (entry_line key) = entry_line key"
    using entry_plain(3) [OF key]
    by (auto simp: strip_carriage_return_def strip_suffix_char_def is_white_def code_def)
  then show ?thesis using entry_plain(1) [OF key] by (simp add: lines_def split_on_append)
qed

lemma judge_rendered_line:
  assumes "is_base64 key" "length (entry_line key) < 1024"
  shows "judge_entry (entry_line key @ [newline]) = Inr \<lparr>be_algorithm = KEY_ALGORITHM, be_key = key\<rparr>"
proof -
  have "trim_str (entry_line key) = entry_line key"
    using entry_plain(3) [OF assms(1)] by (subst trim_str_ascii [OF entry_plain(2) [OF assms(1)]])
      (simp add: trim_closed entry_line_def is_white_def code_def)
  moreover have "entry_line key \<noteq> []" "\<not> prefix ''#'' (entry_line key)"
    by (simp_all add: entry_line_def)
  ultimately show ?thesis
    using judge_entry_line [OF assms(1)] assms(2) by (simp add: judge_entry_def limits entry_lines [OF assms(1)])
qed

text \<open>The entry the Assistant writes is the entry it accepts. Every key it renders gives one
line, the forced command and the six restrictions before the key, within the bound; and
judging that file gives back the algorithm and that very key.\<close>

theorem rendered_entry_is_accepted:
  assumes "render_entry algorithm key = Inr line"
  shows "judge_entry line = Inr \<lparr>be_algorithm = ''ssh-ed25519'', be_key = key\<rparr>
    \<and> algorithm = ''ssh-ed25519'' \<and> length line \<le> 1024
    \<and> line = ''command='' @ [CHR 0x22] @ ''/usr/bin/sudo -n /usr/lib/your-cloud/your-cloud auxiliary approve''
        @ [CHR 0x22] @ '',restrict,no-agent-forwarding,no-port-forwarding,no-pty,no-user-rc,no-X11-forwarding ssh-ed25519 ''
        @ key @ [newline]"
proof -
  have line: "algorithm = KEY_ALGORITHM" "is_base64 key" "line = entry_line key @ [newline]" "length line \<le> 1024"
    using assms by (auto simp: render_entry_def Let_def entry_line_def limits split: if_splits)
  then show ?thesis
    using judge_rendered_line [OF line(2)]
    by (simp add: entry_line_def forced_command_def SUDO_BINARY_def PACKAGE_BINARY_def AUXILIARY_SUBJECT_def
        REQUIRED_OPTIONS_def KEY_ALGORITHM_def)
qed

theorem rendered_entry_is_accepted_witness:
  "judge_entry (entry_line ''AAAAC3Nz+/0='' @ [newline])
     = Inr \<lparr>be_algorithm = ''ssh-ed25519'', be_key = ''AAAAC3Nz+/0=''\<rparr>"
proof -
  have "render_entry ''ssh-ed25519'' ''AAAAC3Nz+/0='' = Inr (entry_line ''AAAAC3Nz+/0='' @ [newline])"
    by (simp add: render_entry_def KEY_ALGORITHM_def is_base64_def ascii_simps code_def entry_line_def limits Let_def
        forced_command_def SUDO_BINARY_def PACKAGE_BINARY_def AUXILIARY_SUBJECT_def REQUIRED_OPTIONS_def)
  from rendered_entry_is_accepted [OF this] show ?thesis by (rule conjunct1)
qed

lemma read_options_Some:
  "read_options options found = Inr (Some command) \<Longrightarrow>
     (\<forall>option \<in> set options. option \<in> set REQUIRED_OPTIONS \<or> prefix ''command='' option)
     \<and> (found = Some command \<or> (\<exists>v. ''command='' @ v \<in> set options \<and> unquote v = command))"
proof (induction options found rule: read_options.induct)
  case (2 option rest found)
  show ?case
  proof (cases "strip_prefix ''command='' option")
    case None
    then show ?thesis using 2 by (auto split: if_splits)
  next
    case (Some v)
    then have "option = ''command='' @ v" by (simp add: strip_prefix_Some)
    then show ?thesis using 2(2) [OF Some] 2(3) Some by auto
  qed
qed simp

lemma judge_line_Inr:
  assumes "judge_line line = Inr entry"
  obtains options remainder command key more where
    "split_options line = Inr (options, remainder)" "''command='' @ command \<in> set options"
    "unquote command = forced_command" "set REQUIRED_OPTIONS \<subseteq> set options"
    "\<forall>option \<in> set options. option \<in> set REQUIRED_OPTIONS \<or> prefix ''command='' option"
    "split_whitespace remainder = KEY_ALGORITHM # key # more" "is_base64 key"
    "entry = \<lparr>be_algorithm = KEY_ALGORITHM, be_key = key\<rparr>"
proof -
  obtain options remainder where split: "split_options line = Inr (options, remainder)"
    using assms by (auto simp: judge_line_def result_iff)
  then have read: "read_options options None = Inr (Some forced_command)"
      and restricted: "set REQUIRED_OPTIONS \<subseteq> set options"
    using assms by (auto simp: judge_line_def result_iff all_restricted_Inr split: if_splits)
  from read_options_Some [OF read] obtain command where
    "''command='' @ command \<in> set options" "unquote command = forced_command"
    "\<forall>option \<in> set options. option \<in> set REQUIRED_OPTIONS \<or> prefix ''command='' option"
    by blast
  moreover obtain key more where "split_whitespace remainder = KEY_ALGORITHM # key # more" "is_base64 key"
      "entry = \<lparr>be_algorithm = KEY_ALGORITHM, be_key = key\<rparr>"
    using assms split
    by (auto simp: judge_line_def result_iff split: if_splits list.splits)
  ultimately show thesis using split restricted that by blast
qed


lemma sample_entry_accepted:
  "judge_entry (entry_line ''AAAA'' @ [newline]) = Inr \<lparr>be_algorithm = KEY_ALGORITHM, be_key = ''AAAA''\<rparr>"
  by (rule judge_rendered_line) (simp_all add: is_base64_def ascii_simps code_def entry_line_def
      forced_command_def SUDO_BINARY_def PACKAGE_BINARY_def AUXILIARY_SUBJECT_def REQUIRED_OPTIONS_def KEY_ALGORITHM_def)


text \<open>
  The reading of quoted text drops every backslash, so the command is compared after
  that: a command with a backslash in it is accepted as the forced one.
\<close>

lemma backslash_is_dropped:
  "judge_entry ((''command='' @ [CHR 0x22] @ ''/usr/bin/sud'' @ [CHR 0x5C]
       @ ''o -n /usr/lib/your-cloud/your-cloud auxiliary approve'' @ [CHR 0x22]
       @ '',restrict,no-agent-forwarding,no-port-forwarding,no-pty,no-user-rc,no-X11-forwarding ssh-ed25519 AAAA'')
       @ [newline])
     = Inr \<lparr>be_algorithm = ''ssh-ed25519'', be_key = ''AAAA''\<rparr>" (is "judge_entry (?line @ _) = _")
proof -
  have "newline \<notin> set ?line" by simp
  then have "lines (?line @ [newline]) = [?line]"
    by (simp add: lines_def split_on_append strip_carriage_return_def strip_suffix_char_def)
  moreover have "is_ascii ?line" by (simp add: is_ascii_def code_def)
  then have "trim_str ?line = ?line"
    by (simp add: trim_str_ascii trim_closed is_white_def code_def)
  moreover have "split_options ?line = split_options (entry_line ''AAAA'')"
    by (simp add: split_options_def entry_line_def KEY_ALGORITHM_def push_byte_def code_def
        forced_command_def SUDO_BINARY_def PACKAGE_BINARY_def AUXILIARY_SUBJECT_def REQUIRED_OPTIONS_def)
  then have "judge_line ?line = judge_line (entry_line ''AAAA'')" by (simp add: judge_line_def)
  moreover have "is_base64 ''AAAA''" by (simp add: is_base64_def ascii_simps code_def)
  ultimately show ?thesis
    using judge_entry_line [of "''AAAA''"]
    by (simp add: judge_entry_def limits KEY_ALGORITHM_def)
qed

end
