(* ===== verification/Elevation_Rule.thy ===== *)
theory Elevation_Rule
  imports Machine_Identity Forced_Entry
begin

text \<open>
  \<open>machine_identity/elevation_rule.rs\<close>: the one sudo rule, rendered, and judged as it is
  read back from a machine.
\<close>

section \<open>The rule\<close>

definition RULE_PATH :: string where "RULE_PATH = ''/etc/sudoers.d/60-your-cloud-auxiliary''"

definition MAX_RULE_BYTES :: nat where [limits]: "MAX_RULE_BYTES = 1024"

definition ACCEPTED_TAGS :: "string list" where "ACCEPTED_TAGS = [''NOPASSWD'', ''NOEXEC'']"

definition REQUIRED_DEFAULTS :: "string list" where
  "REQUIRED_DEFAULTS = [''!setenv'', ''env_reset'', ''!log_input'', ''!log_stdin'']"

definition authorised_command :: string where
  "authorised_command = PACKAGE_BINARY @ '' '' @ AUXILIARY_SUBJECT ! 0 @ '' '' @ AUXILIARY_SUBJECT ! 1"

record BoundedElevation =
  bl_account :: string
  bl_command :: string

datatype RuleRefusal =
    RuleEmpty
  | RuleTooLarge nat
  | SeveralRules nat
  | NotTheAuxiliaryAccount string
  | GroupRule string
  | IncludeDirective string
  | AliasDefinition string
  | RuleMalformed string
  | HostIsNotAll string
  | RunAsNotDeclared
  | RunAsIsNotRoot string
  | SetenvGranted
  | EnvironmentPreserved string
  | UnknownTag string
  | PasswordRequired
  | WildcardCommand string
  | CommandNotExact string
  | MissingDefault string

text \<open>\<open>[..].join(", ")\<close>.\<close>

fun join_str :: "string \<Rightarrow> string list \<Rightarrow> string" where
  "join_str p [] = []"
| "join_str p [v] = v"
| "join_str p (v # rest) = v @ p @ join_str p rest"

definition render_rule :: string where
  "render_rule = ''Defaults:'' @ AUXILIARY_ACCOUNT @ '' '' @ join_str '', '' REQUIRED_DEFAULTS @ [newline]
     @ AUXILIARY_ACCOUNT @ '' ALL=(root) NOPASSWD: '' @ authorised_command @ [newline]"

text \<open>The settings of one \<open>Defaults\<close> line, after that word.\<close>

definition line_settings :: "string \<Rightarrow> string list" where
  "line_settings rest =
     map (\<lambda>setting. if split_whitespace setting = [] then setting else last (split_whitespace setting))
       (filter (\<lambda>setting. setting \<noteq> [])
         (map trim_str
           (split_on CHR '','' (dropWhile (\<lambda>c. c \<in> {CHR '':'', CHR ''@'', CHR ''>'', CHR ''!''}) rest))))"

text \<open>The first loop of \<open>judge\<close>, with the settings and the specifications read so far.\<close>

fun read_rule_lines ::
  "string list \<Rightarrow> string list \<Rightarrow> string list \<Rightarrow> RuleRefusal + string list \<times> string list" where
  "read_rule_lines defaults specifications [] = Inr (defaults, specifications)"
| "read_rule_lines defaults specifications (line # rest) =
     (if prefix ''#include'' line \<or> prefix ''@include'' line
        \<or> prefix ''#includedir'' line \<or> prefix ''@includedir'' line
      then Inl (IncludeDirective line)
      else if prefix ''#'' line then read_rule_lines defaults specifications rest
      else if contains_str line ''_Alias'' then Inl (AliasDefinition line)
      else
        case strip_prefix ''Defaults'' line of
          Some r \<Rightarrow> read_rule_lines (defaults @ line_settings r) specifications rest
        | None \<Rightarrow> read_rule_lines defaults (specifications @ [line]) rest)"

fun refuse_environment :: "string list \<Rightarrow> RuleRefusal + unit" where
  "refuse_environment [] = Inr ()"
| "refuse_environment (setting # rest) =
     (if setting = ''setenv'' then Inl SetenvGranted
      else if prefix ''env_keep'' setting \<or> setting = ''!env_reset'' \<or> prefix ''env_file'' setting
      then Inl (EnvironmentPreserved setting)
      else refuse_environment rest)"

fun require_defaults :: "string list \<Rightarrow> string list \<Rightarrow> RuleRefusal + unit" where
  "require_defaults defaults [] = Inr ()"
| "require_defaults defaults (required # rest) =
     (if required \<notin> set defaults then Inl (MissingDefault required)
      else require_defaults defaults rest)"

lemma length_trim_str: "length (trim_str s) \<le> length s"
proof -
  have part: "length (concat (dropWhile P cs)) \<le> length (concat cs)" for P and cs :: "string list"
    by (induction cs) (auto simp: trans_le_add2)
  have turned: "length (concat (rev cs)) = length (concat cs)" for cs :: "string list"
    by (induction cs) simp_all
  have "length (trim_str s) \<le> length (concat (rev (dropWhile white_cell (cells s))))"
    using part [of white_cell "rev (dropWhile white_cell (cells s))"] by (simp add: trim_str_def turned)
  also have "\<dots> \<le> length (concat (cells s))" by (simp only: turned part)
  finally show ?thesis by simp
qed

text \<open>The \<open>while\<close> of \<open>judge_specification\<close>: the tags, and what follows them.\<close>

function read_tags :: "string \<Rightarrow> bool \<Rightarrow> RuleRefusal + bool \<times> string" where
  "read_tags rest no_password =
     (case split_once CHR '':'' rest of
        None \<Rightarrow> Inr (no_password, rest)
      | Some (candidate, remainder) \<Rightarrow>
          (let tag = trim_str candidate in
           if tag = [] \<or> \<not> list_all is_ascii_uppercase tag then Inr (no_password, rest)
           else if tag = ''SETENV'' then Inl SetenvGranted
           else if tag \<notin> set ACCEPTED_TAGS then Inl (UnknownTag tag)
           else read_tags (trim_str remainder) (no_password \<or> tag = ''NOPASSWD'')))"
  by pat_completeness auto
termination
proof (relation "measure (\<lambda>(rest, _). length rest)")
  fix rest :: string and no_password :: bool and v candidate remainder tag
  assume "split_once CHR '':'' rest = Some v" "(candidate, remainder) = v"
  then have "length remainder < length rest"
    by (auto simp: split_once_Some dest: sym)
  then show "((trim_str remainder, no_password \<or> tag = ''NOPASSWD''), rest, no_password)
      \<in> measure (\<lambda>(rest, _). length rest)"
    using length_trim_str [of remainder] by simp
qed simp

declare read_tags.simps [simp del]

definition judge_specification :: "string \<Rightarrow> RuleRefusal + BoundedElevation" where
  "judge_specification line =
     and_then (ok_or (split_once_white line) (RuleMalformed line)) (\<lambda>(account, rest).
     if prefix ''%'' account then Inl (GroupRule account)
     else if account \<noteq> AUXILIARY_ACCOUNT then Inl (NotTheAuxiliaryAccount account)
     else
       and_then (ok_or (split_once CHR ''='' (trim_str rest)) (RuleMalformed line)) (\<lambda>(host, rest).
       if trim_str host \<noteq> ''ALL'' then Inl (HostIsNotAll (trim_str host))
       else
         and_then (ok_or (strip_prefix ''('' (trim_str rest)) RunAsNotDeclared) (\<lambda>rest.
         and_then (ok_or (split_once CHR '')'' rest) (RuleMalformed line)) (\<lambda>(runas, rest).
         if runas \<noteq> ''root'' \<and> runas \<noteq> ''root:root'' then Inl (RunAsIsNotRoot runas)
         else
           and_then (read_tags (trim_str rest) False) (\<lambda>(no_password, rest).
           if \<not> no_password then Inl PasswordRequired
           else
             let command = trim_str rest in
             if command = [] then Inl (RuleMalformed line)
             else if command = ''ALL'' \<or> CHR ''*'' \<in> set command \<or> CHR ''?'' \<in> set command
               \<or> CHR ''['' \<in> set command \<or> CHR '','' \<in> set command
             then Inl (WildcardCommand command)
             else if command \<noteq> authorised_command then Inl (CommandNotExact command)
             else Inr \<lparr>bl_account = AUXILIARY_ACCOUNT, bl_command = command\<rparr>)))))"

definition judge_rule :: "string \<Rightarrow> RuleRefusal + BoundedElevation" where
  "judge_rule content =
     (if length content > MAX_RULE_BYTES then Inl (RuleTooLarge (length content))
      else
        and_then (read_rule_lines [] [] (filter (\<lambda>line. line \<noteq> []) (map trim_str (lines content))))
          (\<lambda>(defaults, specifications).
        case specifications of
          [] \<Rightarrow> Inl RuleEmpty
        | [specification] \<Rightarrow>
            and_then (refuse_environment defaults) (\<lambda>_.
            and_then (require_defaults defaults REQUIRED_DEFAULTS) (\<lambda>_.
            judge_specification specification))
        | several \<Rightarrow> Inl (SeveralRules (length several))))"

section \<open>What an accepted rule says\<close>

definition unspaced :: "string \<Rightarrow> string" where "unspaced s = filter (\<lambda>c. \<not> is_white c) s"

lemma unspaced_append [simp]: "unspaced (a @ b) = unspaced a @ unspaced b"
  by (simp add: unspaced_def)

lemma unspaced_Nil [simp]: "unspaced s = [] \<longleftrightarrow> list_all is_white s"
  by (induction s) (simp_all add: unspaced_def)

lemma trim_str_split:
  assumes "is_ascii s"
  obtains a b where "s = a @ trim_str s @ b" "list_all is_white a" "list_all is_white b"
proof -
  let ?rest = "dropWhile is_white s"
  have "s = takeWhile is_white s @ ?rest" by simp
  moreover have "?rest = rev (dropWhile is_white (rev ?rest)) @ rev (takeWhile is_white (rev ?rest))"
    by (simp flip: rev_append)
  ultimately have "s = takeWhile is_white s @ trim_str s @ rev (takeWhile is_white (rev ?rest))"
    by (simp add: trim_str_ascii [OF assms] trim_def)
  then show thesis
    by (rule that) (auto simp: list_all_iff dest: set_takeWhileD)
qed

lemma trim_str_is_ascii: "is_ascii s \<Longrightarrow> is_ascii (trim_str s)"
  using trim_str_split [of s] unfolding is_ascii_def by (metis list_all_append)

lemma trimmed_prefix:
  assumes "is_ascii s" "trim_str s = p @ r"
  obtains a b where "s = a @ r @ b" "unspaced a = unspaced p" "list_all is_white b" "is_ascii r"
proof -
  obtain a b where s: "s = a @ trim_str s @ b" "list_all is_white a" "list_all is_white b"
    using trim_str_split [OF assms(1)] .
  then have "s = (a @ p) @ r @ b" using assms(2) by simp
  moreover have "is_ascii r" using trim_str_is_ascii [OF assms(1)] assms(2) by (simp add: is_ascii_def)
  moreover have "unspaced (a @ p) = unspaced p" using s(2) by (simp flip: unspaced_Nil)
  ultimately show thesis using that s(3) by blast
qed

abbreviation tag_text :: "string list \<Rightarrow> string" where
  "tag_text tags \<equiv> concat (map (\<lambda>tag. tag @ '':'') tags)"

lemma read_tags_Inr:
  "read_tags rest no_password = Inr (granted, left) \<Longrightarrow> is_ascii rest \<Longrightarrow>
     \<exists>tags before after. rest = before @ left @ after \<and> unspaced before = tag_text tags
       \<and> set tags \<subseteq> set ACCEPTED_TAGS \<and> (granted \<longleftrightarrow> no_password \<or> ''NOPASSWD'' \<in> set tags)
       \<and> list_all is_white after \<and> is_ascii left"
proof (induction rest no_password rule: read_tags.induct)
  case (1 rest no_password)
  have stop: ?case if "granted = no_password" "left = rest"
    using that 1(3)
    by (intro exI [of _ "[]"]) simp
  show ?case
  proof (cases "split_once CHR '':'' rest")
    case None
    then show ?thesis using 1(2) stop by (simp add: read_tags.simps [of rest])
  next
    case (Some p)
    then obtain candidate remainder where p: "p = (candidate, remainder)" by (cases p)
    define tag where "tag = trim_str candidate"
    have rest: "rest = candidate @ CHR '':'' # remainder" using Some p by (simp add: split_once_Some)
    then have ascii: "is_ascii candidate" "is_ascii remainder" using 1(3) by (simp_all add: is_ascii_def)
    show ?thesis
    proof (cases "tag = [] \<or> \<not> list_all is_ascii_uppercase tag")
      case True
      then show ?thesis using 1(2) Some p stop
        by (simp add: read_tags.simps [of rest] Let_def tag_def split: if_splits)
    next
      case False
      then have tag: "tag \<noteq> ''SETENV''" "tag \<in> set ACCEPTED_TAGS"
        and more: "read_tags (trim_str remainder) (no_password \<or> tag = ''NOPASSWD'') = Inr (granted, left)"
        using 1(2) Some p by (simp_all add: read_tags.simps [of rest] Let_def tag_def split: if_splits)
      have "\<exists>tags before after. trim_str remainder = before @ left @ after \<and> unspaced before = tag_text tags
          \<and> set tags \<subseteq> set ACCEPTED_TAGS
          \<and> (granted \<longleftrightarrow> (no_password \<or> tag = ''NOPASSWD'') \<or> ''NOPASSWD'' \<in> set tags)
          \<and> list_all is_white after \<and> is_ascii left"
        using 1(1) [OF Some p [symmetric] tag_def _ tag(1)] False tag(2) more trim_str_is_ascii [OF ascii(2)] by auto
      then obtain tags before after where inner: "trim_str remainder = before @ left @ after"
          "unspaced before = tag_text tags" "set tags \<subseteq> set ACCEPTED_TAGS"
          "granted \<longleftrightarrow> (no_password \<or> tag = ''NOPASSWD'') \<or> ''NOPASSWD'' \<in> set tags"
          "list_all is_white after" "is_ascii left"
        by blast
      obtain a b where remainder: "remainder = a @ (left @ after) @ b" "unspaced a = unspaced before"
          "list_all is_white b"
        using trimmed_prefix [OF ascii(2) inner(1)] .
      obtain c d where candidate: "candidate = c @ tag @ d" "list_all is_white c" "list_all is_white d"
        using trim_str_split [OF ascii(1)] unfolding tag_def .
      have "unspaced tag = tag"
        using False by (auto simp: unspaced_def is_white_def is_ascii_uppercase_def list_all_iff filter_id_conv)
      then have "unspaced (candidate @ '':'' @ a) = tag_text (tag # tags)"
        using candidate remainder(2) inner(2) by (simp add: unspaced_def is_white_def code_def flip: unspaced_Nil)
      moreover have "rest = (candidate @ '':'' @ a) @ left @ (after @ b)"
        using rest remainder(1) by simp
      moreover have "set (tag # tags) \<subseteq> set ACCEPTED_TAGS"
          "granted \<longleftrightarrow> no_password \<or> ''NOPASSWD'' \<in> set (tag # tags)"
        using tag(2) inner by auto
      ultimately show ?thesis using inner(5,6) remainder(3) by (metis list_all_append)
    qed
  qed
qed

lemma trimmed_piece:
  assumes "is_ascii s" "trim_str s = p @ r"
  shows "unspaced s = unspaced p @ unspaced r \<and> is_ascii r"
proof -
  obtain a b where "s = a @ r @ b" "unspaced a = unspaced p" "list_all is_white b" "is_ascii r"
    using trimmed_prefix [OF assms] .
  then show ?thesis by (simp flip: unspaced_Nil)
qed

lemma split_once_white_Some:
  assumes "is_ascii s" "split_once_white s = Some (a, b)"
  shows "\<exists>w. s = a @ w # b \<and> is_white w"
proof -
  have dropped: "dropWhile (\<lambda>cell. \<not> white_cell cell) (map (\<lambda>c. [c]) t)
      = map (\<lambda>c. [c]) (dropWhile (\<lambda>c. \<not> is_white c) t)" if "is_ascii t" for t
    using that by (induction t) (simp_all add: is_ascii_def white_cell_ascii)
  have taken: "takeWhile (\<lambda>cell. \<not> white_cell cell) (map (\<lambda>c. [c]) t)
      = map (\<lambda>c. [c]) (takeWhile (\<lambda>c. \<not> is_white c) t)" if "is_ascii t" for t
    using that by (induction t) (simp_all add: is_ascii_def white_cell_ascii)
  have single: "concat (map (\<lambda>c. [c]) t) = t" for t :: string by (induction t) simp_all
  obtain w rest where w: "dropWhile (\<lambda>c. \<not> is_white c) s = w # rest"
    and ab: "a = takeWhile (\<lambda>c. \<not> is_white c) s" "b = rest"
    using assms(2)
    by (auto simp: split_once_white_def cells_ascii [OF assms(1)] dropped [OF assms(1)] taken [OF assms(1)] single
        split: list.splits)
  have "is_white w" using w by (metis dropWhile_eq_Cons_conv)
  moreover have "s = a @ w # b" using ab w by (metis takeWhile_dropWhile_id)
  ultimately show ?thesis by blast
qed

text \<open>One specification accepted, with every space of it left out: nothing but the account, the
host, the run-as, the tags and the command, and the command with its own spaces.\<close>

lemma judge_specification_Inr:
  assumes "judge_specification line = Inr e" "is_ascii line"
  shows "e = \<lparr>bl_account = AUXILIARY_ACCOUNT, bl_command = authorised_command\<rparr>
    \<and> (\<exists>before after runas tags. line = before @ authorised_command @ after \<and> list_all is_white after
         \<and> unspaced before = AUXILIARY_ACCOUNT @ ''ALL=('' @ runas @ '')'' @ tag_text tags
         \<and> runas \<in> {''root'', ''root:root''}
         \<and> ''NOPASSWD'' \<in> set tags \<and> set tags \<subseteq> {''NOPASSWD'', ''NOEXEC''})"
proof -
  obtain rest host rest2 rest3 runas rest4 left where
    account: "split_once_white line = Some (AUXILIARY_ACCOUNT, rest)"
    and host: "split_once CHR ''='' (trim_str rest) = Some (host, rest2)" "trim_str host = ''ALL''"
    and open_p: "strip_prefix ''('' (trim_str rest2) = Some rest3"
    and runas: "split_once CHR '')'' rest3 = Some (runas, rest4)" "runas = ''root'' \<or> runas = ''root:root''"
    and tags: "read_tags (trim_str rest4) False = Inr (True, left)"
    and command: "trim_str left = authorised_command"
    and e: "e = \<lparr>bl_account = AUXILIARY_ACCOUNT, bl_command = authorised_command\<rparr>"
    using assms(1)
    by (auto simp: judge_specification_def result_iff Let_def split: if_splits)
  obtain w where w: "line = AUXILIARY_ACCOUNT @ w # rest" "is_white w"
    using split_once_white_Some [OF assms(2) account] by blast
  have ascii: "is_ascii rest" using assms(2) w by (simp add: is_ascii_def)
  obtain a1 b1 where a1: "rest = a1 @ rest2 @ b1" "unspaced a1 = unspaced (host @ ''='')"
      "list_all is_white b1" "is_ascii rest2"
    using trimmed_prefix [OF ascii, of "host @ ''=''" rest2] host(1) by (auto simp: split_once_Some)
  have "is_ascii host" using trim_str_is_ascii [OF ascii] host(1) by (simp add: split_once_Some is_ascii_def)
  then have host_text: "unspaced host = ''ALL''"
    using trimmed_piece [of host "''ALL''" "[]"] host(2) by (simp add: unspaced_def is_white_def code_def)
  obtain a2 b2 where a2: "rest2 = a2 @ rest4 @ b2" "unspaced a2 = unspaced (''('' @ runas @ '')'')"
      "list_all is_white b2" "is_ascii rest4"
    using trimmed_prefix [OF a1(4), of "''('' @ runas @ '')''" rest4] open_p runas(1)
    by (auto simp: split_once_Some strip_prefix_Some)
  obtain names before after where inner: "trim_str rest4 = before @ left @ after"
      "unspaced before = tag_text names" "set names \<subseteq> set ACCEPTED_TAGS" "''NOPASSWD'' \<in> set names"
      "list_all is_white after" "is_ascii left"
    using read_tags_Inr [OF tags trim_str_is_ascii [OF a2(4)]] by auto
  obtain a3 b3 where a3: "rest4 = a3 @ (left @ after) @ b3" "unspaced a3 = unspaced before"
      "list_all is_white b3"
    using trimmed_prefix [OF a2(4) inner(1)] .
  obtain a4 b4 where a4: "left = a4 @ authorised_command @ b4" "list_all is_white a4" "list_all is_white b4"
    using trim_str_split [OF inner(6)] unfolding command .
  let ?before = "AUXILIARY_ACCOUNT @ [w] @ a1 @ a2 @ a3 @ a4"
  have "line = ?before @ authorised_command @ (b4 @ after @ b3 @ b2 @ b1)"
    using w(1) a1(1) a2(1) a3(1) a4(1) by simp
  moreover have "list_all is_white (b4 @ after @ b3 @ b2 @ b1)"
    using a4(3) inner(5) a3(3) a2(3) a1(3) by simp
  moreover have "unspaced [w] = []" "unspaced a4 = []" using w(2) a4(2) by simp_all
  moreover have "unspaced AUXILIARY_ACCOUNT = AUXILIARY_ACCOUNT" "unspaced ''='' = ''=''"
    by (simp_all add: AUXILIARY_ACCOUNT_def unspaced_def is_white_def code_def)
  moreover have "unspaced (''('' @ runas @ '')'') = ''('' @ runas @ '')''"
    using runas(2) by (elim disjE) (simp_all add: unspaced_def is_white_def code_def)
  ultimately have "line = ?before @ authorised_command @ (b4 @ after @ b3 @ b2 @ b1)
      \<and> list_all is_white (b4 @ after @ b3 @ b2 @ b1)
      \<and> unspaced ?before = AUXILIARY_ACCOUNT @ ''ALL=('' @ runas @ '')'' @ tag_text names"
    using a1(2) host_text a2(2) a3(2) inner(2) by (simp only: unspaced_append append_Nil append_Nil2) simp
  moreover have "set names \<subseteq> {''NOPASSWD'', ''NOEXEC''}" using inner(3) by (simp only: ACCEPTED_TAGS_def set_simps)
  moreover have "runas \<in> {''root'', ''root:root''}" using runas(2) by (simp only: insert_iff empty_iff simp_thms)
  ultimately show ?thesis using e inner(4) by blast
qed

lemma refuse_environment_Inr:
  "refuse_environment settings = Inr u \<longleftrightarrow>
     (\<forall>setting \<in> set settings. setting \<noteq> ''setenv'' \<and> setting \<noteq> ''!env_reset''
        \<and> \<not> prefix ''env_keep'' setting \<and> \<not> prefix ''env_file'' setting)"
  by (induction settings) auto

lemma require_defaults_Inr:
  "require_defaults defaults required = Inr u \<longleftrightarrow> set required \<subseteq> set defaults"
  by (induction required) auto

lemma read_rule_lines_specifications:
  "read_rule_lines defaults specifications ls = Inr (defaults', specifications') \<Longrightarrow>
     set specifications' \<subseteq> set specifications \<union> set ls"
  by (induction defaults specifications ls rule: read_rule_lines.induct)
    (fastforce split: if_splits option.splits)+

lemma lines_ascii:
  assumes "is_ascii s" "l \<in> set (lines s)"
  shows "is_ascii l"
proof -
  have stripped: "set (strip_carriage_return piece) \<subseteq> set piece" for piece
    by (auto simp: strip_carriage_return_def split: option.splits)
  have "\<exists>piece \<in> set (split_on newline s). l = strip_carriage_return piece \<or> l = piece"
    using assms(2) last_in_set [OF split_on_not_Nil, of newline s]
    by (auto simp: lines_def Let_def split: if_splits dest: in_set_butlastD)
  then have "\<exists>piece \<in> set (split_on newline s). set l \<subseteq> set piece" using stripped by blast
  then have "set l \<subseteq> set s" using split_on_set by blast
  then show ?thesis using assms(1) by (auto simp: is_ascii_def list_all_iff)
qed

text \<open>The lines of a rule file that say something.\<close>

definition rule_lines :: "string \<Rightarrow> string list" where
  "rule_lines content = filter (\<lambda>line. line \<noteq> []) (map trim_str (lines content))"


text \<open>The two lines this palier writes, and the settings it reads back from the first of them.\<close>

definition defaults_line :: string where
  "defaults_line = ''Defaults:your-cloud-auxiliary !setenv, env_reset, !log_input, !log_stdin''"

definition grant_line :: string where
  "grant_line = ''your-cloud-auxiliary ALL=(root) NOPASSWD: /usr/lib/your-cloud/your-cloud auxiliary approve''"

lemma render_rule_text: "render_rule = defaults_line @ newline # grant_line @ [newline]"
  by (simp add: render_rule_def defaults_line_def grant_line_def AUXILIARY_ACCOUNT_def REQUIRED_DEFAULTS_def
      authorised_command_def PACKAGE_BINARY_def AUXILIARY_SUBJECT_def)

lemma plain_line:
  "is_ascii l \<Longrightarrow> l \<noteq> [] \<Longrightarrow> \<not> is_white (hd l) \<Longrightarrow> \<not> is_white (last l) \<Longrightarrow>
     trim_str l = l \<and> strip_carriage_return l = l"
  by (auto simp: trim_str_ascii trim_closed strip_carriage_return_def strip_suffix_char_def is_white_def code_def)

lemma split_whitespace_pair:
  "solid a \<Longrightarrow> solid b \<Longrightarrow> a \<noteq> [] \<Longrightarrow> b \<noteq> [] \<Longrightarrow> split_whitespace (a @ CHR '' '' # b) = [a, b]"
  using split_whitespace_Cons [of a "CHR '' ''" b] split_whitespace_solid [of b]
  by (simp add: is_white_def code_def)

lemma line_settings_rendered:
  "line_settings '':your-cloud-auxiliary !setenv, env_reset, !log_input, !log_stdin''
     = REQUIRED_DEFAULTS"
proof -
  have "split_whitespace (''your-cloud-auxiliary'' @ CHR '' '' # ''!setenv'') = [''your-cloud-auxiliary'', ''!setenv'']"
    by (rule split_whitespace_pair) (simp_all add: solid_def is_white_def code_def)
  moreover have "split_whitespace ''env_reset'' = [''env_reset'']"
      "split_whitespace ''!log_input'' = [''!log_input'']" "split_whitespace ''!log_stdin'' = [''!log_stdin'']"
    by (subst split_whitespace_solid; simp add: solid_def is_white_def code_def)+
  moreover have "trim_str '' env_reset'' = ''env_reset''" "trim_str '' !log_input'' = ''!log_input''"
      "trim_str '' !log_stdin'' = ''!log_stdin''"
      "trim_str ''your-cloud-auxiliary !setenv'' = ''your-cloud-auxiliary !setenv''"
    by (subst trim_str_ascii; simp add: is_ascii_def trim_def is_white_def code_def)+
  ultimately show ?thesis
    by (simp add: line_settings_def REQUIRED_DEFAULTS_def)
qed

lemma rendered_lines_plain:
  "trim_str defaults_line = defaults_line" "strip_carriage_return defaults_line = defaults_line"
  "trim_str grant_line = grant_line" "strip_carriage_return grant_line = grant_line"
  "newline \<notin> set defaults_line" "newline \<notin> set grant_line"
  "is_ascii defaults_line" "is_ascii grant_line"
proof -
  have "is_ascii defaults_line \<and> defaults_line \<noteq> [] \<and> \<not> is_white (hd defaults_line) \<and> \<not> is_white (last defaults_line)"
      and "is_ascii grant_line \<and> grant_line \<noteq> [] \<and> \<not> is_white (hd grant_line) \<and> \<not> is_white (last grant_line)"
    by (simp_all add: defaults_line_def grant_line_def is_ascii_def is_white_def code_def)
  then show "trim_str defaults_line = defaults_line" "strip_carriage_return defaults_line = defaults_line"
    "trim_str grant_line = grant_line" "strip_carriage_return grant_line = grant_line"
    "is_ascii defaults_line" "is_ascii grant_line"
    using plain_line [of defaults_line] plain_line [of grant_line] by blast+
qed (simp_all add: defaults_line_def grant_line_def)

lemma rendered_rule_lines: "rule_lines render_rule = [defaults_line, grant_line]"
proof -
  have "lines render_rule = [defaults_line, grant_line]"
    using rendered_lines_plain by (simp add: render_rule_text lines_def split_on_append)
  then show ?thesis
    using rendered_lines_plain by (simp add: rule_lines_def) (simp add: defaults_line_def grant_line_def)
qed

lemma rendered_rule_reading:
  "read_rule_lines defaults specifications [defaults_line, grant_line]
     = Inr (defaults @ REQUIRED_DEFAULTS, specifications @ [grant_line])"
proof -
  have "strip_prefix ''Defaults'' defaults_line
      = Some '':your-cloud-auxiliary !setenv, env_reset, !log_input, !log_stdin''"
    by (simp add: defaults_line_def strip_prefix_def)
  moreover have "strip_prefix ''Defaults'' grant_line = None" by (simp add: grant_line_def strip_prefix_def)
  moreover have "\<not> contains_str defaults_line ''_Alias''" "\<not> contains_str grant_line ''_Alias''"
    by (simp_all add: defaults_line_def grant_line_def)
  moreover have "\<not> prefix (c # p) defaults_line" "\<not> prefix (c # p) grant_line" if "c = CHR ''#'' \<or> c = CHR ''@''" for c p
    using that by (auto simp: defaults_line_def grant_line_def)
  ultimately show ?thesis by (simp add: line_settings_rendered)
qed

lemma grant_line_accepted:
  "judge_specification grant_line = Inr \<lparr>bl_account = AUXILIARY_ACCOUNT, bl_command = authorised_command\<rparr>"
proof -
  let ?command = "''/usr/lib/your-cloud/your-cloud auxiliary approve''"
  have trims: "trim_str ''ALL=(root) NOPASSWD: /usr/lib/your-cloud/your-cloud auxiliary approve''
        = ''ALL=(root) NOPASSWD: /usr/lib/your-cloud/your-cloud auxiliary approve''"
      "trim_str ''ALL'' = ''ALL''"
      "trim_str ''(root) NOPASSWD: /usr/lib/your-cloud/your-cloud auxiliary approve''
        = ''(root) NOPASSWD: /usr/lib/your-cloud/your-cloud auxiliary approve''"
      "trim_str '' NOPASSWD: /usr/lib/your-cloud/your-cloud auxiliary approve''
        = ''NOPASSWD: /usr/lib/your-cloud/your-cloud auxiliary approve''"
      "trim_str ''NOPASSWD'' = ''NOPASSWD''"
      "trim_str '' /usr/lib/your-cloud/your-cloud auxiliary approve'' = ?command"
      "trim_str ?command = ?command"
    by (subst trim_str_ascii; simp add: is_ascii_def trim_def is_white_def code_def)+
  have "split_once_white (''your-cloud-auxiliary'' @ CHR '' ''
          # ''ALL=(root) NOPASSWD: /usr/lib/your-cloud/your-cloud auxiliary approve'')
      = Some (''your-cloud-auxiliary'', ''ALL=(root) NOPASSWD: /usr/lib/your-cloud/your-cloud auxiliary approve'')"
    by (rule split_once_white_solid) (simp_all add: solid_def is_white_def code_def)
  then have account: "split_once_white grant_line
      = Some (''your-cloud-auxiliary'', ''ALL=(root) NOPASSWD: /usr/lib/your-cloud/your-cloud auxiliary approve'')"
    by (simp add: grant_line_def)
  have "read_tags ?command True = Inr (True, ?command)"
    by (subst read_tags.simps) simp
  then have tags: "read_tags ''NOPASSWD: /usr/lib/your-cloud/your-cloud auxiliary approve'' False = Inr (True, ?command)"
    by (subst read_tags.simps) (simp add: trims ACCEPTED_TAGS_def ascii_simps Let_def)
  have command: "authorised_command = ?command"
    by (simp add: authorised_command_def PACKAGE_BINARY_def AUXILIARY_SUBJECT_def)
  show ?thesis
    unfolding judge_specification_def account
    by (simp add: AUXILIARY_ACCOUNT_def trims tags command strip_prefix_def)
qed

lemma judge_rule_read:
  assumes "read_rule_lines [] [] (rule_lines content) = Inr (defaults, [grant_line])"
    "refuse_environment defaults = Inr ()" "set REQUIRED_DEFAULTS \<subseteq> set defaults"
    "length content \<le> MAX_RULE_BYTES"
  shows "judge_rule content = Inr \<lparr>bl_account = ''your-cloud-auxiliary'',
     bl_command = ''/usr/lib/your-cloud/your-cloud auxiliary approve''\<rparr>"
proof -
  have "require_defaults defaults REQUIRED_DEFAULTS = Inr ()"
    using assms(3) by (simp add: require_defaults_Inr)
  then show ?thesis
    using assms(1,2,4) grant_line_accepted
    by (simp add: judge_rule_def rule_lines_def AUXILIARY_ACCOUNT_def authorised_command_def PACKAGE_BINARY_def
        AUXILIARY_SUBJECT_def)
qed

lemma required_defaults_pass: "refuse_environment REQUIRED_DEFAULTS = Inr ()"
  by (simp add: REQUIRED_DEFAULTS_def)

text \<open>The rule the Assistant writes is the rule it accepts.\<close>

theorem rendered_rule_is_accepted:
  "judge_rule render_rule = Inr \<lparr>bl_account = ''your-cloud-auxiliary'',
     bl_command = ''/usr/lib/your-cloud/your-cloud auxiliary approve''\<rparr>"
proof (rule judge_rule_read)
  show "read_rule_lines [] [] (rule_lines render_rule) = Inr (REQUIRED_DEFAULTS, [grant_line])"
    using rendered_rule_reading [of "[]" "[]"] by (simp only: rendered_rule_lines append_Nil)
  show "length render_rule \<le> MAX_RULE_BYTES"
    by (simp add: render_rule_text defaults_line_def grant_line_def limits)
qed (simp_all add: required_defaults_pass)

text \<open>
  A setting is taken for its last word, so one with spaces in it is never seen for what it
  keeps: this file has sudo keep \<open>LD_PRELOAD\<close> and is accepted as the one above.
\<close>

definition keeping_line :: string where
  "keeping_line = ''Defaults env_keep += '' @ [CHR 0x22] @ ''LD_PRELOAD'' @ [CHR 0x22]"

lemma keeping_settings:
  "line_settings ('' env_keep += '' @ [CHR 0x22] @ ''LD_PRELOAD'' @ [CHR 0x22])
     = [[CHR 0x22] @ ''LD_PRELOAD'' @ [CHR 0x22]]"
proof -
  let ?name = "[CHR 0x22] @ ''LD_PRELOAD'' @ [CHR 0x22]"
  have "split_whitespace (''env_keep'' @ CHR '' '' # (''+='' @ CHR '' '' # ?name))
      = ''env_keep'' # split_whitespace (''+='' @ CHR '' '' # ?name)"
    by (rule split_whitespace_Cons) (simp_all add: solid_def is_white_def code_def)
  moreover have "split_whitespace (''+='' @ CHR '' '' # ?name) = [''+='', ?name]"
    by (rule split_whitespace_pair) (simp_all add: solid_def is_white_def code_def)
  ultimately have "split_whitespace (''env_keep'' @ CHR '' '' # (''+='' @ CHR '' '' # ?name)) = [''env_keep'', ''+='', ?name]"
    by simp
  moreover have "trim_str ('' env_keep += '' @ ?name) = ''env_keep += '' @ ?name"
    by (subst trim_str_ascii; simp add: is_ascii_def trim_def is_white_def code_def)
  ultimately show ?thesis by (simp add: line_settings_def)
qed

lemma kept_environment_is_accepted:
  "judge_rule (keeping_line @ newline # render_rule) = Inr \<lparr>bl_account = ''your-cloud-auxiliary'',
     bl_command = ''/usr/lib/your-cloud/your-cloud auxiliary approve''\<rparr>"
proof -
  have "is_ascii keeping_line \<and> keeping_line \<noteq> [] \<and> \<not> is_white (hd keeping_line) \<and> \<not> is_white (last keeping_line)"
    by (simp add: keeping_line_def is_ascii_def is_white_def code_def)
  then have plain: "trim_str keeping_line = keeping_line" "strip_carriage_return keeping_line = keeping_line"
    using plain_line by blast+
  have "newline \<notin> set keeping_line" by (simp add: keeping_line_def)
  then have "lines (keeping_line @ newline # render_rule) = keeping_line # lines render_rule"
    using plain(2) by (simp add: lines_def split_on_append Let_def)
  then have lines: "rule_lines (keeping_line @ newline # render_rule) = [keeping_line, defaults_line, grant_line]"
    using rendered_rule_lines plain(1) by (simp add: rule_lines_def) (simp add: keeping_line_def)
  have "strip_prefix ''Defaults'' keeping_line = Some ('' env_keep += '' @ [CHR 0x22] @ ''LD_PRELOAD'' @ [CHR 0x22])"
    by (simp add: keeping_line_def strip_prefix_def)
  moreover have "\<not> contains_str keeping_line ''_Alias''" by (simp add: keeping_line_def)
  moreover have "\<not> prefix (c # p) keeping_line" if "c = CHR ''#'' \<or> c = CHR ''@''" for c p
    using that by (auto simp: keeping_line_def)
  ultimately have "read_rule_lines [] [] [keeping_line, defaults_line, grant_line]
      = Inr (([CHR 0x22] @ ''LD_PRELOAD'' @ [CHR 0x22]) # REQUIRED_DEFAULTS, [grant_line])"
    using rendered_rule_reading [of "[[CHR 0x22] @ ''LD_PRELOAD'' @ [CHR 0x22]]" "[]"] keeping_settings
    by (simp del: read_rule_lines.simps(1) add: read_rule_lines.simps(2))
  then have "read_rule_lines [] [] (rule_lines (keeping_line @ newline # render_rule))
      = Inr (([CHR 0x22] @ ''LD_PRELOAD'' @ [CHR 0x22]) # REQUIRED_DEFAULTS, [grant_line])"
    by (simp only: lines)
  moreover have "refuse_environment (([CHR 0x22] @ ''LD_PRELOAD'' @ [CHR 0x22]) # REQUIRED_DEFAULTS) = Inr ()"
    using required_defaults_pass by simp
  moreover have "length (keeping_line @ newline # render_rule) \<le> MAX_RULE_BYTES"
    by (simp add: keeping_line_def render_rule_text defaults_line_def grant_line_def limits)
  ultimately show ?thesis
    by (intro judge_rule_read [where defaults = "([CHR 0x22] @ ''LD_PRELOAD'' @ [CHR 0x22]) # REQUIRED_DEFAULTS"])
      (simp_all only: set_simps subset_insertI)
qed


end
