(* ===== verification/Command_Endpoint.thy ===== *)
theory Command_Endpoint
  imports Forced_Entry Bundle
begin

text \<open>
  \<open>machine_identity/command_endpoint.rs\<close>: the sheet that says where a command goes and
  which host key may answer it. Reading JSON is \<open>serde_json\<close>'s, so it is a parameter.
\<close>

section \<open>The sheet\<close>

definition COMMAND_ENDPOINT_SCHEMA_VERSION :: u8 where [limits]: "COMMAND_ENDPOINT_SCHEMA_VERSION = 1"

definition MAX_COMMAND_ENDPOINT_BYTES :: nat where [limits]: "MAX_COMMAND_ENDPOINT_BYTES = 4096"

definition MAX_COMMAND_ENDPOINT_HOST_BYTES :: nat where [limits]: "MAX_COMMAND_ENDPOINT_HOST_BYTES = 253"

definition HOST_KEY_BASE64_PREFIX :: string where "HOST_KEY_BASE64_PREFIX = ''AAAAC3NzaC1lZDI1NTE5''"

definition HOST_KEY_BASE64_BYTES :: nat where [limits]: "HOST_KEY_BASE64_BYTES = 68"

datatype EndpointRefusal =
    EndpointAbsent
  | EndpointMalformed
  | ForeignMachine string
  | UnexpectedAccount string
  | UnusableHost
  | UnusablePort u32
  | UnusableHostKey
  | HostKeyChanged string string

record CommandEndpoint =
  ce_machine :: string
  ce_host :: string
  ce_port :: u16
  ce_host_key :: string

definition endpoint_path :: "CommandEndpoint \<Rightarrow> string" where
  "endpoint_path e = COMMAND_ENDPOINT_DIRECTORY @ ''/'' @ ce_machine e @ ''.json''"

definition usable_host :: "string \<Rightarrow> bool" where
  "usable_host host =
     (if host = [] \<or> length host > MAX_COMMAND_ENDPOINT_HOST_BYTES \<or> prefix ''-'' host then False
      else list_all (\<lambda>c. is_ascii_alphanumeric c \<or> c \<in> {CHR ''.'', CHR ''-'', CHR '':''}) host)"

definition usable_host_key :: "string \<Rightarrow> bool" where
  "usable_host_key host_key \<longleftrightarrow>
     length host_key = HOST_KEY_BASE64_BYTES \<and> prefix HOST_KEY_BASE64_PREFIX host_key
       \<and> list_all (\<lambda>c. is_ascii_alphanumeric c \<or> c \<in> {CHR ''+'', CHR ''/'', CHR ''=''}) host_key"

definition judge_fields ::
  "string \<Rightarrow> string \<Rightarrow> string \<Rightarrow> u32 \<Rightarrow> string \<Rightarrow> string \<Rightarrow> EndpointRefusal + CommandEndpoint" where
  "judge_fields filed_under machine_id host port account host_key =
     (if machine_id \<noteq> filed_under \<or> machine_id = [] then Inl (ForeignMachine machine_id)
      else if account \<noteq> AUXILIARY_ACCOUNT then Inl (UnexpectedAccount account)
      else if \<not> usable_host host then Inl UnusableHost
      else if port = 0 \<or> port > 65535 then Inl (UnusablePort port)
      else if \<not> usable_host_key host_key then Inl UnusableHostKey
      else Inr \<lparr>ce_machine = machine_id, ce_host = host, ce_port = ucast port, ce_host_key = host_key\<rparr>)"

definition quoted :: "string \<Rightarrow> string" where "quoted s = [CHR 0x22] @ s @ [CHR 0x22]"

definition render_endpoint :: "string \<Rightarrow> string \<Rightarrow> u16 \<Rightarrow> string \<Rightarrow> string option" where
  "render_endpoint machine host port host_key =
     (case judge_fields machine machine host (ucast port) AUXILIARY_ACCOUNT host_key of
        Inl _ \<Rightarrow> None
      | Inr checked \<Rightarrow>
          Some (''{'' @ quoted ''schema_version'' @ '':'' @ decimal (unat COMMAND_ENDPOINT_SCHEMA_VERSION)
            @ '','' @ quoted ''machine_id'' @ '':'' @ quoted (ce_machine checked)
            @ '','' @ quoted ''host'' @ '':'' @ quoted (ce_host checked)
            @ '','' @ quoted ''port'' @ '':'' @ decimal (unat (ce_port checked))
            @ '','' @ quoted ''account'' @ '':'' @ quoted AUXILIARY_ACCOUNT
            @ '','' @ quoted ''host_key'' @ '':'' @ quoted (ce_host_key checked) @ ''}''))"

definition known_hosts_line :: "CommandEndpoint \<Rightarrow> string" where
  "known_hosts_line e =
     ''['' @ ce_host e @ '']:'' @ decimal (unat (ce_port e)) @ '' '' @ KEY_ALGORITHM @ '' '' @ ce_host_key e @ [newline]"

section \<open>Reading one back\<close>

record SheetFields =
  sf_machine_id :: string
  sf_host :: string
  sf_port :: u32
  sf_account :: string
  sf_host_key :: string

definition SHEET_FIELDS :: "string list" where
  "SHEET_FIELDS = [''schema_version'', ''machine_id'', ''host'', ''port'', ''account'', ''host_key'']"

definition sheet_text :: "(string \<times> json_value) list \<Rightarrow> string \<Rightarrow> EndpointRefusal + string" where
  "sheet_text object what =
     ok_or (case map_of object what of None \<Rightarrow> None | Some v \<Rightarrow> as_str v) EndpointMalformed"

definition sheet_number :: "(string \<times> json_value) list \<Rightarrow> string \<Rightarrow> EndpointRefusal + u64" where
  "sheet_number object what =
     ok_or (case map_of object what of None \<Rightarrow> None | Some v \<Rightarrow> as_u64 v) EndpointMalformed"

definition read_sheet :: "(string \<Rightarrow> json_value option) \<Rightarrow> string \<Rightarrow> EndpointRefusal + SheetFields" where
  "read_sheet from_str document =
     and_then (ok_or (from_str document) EndpointMalformed) (\<lambda>v.
     and_then (ok_or (as_object v) EndpointMalformed) (\<lambda>object.
     if length object \<noteq> length SHEET_FIELDS
       \<or> \<not> list_all (\<lambda>name. map_of object name \<noteq> None) SHEET_FIELDS
     then Inl EndpointMalformed
     else
       and_then (sheet_number object ''schema_version'') (\<lambda>schema_version.
       if schema_version \<noteq> ucast COMMAND_ENDPOINT_SCHEMA_VERSION then Inl EndpointMalformed
       else
         and_then (sheet_number object ''port'') (\<lambda>port.
         and_then (sheet_text object ''machine_id'') (\<lambda>machine_id.
         and_then (sheet_text object ''host'') (\<lambda>host.
         and_then (if port \<ge> 2 ^ 32 then Inl EndpointMalformed else Inr (ucast port)) (\<lambda>port.
         and_then (sheet_text object ''account'') (\<lambda>account.
         and_then (sheet_text object ''host_key'') (\<lambda>host_key.
         Inr \<lparr>sf_machine_id = machine_id, sf_host = host, sf_port = port, sf_account = account,
              sf_host_key = host_key\<rparr>)))))))))"

definition judge_endpoint ::
  "(string \<Rightarrow> json_value option) \<Rightarrow> string \<Rightarrow> string option \<Rightarrow> string \<Rightarrow> EndpointRefusal + CommandEndpoint" where
  "judge_endpoint from_str machine document expected_host_key =
     and_then (ok_or document EndpointAbsent) (\<lambda>document.
     if length document > MAX_COMMAND_ENDPOINT_BYTES then Inl EndpointMalformed
     else
       and_then (read_sheet from_str document) (\<lambda>parsed.
       and_then (judge_fields machine (sf_machine_id parsed) (sf_host parsed) (sf_port parsed)
           (sf_account parsed) (sf_host_key parsed)) (\<lambda>e.
       if ce_host_key e \<noteq> expected_host_key then Inl (HostKeyChanged (ce_host_key e) expected_host_key)
       else Inr e)))"

section \<open>The sheet written is the sheet read\<close>

lemma judge_fields_Inr:
  "judge_fields filed machine_id host port account host_key = Inr e \<longleftrightarrow>
     machine_id = filed \<and> machine_id \<noteq> [] \<and> account = AUXILIARY_ACCOUNT \<and> usable_host host
       \<and> 0 < unat port \<and> unat port \<le> 65535 \<and> usable_host_key host_key
       \<and> e = \<lparr>ce_machine = machine_id, ce_host = host, ce_port = ucast port, ce_host_key = host_key\<rparr>"
  by (auto simp: judge_fields_def unat_gt_0 unat_eq_zero word_less_nat_alt not_less)

text \<open>The members \<open>serde_json\<close> documents it reads from the text of a flat object of such members.\<close>

definition sheet_members :: "string \<Rightarrow> string \<Rightarrow> u16 \<Rightarrow> string \<Rightarrow> (string \<times> json_value) list" where
  "sheet_members machine host port host_key =
     [(''schema_version'', JsonU64 1), (''machine_id'', JsonString machine), (''host'', JsonString host),
      (''port'', JsonU64 (ucast port)), (''account'', JsonString AUXILIARY_ACCOUNT),
      (''host_key'', JsonString host_key)]"

lemma port_back: "ucast (ucast (port :: u16) :: u32) = port"
  by (rule bit_word_eqI) (simp add: bit_simps)

lemma port_widened: "ucast (ucast (port :: u16) :: u64) = (ucast port :: u32)"
  by (rule bit_word_eqI) (auto simp: bit_simps)

lemma read_sheet_members:
  assumes "from_str document = Some (JsonObject members)" "distinct (map fst members)"
    "set members = set (sheet_members machine host port host_key)"
  shows "read_sheet from_str document = Inr \<lparr>sf_machine_id = machine, sf_host = host, sf_port = ucast port,
     sf_account = AUXILIARY_ACCOUNT, sf_host_key = host_key\<rparr>"
proof -
  have plain: "distinct (map fst (sheet_members machine host port host_key))" by (simp add: sheet_members_def)
  then have same: "map_of members = map_of (sheet_members machine host port host_key)"
    using assms(2,3) by (simp add: map_of_inject_set)
  have "length members = length (sheet_members machine host port host_key)"
    using assms(2,3) plain by (metis distinct_card distinct_map)
  then have "length members = 6" by (simp add: sheet_members_def)
  moreover have "unat port < 2 ^ 16" using unsigned_less [of port] by simp
  then have "\<not> (2 ^ 32 :: u64) \<le> ucast port"
    by (simp add: word_le_nat_alt unsigned_ucast_eq take_bit_nat_eq_self)
  ultimately show ?thesis
    using assms(1) same
    by (simp add: read_sheet_def SHEET_FIELDS_def sheet_number_def sheet_text_def sheet_members_def limits port_widened)
qed

text \<open>The sheet the enrolment writes pins the key the audit confirmed. Whatever the rendering
accepts names the machine it is filed under, the locked account, a usable host and port and an
Ed25519 key; and when the text is read as the members it spells, judging it back gives that
very endpoint, or names both keys when the audit confirmed another one.\<close>

theorem sheet_pins_the_audited_key:
  assumes "render_endpoint machine host port host_key = Some document"
    and "from_str document = Some (JsonObject members)" "distinct (map fst members)"
    and "set members = set (sheet_members machine host port host_key)"
    and "length document \<le> 4096"
  shows "judge_endpoint from_str machine (Some document) expected =
      (if host_key = expected
       then Inr \<lparr>ce_machine = machine, ce_host = host, ce_port = port, ce_host_key = host_key\<rparr>
       else Inl (HostKeyChanged host_key expected))
    \<and> machine \<noteq> [] \<and> \<not> prefix ''-'' host \<and> port \<noteq> 0 \<and> prefix ''AAAAC3NzaC1lZDI1NTE5'' host_key"
proof -
  obtain e where e: "judge_fields machine machine host (ucast port) AUXILIARY_ACCOUNT host_key = Inr e"
    using assms(1) by (auto simp: render_endpoint_def split: sum.splits)
  then have fields: "e = \<lparr>ce_machine = machine, ce_host = host, ce_port = port, ce_host_key = host_key\<rparr>"
      "machine \<noteq> []" "usable_host host" "0 < unat (ucast port :: u32)" "usable_host_key host_key"
    by (simp_all add: judge_fields_Inr port_back)
  then have "\<not> prefix ''-'' host" "prefix ''AAAAC3NzaC1lZDI1NTE5'' host_key" "port \<noteq> 0"
    by (auto simp: usable_host_def usable_host_key_def HOST_KEY_BASE64_PREFIX_def split: if_splits)
  then show ?thesis
    using read_sheet_members [of from_str, OF assms(2-4)] e fields(1,2) assms(5)
    by (simp add: judge_endpoint_def limits)
qed

definition sample_host_key :: string where
  "sample_host_key = HOST_KEY_BASE64_PREFIX @ replicate 48 CHR ''A''"

lemma sample_key_usable: "usable_host_key sample_host_key" "length sample_host_key = 68"
  by (simp_all add: usable_host_key_def sample_host_key_def HOST_KEY_BASE64_PREFIX_def limits ascii_simps code_def
      list_all_iff)

lemma sample_sheet: "judge_fields ''m'' ''m'' ''10.0.0.2'' (ucast (22 :: u16)) AUXILIARY_ACCOUNT sample_host_key
    = Inr \<lparr>ce_machine = ''m'', ce_host = ''10.0.0.2'', ce_port = 22, ce_host_key = sample_host_key\<rparr>"
  by (simp add: judge_fields_Inr usable_host_def sample_key_usable limits ascii_simps code_def unsigned_ucast_eq)

theorem sheet_pins_the_audited_key_witness:
  "\<exists>document from_str. render_endpoint ''m'' ''10.0.0.2'' 22 sample_host_key = Some document
     \<and> judge_endpoint from_str ''m'' (Some document) ''other'' = Inl (HostKeyChanged sample_host_key ''other'')"
proof -
  obtain document where document: "render_endpoint ''m'' ''10.0.0.2'' 22 sample_host_key = Some document"
      "length document \<le> 4096"
    using sample_sheet sample_key_usable(2)
    by (simp add: render_endpoint_def quoted_def decimal.simps limits)
      (simp add: AUXILIARY_ACCOUNT_def)
  let ?from_str = "\<lambda>d. if d = document then Some (JsonObject (sheet_members ''m'' ''10.0.0.2'' 22 sample_host_key)) else None"
  have "judge_endpoint ?from_str ''m'' (Some document) ''other'' = Inl (HostKeyChanged sample_host_key ''other'')"
    using sheet_pins_the_audited_key [OF document(1), of ?from_str, OF _ _ refl document(2), of "''other''"]
    by (simp add: sheet_members_def sample_host_key_def HOST_KEY_BASE64_PREFIX_def)
  then show ?thesis using document(1) by blast
qed

end
