(* ===== verification/Incident.thy ===== *)
theory Incident
  imports Machine_Identity Std_White
begin

text \<open>
  \<open>replacement/incident.rs\<close>: what the attempts on the old Controller establish, and the
  gate that turns a request and a silence into a qualified incident. A \<open>None\<close> is the
  branch the code marks \<open>unreachable!\<close>.
\<close>

section \<open>What the attempts establish\<close>

definition REQUIRED_INDEPENDENT_VANTAGES :: nat where [limits]: "REQUIRED_INDEPENDENT_VANTAGES = 2"

definition REQUIRED_SILENCE_SECONDS :: u64 where [limits]: "REQUIRED_SILENCE_SECONDS = 300"

definition MAX_NAME_BYTES :: nat where [limits]: "MAX_NAME_BYTES = 128"

datatype ControllerAnswer = ControllerAnswered | ControllerUnreachable | ControllerNoAnswer

record Probe =
  pb_vantage :: string
  pb_answer :: ControllerAnswer
  pb_continuous_seconds :: u64

datatype Ambiguity =
    TooFewVantages nat
  | DuplicateVantage string
  | VantageIsTheSuspectHost string
  | MalformedVantage string
  | NoAnswerFrom string
  | SilenceTooYoung string u64

datatype Reading = Answering string | Silent | Ambiguous Ambiguity

definition is_name :: "string \<Rightarrow> bool" where
  "is_name v = (trim_str v \<noteq> [] \<and> length v \<le> MAX_NAME_BYTES \<and> \<not> contains_white v)"

text \<open>The second loop of \<open>read\<close>, with the vantages it has seen.\<close>

fun read_silence :: "string \<Rightarrow> string list \<Rightarrow> Probe list \<Rightarrow> Reading option" where
  "read_silence suspect_host seen [] =
     Some (if length seen < REQUIRED_INDEPENDENT_VANTAGES then Ambiguous (TooFewVantages (length seen))
           else Silent)"
| "read_silence suspect_host seen (probe # probes) =
     (let vantage = pb_vantage probe in
      if \<not> is_name vantage then Some (Ambiguous (MalformedVantage vantage))
      else if vantage = suspect_host then Some (Ambiguous (VantageIsTheSuspectHost vantage))
      else if vantage \<in> set seen then Some (Ambiguous (DuplicateVantage vantage))
      else
        case pb_answer probe of
          ControllerAnswered \<Rightarrow> None
        | ControllerNoAnswer \<Rightarrow> Some (Ambiguous (NoAnswerFrom vantage))
        | ControllerUnreachable \<Rightarrow>
            if pb_continuous_seconds probe < REQUIRED_SILENCE_SECONDS
            then Some (Ambiguous (SilenceTooYoung vantage (pb_continuous_seconds probe)))
            else read_silence suspect_host (seen @ [vantage]) probes)"

definition answers_from :: "string \<Rightarrow> Probe \<Rightarrow> bool" where
  "answers_from suspect_host probe \<longleftrightarrow> pb_answer probe = ControllerAnswered \<and> pb_vantage probe \<noteq> suspect_host"

definition read_probes :: "Probe list \<Rightarrow> string \<Rightarrow> Reading option" where
  "read_probes probes suspect_host =
     (case find (answers_from suspect_host) probes of
        Some probe \<Rightarrow> Some (Answering (pb_vantage probe))
      | None \<Rightarrow> read_silence suspect_host [] probes)"

section \<open>The request and its gate\<close>

datatype Qualification = HardwareLoss | SuspectedCompromise

fun qualification_str :: "Qualification \<Rightarrow> string" where
  "qualification_str HardwareLoss = ''hardware-loss''"
| "qualification_str SuspectedCompromise = ''suspected-compromise''"

definition requires_isolation :: "Qualification \<Rightarrow> bool" where
  "requires_isolation q \<longleftrightarrow> q = SuspectedCompromise"

datatype Isolation = IsolationVerified string | IsolationUnverified

datatype NewHost = DistinctHost string | ReinstalledFromTrustedBase string | SameHostAsItStands string

fun endpoint :: "NewHost \<Rightarrow> string" where
  "endpoint (DistinctHost e) = e"
| "endpoint (ReinstalledFromTrustedBase e) = e"
| "endpoint (SameHostAsItStands e) = e"

record Request =
  rq_qualification :: Qualification
  rq_old_controller_id :: string
  rq_suspect_host :: string
  rq_new_host :: NewHost
  rq_isolation :: Isolation
  rq_confirmed :: bool

datatype IncidentRefusal =
    NotRequestedByTheUser
  | MalformedIncidentName string
  | ControllerStillAnswering string
  | AmbiguousIncident Ambiguity
  | IsolationNotVerified
  | IsolationVerifiedByTheSuspectHost
  | SuspectHostIsNotAHealthyHost string
  | LostHostCannotHostTheReplacement string

record QualifiedIncident =
  qi_qualification :: Qualification
  qi_old_controller_id :: string
  qi_suspect_host :: string
  qi_new_host :: string

definition incident_name :: "string \<Rightarrow> string \<Rightarrow> IncidentRefusal + unit" where
  "incident_name v what = (if is_name v then Inr () else Inl (MalformedIncidentName what))"

definition judge_isolation :: "Request \<Rightarrow> IncidentRefusal + unit" where
  "judge_isolation request =
     (case rq_qualification request of
        SuspectedCompromise \<Rightarrow>
          (case rq_isolation request of
             IsolationUnverified \<Rightarrow> Inl IsolationNotVerified
           | IsolationVerified by \<Rightarrow>
               and_then (incident_name by ''isolation'') (\<lambda>_.
               if by = rq_suspect_host request then Inl IsolationVerifiedByTheSuspectHost else Inr ()))
      | HardwareLoss \<Rightarrow> Inr ())"

definition judge_new_host :: "Request \<Rightarrow> IncidentRefusal + unit" where
  "judge_new_host request =
     (case (rq_qualification request, rq_new_host request) of
        (SuspectedCompromise, SameHostAsItStands e) \<Rightarrow> Inl (SuspectHostIsNotAHealthyHost e)
      | (HardwareLoss, SameHostAsItStands e) \<Rightarrow> Inl (LostHostCannotHostTheReplacement e)
      | _ \<Rightarrow> Inr ())"

definition judge_names :: "Request \<Rightarrow> IncidentRefusal + unit" where
  "judge_names request =
     and_then (incident_name (rq_old_controller_id request) ''old_controller_id'') (\<lambda>_.
     and_then (incident_name (rq_suspect_host request) ''suspect_host'') (\<lambda>_.
     incident_name (endpoint (rq_new_host request)) ''new_host''))"

definition judge_reading :: "Reading \<Rightarrow> IncidentRefusal + unit" where
  "judge_reading reading =
     (case reading of
        Answering vantage \<Rightarrow> Inl (ControllerStillAnswering vantage)
      | Ambiguous ambiguity \<Rightarrow> Inl (AmbiguousIncident ambiguity)
      | Silent \<Rightarrow> Inr ())"

definition qualify :: "Request \<Rightarrow> Probe list \<Rightarrow> (IncidentRefusal + QualifiedIncident) option" where
  "qualify request probes =
     (if \<not> rq_confirmed request then Some (Inl NotRequestedByTheUser)
      else
        case judge_names request of
          Inl refusal \<Rightarrow> Some (Inl refusal)
        | Inr _ \<Rightarrow>
            map_option (\<lambda>reading.
              and_then (judge_reading reading) (\<lambda>_.
              and_then (judge_isolation request) (\<lambda>_.
              and_then (judge_new_host request) (\<lambda>_.
              Inr \<lparr>qi_qualification = rq_qualification request,
                   qi_old_controller_id = rq_old_controller_id request,
                   qi_suspect_host = rq_suspect_host request,
                   qi_new_host = endpoint (rq_new_host request)\<rparr>))))
              (read_probes probes (rq_suspect_host request)))"

section \<open>No incident without a request and an agreed silence\<close>

text \<open>What every attempt must be for the whole to be a silence.\<close>

definition long_silent :: "string \<Rightarrow> Probe \<Rightarrow> bool" where
  "long_silent suspect_host probe \<longleftrightarrow>
     is_name (pb_vantage probe) \<and> pb_vantage probe \<noteq> suspect_host
       \<and> pb_answer probe = ControllerUnreachable \<and> 300 \<le> pb_continuous_seconds probe"

lemma read_silence_total:
  "\<not> list_ex (answers_from suspect_host) probes \<Longrightarrow> read_silence suspect_host seen probes \<noteq> None"
proof (induction suspect_host seen probes rule: read_silence.induct)
  case (2 suspect_host seen probe probes)
  then show ?case by (cases "pb_answer probe") (auto simp: Let_def answers_from_def)
qed simp

lemma read_silence_Silent:
  "read_silence suspect_host seen probes = Some Silent \<longleftrightarrow>
     2 \<le> length seen + length probes \<and> list_all (long_silent suspect_host) probes
       \<and> distinct (map pb_vantage probes) \<and> set seen \<inter> set (map pb_vantage probes) = {}"
proof (induction suspect_host seen probes rule: read_silence.induct)
  case (2 suspect_host seen probe probes)
  then show ?case
    by (cases "pb_answer probe") (auto simp: Let_def long_silent_def limits not_less)
qed (auto simp: limits)

lemma find_answers: "find P probes = None \<longleftrightarrow> \<not> list_ex P probes"
  by (auto simp: find_None_iff list_ex_iff)

lemma read_probes_total: "read_probes probes suspect_host \<noteq> None"
  using read_silence_total by (auto simp: read_probes_def find_answers split: option.splits)

lemma read_probes_Silent:
  "read_probes probes suspect_host = Some Silent \<longleftrightarrow>
     2 \<le> length probes \<and> distinct (map pb_vantage probes) \<and> list_all (long_silent suspect_host) probes"
proof (cases "find (answers_from suspect_host) probes")
  case None
  then show ?thesis
    using read_silence_Silent [of suspect_host "[]" probes] by (auto simp: read_probes_def)
next
  case (Some probe)
  then have "probe \<in> set probes" "answers_from suspect_host probe" by (auto simp: find_Some_iff)
  then have "\<not> list_all (long_silent suspect_host) probes"
    by (auto simp: list_all_iff long_silent_def answers_from_def intro!: bexI [of _ probe])
  then show ?thesis using Some by (simp add: read_probes_def)
qed

text \<open>What a request must say beside the silence.\<close>

definition well_requested :: "Request \<Rightarrow> bool" where
  "well_requested request \<longleftrightarrow>
     rq_confirmed request \<and> is_name (rq_old_controller_id request) \<and> is_name (rq_suspect_host request)
       \<and> (rq_qualification request = SuspectedCompromise \<longrightarrow>
            (\<exists>by. rq_isolation request = IsolationVerified by \<and> is_name by \<and> by \<noteq> rq_suspect_host request))
       \<and> (\<exists>e. is_name e \<and> rq_new_host request \<in> {DistinctHost e, ReinstalledFromTrustedBase e})"

lemma judges_Inr:
  "rq_confirmed request \<and> judge_names request = Inr u \<and> judge_isolation request = Inr v
     \<and> judge_new_host request = Inr w \<longleftrightarrow> well_requested request"
  by (cases "rq_new_host request")
    (auto simp: well_requested_def judge_names_def judge_isolation_def judge_new_host_def incident_name_def result_iff
      split: Qualification.splits Isolation.splits)

lemma judge_reading_Inr: "judge_reading reading = Inr u \<longleftrightarrow> reading = Silent"
  by (cases reading) (simp_all add: judge_reading_def)

lemma qualify_Inr:
  "qualify request probes = Some (Inr incident) \<longleftrightarrow>
     well_requested request \<and> read_probes probes (rq_suspect_host request) = Some Silent
       \<and> incident = \<lparr>qi_qualification = rq_qualification request,
            qi_old_controller_id = rq_old_controller_id request, qi_suspect_host = rq_suspect_host request,
            qi_new_host = endpoint (rq_new_host request)\<rparr>"
  unfolding judges_Inr [of request "()" "()" "()", symmetric]
  by (auto simp: qualify_def judge_reading_Inr result_iff split: sum.splits)

text \<open>C22: no replacement begins on its own. The gate always answers, and it qualifies an incident
exactly when a human confirmed the request, at least two vantages, no two of them the same and
none the host being replaced, all found the old Controller unreachable for five minutes or
more, the isolation of a suspected compromise was verified from elsewhere, and the new host is
not the old one as it stands.\<close>

theorem incident_rests_on_a_silence:
  "qualify request probes \<noteq> None
   \<and> (qualify request probes = Some (Inr incident) \<longleftrightarrow>
       rq_confirmed request
       \<and> 2 \<le> length probes \<and> distinct (map pb_vantage probes)
       \<and> list_all (\<lambda>probe. is_name (pb_vantage probe) \<and> pb_vantage probe \<noteq> rq_suspect_host request
            \<and> pb_answer probe = ControllerUnreachable \<and> 300 \<le> pb_continuous_seconds probe) probes
       \<and> is_name (rq_old_controller_id request) \<and> is_name (rq_suspect_host request)
       \<and> (rq_qualification request = SuspectedCompromise \<longrightarrow>
            (\<exists>by. rq_isolation request = IsolationVerified by \<and> is_name by \<and> by \<noteq> rq_suspect_host request))
       \<and> (\<exists>e. is_name e \<and> rq_new_host request \<in> {DistinctHost e, ReinstalledFromTrustedBase e})
       \<and> incident = \<lparr>qi_qualification = rq_qualification request,
            qi_old_controller_id = rq_old_controller_id request, qi_suspect_host = rq_suspect_host request,
            qi_new_host = endpoint (rq_new_host request)\<rparr>)"
proof -
  have "qualify request probes \<noteq> None"
    using read_probes_total [of probes "rq_suspect_host request"] by (simp add: qualify_def split: sum.splits)
  then show ?thesis
    unfolding qualify_Inr read_probes_Silent well_requested_def long_silent_def by blast
qed

text \<open>A request after a theft, and two machines that have been finding nothing for ten minutes.\<close>

definition sample_request :: Request where
  "sample_request = \<lparr>rq_qualification = SuspectedCompromise, rq_old_controller_id = ''c1'',
     rq_suspect_host = ''old'', rq_new_host = DistinctHost ''new'', rq_isolation = IsolationVerified ''switch'',
     rq_confirmed = True\<rparr>"

definition sample_probes :: "Probe list" where
  "sample_probes = [\<lparr>pb_vantage = ''m1'', pb_answer = ControllerUnreachable, pb_continuous_seconds = 600\<rparr>,
     \<lparr>pb_vantage = ''m2'', pb_answer = ControllerUnreachable, pb_continuous_seconds = 300\<rparr>]"

lemma is_name_solid: "is_name s" if "solid s" "s \<noteq> []" "length s \<le> 128"
proof -
  have "trim_str s = s"
    using that by (subst trim_str_ascii [OF solid_is_ascii]) (auto simp: trim_closed solid_def list_all_iff)
  moreover have "\<not> contains_white s"
    using solid_cells [OF that(1)] by (auto simp: contains_white_def list_all_iff list_ex_iff)
  ultimately show ?thesis using that by (simp add: is_name_def limits)
qed

lemma sample_names: "is_name ''c1''" "is_name ''old''" "is_name ''new''" "is_name ''switch''" "is_name ''m1''" "is_name ''m2''"
  by (rule is_name_solid; simp add: solid_def is_white_def code_def)+

theorem incident_rests_on_a_silence_witness:
  "qualify sample_request sample_probes
     = Some (Inr \<lparr>qi_qualification = SuspectedCompromise, qi_old_controller_id = ''c1'',
         qi_suspect_host = ''old'', qi_new_host = ''new''\<rparr>)"
  using incident_rests_on_a_silence [of sample_request sample_probes
      "\<lparr>qi_qualification = SuspectedCompromise, qi_old_controller_id = ''c1'', qi_suspect_host = ''old'',
        qi_new_host = ''new''\<rparr>"] sample_names
  by (simp add: sample_request_def sample_probes_def)

end
