(* ===== verification/Association_Offer.thy ===== *)
theory Association_Offer
  imports Prelude
begin

text \<open>
  \<open>installation/association.rs\<close>: the one-time binding of an App to a Controller,
  inside the window of its offer.
\<close>

section \<open>The association\<close>

definition MAX_LIFETIME_SECONDS :: u64 where [limits]: "MAX_LIFETIME_SECONDS = 600"

definition MAX_IDENTIFIER_BYTES :: nat where [limits]: "MAX_IDENTIFIER_BYTES = 128"

record AssociationOffer =
  ao_infrastructure_id :: string
  ao_controller_id :: string
  ao_sheet_id :: string
  ao_issued_at_unix_seconds :: u64
  ao_lifetime_seconds :: u64

datatype AssociationRefusal =
    IdentifierMalformed string
  | LifetimeTooLong
  | LifetimeMissing
  | OfferExpired
  | OfferNotYetValid
  | SheetAlreadyUsed
  | ForeignInfrastructure string

record Association =
  as_infrastructure_id :: string
  as_controller_id :: string
  as_sheet_id :: string

definition association_identifier :: "string \<Rightarrow> string \<Rightarrow> AssociationRefusal + unit" where
  "association_identifier v what =
     (if v = [] \<or> length v > MAX_IDENTIFIER_BYTES then Inl (IdentifierMalformed what) else Inr ())"

definition saturating_add :: "u64 \<Rightarrow> u64 \<Rightarrow> u64" where
  "saturating_add a b = (if a + b < a then - 1 else a + b)"

definition bind_association ::
  "AssociationOffer \<Rightarrow> string \<Rightarrow> string list \<Rightarrow> u64 \<Rightarrow> AssociationRefusal + Association" where
  "bind_association offer expected_infrastructure already_used now_unix_seconds =
     and_then (association_identifier (ao_infrastructure_id offer) ''infrastructure_id'') (\<lambda>_.
     and_then (association_identifier (ao_controller_id offer) ''controller_id'') (\<lambda>_.
     and_then (association_identifier (ao_sheet_id offer) ''sheet_id'') (\<lambda>_.
     and_then (association_identifier expected_infrastructure ''expected_infrastructure'') (\<lambda>_.
     if ao_lifetime_seconds offer = 0 then Inl LifetimeMissing
     else if ao_lifetime_seconds offer > MAX_LIFETIME_SECONDS then Inl LifetimeTooLong
     else if ao_infrastructure_id offer \<noteq> expected_infrastructure
     then Inl (ForeignInfrastructure (ao_infrastructure_id offer))
     else if now_unix_seconds < ao_issued_at_unix_seconds offer then Inl OfferNotYetValid
     else if saturating_add (ao_issued_at_unix_seconds offer) (ao_lifetime_seconds offer) \<le> now_unix_seconds
     then Inl OfferExpired
     else if ao_sheet_id offer \<in> set already_used then Inl SheetAlreadyUsed
     else Inr \<lparr>as_infrastructure_id = ao_infrastructure_id offer,
               as_controller_id = ao_controller_id offer, as_sheet_id = ao_sheet_id offer\<rparr>))))"

section \<open>One binding, inside its window\<close>

lemma unat_saturating_add: "unat (saturating_add a b) = min (unat a + unat b) (2 ^ 64 - 1)"
proof (cases "unat a + unat b < 2 ^ 64")
  case True
  then have "unat (a + b) = unat a + unat b" by (simp add: unat_word_ariths)
  then show ?thesis using True by (simp add: saturating_add_def word_less_nat_alt)
next
  case False
  have small: "unat a < 2 ^ 64" "unat b < 2 ^ 64" using unsigned_less [of a] unsigned_less [of b] by simp_all
  have "unat (a + b) = (unat a + unat b) mod 2 ^ 64" by (simp add: unat_word_ariths)
  also have "\<dots> = (unat a + unat b - 2 ^ 64) mod 2 ^ 64" using False by (intro le_mod_geq) simp
  also have "\<dots> = unat a + unat b - 2 ^ 64" using small by (intro mod_less) linarith
  finally have "unat (a + b) = unat a + unat b - 2 ^ 64" .
  moreover note small
  ultimately have "a + b < a" using False by (simp add: word_less_nat_alt)
  then show ?thesis using False by (simp add: saturating_add_def unsigned_minus_1_eq_mask mask_eq_exp_minus_1)
qed

text \<open>An App is bound to a Controller once, for the infrastructure being created, and while
the offer lasts: not before it was issued, never ten minutes after, and past the last second
a 64-bit count can hold the window closes instead of wrapping.\<close>

theorem association_is_bounded:
  "bind_association offer infrastructure used now = Inr bound \<longleftrightarrow>
     ao_infrastructure_id offer = infrastructure
     \<and> (\<forall>v \<in> {infrastructure, ao_controller_id offer, ao_sheet_id offer}. v \<noteq> [] \<and> length v \<le> 128)
     \<and> 0 < unat (ao_lifetime_seconds offer) \<and> unat (ao_lifetime_seconds offer) \<le> 600
     \<and> unat (ao_issued_at_unix_seconds offer) \<le> unat now
     \<and> unat now < min (unat (ao_issued_at_unix_seconds offer) + unat (ao_lifetime_seconds offer)) (2 ^ 64 - 1)
     \<and> ao_sheet_id offer \<notin> set used
     \<and> bound = \<lparr>as_infrastructure_id = infrastructure, as_controller_id = ao_controller_id offer,
          as_sheet_id = ao_sheet_id offer\<rparr>"
proof -
  have life: "ao_lifetime_seconds offer \<noteq> 0 \<longleftrightarrow> 0 < unat (ao_lifetime_seconds offer)"
      "\<not> 600 < ao_lifetime_seconds offer \<longleftrightarrow> unat (ao_lifetime_seconds offer) \<le> 600"
    by (simp_all add: unat_gt_0 word_less_nat_alt not_less)
  have window: "\<not> now < ao_issued_at_unix_seconds offer \<longleftrightarrow> unat (ao_issued_at_unix_seconds offer) \<le> unat now"
      "\<not> saturating_add (ao_issued_at_unix_seconds offer) (ao_lifetime_seconds offer) \<le> now \<longleftrightarrow>
         unat now < min (unat (ao_issued_at_unix_seconds offer) + unat (ao_lifetime_seconds offer)) (2 ^ 64 - 1)"
    by (simp_all only: word_less_nat_alt word_le_nat_alt not_less not_le unat_saturating_add)
  show ?thesis
    unfolding bind_association_def association_identifier_def result_iff guard_Inr_iff limits life window [symmetric]
    using life window by auto
qed

theorem association_is_bounded_witness:
  "bind_association \<lparr>ao_infrastructure_id = ''i'', ao_controller_id = ''c'', ao_sheet_id = ''s'',
       ao_issued_at_unix_seconds = 100, ao_lifetime_seconds = 600\<rparr> ''i'' [''r''] 699
     = Inr \<lparr>as_infrastructure_id = ''i'', as_controller_id = ''c'', as_sheet_id = ''s''\<rparr>"
  by (subst association_is_bounded) simp

end
