(* ===== verification/Succession.thy ===== *)
theory Succession
  imports Incident Association_Offer
begin

text \<open>
  \<open>replacement/succession.rs\<close>, a new Controller for an infrastructure the independent
  states agree on; and \<open>replacement/inheritance.rs\<close>, what the new Controller starts
  with and what the old one keeps.
\<close>

section \<open>The infrastructure the states agree on\<close>

definition REQUIRED_INDEPENDENT_STATES :: nat where [limits]: "REQUIRED_INDEPENDENT_STATES = 2"

record IndependentState =
  is_source :: string
  is_infrastructure_id :: "string option"

datatype ContinuityRefusal =
    TooFewIndependentStates nat
  | SourceIsNotIndependent string
  | DuplicateSource string
  | UnreadableSource string
  | DivergentSource string string string
  | MalformedSourceIdentifier string

record Continuity =
  ct_infrastructure_id :: string
  ct_sources :: "string list"

definition is_identifier :: "string \<Rightarrow> bool" where
  "is_identifier v = (trim_str v \<noteq> [] \<and> length v \<le> MAX_IDENTIFIER_BYTES \<and> \<not> contains_white v)"

text \<open>The loop of \<open>concord\<close>, with the sources seen and the identifier they agree on.\<close>

fun concord_from ::
  "QualifiedIncident \<Rightarrow> string list \<Rightarrow> string option \<Rightarrow> IndependentState list
     \<Rightarrow> ContinuityRefusal + string list \<times> string option" where
  "concord_from incident seen agreed [] = Inr (seen, agreed)"
| "concord_from incident seen agreed (state # states) =
     (if is_source state = qi_old_controller_id incident \<or> is_source state = qi_suspect_host incident
      then Inl (SourceIsNotIndependent (is_source state))
      else if is_source state \<in> set seen then Inl (DuplicateSource (is_source state))
      else
        case is_infrastructure_id state of
          None \<Rightarrow> Inl (UnreadableSource (is_source state))
        | Some announced \<Rightarrow>
            if \<not> is_identifier announced then Inl (MalformedSourceIdentifier (is_source state))
            else
              case agreed of
                None \<Rightarrow> concord_from incident (seen @ [is_source state]) (Some announced) states
              | Some other \<Rightarrow>
                  if other \<noteq> announced then Inl (DivergentSource (is_source state) announced other)
                  else concord_from incident (seen @ [is_source state]) (Some other) states)"

text \<open>\<open>None\<close> is the panic of the final \<open>expect\<close>.\<close>

definition concord ::
  "QualifiedIncident \<Rightarrow> IndependentState list \<Rightarrow> (ContinuityRefusal + Continuity) option" where
  "concord incident states =
     (case concord_from incident [] None states of
        Inl refusal \<Rightarrow> Some (Inl refusal)
      | Inr (seen, agreed) \<Rightarrow>
          if length seen < REQUIRED_INDEPENDENT_STATES
          then Some (Inl (TooFewIndependentStates (length seen)))
          else
            case agreed of
              None \<Rightarrow> None
            | Some infrastructure_id \<Rightarrow>
                Some (Inr \<lparr>ct_infrastructure_id = infrastructure_id, ct_sources = seen\<rparr>))"

section \<open>The new Controller\<close>

datatype SuccessionRefusal =
    MalformedSuccessor string
  | ControllerIdIsNotFresh
  | ControllerIdAlreadyUsed string

record Succession =
  su_infrastructure_id :: string
  su_controller_id :: string
  su_old_controller_id :: string

definition succeed ::
  "QualifiedIncident \<Rightarrow> Continuity \<Rightarrow> string \<Rightarrow> string list \<Rightarrow> SuccessionRefusal + Succession" where
  "succeed incident continuity new_controller_id already_used =
     (if \<not> is_identifier new_controller_id then Inl (MalformedSuccessor ''controller_id'')
      else if \<not> is_identifier (ct_infrastructure_id continuity)
      then Inl (MalformedSuccessor ''infrastructure_id'')
      else if new_controller_id = qi_old_controller_id incident then Inl ControllerIdIsNotFresh
      else if new_controller_id \<in> set already_used
      then Inl (ControllerIdAlreadyUsed new_controller_id)
      else Inr \<lparr>su_infrastructure_id = ct_infrastructure_id continuity,
                su_controller_id = new_controller_id,
                su_old_controller_id = qi_old_controller_id incident\<rparr>)"

section \<open>What is carried, and what is left\<close>

datatype AuthorityKind =
    KindDevice | KindCertificate | KindSession | KindSecret | KindNetworkFilter | KindManifest

definition EVERY_KIND :: "AuthorityKind list" where
  "EVERY_KIND = [KindDevice, KindCertificate, KindSession, KindSecret, KindNetworkFilter, KindManifest]"

fun authority_kind_str :: "AuthorityKind \<Rightarrow> string" where
  "authority_kind_str KindDevice = ''device''"
| "authority_kind_str KindCertificate = ''certificate''"
| "authority_kind_str KindSession = ''session''"
| "authority_kind_str KindSecret = ''secret''"
| "authority_kind_str KindNetworkFilter = ''network-filter''"
| "authority_kind_str KindManifest = ''manifest''"

datatype CarriedOrigin =
    MintedForTheNewController | InheritedFromTheOldAssociation | IndependentOfEveryController

record Carried =
  ca_kind :: AuthorityKind
  ca_name :: string
  ca_origin :: CarriedOrigin

datatype InheritanceRefusal = Inherited string string | NothingCarried

record StartedClean =
  sc_minted :: nat
  sc_reused :: nat

fun admit_from :: "nat \<Rightarrow> nat \<Rightarrow> Carried list \<Rightarrow> InheritanceRefusal + StartedClean" where
  "admit_from minted reused [] = Inr \<lparr>sc_minted = minted, sc_reused = reused\<rparr>"
| "admit_from minted reused (item # rest) =
     (case ca_origin item of
        InheritedFromTheOldAssociation \<Rightarrow> Inl (Inherited (authority_kind_str (ca_kind item)) (ca_name item))
      | MintedForTheNewController \<Rightarrow> admit_from (minted + 1) reused rest
      | IndependentOfEveryController \<Rightarrow> admit_from minted (reused + 1) rest)"

definition admit :: "Carried list \<Rightarrow> InheritanceRefusal + StartedClean" where
  "admit carried = (if carried = [] then Inl NothingCarried else admit_from 0 0 carried)"

datatype Grant = GrantRefused | GrantStillGrantsAuthority | GrantNotObserved

record Residue =
  rs_kind :: AuthorityKind
  rs_name :: string
  rs_grant :: Grant

datatype SweepRefusal =
    StillGrantsAuthority string string
  | ResidueNotObserved string string
  | KindNotSwept string

record Swept =
  sw_checked :: nat

definition sweep :: "Residue list \<Rightarrow> SweepRefusal + Swept" where
  "sweep residues =
     (case find (\<lambda>r. rs_grant r = GrantStillGrantsAuthority) residues of
        Some r \<Rightarrow> Inl (StillGrantsAuthority (authority_kind_str (rs_kind r)) (rs_name r))
      | None \<Rightarrow>
          case find (\<lambda>r. rs_grant r = GrantNotObserved) residues of
            Some r \<Rightarrow> Inl (ResidueNotObserved (authority_kind_str (rs_kind r)) (rs_name r))
          | None \<Rightarrow>
              case find (\<lambda>kind. \<not> list_ex (\<lambda>r. rs_kind r = kind) residues) EVERY_KIND of
                Some kind \<Rightarrow> Inl (KindNotSwept (authority_kind_str kind))
              | None \<Rightarrow> Inr \<lparr>sw_checked = length residues\<rparr>)"

section \<open>A new authority for the same estate\<close>

lemma concord_from_Inr:
  "concord_from incident seen agreed states = Inr (sources, infra) \<longleftrightarrow>
     sources = seen @ map is_source states
     \<and> distinct (map is_source states) \<and> set seen \<inter> set (map is_source states) = {}
     \<and> list_all (\<lambda>state. is_source state \<notin> {qi_old_controller_id incident, qi_suspect_host incident}
          \<and> is_infrastructure_id state = infra \<and> infra \<noteq> None \<and> is_identifier (the infra)) states
     \<and> (agreed = infra \<or> (agreed = None \<and> states \<noteq> []))"
proof (induction incident seen agreed states rule: concord_from.induct)
  case (2 incident seen agreed state states)
  then show ?case by (cases agreed) (auto split: option.splits)
qed auto

lemma concord_Inr:
  "concord incident states = Some (Inr continuity) \<longleftrightarrow>
     (\<exists>infra. 2 \<le> length states \<and> distinct (map is_source states)
        \<and> list_all (\<lambda>state. is_source state \<notin> {qi_old_controller_id incident, qi_suspect_host incident}
             \<and> is_infrastructure_id state = Some infra) states \<and> is_identifier infra
        \<and> continuity = \<lparr>ct_infrastructure_id = infra, ct_sources = map is_source states\<rparr>)"
proof -
  have "concord incident states = Some (Inr continuity) \<longleftrightarrow>
      (\<exists>sources infra. concord_from incident [] None states = Inr (sources, Some infra) \<and> 2 \<le> length sources
         \<and> continuity = \<lparr>ct_infrastructure_id = infra, ct_sources = sources\<rparr>)"
    by (auto simp: concord_def limits not_less split: sum.splits option.splits)
  then show ?thesis
    unfolding concord_from_Inr by (cases states) (auto simp: list_all_iff)
qed

lemma concord_total: "concord incident states \<noteq> None"
proof -
  have "concord_from incident [] None states = Inr (sources, None) \<Longrightarrow> sources = []" for sources
    by (cases states) (simp_all add: concord_from_Inr del: concord_from.simps)
  then show ?thesis
    by (auto simp: concord_def limits split: sum.splits option.splits)
qed

lemma succeed_Inr:
  "succeed incident continuity new_id used = Inr succession \<longleftrightarrow>
     is_identifier new_id \<and> is_identifier (ct_infrastructure_id continuity)
     \<and> new_id \<noteq> qi_old_controller_id incident \<and> new_id \<notin> set used
     \<and> succession = \<lparr>su_infrastructure_id = ct_infrastructure_id continuity, su_controller_id = new_id,
          su_old_controller_id = qi_old_controller_id incident\<rparr>"
  by (auto simp: succeed_def)

text \<open>C33: a replacement changes the authority and keeps the estate. The concordance always
answers; and a successor is established exactly when at least two independent sources, no
two the same and none the old Controller or its host, all name one infrastructure, which the
successor carries, under an identifier that is neither the old one nor any used before.\<close>

theorem succession_is_new_authority:
  "concord incident states \<noteq> None
   \<and> ((\<exists>continuity. concord incident states = Some (Inr continuity)
          \<and> succeed incident continuity new_id used = Inr succession) \<longleftrightarrow>
      (\<exists>infra. 2 \<le> length states \<and> distinct (map is_source states)
         \<and> list_all (\<lambda>state. is_source state \<notin> {qi_old_controller_id incident, qi_suspect_host incident}
              \<and> is_infrastructure_id state = Some infra) states
         \<and> is_identifier infra \<and> is_identifier new_id
         \<and> new_id \<noteq> qi_old_controller_id incident \<and> new_id \<notin> set used
         \<and> succession = \<lparr>su_infrastructure_id = infra, su_controller_id = new_id,
              su_old_controller_id = qi_old_controller_id incident\<rparr>))"
  using concord_total by (auto simp: concord_Inr succeed_Inr)

section \<open>Nothing carried, nothing left\<close>

lemma admit_from_Inr:
  "admit_from minted reused items = Inr clean \<longleftrightarrow>
     list_all (\<lambda>item. ca_origin item \<noteq> InheritedFromTheOldAssociation) items
     \<and> sc_minted clean = minted + length (filter (\<lambda>item. ca_origin item = MintedForTheNewController) items)
     \<and> sc_reused clean = reused + length (filter (\<lambda>item. ca_origin item = IndependentOfEveryController) items)"
  by (induction minted reused items rule: admit_from.induct) (auto split: CarriedOrigin.splits)

lemma sweep_Inr:
  "sweep residues = Inr swept \<longleftrightarrow>
     list_all (\<lambda>r. rs_grant r = GrantRefused) residues
     \<and> (\<forall>kind. \<exists>r \<in> set residues. rs_kind r = kind) \<and> sw_checked swept = length residues"
proof -
  have kinds: "(\<forall>kind \<in> set EVERY_KIND. P kind) \<longleftrightarrow> (\<forall>kind. P kind)" for P
    by (auto simp: EVERY_KIND_def intro: AuthorityKind.exhaust [of _ "P _"]) (metis AuthorityKind.exhaust)
  have grants: "list_all (\<lambda>r. rs_grant r = GrantRefused) residues \<longleftrightarrow>
      (\<forall>r \<in> set residues. rs_grant r \<noteq> GrantStillGrantsAuthority \<and> rs_grant r \<noteq> GrantNotObserved)"
    unfolding list_all_iff by (metis Grant.distinct Grant.exhaust)
  show ?thesis
    unfolding grants kinds [symmetric]
    by (auto simp: sweep_def find_None_iff find_Some_iff list_ex_iff split: option.splits)
qed

text \<open>The sweep passes exactly when every kind of authority was tried and everything tried
was refused, and the start when something was declared and nothing of it was inherited; both
count what they were told of.\<close>

theorem nothing_inherited_nothing_left:
  "(sweep residues = Inr swept \<longleftrightarrow>
      list_all (\<lambda>r. rs_grant r = GrantRefused) residues
      \<and> (\<forall>kind. \<exists>r \<in> set residues. rs_kind r = kind) \<and> sw_checked swept = length residues)
   \<and> (admit carried = Inr clean \<longrightarrow>
      carried \<noteq> [] \<and> list_all (\<lambda>item. ca_origin item \<noteq> InheritedFromTheOldAssociation) carried
      \<and> sc_minted clean + sc_reused clean = length carried)"
proof -
  have count: "list_all (\<lambda>item. ca_origin item \<noteq> InheritedFromTheOldAssociation) items \<Longrightarrow>
      length (filter (\<lambda>item. ca_origin item = MintedForTheNewController) items)
        + length (filter (\<lambda>item. ca_origin item = IndependentOfEveryController) items) = length items" for items
  proof (induction items)
    case (Cons item items)
    then show ?case by (cases "ca_origin item") simp_all
  qed simp
  then show ?thesis
    using count [of carried] by (auto simp: sweep_Inr admit_def admit_from_Inr)
qed

theorem nothing_inherited_nothing_left_witness:
  "\<exists>clean. admit [\<lparr>ca_kind = KindSecret, ca_name = ''s'', ca_origin = MintedForTheNewController\<rparr>,
        \<lparr>ca_kind = KindCertificate, ca_name = ''relay'', ca_origin = IndependentOfEveryController\<rparr>] = Inr clean
     \<and> sc_minted clean + sc_reused clean = 2"
proof -
  have "admit [\<lparr>ca_kind = KindSecret, ca_name = ''s'', ca_origin = MintedForTheNewController\<rparr>,
        \<lparr>ca_kind = KindCertificate, ca_name = ''relay'', ca_origin = IndependentOfEveryController\<rparr>]
      = Inr \<lparr>sc_minted = 1, sc_reused = 1\<rparr>" by (simp add: admit_def)
  then show ?thesis
    using nothing_inherited_nothing_left [of "[]" "\<lparr>sw_checked = 0\<rparr>"
        "[\<lparr>ca_kind = KindSecret, ca_name = ''s'', ca_origin = MintedForTheNewController\<rparr>,
          \<lparr>ca_kind = KindCertificate, ca_name = ''relay'', ca_origin = IndependentOfEveryController\<rparr>]"
        "\<lparr>sc_minted = 1, sc_reused = 1\<rparr>"]
    by simp
qed

end
