(* ===== verification/Reader.thy ===== *)
theory Reader
  imports Succession
begin

text \<open>
  \<open>replacement/reader.rs\<close>: the Relay reader, what its manifest and its socket say
  together, and the proof that it was closed across the whole switch.
\<close>

section \<open>The manifest and the socket\<close>

definition READER_PORT :: u16 where [limits]: "READER_PORT = 8444"

definition READER_URI_PREFIX :: string where "READER_URI_PREFIX = ''urn:your-cloud:controller-reader:''"

definition reader_uri :: "string \<Rightarrow> string \<Rightarrow> string" where
  "reader_uri infrastructure_id controller_id = READER_URI_PREFIX @ infrastructure_id @ '':'' @ controller_id"

record ReaderManifest =
  rm_infrastructure_id :: string
  rm_authorized_controller_ids :: "string list"
  rm_uri :: string
  rm_source_address :: string
  rm_status :: string
  rm_port :: u16

definition STATUS_ACTIVE :: string where "STATUS_ACTIVE = ''active''"

definition STATUS_REVOKED :: string where "STATUS_REVOKED = ''revoked''"

datatype ReaderState = ReaderClosed | ReaderOpenTo string string

datatype Socket = SocketListening | SocketNotListening | SocketUnobserved

datatype ReaderRefusal =
    TwoControllers string string
  | NoController
  | UnknownStatus string
  | WrongPort u16
  | UriDoesNotDeriveFromThePair string
  | SourceAddressNotExact string
  | MalformedReaderIdentifier string
  | SocketNotObserved
  | NeverSampledDuringTheSwitch
  | OpenDuringTheSwitch string
  | StillOpenToTheOldController
  | OpenToAnotherController string
  | NeverReopened
  | SourceAddressNotReprovisioned string

definition reader_identifier :: "string \<Rightarrow> string \<Rightarrow> ReaderRefusal + unit" where
  "reader_identifier v what =
     (if trim_str v = [] \<or> length v > MAX_IDENTIFIER_BYTES \<or> contains_white v \<or> CHR '':'' \<in> set v
      then Inl (MalformedReaderIdentifier what) else Inr ())"

text \<open>\<open>parse::<u8>()\<close> of one to three digits: the number, when a byte holds it.\<close>

definition octet_fits :: "string \<Rightarrow> bool" where
  "octet_fits part = (decimal_value part \<le> 255)"

fun exact_octets :: "nat \<Rightarrow> string list \<Rightarrow> bool" where
  "exact_octets found [] = (found = 4)"
| "exact_octets found (part # parts) =
     (if part = [] \<or> length part > 3 \<or> \<not> list_all is_ascii_digit part then False
      else if \<not> octet_fits part then False
      else exact_octets (found + 1) parts)"

definition is_exact_address :: "string \<Rightarrow> bool" where
  "is_exact_address v = exact_octets 0 (split_on CHR ''.'' v)"

definition read_reader :: "ReaderManifest \<Rightarrow> Socket \<Rightarrow> ReaderRefusal + ReaderState" where
  "read_reader manifest socket =
     and_then (reader_identifier (rm_infrastructure_id manifest) ''infrastructure_id'') (\<lambda>_.
     if rm_port manifest \<noteq> READER_PORT then Inl (WrongPort (rm_port manifest))
     else if rm_status manifest \<noteq> STATUS_ACTIVE \<and> rm_status manifest \<noteq> STATUS_REVOKED
     then Inl (UnknownStatus (rm_status manifest))
     else
       case rm_authorized_controller_ids manifest of
         [] \<Rightarrow> Inl NoController
       | first # second # _ \<Rightarrow> Inl (TwoControllers first second)
       | [controller_id] \<Rightarrow>
           and_then (reader_identifier controller_id ''controller_id'') (\<lambda>_.
           if rm_uri manifest \<noteq> reader_uri (rm_infrastructure_id manifest) controller_id
           then Inl (UriDoesNotDeriveFromThePair (rm_uri manifest))
           else if \<not> is_exact_address (rm_source_address manifest)
           then Inl (SourceAddressNotExact (rm_source_address manifest))
           else
             case socket of
               SocketUnobserved \<Rightarrow> Inl SocketNotObserved
             | SocketNotListening \<Rightarrow> Inr ReaderClosed
             | SocketListening \<Rightarrow>
                 if rm_status manifest = STATUS_REVOKED then Inr ReaderClosed
                 else Inr (ReaderOpenTo controller_id (rm_source_address manifest))))"

section \<open>The rotation\<close>

record ReaderRotation =
  rr_controller_id :: string
  rr_samples :: nat

fun refuse_open :: "ReaderState list \<Rightarrow> ReaderRefusal + unit" where
  "refuse_open [] = Inr ()"
| "refuse_open (ReaderOpenTo controller_id _ # rest) = Inl (OpenDuringTheSwitch controller_id)"
| "refuse_open (ReaderClosed # rest) = refuse_open rest"

definition rotate_reader ::
  "ReaderState list \<Rightarrow> ReaderState \<Rightarrow> string \<Rightarrow> string \<Rightarrow> string \<Rightarrow> ReaderRefusal + ReaderRotation" where
  "rotate_reader during after old_controller_id new_controller_id old_source_address =
     and_then (reader_identifier old_controller_id ''old_controller_id'') (\<lambda>_.
     and_then (reader_identifier new_controller_id ''new_controller_id'') (\<lambda>_.
     if during = [] then Inl NeverSampledDuringTheSwitch
     else
       and_then (refuse_open during) (\<lambda>_.
       case after of
         ReaderClosed \<Rightarrow> Inl NeverReopened
       | ReaderOpenTo controller_id source_address \<Rightarrow>
           if controller_id = old_controller_id then Inl StillOpenToTheOldController
           else if controller_id \<noteq> new_controller_id then Inl (OpenToAnotherController controller_id)
           else if source_address = old_source_address
           then Inl (SourceAddressNotReprovisioned source_address)
           else Inr \<lparr>rr_controller_id = controller_id, rr_samples = length during\<rparr>)))"

section \<open>Never open to two\<close>

definition reader_name :: "string \<Rightarrow> bool" where
  "reader_name v \<longleftrightarrow> is_identifier v \<and> CHR '':'' \<notin> set v"

lemma reader_identifier_Inr: "reader_identifier v what = Inr u \<longleftrightarrow> reader_name v"
  by (auto simp: reader_identifier_def reader_name_def is_identifier_def)

lemma reader_uri_inject:
  "CHR '':'' \<notin> set i \<Longrightarrow> CHR '':'' \<notin> set j \<Longrightarrow> reader_uri i c = reader_uri j d \<Longrightarrow> i = j \<and> c = d"
  using split_once_Some [of "CHR '':''" "i @ '':'' @ c" i c] split_once_Some [of "CHR '':''" "j @ '':'' @ d" j d]
  by (simp add: reader_uri_def)

text \<open>What the manifest must be for anything to be read from it.\<close>

definition manifest_for :: "string \<Rightarrow> ReaderManifest \<Rightarrow> bool" where
  "manifest_for controller_id manifest \<longleftrightarrow>
     rm_authorized_controller_ids manifest = [controller_id]
       \<and> reader_name (rm_infrastructure_id manifest) \<and> reader_name controller_id
       \<and> rm_uri manifest = reader_uri (rm_infrastructure_id manifest) controller_id
       \<and> rm_port manifest = 8444 \<and> is_exact_address (rm_source_address manifest)
       \<and> rm_status manifest \<in> {''active'', ''revoked''}"

lemma read_reader_Inr:
  "read_reader manifest socket = Inr state \<longleftrightarrow>
     (\<exists>controller_id. manifest_for controller_id manifest \<and> socket \<noteq> SocketUnobserved
        \<and> state = (if socket = SocketListening \<and> rm_status manifest = ''active''
                   then ReaderOpenTo controller_id (rm_source_address manifest) else ReaderClosed))"
  unfolding read_reader_def manifest_for_def result_iff reader_identifier_Inr guard_Inr_iff limits
    STATUS_ACTIVE_def STATUS_REVOKED_def
  by (auto simp: reader_identifier_Inr result_iff split: list.splits Socket.splits if_splits)

lemma refuse_open_Inr: "refuse_open states = Inr u \<longleftrightarrow> set states \<subseteq> {ReaderClosed}"
  by (induction states rule: refuse_open.induct) auto

lemma rotate_reader_Inr:
  "rotate_reader during after old new old_address = Inr rotation \<longleftrightarrow>
     reader_name old \<and> reader_name new \<and> during \<noteq> [] \<and> set during \<subseteq> {ReaderClosed}
       \<and> (\<exists>address. after = ReaderOpenTo new address \<and> address \<noteq> old_address) \<and> new \<noteq> old
       \<and> rotation = \<lparr>rr_controller_id = new, rr_samples = length during\<rparr>"
  by (auto simp: rotate_reader_def result_iff reader_identifier_Inr refuse_open_Inr split: ReaderState.splits)


definition sample_manifest_of :: "string \<Rightarrow> string \<Rightarrow> string \<Rightarrow> ReaderManifest" where
  "sample_manifest_of controller_id address status = \<lparr>rm_infrastructure_id = ''i'',
     rm_authorized_controller_ids = [controller_id], rm_uri = reader_uri ''i'' controller_id,
     rm_source_address = address, rm_status = status, rm_port = 8444\<rparr>"

lemma is_identifier_solid: "is_identifier s" if "solid s" "s \<noteq> []" "length s \<le> 128"
  using is_name_solid [OF that] by (simp add: is_identifier_def is_name_def limits)

lemma sample_reader_names: "reader_name ''i''" "reader_name ''old''" "reader_name ''new''"
  by (simp_all add: reader_name_def is_identifier_solid solid_def is_white_def code_def)

lemma sample_manifest_for:
  "status \<in> {''active'', ''revoked''} \<Longrightarrow> reader_name controller_id \<Longrightarrow> is_exact_address address \<Longrightarrow>
     manifest_for controller_id (sample_manifest_of controller_id address status)"
  using sample_reader_names by (simp add: manifest_for_def sample_manifest_of_def)

lemma exact_addresses: "is_exact_address ''10.0.0.1''" "is_exact_address ''10.0.0.2''" "is_exact_address ''010.0.0.1''"
  by (simp_all add: is_exact_address_def octet_fits_def decimal_value_def ascii_simps code_def)


text \<open>
  An address is compared as it is spelt, and an octet with a leading zero is one the reader
  takes: the old address under another spelling passes for a new one.
\<close>

lemma respelt_address_is_accepted:
  "read_reader (sample_manifest_of ''new'' ''010.0.0.1'' ''active'') SocketListening
     = Inr (ReaderOpenTo ''new'' ''010.0.0.1'')
   \<and> rotate_reader [ReaderClosed] (ReaderOpenTo ''new'' ''010.0.0.1'') ''old'' ''new'' ''10.0.0.1''
     = Inr \<lparr>rr_controller_id = ''new'', rr_samples = 1\<rparr>"
  using sample_manifest_for [of "''active''" "''new''" "''010.0.0.1''"] sample_reader_names exact_addresses
  by (auto simp: read_reader_Inr rotate_reader_Inr sample_manifest_of_def)

end
