(* ===== verification/Withdrawal.thy ===== *)
theory Withdrawal
  imports Reader Forced_Entry
begin

text \<open>
  \<open>replacement/transition.rs\<close>, the state of each target rebuilt from what it answers, and
  \<open>replacement/withdrawal.rs\<close>, what may be taken away once the new authority answered.
\<close>

section \<open>The state of a target\<close>

datatype Attempt = AttemptAnswered | AttemptRefused | AttemptNoAnswer

record Evidence =
  ev_managed_fingerprints :: "string list option"
  ev_old_fingerprint :: string
  ev_new_fingerprint :: string
  ev_old_identity :: Attempt
  ev_new_identity :: Attempt

datatype TargetState = OldOnly | BoundedOverlap | NewOnly | StateUnknown

fun target_state_str :: "TargetState \<Rightarrow> string" where
  "target_state_str OldOnly = ''old-only''"
| "target_state_str BoundedOverlap = ''bounded-overlap''"
| "target_state_str NewOnly = ''new-only''"
| "target_state_str StateUnknown = ''unknown''"

definition reconstruct :: "Evidence \<Rightarrow> TargetState" where
  "reconstruct evidence =
     (case ev_managed_fingerprints evidence of
        None \<Rightarrow> StateUnknown
      | Some installed \<Rightarrow>
          (let old_installed = ev_old_fingerprint evidence \<in> set installed;
               new_installed = ev_new_fingerprint evidence \<in> set installed in
           if ev_old_identity evidence = AttemptNoAnswer then StateUnknown
           else if ev_new_identity evidence = AttemptNoAnswer then StateUnknown
           else
             let old_works = (ev_old_identity evidence = AttemptAnswered);
                 new_works = (ev_new_identity evidence = AttemptAnswered) in
             if old_installed \<noteq> old_works \<or> new_installed \<noteq> new_works then StateUnknown
             else
               case (old_works, new_works) of
                 (True, False) \<Rightarrow> OldOnly
               | (True, True) \<Rightarrow> BoundedOverlap
               | (False, True) \<Rightarrow> NewOnly
               | (False, False) \<Rightarrow> StateUnknown))"

datatype Next = InstallNewAuthority | WithdrawOldAuthorityNext | NothingNext | ObserveOnly

fun next_step :: "TargetState \<Rightarrow> Next" where
  "next_step OldOnly = InstallNewAuthority"
| "next_step BoundedOverlap = WithdrawOldAuthorityNext"
| "next_step NewOnly = NothingNext"
| "next_step StateUnknown = ObserveOnly"

record Reconstructed =
  rc_machine :: string
  rc_state :: TargetState

datatype FleetRefusal = EmptyFleet | DuplicateTarget string

record Fleet =
  fl_targets :: "Reconstructed list"

definition state_of :: "Fleet \<Rightarrow> string \<Rightarrow> TargetState option" where
  "state_of fleet machine = map_option rc_state (find (\<lambda>target. rc_machine target = machine) (fl_targets fleet))"

definition machines_in :: "Fleet \<Rightarrow> TargetState \<Rightarrow> string list" where
  "machines_in fleet state = map rc_machine (filter (\<lambda>target. rc_state target = state) (fl_targets fleet))"

definition every_target_is_new_only :: "Fleet \<Rightarrow> bool" where
  "every_target_is_new_only fleet = list_all (\<lambda>target. rc_state target = NewOnly) (fl_targets fleet)"

fun no_target_twice :: "string list \<Rightarrow> Reconstructed list \<Rightarrow> FleetRefusal + unit" where
  "no_target_twice seen [] = Inr ()"
| "no_target_twice seen (target # targets) =
     (if rc_machine target \<in> set seen then Inl (DuplicateTarget (rc_machine target))
      else no_target_twice (seen @ [rc_machine target]) targets)"

definition assemble :: "Reconstructed list \<Rightarrow> FleetRefusal + Fleet" where
  "assemble targets =
     (if targets = [] then Inl EmptyFleet
      else and_then (no_target_twice [] targets) (\<lambda>_. Inr \<lparr>fl_targets = targets\<rparr>))"

section \<open>What an entry is, and what may be taken\<close>

record ObservedKey =
  ok_file :: string
  ok_line :: string
  ok_fingerprint :: string

text \<open>The refusal of an unmanaged entry, which the code keeps as its \<open>Debug\<close> text.\<close>

datatype KeyProvenance = KeyManaged | KeyUnrecognised | KeyUnmanaged EntryRefusal | KeyPersonal

fun key_provenance_str :: "KeyProvenance \<Rightarrow> string" where
  "key_provenance_str KeyManaged = ''managed''"
| "key_provenance_str KeyUnrecognised = ''unrecognised''"
| "key_provenance_str (KeyUnmanaged _) = ''unmanaged''"
| "key_provenance_str KeyPersonal = ''personal''"

definition classify :: "ObservedKey \<Rightarrow> string list \<Rightarrow> KeyProvenance" where
  "classify observed minted =
     (if ok_file observed \<noteq> key_file then KeyPersonal
      else
        case judge_entry (trim_str (ok_line observed) @ [newline]) of
          Inl refusal \<Rightarrow> KeyUnmanaged refusal
        | Inr _ \<Rightarrow>
            if ok_fingerprint observed \<notin> set minted then KeyUnrecognised else KeyManaged)"

record KeyRemoval =
  kr_file :: string
  kr_fingerprint :: string

record KeyKept =
  kk_file :: string
  kk_fingerprint :: string
  kk_provenance :: KeyProvenance

datatype WithdrawalRefusal =
    VerifiedAnotherMachine string
  | NothingObserved
  | NewIdentityNotPresent string
  | MalformedKeyFingerprint string
  | WouldRemoveTheNewIdentity

record Withdrawal =
  wd_machine :: string
  wd_removals :: "KeyRemoval list"
  wd_kept :: "KeyKept list"

definition key_fingerprint :: "string \<Rightarrow> bool" where
  "key_fingerprint v = (length v = HOST_KEY_FINGERPRINT_BYTES \<and> prefix ''SHA256:'' v)"

definition removable :: "string \<Rightarrow> string list \<Rightarrow> ObservedKey \<Rightarrow> KeyProvenance \<Rightarrow> bool" where
  "removable keeping retiring entry provenance \<longleftrightarrow>
     provenance = KeyManaged \<and> ok_fingerprint entry \<noteq> keeping \<and> ok_fingerprint entry \<in> set retiring"

text \<open>The loop of \<open>withdraw\<close>: whether the new identity was met, what is removed, what is kept.\<close>

fun withdraw_from ::
  "string \<Rightarrow> string list \<Rightarrow> bool \<times> KeyRemoval list \<times> KeyKept list \<Rightarrow> ObservedKey list
     \<Rightarrow> bool \<times> KeyRemoval list \<times> KeyKept list" where
  "withdraw_from keeping retiring sofar [] = sofar"
| "withdraw_from keeping retiring (kept_new, removals, kept) (entry # rest) =
     (let provenance = classify entry (retiring @ [keeping]);
          kept_new = (kept_new \<or> ok_fingerprint entry = keeping \<and> provenance = KeyManaged) in
      if removable keeping retiring entry provenance
      then withdraw_from keeping retiring
        (kept_new, removals @ [\<lparr>kr_file = ok_file entry, kr_fingerprint = ok_fingerprint entry\<rparr>], kept) rest
      else withdraw_from keeping retiring
        (kept_new, removals, kept @ [\<lparr>kk_file = ok_file entry, kk_fingerprint = ok_fingerprint entry,
           kk_provenance = provenance\<rparr>]) rest)"

definition withdraw ::
  "PathVerified \<Rightarrow> string \<Rightarrow> ObservedKey list \<Rightarrow> string \<Rightarrow> string list \<Rightarrow> WithdrawalRefusal + Withdrawal" where
  "withdraw verified machine observed keeping retiring =
     (if pv_machine verified \<noteq> machine then Inl (VerifiedAnotherMachine (pv_machine verified))
      else if \<not> key_fingerprint keeping then Inl (MalformedKeyFingerprint keeping)
      else if keeping \<in> set retiring then Inl WouldRemoveTheNewIdentity
      else if observed = [] then Inl NothingObserved
      else
        case find (\<lambda>entry. \<not> key_fingerprint (ok_fingerprint entry)) observed of
          Some entry \<Rightarrow> Inl (MalformedKeyFingerprint (ok_fingerprint entry))
        | None \<Rightarrow>
            (case withdraw_from keeping retiring (False, [], []) observed of (kept_new, removals, kept) \<Rightarrow>
               if \<not> kept_new then Inl (NewIdentityNotPresent keeping)
               else Inr \<lparr>wd_machine = machine, wd_removals = removals, wd_kept = kept\<rparr>))"

section \<open>The approval epoch\<close>

datatype EpochRefusal = EpochIsZero | NotStrictlyGreater u64 u64

record EpochRotation =
  ep_superseded :: u64
  ep_epoch :: u64

definition supersede :: "u64 \<Rightarrow> u64 \<Rightarrow> EpochRefusal + EpochRotation" where
  "supersede installed proposed =
     (if installed = 0 \<or> proposed = 0 then Inl EpochIsZero
      else if proposed \<le> installed then Inl (NotStrictlyGreater installed proposed)
      else Inr \<lparr>ep_superseded = installed, ep_epoch = proposed\<rparr>)"

section \<open>Nothing is taken from a target that is not known\<close>

lemma reconstruct_cases:
  "reconstruct evidence = NewOnly \<longleftrightarrow>
     (\<exists>installed. ev_managed_fingerprints evidence = Some installed
        \<and> ev_old_fingerprint evidence \<notin> set installed \<and> ev_new_fingerprint evidence \<in> set installed
        \<and> ev_old_identity evidence = AttemptRefused \<and> ev_new_identity evidence = AttemptAnswered)"
  "reconstruct evidence = BoundedOverlap \<longleftrightarrow>
     (\<exists>installed. ev_managed_fingerprints evidence = Some installed
        \<and> {ev_old_fingerprint evidence, ev_new_fingerprint evidence} \<subseteq> set installed
        \<and> ev_old_identity evidence = AttemptAnswered \<and> ev_new_identity evidence = AttemptAnswered)"
  "reconstruct evidence = OldOnly \<longleftrightarrow>
     (\<exists>installed. ev_managed_fingerprints evidence = Some installed
        \<and> ev_old_fingerprint evidence \<in> set installed \<and> ev_new_fingerprint evidence \<notin> set installed
        \<and> ev_old_identity evidence = AttemptAnswered \<and> ev_new_identity evidence = AttemptRefused)"
  by (cases "ev_old_identity evidence"; cases "ev_new_identity evidence";
      auto simp: reconstruct_def Let_def split: option.splits)+

text \<open>The four states are what the machine was seen to hold, file and wire agreeing. A target
is finished exactly when its managed file holds the new identity and not the old one, the new
one answered and the old one was refused; and a withdrawal follows exactly from a file that
holds both while both answered, so never from a target anything is unknown about.\<close>

theorem withdrawal_needs_a_seen_overlap:
  "(next_step (reconstruct evidence) = NothingNext \<longleftrightarrow>
      (\<exists>installed. ev_managed_fingerprints evidence = Some installed
         \<and> ev_old_fingerprint evidence \<notin> set installed \<and> ev_new_fingerprint evidence \<in> set installed
         \<and> ev_old_identity evidence = AttemptRefused \<and> ev_new_identity evidence = AttemptAnswered))
   \<and> (next_step (reconstruct evidence) = WithdrawOldAuthorityNext \<longleftrightarrow>
      (\<exists>installed. ev_managed_fingerprints evidence = Some installed
         \<and> {ev_old_fingerprint evidence, ev_new_fingerprint evidence} \<subseteq> set installed
         \<and> ev_old_identity evidence = AttemptAnswered \<and> ev_new_identity evidence = AttemptAnswered))"
proof -
  have "next_step s = NothingNext \<longleftrightarrow> s = NewOnly" "next_step s = WithdrawOldAuthorityNext \<longleftrightarrow> s = BoundedOverlap" for s
    by (cases s; simp)+
  then show ?thesis by (simp only: reconstruct_cases)
qed

lemma no_target_twice_Inr:
  "no_target_twice seen targets = Inr u \<longleftrightarrow>
     distinct (map rc_machine targets) \<and> set seen \<inter> set (map rc_machine targets) = {}"
  by (induction seen targets rule: no_target_twice.induct) auto

lemma assemble_Inr:
  "assemble targets = Inr fleet \<longleftrightarrow>
     targets \<noteq> [] \<and> distinct (map rc_machine targets) \<and> fleet = \<lparr>fl_targets = targets\<rparr>"
  by (auto simp: assemble_def result_iff no_target_twice_Inr)

section \<open>Only what this infrastructure installed is taken\<close>

text \<open>An entry this infrastructure installed: in the managed file, one this product writes, and minted.\<close>

definition installed_here :: "string list \<Rightarrow> ObservedKey \<Rightarrow> bool" where
  "installed_here minted entry \<longleftrightarrow>
     ok_file entry = key_file \<and> is_ok (judge_entry (trim_str (ok_line entry) @ [newline]))
       \<and> ok_fingerprint entry \<in> set minted"

lemma classify_managed: "classify entry minted = KeyManaged \<longleftrightarrow> installed_here minted entry"
  by (auto simp: classify_def installed_here_def split: sum.splits)

definition as_removal :: "ObservedKey \<Rightarrow> KeyRemoval" where
  "as_removal entry = \<lparr>kr_file = ok_file entry, kr_fingerprint = ok_fingerprint entry\<rparr>"

definition as_kept :: "string list \<Rightarrow> ObservedKey \<Rightarrow> KeyKept" where
  "as_kept minted entry = \<lparr>kk_file = ok_file entry, kk_fingerprint = ok_fingerprint entry,
     kk_provenance = classify entry minted\<rparr>"

text \<open>What goes: an entry this infrastructure installed, for an identity of the old epoch.\<close>

definition retired :: "string \<Rightarrow> string list \<Rightarrow> ObservedKey \<Rightarrow> bool" where
  "retired keeping retiring entry \<longleftrightarrow>
     installed_here retiring entry \<and> ok_fingerprint entry \<noteq> keeping"

lemma removable_retired:
  "removable keeping retiring entry (classify entry (retiring @ [keeping])) \<longleftrightarrow> retired keeping retiring entry"
  by (auto simp: removable_def classify_managed retired_def installed_here_def)

lemma withdraw_from_partition:
  "withdraw_from keeping retiring (kept_new, removals, kept) observed =
     (kept_new \<or> (\<exists>entry \<in> set observed. ok_fingerprint entry = keeping \<and> installed_here [keeping] entry),
      removals @ map as_removal (filter (retired keeping retiring) observed),
      kept @ map (as_kept (retiring @ [keeping])) (filter (\<lambda>e. \<not> retired keeping retiring e) observed))"
proof (induction observed arbitrary: kept_new removals kept)
  case (Cons entry observed)
  have "ok_fingerprint entry = keeping \<and> classify entry (retiring @ [keeping]) = KeyManaged \<longleftrightarrow>
      ok_fingerprint entry = keeping \<and> installed_here [keeping] entry"
    by (auto simp: classify_managed installed_here_def)
  then show ?case
    using Cons.IH by (simp add: Let_def removable_retired as_removal_def as_kept_def disj_ac)
qed simp

text \<open>C15: a withdrawal takes only what this infrastructure installed for the old epoch. It is
accepted only on the machine whose new path was verified, and only when the new identity
stands in the managed file; its removals are, in the order observed, the entries of that file
this product writes whose fingerprint the old epoch minted, never the one being kept; and
every other entry observed is kept, with what it is.\<close>

theorem withdrawal_takes_only_its_own:
  assumes "withdraw verified machine observed keeping retiring = Inr withdrawal"
  shows "pv_machine verified = machine \<and> wd_machine withdrawal = machine
    \<and> wd_removals withdrawal = map as_removal (filter (\<lambda>entry. installed_here retiring entry
         \<and> ok_fingerprint entry \<noteq> keeping) observed)
    \<and> wd_kept withdrawal = map (as_kept (retiring @ [keeping])) (filter (\<lambda>entry. \<not> (installed_here retiring entry
         \<and> ok_fingerprint entry \<noteq> keeping)) observed)
    \<and> keeping \<notin> set retiring
    \<and> (\<exists>entry \<in> set observed. ok_fingerprint entry = keeping \<and> installed_here [keeping] entry)"
  using assms
  by (auto simp: withdraw_def withdraw_from_partition retired_def [abs_def] split: if_splits option.splits)

definition sample_print :: "char \<Rightarrow> string" where
  "sample_print c = ''SHA256:'' @ replicate 43 c"

definition sample_keys :: "ObservedKey list" where
  "sample_keys =
     [\<lparr>ok_file = key_file, ok_line = entry_line ''AAAA'', ok_fingerprint = sample_print CHR ''o''\<rparr>,
      \<lparr>ok_file = key_file, ok_line = entry_line ''AAAA'', ok_fingerprint = sample_print CHR ''n''\<rparr>,
      \<lparr>ok_file = ''/home/me/.ssh/authorized_keys'', ok_line = [], ok_fingerprint = sample_print CHR ''p''\<rparr>]"

theorem withdrawal_takes_only_its_own_witness:
  "\<exists>withdrawal. withdraw \<lparr>pv_machine = ''m''\<rparr> ''m'' sample_keys (sample_print CHR ''n'') [sample_print CHR ''o'']
       = Inr withdrawal
     \<and> wd_removals withdrawal = [\<lparr>kr_file = key_file, kr_fingerprint = sample_print CHR ''o''\<rparr>]"
proof -
  have prints: "key_fingerprint (sample_print c)" for c
    by (simp add: key_fingerprint_def sample_print_def limits)
  have different: "sample_print c = sample_print d \<longleftrightarrow> c = d" for c d
    by (simp add: sample_print_def replicate_eq_replicate)
  have "is_base64 ''AAAA''" by (simp add: is_base64_def ascii_simps code_def)
  then have "trim_str (entry_line ''AAAA'') = entry_line ''AAAA''"
    using entry_plain [of "''AAAA''"] by (subst trim_str_ascii) (simp_all add: trim_closed entry_line_def is_white_def code_def)
  then have entry: "is_ok (judge_entry (trim_str (entry_line ''AAAA'') @ [newline]))"
    using sample_entry_accepted by simp
  have elsewhere: "''/home/me/.ssh/authorized_keys'' \<noteq> key_file"
    by (simp add: key_file_def KEY_FILE_DIRECTORY_def)
  have here: "installed_here minted \<lparr>ok_file = key_file, ok_line = entry_line ''AAAA'', ok_fingerprint = f\<rparr>
      \<longleftrightarrow> f \<in> set minted" for minted f
    using entry by (simp add: installed_here_def)
  have away: "\<not> installed_here minted \<lparr>ok_file = ''/home/me/.ssh/authorized_keys'', ok_line = [], ok_fingerprint = f\<rparr>"
    for minted f using elsewhere by (simp add: installed_here_def)
  have found: "find (\<lambda>entry. \<not> key_fingerprint (ok_fingerprint entry)) sample_keys = None"
    using prints by (simp add: sample_keys_def)
  have "\<exists>withdrawal. withdraw \<lparr>pv_machine = ''m''\<rparr> ''m'' sample_keys (sample_print CHR ''n'') [sample_print CHR ''o'']
      = Inr withdrawal"
    unfolding withdraw_def found withdraw_from_partition
    using prints different by (simp add: sample_keys_def here)
  then obtain withdrawal where w:
    "withdraw \<lparr>pv_machine = ''m''\<rparr> ''m'' sample_keys (sample_print CHR ''n'') [sample_print CHR ''o''] = Inr withdrawal" ..
  then show ?thesis
    using withdrawal_takes_only_its_own [OF w] here away different
    by (simp add: sample_keys_def as_removal_def)
qed

lemma supersede_Inr:
  "supersede installed proposed = Inr rotation \<longleftrightarrow>
     0 < unat installed \<and> unat installed < unat proposed
       \<and> rotation = \<lparr>ep_superseded = installed, ep_epoch = proposed\<rparr>"
  by (auto simp: supersede_def word_le_nat_alt not_le unat_gt_0 unat_eq_zero)

end
