(* ===== verification/Replacement_Plan.thy ===== *)
theory Replacement_Plan
  imports Withdrawal Preflight Elevation
begin

text \<open>
  \<open>replacement/plan.rs\<close>: the ordered replacement, what authorises it, and the one gate a
  secured outcome goes through.
\<close>

section \<open>The journeys\<close>

datatype ReplacementStep =
    IsolateSuspectHost | AuditRedeclaredMachines | CloseRelayReader | InstallNewController | AssociateApp
  | ReprovisionRelayReader | RotateApprovalEpoch | InstallNewIdentities | VerifyNewAuthority
  | WithdrawOldAuthority | SweepResidualAuthority | ArchiveOldAssociation

fun replacement_step_str :: "ReplacementStep \<Rightarrow> string" where
  "replacement_step_str IsolateSuspectHost = ''isolate''"
| "replacement_step_str AuditRedeclaredMachines = ''audit''"
| "replacement_step_str CloseRelayReader = ''close-reader''"
| "replacement_step_str InstallNewController = ''install''"
| "replacement_step_str AssociateApp = ''associate''"
| "replacement_step_str ReprovisionRelayReader = ''reopen-reader''"
| "replacement_step_str RotateApprovalEpoch = ''epoch''"
| "replacement_step_str InstallNewIdentities = ''identities''"
| "replacement_step_str VerifyNewAuthority = ''verify''"
| "replacement_step_str WithdrawOldAuthority = ''withdraw''"
| "replacement_step_str SweepResidualAuthority = ''sweep''"
| "replacement_step_str ArchiveOldAssociation = ''archive''"

definition REPLACEMENT_STEPS :: "ReplacementStep list" where
  "REPLACEMENT_STEPS =
     [AuditRedeclaredMachines, CloseRelayReader, InstallNewController, AssociateApp, ReprovisionRelayReader,
      RotateApprovalEpoch, InstallNewIdentities, VerifyNewAuthority, WithdrawOldAuthority,
      SweepResidualAuthority, ArchiveOldAssociation]"

definition ISOLATED_STEPS :: "ReplacementStep list" where
  "ISOLATED_STEPS =
     [IsolateSuspectHost, AuditRedeclaredMachines, CloseRelayReader, InstallNewController, AssociateApp,
      ReprovisionRelayReader, RotateApprovalEpoch, InstallNewIdentities, VerifyNewAuthority,
      WithdrawOldAuthority, SweepResidualAuthority, ArchiveOldAssociation]"

section \<open>The plan\<close>

datatype ReplacementPlanRefusal =
    AssociationForAnotherController string
  | AssociationForAnotherInfrastructure string
  | NewHostNotCleared string
  | SuspectHostWasReached string

record ReplacementPlan =
  rp_qualification :: Qualification
  rp_old_controller_id :: string
  rp_controller_id :: string
  rp_infrastructure_id :: string
  rp_new_host :: string

definition replacement_steps :: "ReplacementPlan \<Rightarrow> ReplacementStep list" where
  "replacement_steps plan =
     (case rp_qualification plan of
        HardwareLoss \<Rightarrow> REPLACEMENT_STEPS
      | SuspectedCompromise \<Rightarrow> ISOLATED_STEPS)"

definition authorize_replacement ::
  "QualifiedIncident \<Rightarrow> Succession \<Rightarrow> Association \<Rightarrow> Elevation \<Rightarrow> PreflightCleared
     \<Rightarrow> ReplacementPlanRefusal + ReplacementPlan" where
  "authorize_replacement incident succession association elevation cleared =
     (if as_controller_id association \<noteq> su_controller_id succession
      then Inl (AssociationForAnotherController (as_controller_id association))
      else if as_infrastructure_id association \<noteq> su_infrastructure_id succession
      then Inl (AssociationForAnotherInfrastructure (as_infrastructure_id association))
      else if \<not> covers cleared (qi_new_host incident) then Inl (NewHostNotCleared (qi_new_host incident))
      else if qi_qualification incident = SuspectedCompromise \<and> covers cleared (qi_suspect_host incident)
      then Inl (SuspectHostWasReached (qi_suspect_host incident))
      else Inr \<lparr>rp_qualification = qi_qualification incident,
                rp_old_controller_id = qi_old_controller_id incident,
                rp_controller_id = su_controller_id succession,
                rp_infrastructure_id = su_infrastructure_id succession,
                rp_new_host = qi_new_host incident\<rparr>)"

section \<open>The conclusion\<close>

datatype Containment = ContainmentHeld | ContainmentLost | ContainmentNotApplicable

datatype ConclusionRefusal =
    TargetsUnknown "string list"
  | TargetsNotFinished "string list"
  | ReaderRotatedForAnotherController string
  | SuspectHostNoLongerIsolated
  | ContainmentDoesNotMatchTheJourney string

record Secured =
  sd_controller_id :: string
  sd_targets :: nat
  sd_reader_samples :: nat
  sd_residues_checked :: nat

definition judge_containment :: "Qualification \<Rightarrow> Containment \<Rightarrow> ConclusionRefusal + unit" where
  "judge_containment qualification containment =
     (case (qualification, containment) of
        (HardwareLoss, ContainmentNotApplicable) \<Rightarrow> Inr ()
      | (SuspectedCompromise, ContainmentHeld) \<Rightarrow> Inr ()
      | (SuspectedCompromise, ContainmentLost) \<Rightarrow> Inl SuspectHostNoLongerIsolated
      | (qualification, _) \<Rightarrow> Inl (ContainmentDoesNotMatchTheJourney (qualification_str qualification)))"

definition conclude ::
  "ReplacementPlan \<Rightarrow> Fleet \<Rightarrow> ReaderRotation \<Rightarrow> Swept \<Rightarrow> Containment \<Rightarrow> ConclusionRefusal + Secured" where
  "conclude plan fleet rotation swept containment =
     and_then (judge_containment (rp_qualification plan) containment) (\<lambda>_.
     let unknown = machines_in fleet StateUnknown in
     if unknown \<noteq> [] then Inl (TargetsUnknown unknown)
     else if \<not> every_target_is_new_only fleet
     then Inl (TargetsNotFinished
       (map (\<lambda>target. rc_machine target @ ''='' @ target_state_str (rc_state target))
         (filter (\<lambda>target. rc_state target \<noteq> NewOnly) (fl_targets fleet))))
     else if rr_controller_id rotation \<noteq> rp_controller_id plan
     then Inl (ReaderRotatedForAnotherController (rr_controller_id rotation))
     else Inr \<lparr>sd_controller_id = rp_controller_id plan, sd_targets = length (fl_targets fleet),
               sd_reader_samples = rr_samples rotation, sd_residues_checked = sw_checked swept\<rparr>)"

section \<open>The order of the journeys\<close>

text \<open>One step comes before another in a journey.\<close>

fun comes_before :: "'s \<Rightarrow> 's \<Rightarrow> 's list \<Rightarrow> bool" where
  "comes_before a b [] = False"
| "comes_before a b (x # xs) = ((x = a \<and> b \<in> set xs) \<or> comes_before a b xs)"

text \<open>The two journeys are one sequence, with the isolation first on suspicion and absent from
a loss. In both no step comes twice, the reader is closed before the new Controller exists and
reopened after it is bound, the new authority is verified right before the old one is
withdrawn, and the old one is swept for after that.\<close>

theorem journeys_keep_their_order:
  "replacement_steps plan
     = (if requires_isolation (rp_qualification plan) then [IsolateSuspectHost] else []) @ REPLACEMENT_STEPS
   \<and> IsolateSuspectHost \<notin> set REPLACEMENT_STEPS \<and> distinct (replacement_steps plan)
   \<and> comes_before CloseRelayReader InstallNewController (replacement_steps plan)
   \<and> comes_before InstallNewController AssociateApp (replacement_steps plan)
   \<and> comes_before AssociateApp ReprovisionRelayReader (replacement_steps plan)
   \<and> comes_before ReprovisionRelayReader InstallNewIdentities (replacement_steps plan)
   \<and> sublist [VerifyNewAuthority, WithdrawOldAuthority, SweepResidualAuthority] (replacement_steps plan)"
proof -
  have parts: "REPLACEMENT_STEPS = [AuditRedeclaredMachines, CloseRelayReader, InstallNewController, AssociateApp,
      ReprovisionRelayReader, RotateApprovalEpoch, InstallNewIdentities]
      @ [VerifyNewAuthority, WithdrawOldAuthority, SweepResidualAuthority] @ [ArchiveOldAssociation]"
    by (simp add: REPLACEMENT_STEPS_def)
  have steps: "replacement_steps plan
      = (if requires_isolation (rp_qualification plan) then [IsolateSuspectHost] else []) @ REPLACEMENT_STEPS"
    by (cases "rp_qualification plan")
      (simp_all add: replacement_steps_def requires_isolation_def ISOLATED_STEPS_def REPLACEMENT_STEPS_def)
  have "sublist [VerifyNewAuthority, WithdrawOldAuthority, SweepResidualAuthority] (replacement_steps plan)"
    unfolding steps parts sublist_def by (metis append.assoc)
  then show ?thesis
    unfolding steps by (simp add: REPLACEMENT_STEPS_def)
qed

section \<open>One door to a secured replacement\<close>

lemma judge_containment_Inr:
  "judge_containment q c = Inr u \<longleftrightarrow>
     c = (if requires_isolation q then ContainmentHeld else ContainmentNotApplicable)"
  by (cases q; cases c; simp add: judge_containment_def requires_isolation_def)

lemma conclude_Inr:
  "conclude plan fleet rotation swept containment = Inr secured \<longleftrightarrow>
     containment = (if requires_isolation (rp_qualification plan) then ContainmentHeld else ContainmentNotApplicable)
     \<and> every_target_is_new_only fleet \<and> rr_controller_id rotation = rp_controller_id plan
     \<and> secured = \<lparr>sd_controller_id = rp_controller_id plan, sd_targets = length (fl_targets fleet),
          sd_reader_samples = rr_samples rotation, sd_residues_checked = sw_checked swept\<rparr>"
proof -
  have "every_target_is_new_only fleet \<Longrightarrow> machines_in fleet StateUnknown = []"
    by (auto simp: every_target_is_new_only_def machines_in_def list_all_iff filter_empty_conv)
  then show ?thesis
    by (auto simp: conclude_def result_iff judge_containment_Inr Let_def)
qed

lemma authorize_replacement_Inr:
  "authorize_replacement incident succession association elevation cleared = Inr plan \<longleftrightarrow>
     as_controller_id association = su_controller_id succession
     \<and> as_infrastructure_id association = su_infrastructure_id succession
     \<and> qi_new_host incident \<in> set (pc_endpoints cleared)
     \<and> (qi_qualification incident = SuspectedCompromise \<longrightarrow> qi_suspect_host incident \<notin> set (pc_endpoints cleared))
     \<and> plan = \<lparr>rp_qualification = qi_qualification incident,
                rp_old_controller_id = qi_old_controller_id incident,
                rp_controller_id = su_controller_id succession,
                rp_infrastructure_id = su_infrastructure_id succession,
                rp_new_host = qi_new_host incident\<rparr>"
  by (auto simp: authorize_replacement_def covers_def list_ex_iff)

text \<open>One run of the gates, in the order the journey meets them: what each was given and what it returned.\<close>

record ReplacementRun =
  run_request :: Request
  run_probes :: "Probe list"
  run_states :: "IndependentState list"
  run_used :: "string list"
  run_offer :: AssociationOffer
  run_used_sheets :: "string list"
  run_now :: u64
  run_elevation :: Elevation
  run_attempts :: "EndpointAttempt list"
  run_evidence :: "(string \<times> Evidence) list"
  run_during :: "ReaderState list"
  run_after :: ReaderState
  run_old_address :: string
  run_residues :: "Residue list"
  run_containment :: Containment

definition run_targets :: "ReplacementRun \<Rightarrow> Reconstructed list" where
  "run_targets run = map (\<lambda>(machine, evidence). \<lparr>rc_machine = machine, rc_state = reconstruct evidence\<rparr>) (run_evidence run)"

text \<open>Every gate returned, each on what the others returned, and the last one said secured.\<close>

definition secured_run :: "ReplacementRun \<Rightarrow> ReplacementPlan \<Rightarrow> Secured \<Rightarrow> bool" where
  "secured_run run plan secured \<longleftrightarrow>
     (\<exists>incident continuity succession association cleared fleet rotation swept.
        qualify (run_request run) (run_probes run) = Some (Inr incident)
        \<and> concord incident (run_states run) = Some (Inr continuity)
        \<and> succeed incident continuity (ao_controller_id (run_offer run)) (run_used run) = Inr succession
        \<and> bind_association (run_offer run) (su_infrastructure_id succession) (run_used_sheets run) (run_now run)
            = Inr association
        \<and> clear (run_attempts run) = Inr cleared
        \<and> authorize_replacement incident succession association (run_elevation run) cleared = Inr plan
        \<and> assemble (run_targets run) = Inr fleet
        \<and> rotate_reader (run_during run) (run_after run) (rp_old_controller_id plan) (rp_controller_id plan)
            (run_old_address run) = Inr rotation
        \<and> sweep (run_residues run) = Inr swept
        \<and> conclude plan fleet rotation swept (run_containment run) = Inr secured)"


text \<open>A run that goes through: a compromised Controller replaced on another host.\<close>

definition sample_run :: ReplacementRun where
  "sample_run = \<lparr>run_request = sample_request, run_probes = sample_probes,
     run_states = [\<lparr>is_source = ''m1'', is_infrastructure_id = Some ''i''\<rparr>,
                   \<lparr>is_source = ''m2'', is_infrastructure_id = Some ''i''\<rparr>],
     run_used = [''c1''],
     run_offer = \<lparr>ao_infrastructure_id = ''i'', ao_controller_id = ''c2'', ao_sheet_id = ''s'',
        ao_issued_at_unix_seconds = 100, ao_lifetime_seconds = 600\<rparr>,
     run_used_sheets = [], run_now = 200, run_elevation = \<lparr>el_route = RootRoute\<rparr>,
     run_attempts = [\<lparr>ea_name = ''new'', ea_confirmed_fingerprint = sample_print CHR ''h'',
        ea_observed = Presented (sample_print CHR ''h'')\<rparr>],
     run_evidence = [(''m1'', \<lparr>ev_managed_fingerprints = Some [''n''], ev_old_fingerprint = ''o'',
        ev_new_fingerprint = ''n'', ev_old_identity = AttemptRefused, ev_new_identity = AttemptAnswered\<rparr>)],
     run_during = [ReaderClosed], run_after = ReaderOpenTo ''c2'' ''10.0.0.2'', run_old_address = ''10.0.0.1'',
     run_residues = map (\<lambda>kind. \<lparr>rs_kind = kind, rs_name = ''x'', rs_grant = GrantRefused\<rparr>) EVERY_KIND,
     run_containment = ContainmentHeld\<rparr>"

definition sample_replacement :: ReplacementPlan where
  "sample_replacement = \<lparr>rp_qualification = SuspectedCompromise, rp_old_controller_id = ''c1'',
     rp_controller_id = ''c2'', rp_infrastructure_id = ''i'', rp_new_host = ''new''\<rparr>"

lemma sample_identifiers: "is_identifier ''i''" "is_identifier ''c1''" "is_identifier ''c2''"
  by (rule is_identifier_solid; simp add: solid_def is_white_def code_def)+

lemma every_kind: "kind \<in> set EVERY_KIND"
  by (cases kind) (simp_all add: EVERY_KIND_def)

lemma sample_secured:
  "secured_run sample_run sample_replacement
     \<lparr>sd_controller_id = ''c2'', sd_targets = 1, sd_reader_samples = 1, sd_residues_checked = 6\<rparr>"
proof -
  let ?incident = "\<lparr>qi_qualification = SuspectedCompromise, qi_old_controller_id = ''c1'',
      qi_suspect_host = ''old'', qi_new_host = ''new''\<rparr>"
  let ?continuity = "\<lparr>ct_infrastructure_id = ''i'', ct_sources = [''m1'', ''m2'']\<rparr>"
  let ?succession = "\<lparr>su_infrastructure_id = ''i'', su_controller_id = ''c2'', su_old_controller_id = ''c1''\<rparr>"
  let ?association = "\<lparr>as_infrastructure_id = ''i'', as_controller_id = ''c2'', as_sheet_id = ''s''\<rparr>"
  let ?cleared = "\<lparr>pc_endpoints = [''new'']\<rparr>"
  let ?fleet = "\<lparr>fl_targets = [\<lparr>rc_machine = ''m1'', rc_state = NewOnly\<rparr>]\<rparr>"
  let ?rotation = "\<lparr>rr_controller_id = ''c2'', rr_samples = 1\<rparr>"
  note run [simp] = sample_run_def sample_replacement_def
  have "qualify (run_request sample_run) (run_probes sample_run) = Some (Inr ?incident)"
    using sample_names
    by (simp add: qualify_Inr well_requested_def read_probes_Silent long_silent_def sample_request_def sample_probes_def)
  moreover have "concord ?incident (run_states sample_run) = Some (Inr ?continuity)"
    using sample_identifiers by (simp add: concord_Inr)
  moreover have "succeed ?incident ?continuity ''c2'' (run_used sample_run) = Inr ?succession"
    using sample_identifiers by (simp add: succeed_Inr)
  moreover have "bind_association (run_offer sample_run) ''i'' (run_used_sheets sample_run) (run_now sample_run)
      = Inr ?association"
    by (simp add: bind_association_def association_identifier_def limits saturating_add_def)
  moreover have "clear (run_attempts sample_run) = Inr ?cleared"
    by (simp add: clear_Inr confirmed_answer_def sample_print_def)
  moreover have "authorize_replacement ?incident ?succession ?association (run_elevation sample_run) ?cleared = Inr sample_replacement"
    by (simp add: authorize_replacement_Inr)
  moreover have "assemble (run_targets sample_run) = Inr ?fleet"
    by (simp add: assemble_Inr run_targets_def reconstruct_def)
  moreover have "rotate_reader (run_during sample_run) (run_after sample_run) ''c1'' ''c2'' (run_old_address sample_run)
      = Inr ?rotation"
    using sample_identifiers by (simp add: rotate_reader_Inr reader_name_def)
  moreover have "sweep (run_residues sample_run) = Inr \<lparr>sw_checked = 6\<rparr>"
    using every_kind by (auto simp: sweep_Inr list_all_iff) (simp add: EVERY_KIND_def)
  moreover have "conclude sample_replacement ?fleet ?rotation \<lparr>sw_checked = 6\<rparr> (run_containment sample_run)
      = Inr \<lparr>sd_controller_id = ''c2'', sd_targets = 1, sd_reader_samples = 1, sd_residues_checked = 6\<rparr>"
    by (simp add: conclude_Inr every_target_is_new_only_def requires_isolation_def)
  ultimately show ?thesis
    unfolding secured_run_def
    by (intro exI [of _ ?incident] exI [of _ ?continuity] exI [of _ ?succession] exI [of _ ?association]
        exI [of _ ?cleared] exI [of _ ?fleet] exI [of _ ?rotation] exI [of _ "\<lparr>sw_checked = 6\<rparr>"]) simp
qed


end
