(* ===== verification/Lease.thy ===== *)
theory Lease
  imports Prelude
begin

text \<open>
  \<open>lease.rs\<close>: the parent's lease on standard input. A monitor thread probes it while the
  session asks, once, how it ended. The two threads are a step relation whose steps are the
  atomic accesses of the code: the store of the state and the marking under the lock are two.
\<close>

section \<open>One probe of the input\<close>

definition ACTIVE :: u8 where "ACTIVE = 0"

definition CANCELLED :: u8 where "CANCELLED = 1"

definition PROTOCOL_INVALID :: u8 where "PROTOCOL_INVALID = 2"

lemmas lease_states = ACTIVE_def CANCELLED_def PROTOCOL_INVALID_def

datatype LeaseResolution = LeaseActive | LeaseCancelled | LeaseProtocolInvalid

datatype InputProbe = ProbePending | ProbeResolved u8

text \<open>What one \<open>read\<close> of a byte answers, and what one \<open>poll\<close> does.\<close>

datatype ReadAnswer = ReadBytes nat | ReadInterrupted | ReadFailed

record PollEvents =
  pollin :: bool
  pollhup :: bool
  pollnval :: bool

datatype PollAnswer = PollReady PollEvents | PollIdle | PollInterrupted | PollFailed

text \<open>A loop over what the system answers: \<open>None\<close> while every answer was an interruption.\<close>

fun read_control_byte :: "ReadAnswer list \<Rightarrow> u8 option" where
  "read_control_byte [] = None"
| "read_control_byte (ReadBytes n # rest) = Some (if n = 0 then CANCELLED else PROTOCOL_INVALID)"
| "read_control_byte (ReadInterrupted # rest) = read_control_byte rest"
| "read_control_byte (ReadFailed # rest) = Some CANCELLED"

fun probe_linux_input :: "PollAnswer list \<Rightarrow> ReadAnswer list \<Rightarrow> InputProbe option" where
  "probe_linux_input [] reads = None"
| "probe_linux_input (PollReady events # rest) reads =
     (if pollnval events then Some (ProbeResolved CANCELLED)
      else if pollin events \<or> pollhup events then map_option ProbeResolved (read_control_byte reads)
      else Some (ProbeResolved CANCELLED))"
| "probe_linux_input (PollIdle # rest) reads = Some ProbePending"
| "probe_linux_input (PollInterrupted # rest) reads = probe_linux_input rest reads"
| "probe_linux_input (PollFailed # rest) reads = Some (ProbeResolved CANCELLED)"

datatype WindowsPipeState = PipeOpenEmpty | PipeReadable | PipeClosedOrInvalid

definition classify_windows_pipe :: "32 word \<Rightarrow> u32 \<Rightarrow> WindowsPipeState" where
  "classify_windows_pipe peek_succeeded available =
     (if peek_succeeded = 0 then PipeClosedOrInvalid
      else if available = 0 then PipeOpenEmpty else PipeReadable)"

definition probe_windows_input :: "32 word \<Rightarrow> u32 \<Rightarrow> ReadAnswer list \<Rightarrow> InputProbe option" where
  "probe_windows_input peeked available reads =
     (case classify_windows_pipe peeked available of
        PipeClosedOrInvalid \<Rightarrow> Some (ProbeResolved CANCELLED)
      | PipeOpenEmpty \<Rightarrow> Some ProbePending
      | PipeReadable \<Rightarrow> map_option ProbeResolved (read_control_byte reads))"

section \<open>The monitor and the session\<close>

text \<open>
  Where the monitor stands in \<open>monitor_input\<close>: \<open>MonitorStore v initial\<close> and
  \<open>MonitorMark initial\<close> are the two accesses of \<open>finish(v)\<close>, made before the start is
  announced when \<open>initial\<close> holds.
\<close>

datatype MonitorAt =
    MonitorFirstProbe
  | MonitorStore u8 bool
  | MonitorMark bool
  | MonitorAnnounce bool
  | MonitorWait
  | MonitorProbe bool
  | MonitorEnded

text \<open>Where the session stands: before \<open>close_and_resolve\<close>, waiting in it, or returned from it.\<close>

datatype SessionAt = SessionOpen | SessionWaits | SessionResolved LeaseResolution

record LeaseSystem =
  ls_state :: u8
  ls_closing :: bool
  ls_finished :: bool
  ls_started :: bool
  ls_monitor :: MonitorAt
  ls_session :: SessionAt

definition lease_pending :: LeaseSystem where
  "lease_pending = \<lparr>ls_state = ACTIVE, ls_closing = False, ls_finished = False, ls_started = False,
     ls_monitor = MonitorFirstProbe, ls_session = SessionOpen\<rparr>"

definition lease_resolution :: "u8 \<Rightarrow> LeaseResolution" where
  "lease_resolution state =
     (if state = CANCELLED then LeaseCancelled
      else if state = PROTOCOL_INVALID then LeaseProtocolInvalid else LeaseActive)"

text \<open>One step of the monitor, with what its next probe answers.\<close>

fun monitor_step :: "InputProbe \<Rightarrow> LeaseSystem \<Rightarrow> LeaseSystem" where
  "monitor_step answer s =
     (case ls_monitor s of
        MonitorFirstProbe \<Rightarrow>
          (case answer of
             ProbeResolved v \<Rightarrow> s\<lparr>ls_monitor := MonitorStore v True\<rparr>
           | ProbePending \<Rightarrow> s\<lparr>ls_monitor := MonitorAnnounce False\<rparr>)
      | MonitorStore v initial \<Rightarrow> s\<lparr>ls_state := v, ls_monitor := MonitorMark initial\<rparr>
      | MonitorMark initial \<Rightarrow>
          s\<lparr>ls_finished := True, ls_monitor := (if initial then MonitorAnnounce True else MonitorEnded)\<rparr>
      | MonitorAnnounce ended \<Rightarrow>
          s\<lparr>ls_started := True, ls_monitor := (if ended then MonitorEnded else MonitorWait)\<rparr>
      | MonitorWait \<Rightarrow> s\<lparr>ls_monitor := MonitorProbe (ls_closing s)\<rparr>
      | MonitorProbe closing \<Rightarrow>
          (case answer of
             ProbeResolved v \<Rightarrow> s\<lparr>ls_monitor := MonitorStore v False\<rparr>
           | ProbePending \<Rightarrow>
               s\<lparr>ls_monitor := (if closing then MonitorStore ACTIVE False else MonitorWait)\<rparr>)
      | MonitorEnded \<Rightarrow> s)"

text \<open>The two moves of \<open>close_and_resolve\<close>.\<close>

definition ask_to_close :: "LeaseSystem \<Rightarrow> LeaseSystem" where
  "ask_to_close s = s\<lparr>ls_closing := True, ls_session := SessionWaits\<rparr>"

definition read_resolution :: "LeaseSystem \<Rightarrow> LeaseSystem" where
  "read_resolution s = s\<lparr>ls_session := SessionResolved (lease_resolution (ls_state s))\<rparr>"

definition probes :: "MonitorAt \<Rightarrow> bool" where
  "probes at = (at = MonitorFirstProbe \<or> (\<exists>closing. at = MonitorProbe closing))"

datatype LeaseEvent = Probed InputProbe | AskedToClose | ReadBack

inductive lease_step :: "LeaseSystem \<Rightarrow> LeaseEvent list \<Rightarrow> LeaseSystem \<Rightarrow> bool" where
  Monitor: "ls_monitor s \<noteq> MonitorEnded \<Longrightarrow>
    answer \<in> {ProbePending, ProbeResolved CANCELLED, ProbeResolved PROTOCOL_INVALID} \<Longrightarrow>
    lease_step s (if probes (ls_monitor s) then [Probed answer] else []) (monitor_step answer s)"
| Ask: "ls_started s \<Longrightarrow> ls_session s = SessionOpen \<Longrightarrow> lease_step s [AskedToClose] (ask_to_close s)"
| Read: "ls_session s = SessionWaits \<Longrightarrow> ls_finished s \<Longrightarrow> lease_step s [ReadBack] (read_resolution s)"

inductive lease_run :: "LeaseEvent list \<Rightarrow> LeaseSystem \<Rightarrow> bool" where
  Start: "lease_run [] lease_pending"
| Step: "lease_run events s \<Longrightarrow> lease_step s news s' \<Longrightarrow> lease_run (events @ news) s'"

inductive_cases lease_stepE: "lease_step s news s'"

section \<open>What every run keeps\<close>

text \<open>The state the probes of a run call for: the first that resolved it, or still active.\<close>

fun observed :: "LeaseEvent list \<Rightarrow> u8" where
  "observed [] = ACTIVE"
| "observed (Probed (ProbeResolved v) # events) = v"
| "observed (_ # events) = observed events"

fun resolves :: "LeaseEvent list \<Rightarrow> bool" where
  "resolves [] = False"
| "resolves (Probed (ProbeResolved v) # events) = True"
| "resolves (_ # events) = resolves events"

lemma resolves_append [simp]: "resolves (a @ b) \<longleftrightarrow> resolves a \<or> resolves b"
  by (induction a rule: resolves.induct) simp_all

lemma observed_append [simp]: "observed (a @ b) = (if resolves a then observed a else observed b)"
  by (induction a rule: observed.induct) simp_all

lemma observed_active: "\<not> resolves events \<Longrightarrow> observed events = ACTIVE"
  by (induction events rule: observed.induct) simp_all

text \<open>A probe that found nothing after the session had asked.\<close>

definition confirmed_empty :: "LeaseEvent list \<Rightarrow> bool" where
  "confirmed_empty events \<longleftrightarrow>
     (\<exists>before after. events = before @ AskedToClose # after \<and> Probed ProbePending \<in> set after)"

lemma confirmed_empty_append: "confirmed_empty events \<Longrightarrow> confirmed_empty (events @ news)"
  unfolding confirmed_empty_def by fastforce

lemma confirmed_empty_probe: "AskedToClose \<in> set events \<Longrightarrow> confirmed_empty (events @ [Probed ProbePending])"
  unfolding confirmed_empty_def by (metis append.assoc append_Cons in_set_conv_decomp split_list)

definition monitor_keeps :: "LeaseEvent list \<Rightarrow> LeaseSystem \<Rightarrow> bool" where
  "monitor_keeps events s =
     (case ls_monitor s of
        MonitorStore v initial \<Rightarrow> v = observed events \<and> \<not> ls_finished s \<and> ls_state s = ACTIVE
          \<and> (resolves events \<or> confirmed_empty events)
      | MonitorMark initial \<Rightarrow> ls_state s = observed events \<and> \<not> ls_finished s
          \<and> (resolves events \<or> confirmed_empty events)
      | MonitorAnnounce True \<Rightarrow> ls_state s = observed events \<and> ls_finished s
          \<and> (resolves events \<or> confirmed_empty events)
      | MonitorEnded \<Rightarrow> ls_state s = observed events \<and> ls_finished s
          \<and> (resolves events \<or> confirmed_empty events)
      | MonitorProbe closing \<Rightarrow> \<not> resolves events \<and> \<not> ls_finished s \<and> ls_state s = ACTIVE
          \<and> (closing \<longrightarrow> AskedToClose \<in> set events)
      | _ \<Rightarrow> \<not> resolves events \<and> \<not> ls_finished s \<and> ls_state s = ACTIVE)"

definition session_keeps :: "LeaseEvent list \<Rightarrow> LeaseSystem \<Rightarrow> bool" where
  "session_keeps events s =
     ((ls_closing s \<longleftrightarrow> AskedToClose \<in> set events) \<and> (ls_session s = SessionOpen \<longleftrightarrow> \<not> ls_closing s)
      \<and> (ls_closing s \<longrightarrow> ls_started s)
      \<and> (\<forall>r. ls_session s = SessionResolved r \<longrightarrow> ls_finished s \<and> r = lease_resolution (ls_state s))
      \<and> (ls_started s \<longleftrightarrow> (case ls_monitor s of MonitorWait \<Rightarrow> True | MonitorProbe _ \<Rightarrow> True | MonitorEnded \<Rightarrow> True
           | MonitorStore _ initial \<Rightarrow> \<not> initial | MonitorMark initial \<Rightarrow> \<not> initial | _ \<Rightarrow> False)))"

lemma lease_run_keeps: "lease_run events s \<Longrightarrow> monitor_keeps events s \<and> session_keeps events s"
proof (induction rule: lease_run.induct)
  case Start
  show ?case by (simp add: lease_pending_def monitor_keeps_def session_keeps_def)
next
  case (Step events s news s')
  note kept = Step.IH [unfolded monitor_keeps_def session_keeps_def]
  from Step.hyps(2) show ?case
  proof (cases rule: lease_step.cases)
    case (Monitor answer)
    with kept show ?thesis
      by (cases "ls_monitor s"; cases answer)
        (auto simp: monitor_keeps_def session_keeps_def probes_def observed_active confirmed_empty_append confirmed_empty_probe
          split: bool.splits)
  next
    case Ask
    with kept show ?thesis
      by (cases "ls_monitor s")
        (auto simp: monitor_keeps_def session_keeps_def ask_to_close_def observed_active confirmed_empty_append split: bool.splits)
  next
    case Read
    with kept show ?thesis
      by (cases "ls_monitor s")
        (auto simp: monitor_keeps_def session_keeps_def read_resolution_def observed_active confirmed_empty_append split: bool.splits)
  qed
qed

section \<open>The session always learns how it ended\<close>

definition probe_answers :: "InputProbe set" where
  "probe_answers = {ProbePending, ProbeResolved CANCELLED, ProbeResolved PROTOCOL_INVALID}"

lemma probes_answer_so:
  "probe_linux_input polls reads = Some answer \<Longrightarrow> answer \<in> probe_answers"
  "probe_windows_input peeked available reads = Some answer \<Longrightarrow> answer \<in> probe_answers"
proof -
  have read: "read_control_byte rs = Some v \<Longrightarrow> v = CANCELLED \<or> v = PROTOCOL_INVALID" for rs v
    by (induction rs rule: read_control_byte.induct) (auto split: if_splits)
  show "probe_linux_input polls reads = Some answer \<Longrightarrow> answer \<in> probe_answers"
    by (induction polls reads rule: probe_linux_input.induct) (auto simp: probe_answers_def dest: read split: if_splits)
  show "probe_windows_input peeked available reads = Some answer \<Longrightarrow> answer \<in> probe_answers"
    by (auto simp: probe_windows_input_def probe_answers_def dest: read split: WindowsPipeState.splits)
qed

lemma observed_resolution:
  "lease_run events s \<Longrightarrow> resolves events \<Longrightarrow> observed events \<in> {CANCELLED, PROTOCOL_INVALID}"
proof (induction rule: lease_run.induct)
  case (Step events s news s')
  from Step.hyps(2) show ?case
    by (cases rule: lease_step.cases) (use Step in \<open>auto split: if_splits\<close>)
qed simp

text \<open>C27: the lease and the answer of the session are one decision. Whatever the interleaving of
the monitor and the session, what the session reads is settled: it stays active exactly when
no probe of the whole run met an end or a byte, and then one probe made after the session had
asked found nothing; otherwise it is what the first such probe met.\<close>

theorem lease_is_linearized:
  assumes "lease_run events s" and "ls_session s = SessionResolved resolution"
  shows "resolution = lease_resolution (observed events)
    \<and> (resolution = LeaseActive \<longleftrightarrow> \<not> resolves events)
    \<and> (resolves events \<or> confirmed_empty events)"
proof -
  have kept: "monitor_keeps events s" "session_keeps events s" using lease_run_keeps [OF assms(1)] by auto
  then have finished: "ls_finished s" "resolution = lease_resolution (ls_state s)"
    using assms(2) by (auto simp: session_keeps_def)
  then have "ls_state s = observed events" "resolves events \<or> confirmed_empty events"
    using kept(1) by (auto simp: monitor_keeps_def split: MonitorAt.splits bool.splits)
  moreover have "lease_resolution (observed events) = LeaseActive \<longleftrightarrow> \<not> resolves events"
    using observed_resolution [OF assms(1)] observed_active [of events]
    by (cases "resolves events") (auto simp: lease_resolution_def lease_states)
  ultimately show ?thesis using finished(2) by simp
qed

lemma monitor_step_session [simp]:
  "ls_session (monitor_step answer s) = ls_session s" "ls_closing (monitor_step answer s) = ls_closing s"
  by (cases "ls_monitor s"; cases answer; simp)+

lemma monitor_steps_session [simp]: "ls_session (fold monitor_step answers s) = ls_session s"
  by (induction answers arbitrary: s) (simp_all del: monitor_step.simps)

lemma monitor_steps_run:
  "lease_run events s \<Longrightarrow> set answers \<subseteq> probe_answers \<Longrightarrow>
     \<exists>news. lease_run (events @ news) (fold monitor_step answers s)"
proof (induction answers arbitrary: events s)
  case Nil
  then show ?case by (metis append_Nil2 fold_simps(1))
next
  case (Cons answer answers)
  show ?case
  proof (cases "ls_monitor s = MonitorEnded")
    case True
    then have "monitor_step answer s = s" by simp
    then show ?thesis using Cons by (simp del: monitor_step.simps)
  next
    case False
    then have "lease_step s (if probes (ls_monitor s) then [Probed answer] else []) (monitor_step answer s)"
      using Cons.prems(2) by (intro Monitor) (simp_all add: probe_answers_def)
    from lease_run.Step [OF Cons.prems(1) this] Cons.IH Cons.prems(2)
    show ?thesis by (fastforce simp del: monitor_step.simps)
  qed
qed

text \<open>How many steps the monitor has left, once it has announced its start and the session has asked.\<close>

fun steps_left :: "MonitorAt \<Rightarrow> nat" where
  "steps_left MonitorEnded = 0"
| "steps_left (MonitorMark _) = 1"
| "steps_left (MonitorStore _ _) = 2"
| "steps_left (MonitorProbe closing) = (if closing then 3 else 5)"
| "steps_left MonitorWait = 4"
| "steps_left _ = 5"

definition announced :: "MonitorAt \<Rightarrow> bool" where
  "announced at \<longleftrightarrow>
     (case at of MonitorWait \<Rightarrow> True | MonitorProbe _ \<Rightarrow> True | MonitorEnded \<Rightarrow> True
      | MonitorStore _ initial \<Rightarrow> \<not> initial | MonitorMark initial \<Rightarrow> \<not> initial | _ \<Rightarrow> False)"

lemma steps_left_bound: "steps_left at \<le> 5"
  by (cases at) auto

lemma monitor_step_settles:
  "announced (ls_monitor s) \<Longrightarrow> ls_closing s \<Longrightarrow>
     announced (ls_monitor (monitor_step answer s))
     \<and> steps_left (ls_monitor (monitor_step answer s)) \<le> steps_left (ls_monitor s) - 1"
  by (cases "ls_monitor s"; cases answer) (auto simp: announced_def)

lemma monitor_settles:
  "announced (ls_monitor s) \<Longrightarrow> ls_closing s \<Longrightarrow>
     announced (ls_monitor (fold monitor_step answers s))
     \<and> steps_left (ls_monitor (fold monitor_step answers s)) \<le> steps_left (ls_monitor s) - length answers"
proof (induction answers arbitrary: s)
  case (Cons answer answers)
  note next_step = monitor_step_settles [OF Cons.prems, of answer]
  have "ls_closing (monitor_step answer s)" using Cons.prems(2) by (simp only: monitor_step_session)
  from Cons.IH [OF conjunct1 [OF next_step] this] conjunct2 [OF next_step]
  show ?case by (simp del: monitor_step.simps) linarith
qed simp

text \<open>C26: closing the lease never waits for ever. Once the session asks, five more steps of the
monitor, whatever its probes then answer, finish it: the session can read its answer, and
the run that does so is one of the runs above.\<close>

theorem closing_always_resolves:
  assumes "lease_run events s" and "ls_session s = SessionWaits"
    and "length answers = 5" and "set answers \<subseteq> probe_answers"
  shows "ls_finished (fold monitor_step answers s)
    \<and> (\<exists>news resolution. lease_run (events @ news) (read_resolution (fold monitor_step answers s))
         \<and> ls_session (read_resolution (fold monitor_step answers s)) = SessionResolved resolution)"
proof -
  have kept: "monitor_keeps events s" "session_keeps events s" using lease_run_keeps [OF assms(1)] by auto
  then have "ls_closing s" using assms(2) by (auto simp: session_keeps_def)
  have "announced (ls_monitor s)"
    using kept \<open>ls_closing s\<close>
    by (cases "ls_monitor s") (auto simp: session_keeps_def announced_def)
  from monitor_settles [OF this \<open>ls_closing s\<close>, of answers] assms(3)
  have ended: "ls_monitor (fold monitor_step answers s) = MonitorEnded"
    using steps_left_bound [of "ls_monitor s"] by (auto simp: announced_def split: MonitorAt.splits bool.splits if_splits)
  obtain news where news: "lease_run (events @ news) (fold monitor_step answers s)"
    using monitor_steps_run [OF assms(1,4)] by blast
  have finished: "ls_finished (fold monitor_step answers s)"
    using lease_run_keeps [OF news] ended by (simp add: monitor_keeps_def)
  have "lease_step (fold monitor_step answers s) [ReadBack] (read_resolution (fold monitor_step answers s))"
    using finished assms(2) by (intro Read) simp_all
  from lease_run.Step [OF news this] finished show ?thesis
    by (auto simp: read_resolution_def simp del: monitor_step.simps)
qed

text \<open>A run in which the session asks after one empty probe.\<close>

definition sample_waiting :: LeaseSystem where
  "sample_waiting = ask_to_close (fold monitor_step [ProbePending, ProbePending] lease_pending)"

lemma sample_waiting_run: "\<exists>events. lease_run events sample_waiting \<and> ls_session sample_waiting = SessionWaits"
proof -
  let ?s = "fold monitor_step [ProbePending, ProbePending] lease_pending"
  obtain news where "lease_run ([] @ news) ?s"
    using monitor_steps_run [OF Start, of "[ProbePending, ProbePending]"]
    by (auto simp: probe_answers_def simp del: monitor_step.simps fold_simps)
  moreover have "lease_step ?s [AskedToClose] (ask_to_close ?s)"
    by (rule Ask) (simp_all add: lease_pending_def)
  ultimately show ?thesis
    using lease_run.Step unfolding sample_waiting_def
    by (metis LeaseSystem.select_convs(6) LeaseSystem.surjective LeaseSystem.update_convs(6) ask_to_close_def)
qed

theorem closing_always_resolves_witness:
  "ls_finished (fold monitor_step [ProbePending, ProbePending, ProbeResolved CANCELLED, ProbePending, ProbePending] sample_waiting)"
proof -
  obtain events where "lease_run events sample_waiting" "ls_session sample_waiting = SessionWaits"
    using sample_waiting_run by blast
  from closing_always_resolves [OF this,
      of "[ProbePending, ProbePending, ProbeResolved CANCELLED, ProbePending, ProbePending]"]
  show ?thesis by (simp add: probe_answers_def del: monitor_step.simps fold_simps)
qed

theorem lease_is_linearized_witness:
  "\<exists>events s. lease_run events s \<and> ls_session s = SessionResolved LeaseActive \<and> confirmed_empty events"
proof -
  let ?idle = "[ProbePending, ProbePending, ProbePending, ProbePending, ProbePending]"
  obtain events where start: "lease_run events sample_waiting" "ls_session sample_waiting = SessionWaits"
    using sample_waiting_run by blast
  obtain news where run: "lease_run (events @ news) (fold monitor_step ?idle sample_waiting)"
    using monitor_steps_run [OF start(1), of ?idle]
    by (auto simp: probe_answers_def simp del: monitor_step.simps fold_simps)
  have final: "ls_finished (fold monitor_step ?idle sample_waiting)"
      "ls_state (fold monitor_step ?idle sample_waiting) = ACTIVE"
    by (simp_all add: sample_waiting_def lease_pending_def ask_to_close_def)
  let ?s = "read_resolution (fold monitor_step ?idle sample_waiting)"
  have "lease_step (fold monitor_step ?idle sample_waiting) [ReadBack] ?s"
    using final(1) start(2) by (intro Read) (simp_all only: monitor_steps_session)
  from lease_run.Step [OF run this] have whole: "lease_run ((events @ news) @ [ReadBack]) ?s" .
  moreover have "ls_session ?s = SessionResolved LeaseActive"
    using final(2) by (simp add: read_resolution_def lease_resolution_def lease_states del: monitor_step.simps fold_simps)
  ultimately show ?thesis using lease_is_linearized [OF whole, of LeaseActive] by blast
qed

end
