(* ===== verification/Address_Text.thy ===== *)
theory Address_Text
  imports Std_White
begin

text \<open>
  Reading back what \<open>Display\<close> writes of an address: digits first, then the four octets of
  an IPv4 address, then the groups of an IPv6 address around its longest run of zeros.
\<close>

section \<open>Numbers\<close>

lemma to_digit_hex_digit: "d < radix \<Longrightarrow> radix \<le> 16 \<Longrightarrow> to_digit radix (hex_digit d) = Some d"
  by (auto simp: to_digit_def hex_digit_def is_ascii_digit_def code_char_of)

lemma read_digits_append:
  "(\<forall>c \<in> set digits. to_digit radix c \<noteq> None) \<Longrightarrow>
     read_digits radix (digits @ rest)
       = (map (the \<circ> to_digit radix) digits @ fst (read_digits radix rest), snd (read_digits radix rest))"
  by (induction digits) (auto simp: apfst_def map_prod_def split: prod.splits)

definition stops_digits :: "nat \<Rightarrow> string \<Rightarrow> bool" where
  "stops_digits radix rest \<longleftrightarrow> rest = [] \<or> to_digit radix (hd rest) = None"

lemma stops_digits_simps [simp]:
  "stops_digits radix []"
  "stops_digits radix (c # s) \<longleftrightarrow> to_digit radix c = None"
  by (simp_all add: stops_digits_def)

lemma read_digits_stop: "stops_digits radix rest \<Longrightarrow> read_digits radix rest = ([], rest)"
  by (cases rest) auto

lemma digits_value_snoc [simp]: "digits_value radix (ds @ [d]) = digits_value radix ds * radix + d"
  by (simp add: digits_value_def)

text \<open>The two writers at once: digits of a radix, most significant first.\<close>

definition writes :: "nat \<Rightarrow> nat \<Rightarrow> string \<Rightarrow> bool" where
  "writes radix n s \<longleftrightarrow> s \<noteq> [] \<and> (\<forall>c \<in> set s. \<exists>d < radix. c = hex_digit d)
     \<and> digits_value radix (map (the \<circ> to_digit radix) s) = n
     \<and> (length s > 1 \<longrightarrow> the (to_digit radix (hd s)) \<noteq> 0) \<and> (\<forall>k. 0 < k \<longrightarrow> n < radix ^ k \<longrightarrow> length s \<le> k)"

lemma writes_one: "d < radix \<Longrightarrow> radix \<le> 16 \<Longrightarrow> writes radix d [hex_digit d]"
  by (auto simp: writes_def to_digit_hex_digit digits_value_def)

lemma writes_more:
  assumes "writes radix m s" and "0 < m" and "d < radix" and "radix \<le> 16" and "1 < radix"
  shows "writes radix (m * radix + d) (s @ [hex_digit d])"
proof -
  note parts = assms(1) [unfolded writes_def]
  note rest = conjunct2 [OF conjunct2 [OF parts]]
  note s = conjunct1 [OF parts] conjunct1 [OF conjunct2 [OF parts]] conjunct1 [OF rest]
    conjunct1 [OF conjunct2 [OF rest]] conjunct2 [OF conjunct2 [OF rest]]
  have "the (to_digit radix (hd s)) \<noteq> 0"
  proof (cases "length s > 1")
    case False
    with s(1) obtain c where "s = [c]" by (cases s) auto
    with s(3) assms(2) show ?thesis by (simp add: digits_value_def)
  qed (use s(4) in simp)
  then have lead: "the (to_digit radix (hd (s @ [hex_digit d]))) \<noteq> 0" using s(1) by simp
  have len: "length (s @ [hex_digit d]) \<le> k" if pos: "0 < k" and small: "m * radix + d < radix ^ k" for k
  proof -
    obtain j where j: "k = Suc j" using pos by (cases k) auto
    have "m * radix < radix ^ j * radix"
      using small by (simp only: j power_Suc mult.commute [of radix])
    then have "m < radix ^ j" using assms(5) by simp
    moreover have "0 < j" using calculation assms(2) by (cases j) simp_all
    ultimately show ?thesis using s(5) j by simp
  qed
  have "\<forall>c \<in> set (s @ [hex_digit d]). \<exists>e < radix. c = hex_digit e"
    using s(2) assms(3) by auto
  moreover have "digits_value radix (map (the \<circ> to_digit radix) (s @ [hex_digit d])) = m * radix + d"
    using s(3) to_digit_hex_digit [OF assms(3,4)] by simp
  moreover have "s @ [hex_digit d] \<noteq> []" by simp
  ultimately show ?thesis unfolding writes_def using lead len by (intro conjI allI impI) assumption+
qed

lemma writes_decimal: "writes 10 n (decimal n)"
proof (induction n rule: decimal.induct)
  case (1 n)
  show ?case
  proof (cases "n < 10")
    case True
    then show ?thesis by (simp add: decimal.simps [of n] writes_one)
  next
    case False
    with writes_more [OF "1.IH", of "n mod 10"] show ?thesis by (simp add: decimal.simps [of n])
  qed
qed

lemma writes_hexadecimal: "writes 16 n (hexadecimal n)"
proof (induction n rule: hexadecimal.induct)
  case (1 n)
  show ?case
  proof (cases "n < 16")
    case True
    then show ?thesis by (simp add: hexadecimal.simps [of n] writes_one)
  next
    case False
    with writes_more [OF "1.IH", of "n mod 16"] show ?thesis by (simp add: hexadecimal.simps [of n])
  qed
qed

lemma read_number_back:
  assumes "writes radix n s" and "radix \<le> 16" and "stops_digits radix rest" and "n \<le> bound"
    and "n < radix ^ k" and "0 < k" and "k \<le> max_digits"
  shows "read_number radix max_digits allow_zero bound (s @ rest) = Some (n, rest)"
proof -
  have "\<forall>c \<in> set s. to_digit radix c \<noteq> None" using assms(1,2) by (auto simp: writes_def to_digit_hex_digit)
  then have "read_digits radix (s @ rest) = (map (the \<circ> to_digit radix) s, rest)"
    using read_digits_stop [OF assms(3)] by (simp add: read_digits_append)
  moreover have "s \<noteq> []" and whole: "digits_value radix (map (the \<circ> to_digit radix) s) = n"
    and lead: "length s > 1 \<longrightarrow> the (to_digit radix (hd s)) \<noteq> 0" and len: "length s \<le> k"
    using assms(1,5,6) by (simp_all add: writes_def)
  moreover have "hd (map (the \<circ> to_digit radix) s) = the (to_digit radix (hd s))"
    using \<open>s \<noteq> []\<close> by (simp add: hd_map)
  ultimately show ?thesis using assms(4,7) by (auto simp: read_number_def)
qed

section \<open>IPv4\<close>

lemma read_octet_back:
  assumes "stops_digits 10 rest"
  shows "read_octet i ((if i = 0 then [] else ''.'') @ decimal (unat (a :: u8)) @ rest) = Some (unat a, rest)"
proof -
  have "unat a < 256" using unsigned_less [of a] by simp
  then have "read_number 10 3 False 255 (decimal (unat a) @ rest) = Some (unat a, rest)"
    using assms by (intro read_number_back [OF writes_decimal, where k = 3]) simp_all
  then show ?thesis by (simp add: read_octet_def read_separator_def)
qed

lemma dot_stops: "stops_digits 10 (CHR ''.'' # s)"
  by (simp add: to_digit_def is_ascii_digit_def code_def)

lemma read_ipv4_back:
  assumes "stops_digits 10 rest"
  shows "read_ipv4_addr (ipv4_to_string address @ rest) = Some (address, rest)"
proof -
  obtain a b c d where address: "address = Ipv4 a b c d" by (cases address)
  show ?thesis
    using read_octet_back [of _ 0 a] read_octet_back [of _ 1 b] read_octet_back [of _ 2 c]
      read_octet_back [OF assms, of 3 d] dot_stops
    by (simp add: address read_ipv4_addr_def)
qed

lemma ipv4_back: "ip_from_str (ipv4_to_string address) = Some (V4 address)"
  using read_ipv4_back [of "[]" address] by (simp add: ip_from_str_def)

section \<open>IPv6\<close>

text \<open>Without a dot no IPv4 address is read, so the groups are hexadecimal numbers alone.\<close>

lemma read_digits_rest: "set (snd (read_digits radix s)) \<subseteq> set s"
  by (induction s) (auto split: option.splits)

lemma read_number_rest: "read_number radix m z bound s = Some (n, rest) \<Longrightarrow> set rest \<subseteq> set s"
  using read_digits_rest [of radix s] by (auto simp: read_number_def split: prod.splits if_splits)

lemma read_octet_later:
  assumes "CHR ''.'' \<notin> set s" and "0 < i"
  shows "read_octet i s = None"
  using assms by (cases s) (auto simp: read_octet_def read_separator_def)

lemma read_ipv4_dotless:
  assumes "CHR ''.'' \<notin> set s"
  shows "read_ipv4_addr s = None"
proof (cases "read_number 10 3 False 255 s")
  case None
  then show ?thesis by (simp add: read_ipv4_addr_def read_octet_def [of 0] read_separator_def)
next
  case (Some found)
  with assms read_number_rest have "CHR ''.'' \<notin> set (snd found)" by (cases found) fastforce
  then have "read_octet 1 (snd found) = None" by (intro read_octet_later) simp_all
  with Some show ?thesis
    by (cases found) (simp add: read_ipv4_addr_def read_octet_def [of 0] read_separator_def)
qed

lemma read_separated_ipv4_dotless:
  "CHR ''.'' \<notin> set s \<Longrightarrow> read_separator CHR '':'' i read_ipv4_addr s = None"
  by (cases s) (auto simp: read_separator_def read_ipv4_dotless bind_eq_None_conv)

definition ends_groups :: "string \<Rightarrow> bool" where
  "ends_groups rest \<longleftrightarrow> rest = [] \<or> (\<exists>s. rest = CHR '':'' # CHR '':'' # s)"

lemma colon_stops: "stops_digits 16 (CHR '':'' # s)"
  by (simp add: to_digit_def is_ascii_digit_def code_def)

lemma ends_groups_stops: "ends_groups rest \<Longrightarrow> stops_digits 16 rest"
  using colon_stops by (auto simp: ends_groups_def)

lemma read_number_nothing: "stops_digits radix s \<Longrightarrow> read_number radix m z bound s = None"
  by (simp add: read_number_def read_digits_stop)

lemma read_groups_end:
  assumes "ends_groups rest" and "CHR ''.'' \<notin> set rest"
  shows "read_groups limit i rest = ([], False, rest)"
proof (cases "i < limit")
  case True
  have "read_separator CHR '':'' i (read_number 16 4 True 65535) rest = None"
    using assms(1) colon_stops by (auto simp: ends_groups_def read_separator_def read_number_nothing)
  with True show ?thesis
    using read_separated_ipv4_dotless [OF assms(2)] by (simp add: read_groups.simps [of limit i])
qed (simp add: read_groups.simps [of limit i])

lemma hexadecimal_chars: "c \<in> set (hexadecimal n) \<Longrightarrow> \<exists>d < 16. c = hex_digit d"
  using writes_hexadecimal [of n] by (simp only: writes_def)

lemma hexadecimal_plain: "CHR ''.'' \<notin> set (hexadecimal n)"
proof
  assume "CHR ''.'' \<in> set (hexadecimal n)"
  then obtain d where "d < 16" "CHR ''.'' = hex_digit d" using hexadecimal_chars by blast
  then have "code CHR ''.'' = (if d < 10 then 48 + d else 87 + d)" by (simp only: code_hex_digit)
  then show False by (simp add: code_def split: if_splits)
qed

lemma group_back:
  assumes "stops_digits 16 rest"
  shows "read_number 16 4 True 65535 (hexadecimal (unat (w :: u16)) @ rest) = Some (unat w, rest)"
  using unsigned_less [of w] assms by (intro read_number_back [OF writes_hexadecimal, where k = 4]) simp_all

definition later_groups :: "u16 list \<Rightarrow> string" where
  "later_groups ws = concat (map (\<lambda>w. CHR '':'' # hexadecimal (unat w)) ws)"

lemma later_groups_simps [simp]:
  "later_groups [] = []"
  "later_groups (w # ws) = CHR '':'' # hexadecimal (unat w) @ later_groups ws"
  by (simp_all add: later_groups_def)

lemma fmt_subslice_Cons: "fmt_subslice (w # ws) = hexadecimal (unat w) @ later_groups ws"
  by (induction ws arbitrary: w) (simp_all add: fmt_subslice_def)

lemma later_groups_plain: "CHR ''.'' \<notin> set (later_groups ws)"
  by (induction ws) (simp_all add: hexadecimal_plain)

lemma fmt_subslice_plain: "CHR ''.'' \<notin> set (fmt_subslice ws)"
  by (cases ws) (simp_all add: fmt_subslice_Cons hexadecimal_plain later_groups_plain, simp add: fmt_subslice_def)

lemma later_groups_stop: "ends_groups rest \<Longrightarrow> stops_digits 16 (later_groups ws @ rest)"
  using ends_groups_stops colon_stops by (cases ws) auto

lemma read_later_groups:
  "0 < i \<Longrightarrow> i + length ws \<le> limit \<Longrightarrow> ends_groups rest \<Longrightarrow> CHR ''.'' \<notin> set rest \<Longrightarrow>
     read_groups limit i (later_groups ws @ rest) = (ws, False, rest)"
proof (induction ws arbitrary: i)
  case Nil
  then show ?case by (simp add: read_groups_end)
next
  case (Cons w ws)
  have "CHR ''.'' \<notin> set (later_groups (w # ws) @ rest)"
    using Cons.prems(4) later_groups_plain [of "w # ws"] by (simp only: set_append Un_iff simp_thms)
  then have "read_separator CHR '':'' i read_ipv4_addr (later_groups (w # ws) @ rest) = None"
    by (rule read_separated_ipv4_dotless)
  moreover have "read_separator CHR '':'' i (read_number 16 4 True 65535) (later_groups (w # ws) @ rest)
      = Some (unat w, later_groups ws @ rest)"
    using Cons.prems(1) group_back [OF later_groups_stop [OF Cons.prems(3)]] by (simp add: read_separator_def)
  moreover have "read_groups limit (i + 1) (later_groups ws @ rest) = (ws, False, rest)"
    using Cons.prems by (intro Cons.IH) simp_all
  ultimately show ?case
    using Cons.prems(2) by (subst read_groups.simps) (simp del: later_groups_simps)
qed

lemma read_groups_back:
  assumes "length ws \<le> limit" and "ends_groups rest" and "CHR ''.'' \<notin> set rest"
  shows "read_groups limit 0 (fmt_subslice ws @ rest) = (ws, False, rest)"
proof (cases ws)
  case Nil
  then show ?thesis using assms(2,3) by (simp add: fmt_subslice_def read_groups_end)
next
  case (Cons w tail)
  have "CHR ''.'' \<notin> set (fmt_subslice ws @ rest)"
    using assms(3) fmt_subslice_plain [of ws] by simp
  then have "read_separator CHR '':'' 0 read_ipv4_addr (fmt_subslice ws @ rest) = None"
    by (rule read_separated_ipv4_dotless)
  moreover have "read_separator CHR '':'' 0 (read_number 16 4 True 65535) (fmt_subslice ws @ rest)
      = Some (unat w, later_groups tail @ rest)"
    using group_back [OF later_groups_stop [OF assms(2)], of w tail]
    by (simp add: read_separator_def Cons fmt_subslice_Cons)
  moreover have "read_groups limit 1 (later_groups tail @ rest) = (tail, False, rest)"
    using assms Cons by (intro read_later_groups) simp_all
  ultimately show ?thesis using assms(1) Cons by (subst read_groups.simps) simp
qed

text \<open>The run of zeros that \<open>Display\<close> leaves out.\<close>

definition zeros_at :: "u16 list \<Rightarrow> nat \<times> nat \<Rightarrow> bool" where
  "zeros_at ws span \<longleftrightarrow> fst span + snd span \<le> length ws
     \<and> (\<forall>j. fst span \<le> j \<and> j < fst span + snd span \<longrightarrow> ws ! j = 0)"

lemma zeros_at_snoc: "zeros_at ws span \<Longrightarrow> zeros_at (ws @ [w]) span"
  by (auto simp: zeros_at_def nth_append)

lemma zero_span_zeros:
  "zeros_at pre longest \<Longrightarrow> len = 0 \<or> zeros_at pre (start, len) \<and> start + len = length pre \<Longrightarrow>
     zeros_at (pre @ ws) (zero_span (length pre) (start, len) longest ws)"
proof (induction ws arbitrary: pre start len longest)
  case (Cons w ws)
  show ?case
  proof (cases "w = 0")
    case True
    let ?current = "if len = 0 then (length pre, 1) else (start, len + 1)"
    have current: "zeros_at (pre @ [w]) ?current \<and> fst ?current + snd ?current = length (pre @ [w])"
      using Cons.prems(2) True by (auto simp: zeros_at_def nth_append)
    have "zeros_at ((pre @ [w]) @ ws) (zero_span (length (pre @ [w])) (fst ?current, snd ?current)
        (if snd ?current > snd longest then ?current else longest) ws)"
      using current zeros_at_snoc [OF Cons.prems(1)] by (intro Cons.IH) auto
    then show ?thesis using True by (simp add: Let_def split: if_splits)
  next
    case False
    then show ?thesis
      using Cons.IH [of "pre @ [w]" longest 0 0] zeros_at_snoc [OF Cons.prems(1)] by simp
  qed
qed simp

lemma zeros_at_cut:
  assumes "zeros_at ws (start, len)"
  shows "take start ws @ replicate len 0 @ drop (start + len) ws = ws"
proof (rule nth_equalityI)
  show "length (take start ws @ replicate len 0 @ drop (start + len) ws) = length ws"
    using assms by (simp add: zeros_at_def)
  show "(take start ws @ replicate len 0 @ drop (start + len) ws) ! j = ws ! j"
    if "j < length (take start ws @ replicate len 0 @ drop (start + len) ws)" for j
    using assms that by (auto simp: zeros_at_def nth_append)
qed

lemma ipv6_text_plain: "to_ipv4_mapped address = None \<Longrightarrow> CHR ''.'' \<notin> set (ipv6_to_string address)"
  by (auto simp: ipv6_to_string_def fmt_subslice_plain split: prod.splits)

lemma ipv6_back:
  assumes "length (segments address) = 8" and "to_ipv4_mapped address = None"
  shows "ip_from_str (ipv6_to_string address) = Some (V6 address)"
proof -
  let ?ws = "segments address"
  obtain start len where span: "zero_span 0 (0, 0) (0, 0) ?ws = (start, len)" by fastforce
  have zeros: "zeros_at ?ws (start, len)"
    using zero_span_zeros [of "[]" "(0, 0)" 0 0 ?ws] by (simp add: span zeros_at_def)
  have address: "Ipv6 ?ws = address" by (cases address) simp
  have "read_ipv6_addr (ipv6_to_string address) = Some (address, [])"
  proof (cases "len > 1")
    case True
    let ?before = "take start ?ws" and ?after = "drop (start + len) ?ws"
    let ?rest = "CHR '':'' # CHR '':'' # fmt_subslice ?after"
    have bound: "start + len \<le> 8" using zeros assms(1) by (simp add: zeros_at_def)
    have "read_groups 8 0 (fmt_subslice ?before @ ?rest) = (?before, False, ?rest)"
      using bound assms(1) fmt_subslice_plain by (intro read_groups_back) (simp_all add: ends_groups_def)
    moreover have "read_groups (8 - (length ?before + 1)) 0 (fmt_subslice ?after) = (?after, False, [])"
      using bound assms(1) True read_groups_back [of ?after "8 - (length ?before + 1)" "[]"]
      by (simp add: ends_groups_def)
    moreover have "8 - length ?before - length ?after = len" "length ?before \<noteq> 8"
      using bound assms(1) True by auto
    ultimately show ?thesis
      using True zeros_at_cut [OF zeros] assms(2)
      by (simp add: ipv6_to_string_def span read_ipv6_addr_def address)
  next
    case False
    have "read_groups 8 0 (fmt_subslice ?ws @ []) = (?ws, False, [])"
      using assms(1) by (intro read_groups_back) (simp_all add: ends_groups_def)
    with False assms show ?thesis by (simp add: ipv6_to_string_def span read_ipv6_addr_def address)
  qed
  then show ?thesis
    using read_ipv4_dotless [OF ipv6_text_plain [OF assms(2)]] by (simp add: ip_from_str_def)
qed

text \<open>An address as Rust holds one: an IPv6 address has its eight segments.\<close>

fun whole_address :: "IpAddr \<Rightarrow> bool" where
  "whole_address (V4 v4) = True"
| "whole_address (V6 v6) = (length (segments v6) = 8)"

definition mapped_address :: "IpAddr \<Rightarrow> bool" where
  "mapped_address address = (case address of V6 v6 \<Rightarrow> to_ipv4_mapped v6 \<noteq> None | V4 _ \<Rightarrow> False)"

lemma address_back:
  "whole_address address \<Longrightarrow> \<not> mapped_address address \<Longrightarrow> ip_from_str (ip_to_string address) = Some address"
  by (cases address) (simp_all add: mapped_address_def ipv4_back ipv6_back)

section \<open>Mapped addresses, and what the reader builds\<close>

lemma mapped_pair: "ucast (ucast (drop_bit 8 g) :: u8) * 256 + ucast (ucast g :: u8) = (g :: u16)"
proof -
  have lt: "unat g < 65536" using unsigned_less [of g] by simp
  have low: "unat (ucast x :: u8) = unat x mod 256" for x :: u16
    by (simp add: unsigned_ucast_eq take_bit_eq_mod)
  have high: "unat (drop_bit 8 g) = unat g div 256"
    using lt by (simp only: unsigned_drop_bit_eq) (simp add: drop_bit_eq_div take_bit_eq_mod)
  have "(of_nat (unat (ucast (drop_bit 8 g) :: u8) * 256 + unat (ucast g :: u8)) :: u16) = of_nat (unat g)"
    unfolding low high using lt by (simp add: div_mult_mod_eq del: of_nat_unat)
  then show ?thesis by simp
qed

lemma colon_no_ipv4: "read_ipv4_addr (CHR '':'' # s) = None"
  by (simp add: read_ipv4_addr_def read_octet_def read_separator_def read_number_def to_digit_def is_ascii_digit_def code_def)

lemma ffff_no_ipv4: "read_ipv4_addr (CHR ''f'' # s) = None"
  by (simp add: read_ipv4_addr_def read_octet_def read_separator_def read_number_def to_digit_def is_ascii_digit_def code_def)

lemma hexadecimal_ffff: "hexadecimal 65535 = ''ffff''"
  by (simp add: hexadecimal.simps hex_digit_def char_of_def bit_iff_odd)

lemma mapped_groups:
  "read_groups 7 0 (''ffff:'' @ ipv4_to_string (Ipv4 a b c d))
     = ([0xFFFF, of_nat (unat a * 256 + unat b), of_nat (unat c * 256 + unat d)], True, [])"
proof -
  let ?v4 = "ipv4_to_string (Ipv4 a b c d)"
  have "read_groups 7 (Suc 0) (CHR '':'' # ?v4) = ([of_nat (unat a * 256 + unat b), of_nat (unat c * 256 + unat d)], True, [])"
    using read_ipv4_back [of "[]" "Ipv4 a b c d"] by (simp add: read_groups.simps [of 7 "Suc 0"] read_separator_def del: ipv4_to_string.simps)
  moreover have "read_number 16 4 True 65535 (''ffff'' @ CHR '':'' # ?v4) = Some (65535, CHR '':'' # ?v4)"
    using group_back [of "CHR '':'' # ?v4" "0xFFFF"] colon_stops by (simp add: hexadecimal_ffff)
  ultimately show ?thesis
    by (subst read_groups.simps) (simp add: read_separator_def ffff_no_ipv4 del: ipv4_to_string.simps)
qed

lemma five_zeros: "replicate 5 0 = [0, 0, 0, 0, 0 :: u16]"
  by (simp add: numeral_eq_Suc)

lemma mapped_back:
  assumes "length (segments address) = 8" and "to_ipv4_mapped address \<noteq> None"
  shows "ip_from_str (ipv6_to_string address) = Some (V6 address)"
proof -
  obtain g h where ws: "address = Ipv6 [0, 0, 0, 0, 0, 0xFFFF, g, h]"
    using assms(2) by (cases address) (auto split: list.splits if_splits)
  let ?v4 = "Ipv4 (ucast (drop_bit 8 g)) (ucast g) (ucast (drop_bit 8 h)) (ucast h)"
  have written: "ipv6_to_string address = CHR '':'' # CHR '':'' # (''ffff:'' @ ipv4_to_string ?v4)"
    by (simp add: ws ipv6_to_string_def)
  have start: "read_groups 8 0 (CHR '':'' # s) = ([], False, CHR '':'' # s)" for s
    using colon_stops by (simp add: read_groups.simps [of 8 0] read_separator_def colon_no_ipv4 read_number_nothing)
  show ?thesis
    unfolding written ip_from_str_def read_ipv6_addr_def start
    using mapped_groups [of "ucast (drop_bit 8 g)" "ucast g" "ucast (drop_bit 8 h)" "ucast h"]
    by (simp add: colon_no_ipv4 mapped_pair ws five_zeros del: ipv4_to_string.simps)
qed

lemma whole_address_back:
  assumes "whole_address address"
  shows "ip_from_str (ip_to_string address) = Some address"
proof (cases address)
  case (V6 v6)
  with assms show ?thesis by (cases "to_ipv4_mapped v6") (simp_all add: ipv6_back mapped_back)
qed (simp add: ipv4_back)

lemma length_read_groups: "length (fst (read_groups limit i s)) \<le> limit - i"
proof (induction limit i s rule: read_groups.induct)
  case (1 limit i s)
  show ?case
  proof (cases "i \<ge> limit")
    case True
    then show ?thesis by (simp add: read_groups.simps [of limit i s])
  next
    case False
    show ?thesis
    proof (cases "if i < limit - 1 then read_separator CHR '':'' i read_ipv4_addr s else None")
      case None
      show ?thesis
      proof (cases "read_separator CHR '':'' i (read_number 16 4 True 65535) s")
        case (Some found)
        then show ?thesis
          using 1 False None
          by (subst read_groups.simps) (fastforce split: prod.splits)
      qed (use False None in \<open>subst read_groups.simps, simp\<close>)
    next
      case (Some found)
      then have "i < limit - 1" by (auto split: if_splits)
      with Some show ?thesis
        by (subst read_groups.simps) (auto split: Ipv4Addr.splits prod.splits)
    qed
  qed
qed

lemma read_ipv6_whole:
  assumes "read_ipv6_addr s = Some (address, rest)"
  shows "length (segments address) = 8"
proof -
  obtain head v4 after_head where head: "read_groups 8 0 s = (head, v4, after_head)" by (cases "read_groups 8 0 s")
  have "length head \<le> 8" using length_read_groups [of 8 0 s] by (simp add: head)
  show ?thesis
  proof (cases "length head = 8")
    case False
    with assms obtain t where t: "address = Ipv6 (head @ replicate (8 - length head - length (fst (read_groups (8 - (length head + 1)) 0 t))) 0
        @ fst (read_groups (8 - (length head + 1)) 0 t))"
      by (auto simp: read_ipv6_addr_def head bind_eq_Some_conv case_prod_beta Let_def split: if_splits)
    then show ?thesis
      using length_read_groups [of "8 - (length head + 1)" 0 t] \<open>length head \<le> 8\<close> False by simp
  qed (use assms in \<open>auto simp: read_ipv6_addr_def head\<close>)
qed

lemma ip_from_str_whole: "ip_from_str s = Some address \<Longrightarrow> whole_address address"
  by (auto simp: ip_from_str_def dest: read_ipv6_whole split: option.splits list.splits prod.splits)

section \<open>The characters of an address\<close>

definition digit_or_dot :: "char \<Rightarrow> bool" where
  "digit_or_dot c \<longleftrightarrow> is_ascii_digit c \<or> c = CHR ''.''"

lemma to_digit_ten: "to_digit 10 c = Some d \<Longrightarrow> is_ascii_digit c"
  by (auto simp: to_digit_def Let_def split: if_splits)

lemma read_digits_split:
  "\<exists>pre. s = pre @ snd (read_digits radix s) \<and> (\<forall>c \<in> set pre. to_digit radix c \<noteq> None)"
proof (induction s)
  case (Cons c s)
  then obtain pre where pre: "s = pre @ snd (read_digits radix s)" "\<forall>c \<in> set pre. to_digit radix c \<noteq> None" by blast
  show ?case
  proof (cases "to_digit radix c")
    case None
    then show ?thesis by simp
  next
    case (Some d)
    with pre show ?thesis by (intro exI [of _ "c # pre"]) simp
  qed
qed simp

lemma read_number_ten:
  assumes "read_number 10 m z bound s = Some (n, rest)"
  shows "\<exists>pre. s = pre @ rest \<and> list_all digit_or_dot pre"
proof -
  have "snd (read_digits 10 s) = rest" using assms by (auto simp: read_number_def split: prod.splits if_splits)
  with read_digits_split [of s 10] show ?thesis
    by (auto simp: list_all_iff digit_or_dot_def dest!: to_digit_ten)
qed

lemma read_octet_chars:
  assumes "read_octet i s = Some (n, rest)"
  shows "\<exists>pre. s = pre @ rest \<and> list_all digit_or_dot pre"
proof (cases "i = 0")
  case True
  with assms show ?thesis by (auto simp: read_octet_def read_separator_def dest: read_number_ten)
next
  case False
  with assms obtain t where t: "s = CHR ''.'' # t" "read_number 10 3 False 255 t = Some (n, rest)"
    by (cases s) (auto simp: read_octet_def read_separator_def split: if_splits)
  with read_number_ten [OF t(2)] obtain pre where "t = pre @ rest" "list_all digit_or_dot pre" by blast
  with t(1) show ?thesis by (intro exI [of _ "CHR ''.'' # pre"]) (simp add: digit_or_dot_def)
qed

lemma read_ipv4_chars:
  assumes "read_ipv4_addr s = Some (address, rest)"
  shows "\<exists>pre. s = pre @ rest \<and> list_all digit_or_dot pre"
proof -
  obtain a b c d s1 s2 s3 where steps: "read_octet 0 s = Some (a, s1)" "read_octet 1 s1 = Some (b, s2)"
      "read_octet 2 s2 = Some (c, s3)" "read_octet 3 s3 = Some (d, rest)"
    using assms by (auto simp: read_ipv4_addr_def bind_eq_Some_conv)
  obtain p1 p2 p3 p4 where "s = p1 @ s1" "s1 = p2 @ s2" "s2 = p3 @ s3" "s3 = p4 @ rest"
      "list_all digit_or_dot (p1 @ p2 @ p3 @ p4)"
    using steps [THEN read_octet_chars] by auto
  then show ?thesis by (intro exI [of _ "p1 @ p2 @ p3 @ p4"]) simp
qed

lemma read_later_colonless:
  assumes "CHR '':'' \<notin> set s" and "0 < i"
  shows "read_groups limit i s = ([], False, s)"
  using assms by (cases s) (auto simp add: read_groups.simps [of limit i] read_separator_def)

lemma read_ipv6_colonless:
  assumes "CHR '':'' \<notin> set s"
  shows "read_ipv6_addr s = None"
proof (cases "read_ipv4_addr s")
  case (Some found)
  then show ?thesis
    by (cases found; cases "fst found")
      (simp add: read_ipv6_addr_def read_groups.simps [of 8 0] read_separator_def)
next
  case None
  show ?thesis
  proof (cases "read_number 16 4 True 65535 s")
    case (Some found)
    obtain g rest where found: "found = (g, rest)" by (cases found)
    then have "CHR '':'' \<notin> set rest" using read_number_rest Some assms by blast
    with Some None found show ?thesis
      by (cases rest) (auto simp add: read_ipv6_addr_def read_groups.simps [of 8 0] read_separator_def read_later_colonless)
  next
    case None': None
    with None assms show ?thesis
      by (cases s) (auto simp add: read_ipv6_addr_def read_groups.simps [of 8 0] read_separator_def)
  qed
qed

lemma colonless_address:
  assumes "ip_from_str s = Some address" and "CHR '':'' \<notin> set s"
  shows "list_all digit_or_dot s"
proof (cases "read_ipv4_addr s")
  case (Some found)
  then have "snd found = []" using assms(1) by (cases found) (auto simp: ip_from_str_def split: list.splits)
  then show ?thesis using read_ipv4_chars [of s "fst found" "[]"] Some by (cases found) auto
qed (use assms in \<open>simp add: ip_from_str_def read_ipv6_colonless\<close>)

lemma solid_hex_digit: "d < 16 \<Longrightarrow> solid [hex_digit d]"
  by (simp add: solid_def is_white_def code_hex_digit)

lemma solid_hexadecimal: "solid (hexadecimal n)"
  using hexadecimal_chars [of _ n] solid_hex_digit by (fastforce simp: solid_def list_all_iff)

lemma solid_decimal: "solid (decimal n)"
proof -
  have "\<exists>d < 10. c = hex_digit d" if "c \<in> set (decimal n)" for c
    using writes_decimal [of n] that by (simp only: writes_def)
  then show ?thesis using solid_hex_digit by (fastforce simp: solid_def list_all_iff)
qed

lemma solid_marks: "solid '':''" "solid ''.''" "solid ''::ffff:''" "solid []"
  by (simp_all add: solid_def is_white_def code_def)

lemma solid_colon [simp]: "solid (CHR '':'' # s) \<longleftrightarrow> solid s"
  by (simp add: solid_def is_white_def code_def)

lemma solid_later_groups: "solid (later_groups ws)"
proof (induction ws)
  case (Cons w ws)
  have "later_groups (w # ws) = '':'' @ hexadecimal (unat w) @ later_groups ws" by simp
  with Cons show ?case by (simp only: solid_append solid_marks solid_hexadecimal simp_thms)
qed (simp add: solid_marks)

lemma solid_fmt_subslice: "solid (fmt_subslice ws)"
  by (cases ws) (simp_all add: fmt_subslice_Cons solid_hexadecimal solid_later_groups, simp add: fmt_subslice_def solid_marks)

lemma solid_ipv4: "solid (ipv4_to_string address)"
  by (cases address) (simp only: ipv4_to_string.simps solid_append solid_marks solid_decimal simp_thms)

lemma solid_ip: "solid (ip_to_string address)"
proof (cases address)
  case (V6 v6)
  have twice: "''::'' = '':'' @ '':''" by simp
  from V6 show ?thesis
    by (cases "to_ipv4_mapped v6")
      (simp_all only: ip_to_string.simps ipv6_to_string_def option.case twice solid_append solid_marks solid_ipv4 simp_thms,
       simp add: solid_fmt_subslice solid_colon split: prod.splits)
qed (simp add: solid_ipv4)

end
