(* ===== verification/Frozen_Target.thy ===== *)
theory Frozen_Target
  imports Scope Address_Text
begin

text \<open>
  \<open>personal_access/local_addresses.rs\<close>, \<open>resolver.rs\<close> and \<open>target.rs\<close>: the machine's own
  addresses, the single resolution of the name, and the set of addresses frozen from both.
  The interfaces of the machine and the answers of its resolver are arguments.
\<close>

section \<open>The addresses this machine holds\<close>

definition MAX_LOCAL_ADDRESSES :: nat where [limits]: "MAX_LOCAL_ADDRESSES = 256"

datatype LocalAddressRefusal = EnumerationFailed | NothingObserved | LocalTooManyAddresses

record LocalAddresses =
  la_addresses :: "IpAddr list"

text \<open>A node of the list \<open>getifaddrs\<close> builds.\<close>

datatype InterfaceNode = NoStorage | OtherFamily | HoldsAddress IpAddr

fun walk_interfaces :: "IpAddr list \<Rightarrow> InterfaceNode list \<Rightarrow> IpAddr list" where
  "walk_interfaces addresses [] = addresses"
| "walk_interfaces addresses (NoStorage # nodes) = walk_interfaces addresses nodes"
| "walk_interfaces addresses (OtherFamily # nodes) =
     (if length addresses > MAX_LOCAL_ADDRESSES then addresses else walk_interfaces addresses nodes)"
| "walk_interfaces addresses (HoldsAddress address # nodes) =
     (let addresses = (if address \<in> set addresses then addresses else addresses @ [address])
      in if length addresses > MAX_LOCAL_ADDRESSES then addresses else walk_interfaces addresses nodes)"

definition observe_interface_addresses ::
  "InterfaceNode list option \<Rightarrow> LocalAddressRefusal + IpAddr list" where
  "observe_interface_addresses listed =
     and_then (ok_or listed EnumerationFailed) (\<lambda>nodes. Inr (walk_interfaces [] nodes))"

definition from_observation :: "IpAddr list \<Rightarrow> LocalAddressRefusal + LocalAddresses" where
  "from_observation observed =
     (if observed = [] then Inl NothingObserved
      else if length observed > MAX_LOCAL_ADDRESSES then Inl LocalTooManyAddresses
      else Inr \<lparr>la_addresses = observed\<rparr>)"

definition observe_local :: "InterfaceNode list option \<Rightarrow> LocalAddressRefusal + LocalAddresses" where
  "observe_local listed = and_then (observe_interface_addresses listed) from_observation"

section \<open>The single resolution\<close>

definition MAX_TARGET_ADDRESSES :: nat where [limits]: "MAX_TARGET_ADDRESSES = 8"

definition MAX_COLLECTED_ADDRESSES :: nat where
  [limits]: "MAX_COLLECTED_ADDRESSES = MAX_TARGET_ADDRESSES + 1"

text \<open>Instants and durations count nanoseconds.\<close>

definition MAX_RESOLUTION_WAIT :: nat where "MAX_RESOLUTION_WAIT = 2 * 10 ^ 9"

datatype ResolutionRefusal = ResolvedNothing | ResolverFailed | TimedOut | ResolverUnavailable

definition resolve_once :: "IpAddr list option \<Rightarrow> ResolutionRefusal + IpAddr list" where
  "resolve_once answers =
     and_then (ok_or answers ResolverFailed) (\<lambda>answers.
     let addresses = take MAX_COLLECTED_ADDRESSES answers
     in if addresses = [] then Inl ResolvedNothing else Inr addresses)"

text \<open>What becomes of the thread that asks the system's resolver.\<close>

datatype ResolverThread =
    NeverStarted | AnsweredInTime "IpAddr list option" | StillWaiting | SenderGone

definition resolve_once_bounded ::
  "nat \<Rightarrow> nat \<Rightarrow> ResolverThread \<Rightarrow> ResolutionRefusal + IpAddr list" where
  "resolve_once_bounded deadline now thread =
     (if min (deadline - now) MAX_RESOLUTION_WAIT = 0 then Inl TimedOut
      else (case thread of
          NeverStarted \<Rightarrow> Inl ResolverUnavailable
        | AnsweredInTime answers \<Rightarrow> resolve_once answers
        | StillWaiting \<Rightarrow> Inl TimedOut
        | SenderGone \<Rightarrow> Inl ResolverUnavailable))"

section \<open>The frozen target\<close>

definition MAX_TARGET_NAME_BYTES :: nat where [limits]: "MAX_TARGET_NAME_BYTES = 253"

datatype TargetRefusal =
    EmptyName | NameTooLong | NameNotPrintableAscii | PortZero | NoAddress | TooManyAddresses
  | Unspecified | Loopback | LinkLocal | Multicast | Broadcast | LocalInterface

record FrozenTarget =
  ft_name :: string
  ft_port :: u16
  ft_addresses :: "IpAddr list"

fun normalise :: "IpAddr \<Rightarrow> IpAddr" where
  "normalise (V6 v6) = (case to_ipv4_mapped v6 of Some v4 \<Rightarrow> V4 v4 | None \<Rightarrow> V6 v6)"
| "normalise (V4 v4) = V4 v4"

definition is_unicast_link_local :: "Ipv6Addr \<Rightarrow> bool" where
  "is_unicast_link_local address = ((segments address ! 0) AND 0xFFC0 = 0xFE80)"

fun check_reachability_class :: "IpAddr \<Rightarrow> TargetRefusal + unit" where
  "check_reachability_class (V4 (Ipv4 a b c d)) =
     (if a = 0 \<and> b = 0 \<and> c = 0 \<and> d = 0 then Inl Unspecified
      else if a = 127 then Inl Loopback
      else if a = 169 \<and> b = 254 then Inl LinkLocal
      else if 224 \<le> a \<and> a \<le> 239 then Inl Multicast
      else if a = 255 \<and> b = 255 \<and> c = 255 \<and> d = 255 then Inl Broadcast
      else Inr ())"
| "check_reachability_class (V6 v6) =
     (if segments v6 = replicate 8 0 then Inl Unspecified
      else if segments v6 = replicate 7 0 @ [1] then Inl Loopback
      else if is_unicast_link_local v6 then Inl LinkLocal
      else if drop_bit 8 (segments v6 ! 0) = 0xFF then Inl Multicast
      else Inr ())"

text \<open>The loop of \<open>freeze\<close>, with the local addresses normalised and those frozen so far.\<close>

fun freeze_from :: "IpAddr list \<Rightarrow> IpAddr list \<Rightarrow> IpAddr list \<Rightarrow> TargetRefusal + IpAddr list" where
  "freeze_from own addresses [] = Inr addresses"
| "freeze_from own addresses (candidate # resolved) =
     (let candidate = normalise candidate in
      and_then (check_reachability_class candidate) (\<lambda>_.
      if candidate \<in> set own then Inl LocalInterface
      else freeze_from own (if candidate \<in> set addresses then addresses else addresses @ [candidate])
             resolved))"

definition is_ascii_graphic :: "char \<Rightarrow> bool" where
  "is_ascii_graphic c = (33 \<le> code c \<and> code c \<le> 126)"

definition freeze :: "string \<Rightarrow> u16 \<Rightarrow> IpAddr list \<Rightarrow> LocalAddresses \<Rightarrow> TargetRefusal + FrozenTarget" where
  "freeze name port resolved own =
     (if name = [] then Inl EmptyName
      else if length name > MAX_TARGET_NAME_BYTES then Inl NameTooLong
      else if \<not> list_all is_ascii_graphic name then Inl NameNotPrintableAscii
      else if port = 0 then Inl PortZero
      else if resolved = [] then Inl NoAddress
      else and_then (freeze_from (map normalise (la_addresses own)) [] resolved) (\<lambda>addresses.
        if length addresses > MAX_TARGET_ADDRESSES then Inl TooManyAddresses
        else Inr \<lparr>ft_name = name, ft_port = port, ft_addresses = addresses\<rparr>))"

definition allows :: "FrozenTarget \<Rightarrow> IpAddr \<Rightarrow> bool" where
  "allows target candidate = (normalise candidate \<in> set (ft_addresses target))"

section \<open>What a frozen target is\<close>

lemma normalise_reads_back: "whole_address address \<Longrightarrow> whole_address (normalise address) \<and> \<not> mapped_address (normalise address)"
  by (cases address) (auto simp: mapped_address_def split: option.splits)

lemma normalise_twice [simp]: "normalise (normalise address) = normalise address"
  by (cases address) (auto split: option.splits)

lemma check_reachability_class_Inr:
  "\<not> mapped_address address \<Longrightarrow> check_reachability_class address = Inr () \<longleftrightarrow> valid_target_address address"
  by (cases address rule: check_reachability_class.cases)
    (auto simp: mapped_address_def valid_target_ipv6_def is_unicast_link_local_def)

lemma freeze_from_snoc:
  "freeze_from own seen (xs @ [x]) = and_then (freeze_from own seen xs) (\<lambda>out. freeze_from own out [x])"
  by (induction xs arbitrary: seen) (auto simp: Let_def and_then_def split: sum.splits)

text \<open>The first occurrences of a list, in its order.\<close>

definition firsts :: "'a list \<Rightarrow> 'a list" where
  "firsts xs = rev (remdups (rev xs))"

lemma set_firsts [simp]: "set (firsts xs) = set xs" and distinct_firsts [simp]: "distinct (firsts xs)"
  by (simp_all add: firsts_def)

lemma freeze_from_Inr:
  "freeze_from own [] resolved = Inr out \<longleftrightarrow>
     (\<forall>a \<in> set resolved. check_reachability_class (normalise a) = Inr () \<and> normalise a \<notin> set own)
     \<and> out = firsts (map normalise resolved)"
proof (induction resolved arbitrary: out rule: rev_induct)
  case (snoc a resolved)
  show ?case
    unfolding freeze_from_snoc and_then_Inr_iff snoc.IH
    by (auto simp: Let_def and_then_Inr_iff firsts_def)
qed (auto simp: firsts_def)

lemma freeze_Inr:
  "freeze name port resolved own = Inr target \<longleftrightarrow>
     name \<noteq> [] \<and> length name \<le> MAX_TARGET_NAME_BYTES \<and> list_all is_ascii_graphic name \<and> port \<noteq> 0 \<and> resolved \<noteq> []
     \<and> (\<forall>a \<in> set resolved. check_reachability_class (normalise a) = Inr ()
          \<and> normalise a \<notin> normalise ` set (la_addresses own))
     \<and> length (firsts (map normalise resolved)) \<le> MAX_TARGET_ADDRESSES
     \<and> target = \<lparr>ft_name = name, ft_port = port, ft_addresses = firsts (map normalise resolved)\<rparr>"
  by (auto simp: freeze_def guard_Inr_iff and_then_Inr_iff freeze_from_Inr)

lemma rendered_addresses_valid:
  "distinct (seen @ addresses) \<Longrightarrow>
     \<forall>a \<in> set addresses. whole_address a \<and> \<not> mapped_address a \<and> valid_target_address a \<Longrightarrow>
     valid_addresses_from seen (map ip_to_string addresses)"
proof (induction addresses arbitrary: seen)
  case (Cons a addresses)
  then have "ip_from_str (ip_to_string a) = Some a" by (simp add: address_back)
  with Cons show ?case by (auto simp: mapped_address_def split: IpAddr.splits)
qed simp

section \<open>A validated scope stays valid\<close>

lemma trim_solid: "solid s \<Longrightarrow> trim s = s"
proof -
  assume "solid s"
  then have "\<forall>c \<in> set s. \<not> is_white c" by (auto simp: solid_def list_all_iff)
  then have "dropWhile is_white s = s" "dropWhile is_white (rev s) = rev s"
    by (metis dropWhile_eq_self_iff list.set_sel(1) set_rev)+
  then show ?thesis by (simp add: trim_def)
qed

lemma length_hexadecimal_u16: "length (hexadecimal (unat (w :: u16))) \<le> 4"
proof -
  have "unat w < 16 ^ 4" using unsigned_less [of w] by simp
  with writes_hexadecimal [of "unat w"] show ?thesis unfolding writes_def by (metis zero_less_numeral)
qed

lemma length_decimal_u8: "length (decimal (unat (b :: u8))) \<le> 3"
proof -
  have "unat b < 256" using unsigned_less [of b] by simp
  then have "unat b < 10 ^ 3" by simp
  with writes_decimal [of "unat b"] show ?thesis unfolding writes_def by (metis zero_less_numeral)
qed

lemma length_later_groups: "length (later_groups ws) \<le> 5 * length ws"
proof (induction ws)
  case (Cons w ws)
  then show ?case using length_hexadecimal_u16 [of w] by simp
qed simp

lemma length_fmt_subslice: "length (fmt_subslice ws) \<le> 5 * length ws"
proof (cases ws)
  case (Cons w tail)
  then show ?thesis
    using length_later_groups [of tail] length_hexadecimal_u16 [of w] by (simp add: fmt_subslice_Cons)
qed (simp add: fmt_subslice_def)

lemma length_ipv4: "length (ipv4_to_string address) \<le> 15"
proof (cases address)
  case (Ipv4 a b c d)
  then show ?thesis
    using length_decimal_u8 [of a] length_decimal_u8 [of b] length_decimal_u8 [of c] length_decimal_u8 [of d]
    by simp
qed

lemma length_ip:
  assumes "whole_address address"
  shows "length (ip_to_string address) \<le> 253"
proof (cases address)
  case (V4 v4)
  then show ?thesis using length_ipv4 [of v4] by simp
next
  case (V6 v6)
  obtain start len where span: "zero_span 0 (0, 0) (0, 0) (segments v6) = (start, len)" by fastforce
  have eight: "length (segments v6) = 8" using assms V6 by simp
  then have "length (fmt_subslice (take start (segments v6))) \<le> 40"
      "length (fmt_subslice (drop (start + len) (segments v6))) \<le> 40"
      "length (fmt_subslice (segments v6)) \<le> 40"
    using length_fmt_subslice [of "take start (segments v6)"]
      length_fmt_subslice [of "drop (start + len) (segments v6)"] length_fmt_subslice [of "segments v6"] by auto
  moreover have "length (ipv4_to_string v4) \<le> 246" for v4 using length_ipv4 [of v4] by simp
  ultimately show ?thesis
    using V6 by (cases "to_ipv4_mapped v6") (auto simp: ipv6_to_string_def span)
qed

lemma ip_not_empty: "whole_address address \<Longrightarrow> ip_to_string address \<noteq> []"
  using whole_address_back [of address]
  by (auto simp: ip_from_str_def read_ipv4_addr_def read_octet_def read_separator_def read_number_def
      read_ipv6_addr_def read_groups.simps [of 8 0])

lemma canonical_address:
  "whole_address address \<Longrightarrow> valid_target_address address \<Longrightarrow>
     canonical_host (ip_to_string address) = Inr (ip_to_string address)"
  using length_ip [of address] solid_ip [of address]
  by (simp add: canonical_host_def whole_address_back trim_solid solid_is_ascii ip_not_empty limits)

lemma code_lowercase:
  "code (ascii_lowercase c) = (if 65 \<le> code c \<and> code c \<le> 90 then code c + 32 else code c)"
  by (simp add: ascii_lowercase_def is_ascii_uppercase_def code_char_of)

lemma dot_code: "c = CHR ''.'' \<longleftrightarrow> code c = 46"
  using code_inject [of c "CHR ''.''"] by (simp add: code_def)

lemma lower_class:
  "digit_or_dot (ascii_lowercase c) = digit_or_dot c" "(ascii_lowercase c = CHR ''.'') = (c = CHR ''.'')"
  unfolding digit_or_dot_def dot_code is_ascii_digit_def code_lowercase by auto

lemma split_on_covers: "x \<in> set s \<Longrightarrow> x = c \<or> (\<exists>w \<in> set (split_on c s). x \<in> set w)"
  by (induction s) (auto split: list.splits)

lemma all_lowercase: "list_all digit_or_dot (map ascii_lowercase s) \<longleftrightarrow> list_all digit_or_dot s"
  by (simp add: list_all_iff lower_class)

lemma split_on_map:
  "(\<forall>x \<in> set s. (f x = c) = (x = c)) \<Longrightarrow> split_on c (map f s) = map (map f) (split_on c s)"
  by (induction s) (auto split: list.splits)

lemma canonical_name:
  assumes "canonical_host host = Inr host'" and "ip_from_str host = None"
  shows "canonical_host host' = Inr host'"
proof -
  have lower: "host' = map ascii_lowercase host" and labels: "list_all valid_dns_label (split_on CHR ''.'' host)"
    using canonical_host_name [OF assms] by (simp_all add: to_ascii_lowercase_def)
  have facts: "host \<noteq> []" "length host \<le> MAX_HOST_BYTES" "is_ascii host" "\<not> list_all digit_or_dot host"
      "\<not> eq_ignore_ascii_case host ''localhost''" "\<not> suffix ''.localhost'' (to_ascii_lowercase host)"
      "\<not> suffix ''.'' host"
    using assms by (simp_all add: canonical_host_def digit_or_dot_def [abs_def] split: if_splits)
  have labels': "list_all valid_dns_label (split_on CHR ''.'' host')"
    using labels valid_dns_label_lower
    by (auto simp: lower split_on_map lower_class list_all_iff to_ascii_lowercase_def)
  have chars: "\<forall>c \<in> set host'. is_ascii_alphanumeric c \<or> c = CHR ''-'' \<or> c = CHR ''.''"
  proof
    fix c assume "c \<in> set host'"
    then have "c = CHR ''.'' \<or> (\<exists>label \<in> set (split_on CHR ''.'' host'). c \<in> set label)"
      using split_on_covers [of c host' "CHR ''.''"] by blast
    with labels' show "is_ascii_alphanumeric c \<or> c = CHR ''-'' \<or> c = CHR ''.''"
      by (auto simp: list_all_iff valid_dns_label_def split: if_splits)
  qed
  then have "solid host'"
    by (auto simp: solid_def list_all_iff is_white_def ascii_simps)
  moreover have "ip_from_str host' = None"
  proof (rule ccontr)
    assume "ip_from_str host' \<noteq> None"
    then obtain address where "ip_from_str host' = Some address" by blast
    moreover have "CHR '':'' \<notin> set host'" using chars by (auto simp: ascii_simps)
    ultimately have "list_all digit_or_dot host'" by (rule colonless_address)
    with facts(4) show False by (simp add: lower all_lowercase)
  qed
  moreover have "\<not> list_all digit_or_dot host'" using facts(4) by (simp add: lower all_lowercase)
  moreover have "\<not> eq_ignore_ascii_case host' ''localhost''" "to_ascii_lowercase host' = host'"
    using facts(5) by (simp_all add: lower eq_ignore_ascii_case_def to_ascii_lowercase_def [symmetric])
  moreover have "\<not> suffix ''.localhost'' host'" using facts(6) by (simp add: lower to_ascii_lowercase_def)
  moreover have "\<not> suffix ''.'' host'"
    using facts(1,7) by (cases host rule: rev_cases) (auto simp: lower lower_class suffix_def)
  ultimately show ?thesis
    using facts(1,2) labels' by (simp add: canonical_host_def trim_solid solid_is_ascii list_ex_iff list_all_iff digit_or_dot_def [abs_def] lower)
qed

lemma canonical_host_stable:
  assumes "canonical_host host = Inr host'"
  shows "canonical_host host' = Inr host'"
proof (cases "ip_from_str host")
  case (Some address)
  with assms have "host' = ip_to_string address" "valid_target_address address"
    by (auto simp: canonical_host_def split: if_splits)
  with Some show ?thesis using canonical_address ip_from_str_whole by blast
qed (rule canonical_name [OF assms])

lemma scope_validate_Inr:
  "scope_validate no_pad scope = Inr scope' \<longleftrightarrow>
     is_ok (scope_validate no_pad scope)
     \<and> (\<exists>target. validate_target no_pad (sc_target scope) = Inr target \<and> scope' = scope\<lparr>sc_target := target\<rparr>)"
  by (auto simp: scope_validate_def and_then_Inr_iff is_ok_iff)

lemma validate_target_stable:
  "validate_target no_pad target = Inr target' \<Longrightarrow> validate_target no_pad target' = Inr target'"
  by (auto simp: validate_target_Inr dest: canonical_host_stable)

text \<open>Validating is settled in one pass. A scope that validated, host rewritten to its one
spelling, validates again and unchanged: nothing downstream sees another host than the
one that was judged.\<close>

theorem validated_scope_is_stable:
  assumes "scope_validate no_pad scope = Inr scope'"
  shows "scope_validate no_pad scope' = Inr scope'"
proof -
  obtain target where target: "validate_target no_pad (sc_target scope) = Inr target"
      and scope': "scope' = scope\<lparr>sc_target := target\<rparr>"
    using assms by (auto simp: scope_validate_Inr)
  then have kind: "tg_access_kind target = tg_access_kind (sc_target scope)" by (auto simp: validate_target_Inr)
  from assms validate_target_stable [OF target] show ?thesis
    by (simp add: scope' scope_validate_def kind split: if_splits)
qed

theorem validated_scope_is_stable_witness:
  "scope_validate sample_no_pad sample_scope = Inr sample_scope"
  by (rule validated_scope_is_stable [OF sample_scope_valid])

text \<open>The scope the window shows: the received one with the addresses just frozen.\<close>

definition resolved_scope :: "AssistantScopeV1 \<Rightarrow> FrozenTarget \<Rightarrow> AssistantScopeV1" where
  "resolved_scope scope target = scope\<lparr>sc_target_addresses := map ip_to_string (ft_addresses target)\<rparr>"

lemma resolved_scope_valid:
  assumes "scope_validate no_pad scope = Inr scope" and "freeze name port resolved own = Inr target"
    and "\<forall>a \<in> set resolved. whole_address a"
  shows "scope_validate no_pad (resolved_scope scope target) = Inr (resolved_scope scope target)"
proof -
  have addresses: "ft_addresses target = firsts (map normalise resolved)" "length (ft_addresses target) \<le> 8"
    using assms(2) by (simp_all add: freeze_Inr limits)
  have "valid_target_address a" if "a \<in> set (ft_addresses target)" for a
    using that assms(2,3) normalise_reads_back
    by (fastforce simp: freeze_Inr check_reachability_class_Inr)
  then have "valid_addresses_from [] (map ip_to_string (ft_addresses target))"
    using addresses(1) assms(3) normalise_reads_back by (intro rendered_addresses_valid) auto
  then have "valid_target_addresses (map ip_to_string (ft_addresses target))"
    using addresses(2) by (simp add: valid_target_addresses_def limits)
  moreover have "validate_target no_pad (sc_target scope) = Inr (sc_target scope)"
  proof -
    obtain target where "validate_target no_pad (sc_target scope) = Inr target" "scope = scope\<lparr>sc_target := target\<rparr>"
      using assms(1) by (auto simp: scope_validate_Inr)
    then show ?thesis by (metis AssistantScopeV1.select_convs(4) AssistantScopeV1.surjective AssistantScopeV1.update_convs(4))
  qed
  ultimately show ?thesis
    using assms(1) by (simp add: scope_validate_def resolved_scope_def split: if_splits)
qed

text \<open>C36: What the user is shown is what the transport may dial. A target frozen from one
resolution holds every answer of it, each once and in its order, none of them an address
of this machine; it allows those addresses and no other; and the scope that displays them
still passes the validation of the protocol, so the window never refuses a frozen target.\<close>

theorem frozen_target_is_what_is_shown:
  assumes "scope_validate no_pad scope = Inr scope" and "freeze name port resolved own = Inr target"
    and "\<forall>a \<in> set resolved. whole_address a"
  shows "ft_addresses target = firsts (map normalise resolved)
    \<and> 1 \<le> length (ft_addresses target) \<and> length (ft_addresses target) \<le> 8
    \<and> set (ft_addresses target) \<inter> normalise ` set (la_addresses own) = {}
    \<and> (\<forall>a. allows target a \<longleftrightarrow> normalise a \<in> normalise ` set resolved)
    \<and> map ip_from_str (sc_target_addresses (resolved_scope scope target)) = map Some (ft_addresses target)
    \<and> scope_validate no_pad (resolved_scope scope target) = Inr (resolved_scope scope target)"
proof -
  have "resolved \<noteq> []" "length (ft_addresses target) \<le> 8"
    and addresses: "ft_addresses target = firsts (map normalise resolved)"
    and foreign: "\<forall>a \<in> set resolved. normalise a \<notin> normalise ` set (la_addresses own)"
    using assms(2) by (simp_all add: freeze_Inr limits)
  moreover have "firsts (map normalise resolved) \<noteq> []"
    using \<open>resolved \<noteq> []\<close> by (simp add: firsts_def)
  moreover have "map ip_from_str (map ip_to_string (ft_addresses target)) = map Some (ft_addresses target)"
    using assms(3) normalise_reads_back by (auto simp: addresses whole_address_back)
  ultimately show ?thesis
    using resolved_scope_valid [OF assms] by (auto simp: allows_def resolved_scope_def Suc_le_eq)
qed

definition sample_own :: LocalAddresses where
  "sample_own = \<lparr>la_addresses = [V4 (Ipv4 127 0 0 1), V4 (Ipv4 192 168 1 20)]\<rparr>"

definition sample_answers :: "IpAddr list" where
  "sample_answers = [V4 (Ipv4 203 0 113 7), V6 (Ipv6 [0, 0, 0, 0, 0, 0xFFFF, 0xCB00, 0x7107]),
     V6 (Ipv6 [0x2001, 0xDB8, 0, 0, 0, 0, 0, 1])]"

definition sample_frozen :: FrozenTarget where
  "sample_frozen = \<lparr>ft_name = ''node-1'', ft_port = 22,
     ft_addresses = [V4 (Ipv4 203 0 113 7), V6 (Ipv6 [0x2001, 0xDB8, 0, 0, 0, 0, 0, 1])]\<rparr>"

lemma zero_segments: "replicate 7 0 = [0, 0, 0, 0, 0, 0, 0 :: u16]" "replicate 8 0 = [0, 0, 0, 0, 0, 0, 0, 0 :: u16]"
  by (simp_all add: numeral_eq_Suc)

lemma sample_freeze: "freeze ''node-1'' 22 sample_answers sample_own = Inr sample_frozen"
  by (simp add: freeze_def sample_answers_def sample_own_def sample_frozen_def limits is_ascii_graphic_def code_def
      is_unicast_link_local_def zero_segments Let_def)

theorem frozen_target_is_what_is_shown_witness:
  "allows sample_frozen (V4 (Ipv4 203 0 113 7)) \<and> \<not> allows sample_frozen (V4 (Ipv4 203 0 113 8))"
proof -
  have "\<forall>a \<in> set sample_answers. whole_address a" by (simp add: sample_answers_def)
  from frozen_target_is_what_is_shown [OF sample_scope_valid sample_freeze this]
  have "\<forall>a. allows sample_frozen a \<longleftrightarrow> normalise a \<in> normalise ` set sample_answers" by blast
  then show ?thesis by (simp add: sample_answers_def)
qed

section \<open>A longer answer that is cut\<close>

text \<open>
  Nine answers of which two are one address leave a tenth unread: the set is frozen without
  it rather than refused, although it holds nine distinct addresses.
\<close>

definition repeated_answers :: "IpAddr list" where
  "repeated_answers = map (\<lambda>i. V4 (Ipv4 203 0 113 i)) [1, 2, 3, 4, 5, 6, 7, 8, 8, 9]"

lemma repeated_answers_are_cut:
  "\<exists>collected target. resolve_once (Some repeated_answers) = Inr collected
     \<and> freeze ''node-1'' 22 collected sample_own = Inr target
     \<and> length (firsts (map normalise repeated_answers)) = 9
     \<and> \<not> allows target (V4 (Ipv4 203 0 113 9))"
proof -
  have "resolve_once (Some repeated_answers) = Inr (butlast repeated_answers)"
    by (simp add: resolve_once_def repeated_answers_def limits)
  moreover have "freeze ''node-1'' 22 (butlast repeated_answers) sample_own
      = Inr \<lparr>ft_name = ''node-1'', ft_port = 22, ft_addresses = map (\<lambda>i. V4 (Ipv4 203 0 113 i)) [1, 2, 3, 4, 5, 6, 7, 8]\<rparr>"
    by (simp add: freeze_def repeated_answers_def sample_own_def limits is_ascii_graphic_def code_def Let_def)
  moreover have "length (firsts (map normalise repeated_answers)) = 9"
    by (simp add: firsts_def repeated_answers_def)
  ultimately show ?thesis by (simp add: allows_def)
qed

end
