(* ===== verification/Host_Key.thy ===== *)
theory Host_Key
  imports Std_White
begin

text \<open>
  \<open>personal_access/algorithms.rs\<close>, \<open>host_key.rs\<close> and \<open>signature_budget.rs\<close>: the positive
  lists, the attestation of the key a server presents, and the one signature an access may
  spend. Parsing and fingerprinting a public key belong to the SSH library: a presented
  key is what the library answers of it.
\<close>

section \<open>Positive lists\<close>

datatype HostKeyAlgorithm = HostEd25519 | HostRsaSha512 | HostRsaSha256

definition host_key_algorithm_from_wire_name :: "string \<Rightarrow> HostKeyAlgorithm option" where
  "host_key_algorithm_from_wire_name name =
     (if name = ''ssh-ed25519'' then Some HostEd25519
      else if name = ''rsa-sha2-512'' then Some HostRsaSha512
      else if name = ''rsa-sha2-256'' then Some HostRsaSha256
      else None)"

datatype HostKeyType = HostKeyEd25519 | HostKeyRsa

definition from_key_type_name :: "string \<Rightarrow> HostKeyType option" where
  "from_key_type_name name =
     (if name = ''ssh-ed25519'' then Some HostKeyEd25519
      else if name = ''ssh-rsa'' then Some HostKeyRsa
      else None)"

fun accepted_signature_algorithms :: "HostKeyType \<Rightarrow> HostKeyAlgorithm list" where
  "accepted_signature_algorithms HostKeyEd25519 = [HostEd25519]"
| "accepted_signature_algorithms HostKeyRsa = [HostRsaSha512, HostRsaSha256]"

definition HOST_KEY_WIRE_NAMES :: "string list" where
  "HOST_KEY_WIRE_NAMES = [''ssh-ed25519'', ''rsa-sha2-512'', ''rsa-sha2-256'']"

datatype IdentitySignatureAlgorithm = SignsEd25519 | SignsRsaSha512 | SignsRsaSha256

definition IDENTITY_WIRE_NAMES :: "string list" where
  "IDENTITY_WIRE_NAMES = [''ssh-ed25519'', ''rsa-sha2-512'', ''rsa-sha2-256'']"

definition identity_algorithm_from_wire_name :: "string \<Rightarrow> IdentitySignatureAlgorithm option" where
  "identity_algorithm_from_wire_name name =
     (if name = ''ssh-ed25519'' then Some SignsEd25519
      else if name = ''rsa-sha2-512'' then Some SignsRsaSha512
      else if name = ''rsa-sha2-256'' then Some SignsRsaSha256
      else None)"

datatype IdentityKeyType = IdentityEd25519 | IdentityRsa

definition from_public_key_type :: "string \<Rightarrow> IdentityKeyType option" where
  "from_public_key_type name =
     (if name = ''ssh-ed25519'' then Some IdentityEd25519
      else if name = ''ssh-rsa'' then Some IdentityRsa
      else None)"

fun identity_signature_algorithms :: "IdentityKeyType \<Rightarrow> IdentitySignatureAlgorithm list" where
  "identity_signature_algorithms IdentityEd25519 = [SignsEd25519]"
| "identity_signature_algorithms IdentityRsa = [SignsRsaSha512, SignsRsaSha256]"

definition ACCEPTED_COMPRESSION :: string where "ACCEPTED_COMPRESSION = ''none''"

definition compression_accepted :: "string \<Rightarrow> bool" where
  "compression_accepted name = (name = ACCEPTED_COMPRESSION)"

text \<open>The advertised names are exactly those the two readers accept.\<close>

lemma wire_names_are_accepted:
  "host_key_algorithm_from_wire_name name \<noteq> None \<longleftrightarrow> name \<in> set HOST_KEY_WIRE_NAMES"
  "identity_algorithm_from_wire_name name \<noteq> None \<longleftrightarrow> name \<in> set IDENTITY_WIRE_NAMES"
  by (simp_all add: host_key_algorithm_from_wire_name_def identity_algorithm_from_wire_name_def
      HOST_KEY_WIRE_NAMES_def IDENTITY_WIRE_NAMES_def)

section \<open>Attestation\<close>

definition MAX_HOST_KEY_BYTES :: nat where [limits]: "MAX_HOST_KEY_BYTES = 4096"

definition ATTESTED_FINGERPRINT_BYTES :: nat where [limits]: "ATTESTED_FINGERPRINT_BYTES = 7 + 43"

datatype HostKeyRefusal =
    NoApprovedKey | ApprovedMalformed | OfferedMalformed | HostKeyTooLong | AlgorithmRefused
  | KeyMismatch | SignatureAlgorithmMismatch

record PresentedKey =
  pk_algorithm :: string
  pk_fingerprint :: string

definition attest_presented :: "string \<Rightarrow> PresentedKey \<Rightarrow> string \<Rightarrow> HostKeyRefusal + HostKeyType" where
  "attest_presented approved_fingerprint presented negotiated_signature_algorithm =
     (if blank approved_fingerprint then Inl NoApprovedKey
      else if length approved_fingerprint \<noteq> ATTESTED_FINGERPRINT_BYTES then Inl ApprovedMalformed
      else
        and_then (ok_or (from_key_type_name (pk_algorithm presented)) AlgorithmRefused) (\<lambda>presented_type.
        if pk_fingerprint presented \<noteq> approved_fingerprint then Inl KeyMismatch
        else
          and_then (ok_or (host_key_algorithm_from_wire_name negotiated_signature_algorithm) AlgorithmRefused)
            (\<lambda>negotiated.
          if negotiated \<notin> set (accepted_signature_algorithms presented_type)
          then Inl SignatureAlgorithmMismatch
          else Inr presented_type)))"

record HostKeyLine =
  hl_algorithm :: string
  hl_material :: string

definition is_ascii_whitespace :: "char \<Rightarrow> bool" where
  "is_ascii_whitespace c = (code c = 32 \<or> code c = 9 \<or> code c = 10 \<or> code c = 12 \<or> code c = 13)"

text \<open>\<open>split_ascii_whitespace\<close>.\<close>

fun ascii_pieces :: "string \<Rightarrow> string list" where
  "ascii_pieces [] = [[]]"
| "ascii_pieces (c # s) =
     (if is_ascii_whitespace c then [] # ascii_pieces s
      else (c # hd (ascii_pieces s)) # tl (ascii_pieces s))"

definition split_ascii_whitespace :: "string \<Rightarrow> string list" where
  "split_ascii_whitespace s = filter (\<lambda>piece. piece \<noteq> []) (ascii_pieces s)"

definition parse_host_key_line :: "string \<Rightarrow> HostKeyLine option" where
  "parse_host_key_line line =
     (case split_ascii_whitespace line of
        algorithm # material # _ \<Rightarrow>
          if algorithm = [] \<or> material = [] then None
          else if \<not> list_all (\<lambda>c. is_ascii_alphanumeric c \<or> c = CHR ''+'' \<or> c = CHR ''/'' \<or> c = CHR ''='') material
          then None
          else Some \<lparr>hl_algorithm = algorithm, hl_material = material\<rparr>
      | _ \<Rightarrow> None)"

definition attest :: "string \<Rightarrow> string \<Rightarrow> HostKeyRefusal + HostKeyType" where
  "attest approved offered =
     (if blank approved then Inl NoApprovedKey
      else if length approved > MAX_HOST_KEY_BYTES \<or> length offered > MAX_HOST_KEY_BYTES
      then Inl HostKeyTooLong
      else
        and_then (ok_or (parse_host_key_line approved) ApprovedMalformed) (\<lambda>approved.
        and_then (ok_or (parse_host_key_line offered) OfferedMalformed) (\<lambda>offered.
        and_then (ok_or (from_key_type_name (hl_algorithm approved)) AlgorithmRefused) (\<lambda>approved_type.
        and_then (ok_or (from_key_type_name (hl_algorithm offered)) AlgorithmRefused) (\<lambda>offered_type.
        if approved_type \<noteq> offered_type \<or> hl_material approved \<noteq> hl_material offered
        then Inl KeyMismatch
        else Inr offered_type)))))"

lemma attest_presented_Inr:
  "attest_presented approved presented negotiated = Inr key_type \<longleftrightarrow>
     \<not> blank approved \<and> length approved = 50 \<and> pk_fingerprint presented = approved
     \<and> from_key_type_name (pk_algorithm presented) = Some key_type
     \<and> (\<exists>algorithm \<in> set (accepted_signature_algorithms key_type).
          host_key_algorithm_from_wire_name negotiated = Some algorithm)"
  by (auto simp: attest_presented_def limits result_iff split: if_splits)

lemma attest_Inr:
  "attest approved offered = Inr key_type \<longleftrightarrow>
     \<not> blank approved \<and> length approved \<le> 4096 \<and> length offered \<le> 4096
     \<and> (\<exists>a b. parse_host_key_line approved = Some a \<and> parse_host_key_line offered = Some b
          \<and> hl_material a = hl_material b
          \<and> from_key_type_name (hl_algorithm a) = Some key_type
          \<and> from_key_type_name (hl_algorithm b) = Some key_type)"
  by (auto simp: attest_def limits result_iff split: if_splits)

section \<open>The signature budget\<close>

text \<open>The algorithms and hashes the SSH library names, as far as the code tells them apart.\<close>

datatype KeyAlgorithm = AlgorithmEd25519 | AlgorithmRsa | AlgorithmOther

datatype HashAlg = Sha256 | Sha512 | OtherHash

definition MAX_AUTHENTICATION_SIGNATURES :: nat where [limits]: "MAX_AUTHENTICATION_SIGNATURES = 1"

datatype BudgetRefusal = Exhausted | IdentityChanged | CertificateOffered | HashAlgorithmRefused

record OfferedIdentity =
  oi_algorithm :: KeyAlgorithm
  oi_fingerprint :: string
  oi_is_certificate :: bool

record SignatureBudget =
  sb_selected_fingerprint :: string
  sb_remaining :: nat

definition for_selected_identity :: "string \<Rightarrow> SignatureBudget" where
  "for_selected_identity fingerprint =
     \<lparr>sb_selected_fingerprint = fingerprint, sb_remaining = MAX_AUTHENTICATION_SIGNATURES\<rparr>"

fun hash_algorithm_matches :: "KeyAlgorithm \<Rightarrow> HashAlg option \<Rightarrow> bool" where
  "hash_algorithm_matches AlgorithmEd25519 hash_alg = (hash_alg = None)"
| "hash_algorithm_matches AlgorithmRsa hash_alg = (hash_alg = Some Sha512 \<or> hash_alg = Some Sha256)"
| "hash_algorithm_matches AlgorithmOther hash_alg = False"

definition authorise ::
  "OfferedIdentity \<Rightarrow> HashAlg option \<Rightarrow> SignatureBudget \<Rightarrow> (BudgetRefusal + unit) \<times> SignatureBudget" where
  "authorise offered hash_alg budget =
     (if oi_is_certificate offered then (Inl CertificateOffered, budget)
      else if oi_fingerprint offered \<noteq> sb_selected_fingerprint budget then (Inl IdentityChanged, budget)
      else if \<not> hash_algorithm_matches (oi_algorithm offered) hash_alg
      then (Inl HashAlgorithmRefused, budget)
      else if sb_remaining budget = 0 then (Inl Exhausted, budget)
      else (Inr (), budget\<lparr>sb_remaining := sb_remaining budget - 1\<rparr>))"

text \<open>Every request one operation makes, with what was granted.\<close>

fun authorise_all ::
  "(OfferedIdentity \<times> HashAlg option) list \<Rightarrow> SignatureBudget \<Rightarrow> (BudgetRefusal + unit) list \<times> SignatureBudget" where
  "authorise_all [] budget = ([], budget)"
| "authorise_all ((offered, hash_alg) # requests) budget =
     (case authorise offered hash_alg budget of (verdict, budget) \<Rightarrow>
        apfst (Cons verdict) (authorise_all requests budget))"

definition may_sign :: "string \<Rightarrow> OfferedIdentity \<times> HashAlg option \<Rightarrow> bool" where
  "may_sign fingerprint request \<longleftrightarrow>
     \<not> oi_is_certificate (fst request) \<and> oi_fingerprint (fst request) = fingerprint
     \<and> hash_algorithm_matches (oi_algorithm (fst request)) (snd request)"

lemma authorise_granted:
  "fst (authorise offered hash_alg budget) = Inr () \<longleftrightarrow>
     may_sign (sb_selected_fingerprint budget) (offered, hash_alg) \<and> 0 < sb_remaining budget"
  by (auto simp: authorise_def may_sign_def)

lemma authorise_refused:
  assumes "\<not> (may_sign (sb_selected_fingerprint budget) (offered, hash_alg) \<and> 0 < sb_remaining budget)"
  shows "\<exists>refusal. authorise offered hash_alg budget = (Inl refusal, budget)"
proof -
  have "snd (authorise offered hash_alg budget) = budget" "fst (authorise offered hash_alg budget) \<noteq> Inr ()"
    using assms by (auto simp: authorise_def may_sign_def)
  then show ?thesis by (cases "authorise offered hash_alg budget"; cases "fst (authorise offered hash_alg budget)") auto
qed

lemma authorise_all_granted:
  "map is_ok (fst (authorise_all requests budget)) =
     (let n = sb_remaining budget; ok = map (may_sign (sb_selected_fingerprint budget)) requests
      in map (\<lambda>i. ok ! i \<and> length (filter id (take i ok)) < n) [0..<length requests])"
proof (induction requests budget rule: authorise_all.induct)
  case (2 offered hash_alg requests budget)
  show ?case
  proof (cases "may_sign (sb_selected_fingerprint budget) (offered, hash_alg) \<and> 0 < sb_remaining budget")
    case True
    then have step: "authorise offered hash_alg budget = (Inr (), budget\<lparr>sb_remaining := sb_remaining budget - 1\<rparr>)"
      by (simp add: authorise_def may_sign_def)
    from 2 [OF step [symmetric]] show ?thesis
      using True by (simp add: step Let_def map_upt_Suc del: upt_Suc) (auto simp: less_diff_conv)
  next
    case False
    then obtain refusal where step: "authorise offered hash_alg budget = (Inl refusal, budget)"
      using authorise_refused by blast
    from 2 [OF step [symmetric]] False show ?thesis
      by (auto simp add: step Let_def map_upt_Suc simp del: upt_Suc)
  qed
qed simp

text \<open>C39: One signature, for the one identity that was chosen, and a refusal costs nothing.
Over any sequence of requests an agent or a transport may make, the granted ones are
exactly the first request that names the selected identity, is no certificate and
signs as the algorithm demands: requests refused before it cannot use it up, and
nothing is granted after it.\<close>

theorem one_signature_for_the_selected_identity:
  "map is_ok (fst (authorise_all requests (for_selected_identity fingerprint)))
     = map (\<lambda>i. may_sign fingerprint (requests ! i) \<and> (\<forall>j < i. \<not> may_sign fingerprint (requests ! j)))
         [0..<length requests]"
proof -
  have first: "length (filter id (take i (map P requests))) < 1 \<longleftrightarrow> (\<forall>j < i. \<not> P (requests ! j))"
    if "i < length requests" for i and P :: "OfferedIdentity \<times> HashAlg option \<Rightarrow> bool"
  proof -
    have "length (filter id (take i (map P requests))) < 1 \<longleftrightarrow> (\<forall>x \<in> set (take i requests). \<not> P x)"
      by (simp add: take_map filter_empty_conv)
    also have "\<dots> \<longleftrightarrow> (\<forall>j < i. \<not> P (requests ! j))"
      using that by (simp add: all_set_conv_all_nth)
    finally show ?thesis .
  qed
  have budget: "sb_remaining (for_selected_identity fingerprint) = 1"
      "sb_selected_fingerprint (for_selected_identity fingerprint) = fingerprint"
    by (simp_all add: for_selected_identity_def limits)
  show ?thesis
    unfolding authorise_all_granted Let_def budget
    by (rule map_cong [OF refl]) (simp only: atLeastLessThan_iff set_upt nth_map first [unfolded One_nat_def] One_nat_def)
qed

theorem one_signature_for_the_selected_identity_witness:
  "map is_ok (fst (authorise_all
     [(\<lparr>oi_algorithm = AlgorithmEd25519, oi_fingerprint = ''other'', oi_is_certificate = False\<rparr>, None),
      (\<lparr>oi_algorithm = AlgorithmEd25519, oi_fingerprint = ''mine'', oi_is_certificate = False\<rparr>, None),
      (\<lparr>oi_algorithm = AlgorithmEd25519, oi_fingerprint = ''mine'', oi_is_certificate = False\<rparr>, None)]
     (for_selected_identity ''mine''))) = [False, True, False]"
  unfolding one_signature_for_the_selected_identity
  by (simp add: may_sign_def upt_rec numeral_3_eq_3 less_Suc_eq)

end
