(* ===== verification/Agent_Stream.thy ===== *)
theory Agent_Stream
  imports Host_Key
begin

text \<open>
  \<open>personal_access/agent_client.rs\<close>: the bounded framing around the agent's socket, which
  lets no oversized frame and no unasked answer through, and the agent it carries. What the
  socket gives and accepts is an argument of each poll; the agent client is the SSH library's.
\<close>

section \<open>The guard\<close>

definition MAX_AGENT_FRAME_BYTES :: nat where [limits]: "MAX_AGENT_FRAME_BYTES = 64 * 1024"

definition MAX_OFFERED_IDENTITIES :: nat where [limits]: "MAX_OFFERED_IDENTITIES = 16"

definition STREAM_OK :: u8 where "STREAM_OK = 0"

definition STREAM_FRAME_TOO_LARGE :: u8 where "STREAM_FRAME_TOO_LARGE = 1"

definition STREAM_UNSOLICITED_MESSAGE :: u8 where "STREAM_UNSOLICITED_MESSAGE = 2"

lemmas stream_codes = STREAM_OK_def STREAM_FRAME_TOO_LARGE_def STREAM_UNSOLICITED_MESSAGE_def

datatype StreamRefusal = FrameTooLarge | UnsolicitedMessage

definition guard_record :: "StreamRefusal \<Rightarrow> u8 \<Rightarrow> u8" where
  "guard_record refusal guard =
     (let value = (case refusal of FrameTooLarge \<Rightarrow> STREAM_FRAME_TOO_LARGE
                                 | UnsolicitedMessage \<Rightarrow> STREAM_UNSOLICITED_MESSAGE)
      in if guard = STREAM_OK then value else guard)"

definition guard_refusal :: "u8 \<Rightarrow> StreamRefusal option" where
  "guard_refusal guard =
     (if guard = STREAM_FRAME_TOO_LARGE then Some FrameTooLarge
      else if guard = STREAM_UNSOLICITED_MESSAGE then Some UnsolicitedMessage
      else None)"

section \<open>The framing\<close>

datatype FrameCursor = Header nat bytes | Body nat

definition start_cursor :: FrameCursor where
  "start_cursor = Header 0 (replicate 4 0)"

definition next_cursor :: "nat \<Rightarrow> FrameCursor" where
  "next_cursor announced = (if announced = 0 then start_cursor else Body announced)"

text \<open>\<open>u32::from_be_bytes\<close> as a \<open>usize\<close>.\<close>

definition frame_length :: "bytes \<Rightarrow> nat" where
  "frame_length len = foldl (\<lambda>n b. n * 256 + unat b) 0 len"

record AgentStream =
  ag_inbound :: FrameCursor
  ag_outbound :: FrameCursor
  ag_owed :: nat
  ag_guard :: u8

definition agent_stream_new :: AgentStream where
  "agent_stream_new = \<lparr>ag_inbound = start_cursor, ag_outbound = start_cursor, ag_owed = 0, ag_guard = STREAM_OK\<rparr>"

text \<open>\<open>usize::saturating_add(1)\<close> on 64 bits.\<close>

definition owe_one :: "nat \<Rightarrow> nat" where
  "owe_one owed = min (owed + 1) (2 ^ 64 - 1)"

text \<open>
  The bytes of a header land in its array; \<open>None\<close> is the panic of \<open>length.len() - seen\<close>.
  The two walks answer a verdict and the stream as they leave it.
\<close>

definition fill_header :: "nat \<Rightarrow> bytes \<Rightarrow> bytes \<Rightarrow> nat \<times> bytes \<times> bytes" where
  "fill_header seen len bytes =
     (let taken = min (length len - seen) (length bytes)
      in (seen + taken, take seen len @ take taken bytes @ drop (seen + taken) len, drop taken bytes))"

definition cursor_rank :: "FrameCursor \<Rightarrow> nat" where
  "cursor_rank cursor =
     (case cursor of Header seen len \<Rightarrow> if length len \<le> seen then 1 else 0 | Body remaining \<Rightarrow> if remaining = 0 then 1 else 0)"

lemma rank_next [simp]: "cursor_rank (next_cursor n) = 0" "cursor_rank start_cursor = 0"
  by (simp_all add: cursor_rank_def next_cursor_def start_cursor_def)

lemma fill_header_filled:
  assumes "(seen', len', rest) = fill_header seen len bytes" and "\<not> length len < seen"
  shows "seen' = seen + min (length len - seen) (length bytes)" "length len' = length len"
    "length rest = length bytes - min (length len - seen) (length bytes)"
  using assms by (simp_all add: fill_header_def Let_def)

lemma agent_updates:
  "ag_inbound (s\<lparr>ag_inbound := c\<rparr>) = c" "ag_inbound (s\<lparr>ag_owed := n\<rparr>) = ag_inbound s"
  "ag_outbound (s\<lparr>ag_outbound := c\<rparr>) = c" "ag_outbound (s\<lparr>ag_owed := n\<rparr>) = ag_outbound s"
  by simp_all

text \<open>A filled header, a header that still waits, and a body each leave less to walk.\<close>

lemma walk_shorter:
  "(length len', len', rest) = fill_header seen len (b # bs) \<Longrightarrow> \<not> length len < seen \<Longrightarrow>
     2 * length rest + 0 < 2 * length (b # bs) + cursor_rank (Header seen len)"
  "(seen', len', rest) = fill_header seen len (b # bs) \<Longrightarrow> \<not> length len < seen \<Longrightarrow> seen' \<noteq> length len' \<Longrightarrow>
     2 * length rest + cursor_rank (Header seen' len') < 2 * length (b # bs) + cursor_rank (Header seen len)"
  "2 * length (drop (min r (length (b # bs))) (b # bs))
       + cursor_rank (if r - min r (length (b # bs)) = 0 then start_cursor else Body (r - min r (length (b # bs))))
     < 2 * length (b # bs) + cursor_rank (Body r)"
proof -
  show "2 * length rest + 0 < 2 * length (b # bs) + cursor_rank (Header seen len)"
    if "(length len', len', rest) = fill_header seen len (b # bs)" "\<not> length len < seen"
    using fill_header_filled [OF that] that(2) by (cases "seen = length len") (simp_all add: cursor_rank_def)
  show "2 * length rest + cursor_rank (Header seen' len') < 2 * length (b # bs) + cursor_rank (Header seen len)"
    if "(seen', len', rest) = fill_header seen len (b # bs)" "\<not> length len < seen" "seen' \<noteq> length len'"
    using fill_header_filled [OF that(1,2)] that(2,3) by (auto simp: cursor_rank_def min_def split: if_splits)
  show "2 * length (drop (min r (length (b # bs))) (b # bs))
       + cursor_rank (if r - min r (length (b # bs)) = 0 then start_cursor else Body (r - min r (length (b # bs))))
     < 2 * length (b # bs) + cursor_rank (Body r)"
    by (auto simp: cursor_rank_def start_cursor_def min_def)
qed

function observe_inbound :: "AgentStream \<Rightarrow> bytes \<Rightarrow> ((StreamRefusal + unit) \<times> AgentStream) option" where
  "observe_inbound s [] = Some (Inr (), s)"
| "observe_inbound s (b # bs) =
     (case ag_inbound s of
        Header seen len \<Rightarrow>
          if length len < seen then None
          else (case fill_header seen len (b # bs) of (seen, len, rest) \<Rightarrow>
            let s = s\<lparr>ag_inbound := Header seen len\<rparr> in
            if seen = length len then
              if frame_length len > MAX_AGENT_FRAME_BYTES then Some (Inl FrameTooLarge, s)
              else if ag_owed s = 0 then Some (Inl UnsolicitedMessage, s)
              else observe_inbound (s\<lparr>ag_owed := ag_owed s - 1, ag_inbound := next_cursor (frame_length len)\<rparr>) rest
            else observe_inbound s rest)
      | Body remaining \<Rightarrow>
          let taken = min remaining (length (b # bs));
              remaining = remaining - taken
          in observe_inbound (s\<lparr>ag_inbound := (if remaining = 0 then start_cursor else Body remaining)\<rparr>)
               (drop taken (b # bs)))"
  by pat_completeness auto
termination
  by (relation "measure (\<lambda>(s, bytes). 2 * length bytes + cursor_rank (ag_inbound s))")
    (auto simp only: in_measure prod.case agent_updates rank_next if_distrib [of ag_outbound] intro!: walk_shorter)

function observe_outbound :: "AgentStream \<Rightarrow> bytes \<Rightarrow> ((StreamRefusal + unit) \<times> AgentStream) option" where
  "observe_outbound s [] = Some (Inr (), s)"
| "observe_outbound s (b # bs) =
     (case ag_outbound s of
        Header seen len \<Rightarrow>
          if length len < seen then None
          else (case fill_header seen len (b # bs) of (seen, len, rest) \<Rightarrow>
            let s = s\<lparr>ag_outbound := Header seen len\<rparr> in
            if seen = length len then
              if frame_length len > MAX_AGENT_FRAME_BYTES then Some (Inl FrameTooLarge, s)
              else observe_outbound
                (s\<lparr>ag_outbound := next_cursor (frame_length len),
                   ag_owed := (if frame_length len = 0 then owe_one (ag_owed s) else ag_owed s)\<rparr>) rest
            else observe_outbound s rest)
      | Body remaining \<Rightarrow>
          let taken = min remaining (length (b # bs));
              remaining = remaining - taken
          in observe_outbound
               (if remaining = 0
                then s\<lparr>ag_outbound := start_cursor, ag_owed := owe_one (ag_owed s)\<rparr>
                else s\<lparr>ag_outbound := Body remaining\<rparr>)
               (drop taken (b # bs)))"
  by pat_completeness auto
termination
  by (relation "measure (\<lambda>(s, bytes). 2 * length bytes + cursor_rank (ag_outbound s))")
    (auto simp only: in_measure prod.case agent_updates rank_next if_distrib [of ag_outbound] intro!: walk_shorter)

declare observe_inbound.simps [simp del] observe_outbound.simps [simp del]

definition stream_fail :: "StreamRefusal \<Rightarrow> AgentStream \<Rightarrow> AgentStream" where
  "stream_fail refusal s = s\<lparr>ag_guard := guard_record refusal (ag_guard s)\<rparr>"

text \<open>
  One poll, with what the socket gave or accepted: whether it is ready without an error, and
  the stream after it.
\<close>

definition poll_read :: "bytes \<Rightarrow> AgentStream \<Rightarrow> (bool \<times> AgentStream) option" where
  "poll_read observed s =
     (case guard_refusal (ag_guard s) of
        Some refusal \<Rightarrow> Some (False, stream_fail refusal s)
      | None \<Rightarrow>
          map_option (\<lambda>(verdict, s). case verdict of Inr _ \<Rightarrow> (True, s) | Inl refusal \<Rightarrow> (False, stream_fail refusal s))
            (observe_inbound s observed))"

definition poll_write :: "bytes \<Rightarrow> AgentStream \<Rightarrow> (bool \<times> AgentStream) option" where
  "poll_write written s =
     map_option (\<lambda>(verdict, s). case verdict of Inr _ \<Rightarrow> (True, s) | Inl refusal \<Rightarrow> (False, stream_fail refusal s))
       (observe_outbound s written)"

section \<open>The agent\<close>

datatype AgentRefusal =
    ConnectionFailed | ProtocolFailed | AgentStreamRefused StreamRefusal | NoIdentity | TooManyIdentities
  | UnknownSelection

datatype SigningRefusal =
    TransportRefused | BudgetRefusedSigning BudgetRefusal | StreamRefusedSigning StreamRefusal | AgentFailure
  | LocalSignature

text \<open>\<open>list_identities\<close>, with what the client answered and the guard it left.\<close>

definition list_identities :: "OfferedIdentity list option \<Rightarrow> u8 \<Rightarrow> AgentRefusal + OfferedIdentity list" where
  "list_identities answered guard =
     (case answered of
        None \<Rightarrow> Inl (case guard_refusal guard of Some refusal \<Rightarrow> AgentStreamRefused refusal | None \<Rightarrow> ProtocolFailed)
      | Some identities \<Rightarrow>
          if identities = [] then Inl NoIdentity
          else if length identities > MAX_OFFERED_IDENTITIES then Inl TooManyIdentities
          else Inr identities)"

record BudgetedAgentSigner =
  bs_budget :: SignatureBudget
  bs_selected :: OfferedIdentity

definition agent_select :: "OfferedIdentity list \<Rightarrow> string \<Rightarrow> AgentRefusal + BudgetedAgentSigner" where
  "agent_select identities fingerprint =
     and_then (ok_or (find (\<lambda>identity. oi_fingerprint identity = fingerprint) identities) UnknownSelection) (\<lambda>selected.
     Inr \<lparr>bs_budget = for_selected_identity fingerprint, bs_selected = selected\<rparr>)"

text \<open>\<open>auth_sign\<close>: the budget first, then the client, whose answer and guard are arguments.\<close>

definition agent_auth_sign ::
  "OfferedIdentity \<Rightarrow> HashAlg option \<Rightarrow> bytes option \<Rightarrow> u8 \<Rightarrow> BudgetedAgentSigner
     \<Rightarrow> (SigningRefusal + bytes) \<times> BudgetedAgentSigner" where
  "agent_auth_sign offered hash_alg answered guard signer =
     (case authorise offered hash_alg (bs_budget signer) of
        (Inl refusal, budget) \<Rightarrow> (Inl (BudgetRefusedSigning refusal), signer\<lparr>bs_budget := budget\<rparr>)
      | (Inr _, budget) \<Rightarrow>
          (case answered of
             Some signature \<Rightarrow> Inr signature
           | None \<Rightarrow> Inl (case guard_refusal guard of Some refusal \<Rightarrow> StreamRefusedSigning refusal | None \<Rightarrow> AgentFailure),
           signer\<lparr>bs_budget := budget\<rparr>))"

section \<open>What the framing lets through\<close>

text \<open>The announced lengths of the frames a byte stream has begun, and how many it has finished.\<close>

function frames_of :: "bytes \<Rightarrow> nat list" where
  "frames_of bs =
     (if length bs < 4 then []
      else frame_length (take 4 bs) # frames_of (drop (4 + frame_length (take 4 bs)) bs))"
  by pat_completeness auto
termination by (relation "measure length") auto

function finished_frames :: "bytes \<Rightarrow> nat" where
  "finished_frames bs =
     (if length bs < 4 \<or> length bs < 4 + frame_length (take 4 bs) then 0
      else Suc (finished_frames (drop (4 + frame_length (take 4 bs)) bs)))"
  by pat_completeness auto
termination by (relation "measure length") auto

function cursor_of :: "bytes \<Rightarrow> FrameCursor" where
  "cursor_of bs =
     (if length bs < 4 then Header (length bs) (bs @ replicate (4 - length bs) 0)
      else if length bs < 4 + frame_length (take 4 bs) then Body (4 + frame_length (take 4 bs) - length bs)
      else cursor_of (drop (4 + frame_length (take 4 bs)) bs))"
  by pat_completeness auto
termination by (relation "measure length") auto

declare frames_of.simps [simp del] finished_frames.simps [simp del] cursor_of.simps [simp del]

definition whole_frames :: "bytes \<Rightarrow> bool" where
  "whole_frames bs \<longleftrightarrow> finished_frames bs = length (frames_of bs)
     \<and> (\<forall>z. frames_of (bs @ z) = frames_of bs @ frames_of z \<and> cursor_of (bs @ z) = cursor_of z
          \<and> finished_frames (bs @ z) = finished_frames bs + finished_frames z)"

lemma whole_frames_Nil: "whole_frames []"
  by (simp add: whole_frames_def frames_of.simps [of "[]"] finished_frames.simps [of "[]"])

lemma whole_frames_Cons:
  assumes "length frame = 4 + frame_length (take 4 frame)" and "whole_frames bs"
  shows "whole_frames (frame @ bs)"
proof -
  have first: "take 4 (frame @ rest) = take 4 frame" "drop (4 + frame_length (take 4 frame)) (frame @ rest) = rest" for rest
    using assms(1) by simp_all
  have "frames_of (frame @ rest) = frame_length (take 4 frame) # frames_of rest"
    "finished_frames (frame @ rest) = Suc (finished_frames rest)" "cursor_of (frame @ rest) = cursor_of rest" for rest
    using assms(1) first [of rest]
    by (simp_all add: frames_of.simps [of "frame @ rest"] finished_frames.simps [of "frame @ rest"] cursor_of.simps [of "frame @ rest"])
  with assms(2) show ?thesis by (simp add: whole_frames_def)
qed

text \<open>A stream is whole frames, and then a header or a body that still waits.\<close>

lemma split_frames:
  "\<exists>whole tail. bs = whole @ tail \<and> whole_frames whole \<and> (length tail < 4 \<or> length tail < 4 + frame_length (take 4 tail))"
proof (induction bs rule: frames_of.induct)
  case (1 bs)
  let ?n = "4 + frame_length (take 4 bs)"
  show ?case
  proof (cases "length bs < 4 \<or> length bs < ?n")
    case True
    then show ?thesis by (intro exI [of _ "[]"] exI [of _ bs]) (simp add: whole_frames_Nil)
  next
    case False
    with "1.IH" obtain whole tail where split: "drop ?n bs = whole @ tail" "whole_frames whole"
        "length tail < 4 \<or> length tail < 4 + frame_length (take 4 tail)" by auto
    have "whole_frames (take ?n bs @ whole)"
      using False split(2) by (intro whole_frames_Cons) (simp_all add: min_def)
    moreover have "bs = (take ?n bs @ whole) @ tail" using append_take_drop_id [of ?n bs] by (simp only: split(1) append.assoc)
    ultimately show ?thesis using split(3) by blast
  qed
qed

lemma open_header:
  assumes "length h < 4"
  shows "frames_of h = []" "finished_frames h = 0" "cursor_of h = Header (length h) (h @ replicate (4 - length h) 0)"
  using assms by (simp_all add: frames_of.simps [of h] finished_frames.simps [of h] cursor_of.simps [of h])

lemma open_body:
  assumes "4 \<le> length h" and "length h < 4 + frame_length (take 4 h)"
  shows "frames_of h = [frame_length (take 4 h)]" "finished_frames h = 0"
    "cursor_of h = Body (4 + frame_length (take 4 h) - length h)"
  using assms by (simp_all add: frames_of.simps [of h] finished_frames.simps [of h] cursor_of.simps [of h] frames_of.simps [of "[]"])

lemma closed_body:
  assumes "length h = 4 + frame_length (take 4 h)"
  shows "frames_of h = [frame_length (take 4 h)]" "finished_frames h = 1" "cursor_of h = start_cursor"
  using assms
  by (simp_all add: frames_of.simps [of h] finished_frames.simps [of h] cursor_of.simps [of h] frames_of.simps [of "[]"]
      finished_frames.simps [of "[]"] cursor_of.simps [of "[]"] start_cursor_def)

lemma fill_open_header:
  assumes "length h < 4" and "t = min (4 - length h) (length bytes)"
  shows "fill_header (length h) (h @ replicate (4 - length h) 0) bytes
    = (length (h @ take t bytes), (h @ take t bytes) @ replicate (4 - length (h @ take t bytes)) 0, drop t bytes)"
proof -
  have "drop (length h + t) (h @ replicate (4 - length h) (0 :: u8)) = replicate (4 - length (h @ take t bytes)) 0"
    using assms by simp
  then show ?thesis using assms by (simp add: fill_header_def Let_def)
qed

text \<open>
  One turn of either walk takes at least a byte: it completes a header, waits in one, or
  advances in a body. \<open>seen\<close> is the stream so far.
\<close>

datatype Turn = Completes nat nat | Waits | Advances nat nat

definition turn :: "bytes \<Rightarrow> bytes \<Rightarrow> Turn" where
  "turn seen bytes =
     (case cursor_of seen of
        Header n len \<Rightarrow>
          let t = min (4 - n) (length bytes)
          in if n + t = 4 then Completes t (frame_length (take n len @ take t bytes)) else Waits
      | Body n \<Rightarrow> Advances (min n (length bytes)) (n - min n (length bytes)))"

lemma frames_of_Nil [simp]: "frames_of [] = []"
  by (simp add: frames_of.simps [of "[]"])

lemma header_four: "length x = 4 \<Longrightarrow> take 4 (x @ z) = x" "length x = 4 \<Longrightarrow> drop (4 + n) (x @ z) = drop n z"
  by simp_all

lemma turn_Completes:
  assumes "turn seen bytes = Completes t n" and "bytes \<noteq> []"
  shows "0 < t \<and> t \<le> length bytes
    \<and> (\<exists>len. cursor_of seen = Header (4 - t) len \<and> length len = 4 \<and> t \<le> 4
          \<and> fill_header (4 - t) len bytes = (4, take (4 - t) len @ take t bytes, drop t bytes)
          \<and> n = frame_length (take (4 - t) len @ take t bytes))
    \<and> cursor_of (seen @ take t bytes) = next_cursor n
    \<and> (\<forall>z. frames_of (seen @ take t bytes @ z) = frames_of seen @ n # frames_of (drop n z))
    \<and> finished_frames (seen @ take t bytes) = finished_frames seen + (if n = 0 then 1 else 0)"
proof -
  obtain whole h where split: "seen = whole @ h" "whole_frames whole"
      "length h < 4 \<or> length h < 4 + frame_length (take 4 h)"
    using split_frames by blast
  have short: "length h < 4"
  proof (rule ccontr)
    assume "\<not> length h < 4"
    with split open_body [of h] assms(1) show False by (simp add: turn_def whole_frames_def)
  qed
  note cursor = open_header [OF short]
  have seen: "cursor_of seen = Header (length h) (h @ replicate (4 - length h) 0)"
    "frames_of seen = frames_of whole" "finished_frames seen = finished_frames whole"
    using split(1,2) cursor by (simp_all add: whole_frames_def)
  have t: "t = min (4 - length h) (length bytes)" "length h + t = 4" "n = frame_length (h @ take t bytes)"
    using assms(1) by (auto simp: turn_def seen(1) Let_def split: if_splits)
  have header: "length (h @ take t bytes) = 4" using t(1,2) by simp
  have whole: "frames_of (seen @ x) = frames_of whole @ frames_of (h @ x)" "cursor_of (seen @ x) = cursor_of (h @ x)"
    "finished_frames (seen @ x) = finished_frames whole + finished_frames (h @ x)" for x
    using split(1,2) by (simp_all add: whole_frames_def)
  have four: "take 4 (h @ take t bytes @ z) = h @ take t bytes" "drop (4 + n) (h @ take t bytes @ z) = drop n z" for z
    using header_four(1) [OF header, of z] header_four(2) [OF header, of n z] by (simp_all only: append_assoc)
  have "frames_of (h @ take t bytes @ z) = n # frames_of (drop n z)" for z
    using header four by (subst frames_of.simps) (simp add: t(3))
  moreover have "cursor_of (h @ take t bytes) = next_cursor n"
    using header four [of "[]"] closed_body [of "h @ take t bytes"] open_body [of "h @ take t bytes"]
    by (cases "n = 0") (simp_all add: next_cursor_def t(3))
  moreover have "finished_frames (h @ take t bytes) = (if n = 0 then 1 else 0)"
    using header four [of "[]"] closed_body [of "h @ take t bytes"] open_body [of "h @ take t bytes"]
    by (cases "n = 0") (simp_all add: t(3))
  moreover have "0 < t" "t \<le> length bytes" using short t(1,2) assms(2) by auto
  moreover have "\<exists>len. cursor_of seen = Header (4 - t) len \<and> length len = 4 \<and> t \<le> 4
          \<and> fill_header (4 - t) len bytes = (4, take (4 - t) len @ take t bytes, drop t bytes)
          \<and> n = frame_length (take (4 - t) len @ take t bytes)"
  proof (intro exI conjI)
    have h: "4 - t = length h" "t \<le> 4" using t(2) by simp_all
    then show "cursor_of seen = Header (4 - t) (h @ replicate (4 - length h) 0)" "t \<le> 4" using seen(1) by simp_all
    show "length (h @ replicate (4 - length h) 0) = 4" using short by simp
    show "fill_header (4 - t) (h @ replicate (4 - length h) 0) bytes
        = (4, take (4 - t) (h @ replicate (4 - length h) 0) @ take t bytes, drop t bytes)"
      using fill_open_header [OF short t(1)] header by (simp add: h)
    show "n = frame_length (take (4 - t) (h @ replicate (4 - length h) 0) @ take t bytes)" by (simp add: h t(3))
  qed
  ultimately show ?thesis
    unfolding whole seen(2,3) by (intro conjI) (assumption | simp add: whole)+
qed

lemma turn_Waits:
  assumes "turn seen bytes = Waits" and "bytes \<noteq> []"
  shows "\<exists>n len len'. cursor_of seen = Header n len \<and> n \<le> length len \<and> length len = 4
      \<and> fill_header n len bytes = (n + length bytes, len', []) \<and> n + length bytes \<noteq> length len'
      \<and> cursor_of (seen @ bytes) = Header (n + length bytes) len'
      \<and> frames_of (seen @ bytes) = frames_of seen \<and> finished_frames (seen @ bytes) = finished_frames seen"
proof -
  obtain whole h where split: "seen = whole @ h" "whole_frames whole"
      "length h < 4 \<or> length h < 4 + frame_length (take 4 h)"
    using split_frames by blast
  have short: "length h < 4"
  proof (rule ccontr)
    assume "\<not> length h < 4"
    with split open_body [of h] assms(1) show False by (simp add: turn_def whole_frames_def)
  qed
  have seen: "cursor_of seen = Header (length h) (h @ replicate (4 - length h) 0)"
    using split(1,2) open_header [OF short] by (simp add: whole_frames_def)
  then have "length h + min (4 - length h) (length bytes) \<noteq> 4"
    using assms(1) by (simp add: turn_def Let_def split: if_splits)
  then have longer: "length (h @ bytes) < 4" "min (4 - length h) (length bytes) = length bytes" using short by auto
  show ?thesis
    using seen split(1,2) short longer open_header [OF longer(1)] open_header [OF short]
      fill_open_header [OF short refl, of bytes]
    by (auto simp: whole_frames_def)
qed

lemma turn_Advances:
  assumes "turn seen bytes = Advances t left" and "bytes \<noteq> []"
  shows "0 < t \<and> t \<le> length bytes
    \<and> (\<exists>n. cursor_of seen = Body n \<and> t = min n (length bytes) \<and> left = n - t)
    \<and> cursor_of (seen @ take t bytes) = (if left = 0 then start_cursor else Body left)
    \<and> (left = 0 \<longrightarrow> (\<forall>z. frames_of (seen @ take t bytes @ z) = frames_of seen @ frames_of z))
    \<and> frames_of (seen @ take t bytes) = frames_of seen
    \<and> finished_frames (seen @ take t bytes) = finished_frames seen + (if left = 0 then 1 else 0)"
proof -
  obtain whole h where split: "seen = whole @ h" "whole_frames whole"
      "length h < 4 \<or> length h < 4 + frame_length (take 4 h)"
    using split_frames by blast
  have whole: "frames_of (seen @ x) = frames_of whole @ frames_of (h @ x)" "cursor_of (seen @ x) = cursor_of (h @ x)"
    "finished_frames (seen @ x) = finished_frames whole + finished_frames (h @ x)" for x
    using split(1,2) by (simp_all add: whole_frames_def)
  have long: "4 \<le> length h"
  proof (rule ccontr)
    assume "\<not> 4 \<le> length h"
    with whole [of "[]"] open_header [of h] assms(1) show False by (simp add: turn_def Let_def split: if_splits)
  qed
  then have body: "length h < 4 + frame_length (take 4 h)" using split(3) by simp
  let ?n = "4 + frame_length (take 4 h) - length h"
  note cursor = open_body [OF long body]
  have t: "t = min ?n (length bytes)" "left = ?n - t"
    using assms(1) whole [of "[]"] cursor by (auto simp: turn_def)
  have keep: "take 4 (h @ x) = take 4 h" for x using long by simp
  have at: "length (h @ take t bytes) = length h + t" using t(1) by simp
  have rest: "frames_of (h @ take t bytes @ z) = frame_length (take 4 h) # (if left = 0 then frames_of z else [])"
    if "z = [] \<or> left = 0" for z
    using that long body t at
    by (subst frames_of.simps) (auto simp: frames_of.simps [of "[]"])
  have "cursor_of (h @ take t bytes) = (if left = 0 then start_cursor else Body left)
      \<and> finished_frames (h @ take t bytes) = (if left = 0 then 1 else 0)"
  proof (cases "left = 0")
    case True
    with t at body have "length (h @ take t bytes) = 4 + frame_length (take 4 (h @ take t bytes))" by (simp only: keep) linarith
    from closed_body [OF this] True show ?thesis by simp
  next
    case False
    with t at body have "4 \<le> length (h @ take t bytes)"
        "length (h @ take t bytes) < 4 + frame_length (take 4 (h @ take t bytes))"
        "4 + frame_length (take 4 (h @ take t bytes)) - length (h @ take t bytes) = left"
      using long by (simp_all only: keep) linarith+
    from open_body [OF this(1,2)] this(3) False show ?thesis by simp
  qed
  moreover have "0 < t" "t \<le> length bytes" using t(1) body assms(2) by auto
  moreover have "\<exists>n. cursor_of h = Body n \<and> t = min n (length bytes) \<and> left = n - t" using cursor(3) t by blast
  ultimately show ?thesis
    using cursor(1,2) rest rest [of "[]"] by (simp add: whole whole [of "[]", unfolded append_Nil2] frames_of.simps [of "[]"])
qed

lemma frames_prefix: "\<exists>fresh. frames_of (seen @ z) = frames_of seen @ fresh"
proof -
  obtain whole h where split: "seen = whole @ h" "whole_frames whole"
      "length h < 4 \<or> length h < 4 + frame_length (take 4 h)"
    using split_frames by blast
  have "\<exists>fresh. frames_of (h @ z) = frames_of h @ fresh"
  proof (cases "length h < 4")
    case True
    then show ?thesis using open_header by simp
  next
    case False
    then have "frames_of h = [frame_length (take 4 h)]" using split(3) open_body by simp
    moreover have "take 4 (h @ z) = take 4 h" "\<not> length (h @ z) < 4" using False by simp_all
    then have "frames_of (h @ z) = frame_length (take 4 h) # frames_of (drop (4 + frame_length (take 4 h)) (h @ z))"
      using frames_of.simps [of "h @ z"] by (simp only: if_False)
    ultimately show ?thesis by simp
  qed
  with split(1,2) show ?thesis by (auto simp: whole_frames_def)
qed

definition fresh_frames :: "bytes \<Rightarrow> bytes \<Rightarrow> nat list" where
  "fresh_frames seen bytes = drop (length (frames_of seen)) (frames_of (seen @ bytes))"

lemma frames_of_append: "frames_of (seen @ bytes) = frames_of seen @ fresh_frames seen bytes"
  using frames_prefix [of seen bytes] by (auto simp: fresh_frames_def)

lemma fresh_iff: "frames_of (seen @ bytes) = frames_of seen @ x \<Longrightarrow> fresh_frames seen bytes = x"
  by (simp add: fresh_frames_def)

lemma seen_rest: "seen @ bytes = (seen @ take t bytes) @ drop t bytes"
  by simp

lemma fresh_after:
  assumes "frames_of (seen @ take t bytes) = frames_of seen @ now"
  shows "fresh_frames seen bytes = now @ fresh_frames (seen @ take t bytes) (drop t bytes)"
proof -
  have "frames_of (seen @ bytes) = (frames_of seen @ now) @ fresh_frames (seen @ take t bytes) (drop t bytes)"
    using frames_of_append [of "seen @ take t bytes" "drop t bytes"] assms by (simp only: append_assoc append_take_drop_id)
  then show ?thesis by (intro fresh_iff) simp
qed

lemma observe_inbound_spec:
  assumes "ag_inbound s = cursor_of seen"
  shows "if (\<forall>n \<in> set (fresh_frames seen bytes). n \<le> MAX_AGENT_FRAME_BYTES) \<and> length (fresh_frames seen bytes) \<le> ag_owed s
    then observe_inbound s bytes
      = Some (Inr (), s\<lparr>ag_inbound := cursor_of (seen @ bytes), ag_owed := ag_owed s - length (fresh_frames seen bytes)\<rparr>)
    else \<exists>refusal s'. observe_inbound s bytes = Some (Inl refusal, s')"
  using assms
proof (induction "length bytes" arbitrary: s seen bytes rule: less_induct)
  case less
  show ?case
  proof (cases bytes)
    case Nil
    then show ?thesis using less.prems by (simp add: observe_inbound.simps fresh_frames_def)
  next
    case (Cons b bs)
    then have some: "bytes \<noteq> []" by simp
    show ?thesis
    proof (cases "turn seen bytes")
      case (Completes t n)
      note took = turn_Completes [OF Completes some]
      obtain len where len: "cursor_of seen = Header (4 - t) len" "length len = 4" "t \<le> 4"
          "fill_header (4 - t) len bytes = (4, take (4 - t) len @ take t bytes, drop t bytes)"
          "n = frame_length (take (4 - t) len @ take t bytes)"
        using took by blast
      let ?seen = "seen @ take t bytes" and ?rest = "drop t bytes"
      have "frames_of ?seen = frames_of seen @ [n]" using took by (metis append_Nil2 drop_Nil frames_of_Nil)
      from fresh_after [OF this] have fresh: "fresh_frames seen bytes = n # fresh_frames ?seen ?rest" by simp
      have full: "length (take (4 - t) len @ take t bytes) = 4" using took len(2,3) by simp
      have inside: "\<not> 4 < 4 - t" by simp
      have step: "observe_inbound s bytes =
          (if n > MAX_AGENT_FRAME_BYTES then Some (Inl FrameTooLarge, s\<lparr>ag_inbound := Header 4 (take (4 - t) len @ take t bytes)\<rparr>)
           else if ag_owed s = 0 then Some (Inl UnsolicitedMessage, s\<lparr>ag_inbound := Header 4 (take (4 - t) len @ take t bytes)\<rparr>)
           else observe_inbound (s\<lparr>ag_owed := ag_owed s - 1, ag_inbound := next_cursor n\<rparr>) ?rest)"
        using Cons less.prems len full inside by (simp add: observe_inbound.simps Let_def)
      let ?s = "s\<lparr>ag_owed := ag_owed s - 1, ag_inbound := next_cursor n\<rparr>"
      have "length ?rest < length bytes" "ag_inbound ?s = cursor_of ?seen" using took some by simp_all
      from less.hyps [OF this] show ?thesis
        unfolding step fresh by (auto simp: not_le split: if_splits)
    next
      case Waits
      obtain n len len' where w: "cursor_of seen = Header n len" "n \<le> length len" "fill_header n len bytes = (n + length bytes, len', [])"
          "n + length bytes \<noteq> length len'" "cursor_of (seen @ bytes) = Header (n + length bytes) len'"
          "frames_of (seen @ bytes) = frames_of seen"
        using turn_Waits [OF Waits some] by blast
      then show ?thesis
        using Cons less.prems by (simp add: observe_inbound.simps Let_def fresh_frames_def)
    next
      case (Advances t left)
      note took = turn_Advances [OF Advances some]
      obtain n where n: "cursor_of seen = Body n" "t = min n (length bytes)" "left = n - t" using took by blast
      let ?seen = "seen @ take t bytes" and ?rest = "drop t bytes"
      have "frames_of ?seen = frames_of seen @ []" using took by simp
      from fresh_after [OF this] have fresh: "fresh_frames seen bytes = fresh_frames ?seen ?rest" by simp
      let ?s = "s\<lparr>ag_inbound := (if left = 0 then start_cursor else Body left)\<rparr>"
      have step: "observe_inbound s bytes = observe_inbound ?s ?rest"
        using Cons less.prems n by (simp add: observe_inbound.simps Let_def)
      have "length ?rest < length bytes" "ag_inbound ?s = cursor_of ?seen" using took some by simp_all
      from less.hyps [OF this] show ?thesis
        unfolding step fresh by (auto simp: not_le split: if_splits)
    qed
  qed
qed

lemma finished_grows: "finished_frames seen \<le> finished_frames (seen @ z)"
proof -
  obtain whole h where split: "seen = whole @ h" "whole_frames whole"
      "length h < 4 \<or> length h < 4 + frame_length (take 4 h)"
    using split_frames by blast
  moreover have "finished_frames h = 0"
    using split(3) open_header(2) open_body(2) by (cases "length h < 4") auto
  ultimately show ?thesis by (simp add: whole_frames_def)
qed

definition fresh_finished :: "bytes \<Rightarrow> bytes \<Rightarrow> nat" where
  "fresh_finished seen bytes = finished_frames (seen @ bytes) - finished_frames seen"

lemma fresh_finished_after:
  assumes "finished_frames (seen @ take t bytes) = finished_frames seen + k"
  shows "fresh_finished seen bytes = k + fresh_finished (seen @ take t bytes) (drop t bytes)"
  using assms finished_grows [of "seen @ take t bytes" "drop t bytes"] by (simp add: fresh_finished_def)

lemma observe_outbound_spec:
  assumes "ag_outbound s = cursor_of seen" and "ag_owed s + fresh_finished seen bytes < 2 ^ 64"
  shows "if \<forall>n \<in> set (fresh_frames seen bytes). n \<le> MAX_AGENT_FRAME_BYTES
    then observe_outbound s bytes
      = Some (Inr (), s\<lparr>ag_outbound := cursor_of (seen @ bytes), ag_owed := ag_owed s + fresh_finished seen bytes\<rparr>)
    else \<exists>refusal s'. observe_outbound s bytes = Some (Inl refusal, s')"
  using assms
proof (induction "length bytes" arbitrary: s seen bytes rule: less_induct)
  case less
  show ?case
  proof (cases bytes)
    case Nil
    then show ?thesis using less.prems by (simp add: observe_outbound.simps fresh_frames_def fresh_finished_def)
  next
    case (Cons b bs)
    then have some: "bytes \<noteq> []" by simp
    show ?thesis
    proof (cases "turn seen bytes")
      case (Completes t n)
      note took = turn_Completes [OF Completes some]
      obtain len where len: "cursor_of seen = Header (4 - t) len" "length len = 4" "t \<le> 4"
          "fill_header (4 - t) len bytes = (4, take (4 - t) len @ take t bytes, drop t bytes)"
          "n = frame_length (take (4 - t) len @ take t bytes)"
        using took by blast
      let ?seen = "seen @ take t bytes" and ?rest = "drop t bytes"
      have "frames_of ?seen = frames_of seen @ [n]" using took by (metis append_Nil2 drop_Nil frames_of_Nil)
      from fresh_after [OF this] have fresh: "fresh_frames seen bytes = n # fresh_frames ?seen ?rest" by simp
      have finished: "fresh_finished seen bytes = (if n = 0 then 1 else 0) + fresh_finished ?seen ?rest"
        using took by (intro fresh_finished_after) blast
      have full: "length (take (4 - t) len @ take t bytes) = 4" using took len(2,3) by simp
      let ?s = "s\<lparr>ag_outbound := next_cursor n, ag_owed := ag_owed s + (if n = 0 then 1 else 0)\<rparr>"
      have inside: "\<not> 4 < 4 - t" by simp
      have owe: "owe_one (ag_owed s) = ag_owed s + 1" if "n = 0"
        using less.prems(2) finished that by (simp add: owe_one_def)
      have step: "observe_outbound s bytes =
          (if n > MAX_AGENT_FRAME_BYTES then Some (Inl FrameTooLarge, s\<lparr>ag_outbound := Header 4 (take (4 - t) len @ take t bytes)\<rparr>)
           else observe_outbound ?s ?rest)"
        using Cons less.prems(1) len full inside owe by (simp add: observe_outbound.simps Let_def)
      have "length ?rest < length bytes" "ag_outbound ?s = cursor_of ?seen"
          "ag_owed ?s + fresh_finished ?seen ?rest < 2 ^ 64"
        using took some less.prems(2) finished by simp_all
      from less.hyps [OF this] show ?thesis
        unfolding step fresh finished by (auto simp: not_le ac_simps split: if_splits)
    next
      case Waits
      obtain n len len' where w: "cursor_of seen = Header n len" "n \<le> length len" "fill_header n len bytes = (n + length bytes, len', [])"
          "n + length bytes \<noteq> length len'" "cursor_of (seen @ bytes) = Header (n + length bytes) len'"
          "frames_of (seen @ bytes) = frames_of seen" "finished_frames (seen @ bytes) = finished_frames seen"
        using turn_Waits [OF Waits some] by blast
      then show ?thesis
        using Cons less.prems by (simp add: observe_outbound.simps Let_def fresh_frames_def fresh_finished_def)
    next
      case (Advances t left)
      note took = turn_Advances [OF Advances some]
      obtain n where n: "cursor_of seen = Body n" "t = min n (length bytes)" "left = n - t" using took by blast
      let ?seen = "seen @ take t bytes" and ?rest = "drop t bytes"
      have "frames_of ?seen = frames_of seen @ []" using took by simp
      from fresh_after [OF this] have fresh: "fresh_frames seen bytes = fresh_frames ?seen ?rest" by simp
      have finished: "fresh_finished seen bytes = (if left = 0 then 1 else 0) + fresh_finished ?seen ?rest"
        using took by (intro fresh_finished_after) blast
      let ?s = "s\<lparr>ag_outbound := (if left = 0 then start_cursor else Body left), ag_owed := ag_owed s + (if left = 0 then 1 else 0)\<rparr>"
      have owe: "owe_one (ag_owed s) = ag_owed s + 1" if "left = 0"
        using less.prems(2) finished that by (simp add: owe_one_def)
      have step: "observe_outbound s bytes = observe_outbound ?s ?rest"
        using Cons less.prems(1) n owe by (simp add: observe_outbound.simps Let_def)
      have "length ?rest < length bytes" "ag_outbound ?s = cursor_of ?seen"
          "ag_owed ?s + fresh_finished ?seen ?rest < 2 ^ 64"
        using took some less.prems(2) finished by simp_all
      from less.hyps [OF this] show ?thesis
        unfolding step fresh finished by (auto simp: not_le ac_simps split: if_splits)
    qed
  qed
qed

section \<open>A conversation with the agent\<close>

datatype Poll = PolledRead bytes | PolledWrite bytes

fun agent_poll :: "Poll \<Rightarrow> AgentStream \<Rightarrow> (bool \<times> AgentStream) option" where
  "agent_poll (PolledRead observed) s = poll_read observed s"
| "agent_poll (PolledWrite written) s = poll_write written s"

text \<open>The polls of a conversation, up to the first that fails.\<close>

fun agent_polls :: "Poll list \<Rightarrow> AgentStream \<Rightarrow> (bool \<times> AgentStream) option" where
  "agent_polls [] s = Some (True, s)"
| "agent_polls (poll # polls) s =
     (case agent_poll poll s of Some (True, s) \<Rightarrow> agent_polls polls s | stopped \<Rightarrow> stopped)"

text \<open>
  What a conversation has to be: after every poll no frame announces too much, and the agent
  has begun no more answers than requests had been sent whole.
\<close>

fun solicited :: "bytes \<Rightarrow> bytes \<Rightarrow> Poll list \<Rightarrow> bool" where
  "solicited heard said [] = True"
| "solicited heard said (PolledRead bytes # polls) =
     ((\<forall>n \<in> set (frames_of (heard @ bytes)). n \<le> MAX_AGENT_FRAME_BYTES)
      \<and> length (frames_of (heard @ bytes)) \<le> finished_frames said \<and> solicited (heard @ bytes) said polls)"
| "solicited heard said (PolledWrite bytes # polls) =
     ((\<forall>n \<in> set (frames_of (said @ bytes)). n \<le> MAX_AGENT_FRAME_BYTES) \<and> solicited heard (said @ bytes) polls)"

fun written_bytes :: "Poll list \<Rightarrow> bytes" where
  "written_bytes [] = []"
| "written_bytes (PolledRead bytes # polls) = written_bytes polls"
| "written_bytes (PolledWrite bytes # polls) = bytes @ written_bytes polls"

definition stream_after :: "bytes \<Rightarrow> bytes \<Rightarrow> AgentStream" where
  "stream_after heard said = \<lparr>ag_inbound = cursor_of heard, ag_outbound = cursor_of said,
     ag_owed = finished_frames said - length (frames_of heard), ag_guard = STREAM_OK\<rparr>"

lemma finished_le_length: "finished_frames bs \<le> length bs"
proof (induction bs rule: finished_frames.induct)
  case (1 bs)
  then show ?case by (subst finished_frames.simps) auto
qed

lemma guard_open: "guard_refusal STREAM_OK = None"
  by (simp add: guard_refusal_def stream_codes)

lemma stream_after_simps [simp]:
  "ag_inbound (stream_after heard said) = cursor_of heard" "ag_outbound (stream_after heard said) = cursor_of said"
  "ag_owed (stream_after heard said) = finished_frames said - length (frames_of heard)"
  "ag_guard (stream_after heard said) = STREAM_OK"
  by (simp_all add: stream_after_def)

lemma poll_read_spec:
  assumes "length (frames_of heard) \<le> finished_frames said"
    and "\<forall>n \<in> set (frames_of heard). n \<le> MAX_AGENT_FRAME_BYTES"
  shows "if (\<forall>n \<in> set (frames_of (heard @ bytes)). n \<le> MAX_AGENT_FRAME_BYTES)
      \<and> length (frames_of (heard @ bytes)) \<le> finished_frames said
    then poll_read bytes (stream_after heard said) = Some (True, stream_after (heard @ bytes) said)
    else \<exists>s. poll_read bytes (stream_after heard said) = Some (False, s)"
proof -
  let ?s = "stream_after heard said" and ?fresh = "fresh_frames heard bytes"
  have same: "(\<forall>n \<in> set (frames_of (heard @ bytes)). n \<le> MAX_AGENT_FRAME_BYTES)
      \<and> length (frames_of (heard @ bytes)) \<le> finished_frames said
    \<longleftrightarrow> (\<forall>n \<in> set ?fresh. n \<le> MAX_AGENT_FRAME_BYTES) \<and> length ?fresh \<le> ag_owed ?s"
    using assms by (auto simp: frames_of_append)
  have after: "?s\<lparr>ag_inbound := cursor_of (heard @ bytes), ag_owed := ag_owed ?s - length ?fresh\<rparr> = stream_after (heard @ bytes) said"
    by (simp add: stream_after_def frames_of_append)
  show ?thesis
    unfolding same poll_read_def
    using observe_inbound_spec [of ?s heard bytes, unfolded after] by (auto simp: guard_open split: if_splits)
qed

lemma poll_write_spec:
  assumes "length (frames_of heard) \<le> finished_frames said" and "length (said @ bytes) < 2 ^ 64"
    and "\<forall>n \<in> set (frames_of said). n \<le> MAX_AGENT_FRAME_BYTES"
  shows "if \<forall>n \<in> set (frames_of (said @ bytes)). n \<le> MAX_AGENT_FRAME_BYTES
    then poll_write bytes (stream_after heard said) = Some (True, stream_after heard (said @ bytes))
    else \<exists>s. poll_write bytes (stream_after heard said) = Some (False, s)"
proof -
  let ?s = "stream_after heard said" and ?fresh = "fresh_frames said bytes"
  have same: "(\<forall>n \<in> set (frames_of (said @ bytes)). n \<le> MAX_AGENT_FRAME_BYTES)
    \<longleftrightarrow> (\<forall>n \<in> set ?fresh. n \<le> MAX_AGENT_FRAME_BYTES)"
    using assms(3) by (auto simp: frames_of_append)
  have grows: "finished_frames said \<le> finished_frames (said @ bytes)" by (rule finished_grows)
  have "finished_frames (said @ bytes) < 2 ^ 64" using finished_le_length [of "said @ bytes"] assms(2) by simp
  then have small: "ag_owed ?s + fresh_finished said bytes < 2 ^ 64"
    using grows by (simp add: fresh_finished_def)
  have after: "?s\<lparr>ag_outbound := cursor_of (said @ bytes), ag_owed := ag_owed ?s + fresh_finished said bytes\<rparr>
      = stream_after heard (said @ bytes)"
    using assms(1) grows by (simp add: stream_after_def fresh_finished_def)
  show ?thesis
    unfolding same poll_write_def
    using observe_outbound_spec [of ?s said bytes, OF _ small, unfolded after] by (auto split: if_splits)
qed

lemma agent_polls_spec:
  "length (frames_of heard) \<le> finished_frames said \<Longrightarrow> length (said @ written_bytes polls) < 2 ^ 64 \<Longrightarrow>
     \<forall>n \<in> set (frames_of heard) \<union> set (frames_of said). n \<le> MAX_AGENT_FRAME_BYTES \<Longrightarrow>
     map_option fst (agent_polls polls (stream_after heard said)) = Some (solicited heard said polls)"
proof (induction heard said polls rule: solicited.induct)
  case (2 heard said bytes polls)
  show ?case
  proof (cases "(\<forall>n \<in> set (frames_of (heard @ bytes)). n \<le> MAX_AGENT_FRAME_BYTES)
      \<and> length (frames_of (heard @ bytes)) \<le> finished_frames said")
    case True
    with poll_read_spec [of heard said bytes] 2 show ?thesis by (simp add: ball_Un)
  next
    case False
    with poll_read_spec [of heard said bytes] 2 show ?thesis by (auto simp: ball_Un)
  qed
next
  case (3 heard said bytes polls)
  show ?case
  proof (cases "\<forall>n \<in> set (frames_of (said @ bytes)). n \<le> MAX_AGENT_FRAME_BYTES")
    case True
    with poll_write_spec [of heard said bytes] 3 finished_grows [of said bytes] show ?thesis by (simp add: ball_Un)
  next
    case False
    with poll_write_spec [of heard said bytes] 3 show ?thesis by (auto simp: ball_Un)
  qed
qed simp

text \<open>C37: The agent answers what it was asked, and no more. However the socket cuts the bytes,
the walks end without a panic, and a conversation goes on exactly while no frame in either
direction announces more than 64 KiB and the agent has begun no more answers than it was
sent whole requests: a second message to one request is cut before its first body byte.\<close>

theorem agent_answers_what_it_was_asked:
  assumes "length (written_bytes polls) < 2 ^ 64"
  shows "map_option fst (agent_polls polls agent_stream_new) = Some (solicited [] [] polls)"
proof -
  have "stream_after [] [] = agent_stream_new"
    by (simp add: stream_after_def agent_stream_new_def cursor_of.simps [of "[]"] start_cursor_def
        finished_frames.simps [of "[]"])
  with agent_polls_spec [of "[]" "[]" polls] assms show ?thesis by simp
qed

theorem agent_answers_what_it_was_asked_witness:
  "map_option fst (agent_polls [PolledWrite [0, 0], PolledWrite [0, 1, 11], PolledRead [0, 0, 0, 1], PolledRead [12, 0, 0, 0, 0]]
     agent_stream_new) = Some False"
proof -
  let ?polls = "[PolledWrite [0, 0], PolledWrite [0, 1, 11], PolledRead [0, 0, 0, 1], PolledRead [12, 0, 0, 0, 0]]"
  have "solicited [] [] ?polls = False"
    by (simp add: limits frame_length_def frames_of.simps finished_frames.simps)
  moreover have "map_option fst (agent_polls ?polls agent_stream_new) = Some (solicited [] [] ?polls)"
    by (rule agent_answers_what_it_was_asked) simp
  ultimately show ?thesis by (simp only:)
qed

end
