(* ===== verification/Access_Session.thy ===== *)
theory Access_Session
  imports Frozen_Target Agent_Stream Install_Sequence_Facts
begin

text \<open>
  \<open>personal_access/session.rs\<close> and \<open>installation/transport.rs\<close>: one session, its host key
  verdict, its channels and their budget. The SSH library is the world: what it calls back,
  whether it opens a channel and every message it delivers are arguments.
\<close>

section \<open>Refusals and the guard\<close>

definition MAX_PROBE_STREAM_BYTES :: nat where [limits]: "MAX_PROBE_STREAM_BYTES = 4096"

definition EXTENDED_DATA_STDERR :: u32 where "EXTENDED_DATA_STDERR = 1"

definition PROBE_COMMAND :: string where "PROBE_COMMAND = ''/usr/bin/id -u''"

datatype TransportRefusal =
    RuntimeUnavailable | NoReachableAddress | ForeignPeer | HostKeyRefused HostKeyRefusal
  | AuthenticationRefused | SigningRefused SigningRefusal | ChannelRefused | ProbeOutputTooLarge
  | UnexpectedProbeStream | ProbeIncomplete | ChannelBudgetSpent | TransportExpired | TransportCancelled

datatype GuardVerdict = GuardContinue | GuardExpired | GuardCancelled

fun check_guard :: "GuardVerdict \<Rightarrow> TransportRefusal + unit" where
  "check_guard GuardContinue = Inr ()"
| "check_guard GuardExpired = Inl TransportExpired"
| "check_guard GuardCancelled = Inl TransportCancelled"

section \<open>One channel\<close>

record ChannelReport =
  cr_exit_status :: u32
  cr_stdout :: bytes
  cr_stderr :: bytes

fun wire_segments :: "ChannelInput \<Rightarrow> bytes \<times> bytes option" where
  "wire_segments (TerminalAnswer answer) = (answer, Some [10])"
| "wire_segments (ExactBytes exact) = (exact, None)"

text \<open>\<open>append_bounded\<close>; \<open>None\<close> is the underflow of \<open>MAX_PROBE_STREAM_BYTES - buffer.len()\<close>.\<close>

definition append_bounded :: "bytes \<Rightarrow> bytes \<Rightarrow> (TransportRefusal + bytes) option" where
  "append_bounded buffer data =
     (if length buffer > MAX_PROBE_STREAM_BYTES then None
      else Some (if length data > MAX_PROBE_STREAM_BYTES - length buffer then Inl ProbeOutputTooLarge
                 else Inr (buffer @ data)))"

datatype ChannelMsg =
    MsgData bytes | MsgExtended bytes u32 | MsgExitStatus u32 | MsgEof | MsgClose | MsgOther

text \<open>One turn of the loop: the guard's verdict, and what the wait of one interval answers.\<close>

datatype Wait = WaitIdle | WaitNothing | WaitMessage ChannelMsg

record Gathered =
  ga_stdout :: bytes
  ga_stderr :: bytes
  ga_exit_status :: "u32 option"
  ga_end_of_file :: bool

definition gathered_nothing :: Gathered where
  "gathered_nothing = \<lparr>ga_stdout = [], ga_stderr = [], ga_exit_status = None, ga_end_of_file = False\<rparr>"

datatype Turned = TurnRefused TransportRefusal | TurnBreaks Gathered | TurnGoesOn Gathered

definition finish_turn :: "Gathered \<Rightarrow> Turned" where
  "finish_turn g = (if ga_end_of_file g \<and> ga_exit_status g \<noteq> None then TurnBreaks g else TurnGoesOn g)"

fun take_message :: "Gathered \<Rightarrow> ChannelMsg \<Rightarrow> Turned option" where
  "take_message g (MsgData data) =
     map_option (\<lambda>r. case r of Inl e \<Rightarrow> TurnRefused e | Inr out \<Rightarrow> finish_turn (g\<lparr>ga_stdout := out\<rparr>))
       (append_bounded (ga_stdout g) data)"
| "take_message g (MsgExtended data ext) =
     (if ext = EXTENDED_DATA_STDERR
      then map_option (\<lambda>r. case r of Inl e \<Rightarrow> TurnRefused e | Inr err \<Rightarrow> finish_turn (g\<lparr>ga_stderr := err\<rparr>))
             (append_bounded (ga_stderr g) data)
      else Some (TurnRefused UnexpectedProbeStream))"
| "take_message g (MsgExitStatus status) = Some (finish_turn (g\<lparr>ga_exit_status := Some status\<rparr>))"
| "take_message g MsgEof = Some (finish_turn (g\<lparr>ga_end_of_file := True\<rparr>))"
| "take_message g MsgClose = Some (TurnBreaks g)"
| "take_message g MsgOther = Some (finish_turn g)"

definition report_of :: "Gathered \<Rightarrow> TransportRefusal + ChannelReport" where
  "report_of g =
     (case (ga_exit_status g, ga_end_of_file g) of
        (Some status, True) \<Rightarrow> Inr \<lparr>cr_exit_status = status, cr_stdout = ga_stdout g, cr_stderr = ga_stderr g\<rparr>
      | _ \<Rightarrow> Inl ProbeIncomplete)"

text \<open>
  What driving a channel comes to before the deadline of the outer \<open>timeout\<close>: it panics, it
  is cut while it waits, or it is done.
\<close>

datatype Driven = Panics | IsCut | IsDone "TransportRefusal + ChannelReport"

text \<open>The loop, over the turns that fit before the deadline.\<close>

fun collect_turns :: "Gathered \<Rightarrow> (GuardVerdict \<times> Wait) list \<Rightarrow> Driven" where
  "collect_turns g [] = IsCut"
| "collect_turns g ((verdict, wait) # turns) =
     (case check_guard verdict of
        Inl refusal \<Rightarrow> IsDone (Inl refusal)
      | Inr _ \<Rightarrow>
          (case wait of
             WaitIdle \<Rightarrow> collect_turns g turns
           | WaitNothing \<Rightarrow> IsDone (report_of g)
           | WaitMessage message \<Rightarrow>
               (case take_message g message of
                  None \<Rightarrow> Panics
                | Some (TurnRefused refusal) \<Rightarrow> IsDone (Inl refusal)
                | Some (TurnBreaks g) \<Rightarrow> IsDone (report_of g)
                | Some (TurnGoesOn g) \<Rightarrow> collect_turns g turns)))"

text \<open>What the library does of one channel, and what is left of the deadline when it is asked.\<close>

datatype Reply = Accepts | Refuses | Hangs

record ChannelWorld =
  cw_remaining :: nat
  cw_opens :: Reply
  cw_executes :: Reply
  cw_takes_input :: Reply
  cw_takes_terminator :: Reply
  cw_takes_eof :: Reply
  cw_turns :: "(GuardVerdict \<times> Wait) list"
  cw_closes :: Reply

datatype WireAct = WireOpen | WireExec string | WireData bytes | WireEof | WireClose

text \<open>\<open>.await.map_err(ChannelRefused)?\<close> of one act, and then the rest of the acts.\<close>

definition wire :: "WireAct \<Rightarrow> Reply \<Rightarrow> Driven \<times> WireAct list \<Rightarrow> Driven \<times> WireAct list" where
  "wire act reply rest =
     (case reply of
        Accepts \<Rightarrow> apsnd (Cons act) rest
      | Refuses \<Rightarrow> (IsDone (Inl ChannelRefused), [act])
      | Hangs \<Rightarrow> (IsCut, [act]))"

text \<open>\<open>collect_channel\<close>: its outcome, and what it put on the wire.\<close>

definition collect_channel ::
  "ChannelWorld \<Rightarrow> FixedCommand \<Rightarrow> ChannelInput option \<Rightarrow> Driven \<times> WireAct list" where
  "collect_channel world command standard_input =
     (let gather = (collect_turns gathered_nothing (cw_turns world), [])
      in wire (WireExec (command_text command)) (cw_executes world)
           (case standard_input of
              None \<Rightarrow> gather
            | Some input \<Rightarrow>
                (case wire_segments input of (bytes, terminator) \<Rightarrow>
                   wire (WireData bytes) (cw_takes_input world)
                     (case terminator of
                        Some terminator \<Rightarrow>
                          wire (WireData terminator) (cw_takes_terminator world)
                            (wire WireEof (cw_takes_eof world) gather)
                      | None \<Rightarrow> wire WireEof (cw_takes_eof world) gather))))"

definition exec_channel ::
  "ChannelWorld \<Rightarrow> FixedCommand \<Rightarrow> ChannelInput option \<Rightarrow> Driven \<times> WireAct list" where
  "exec_channel world command standard_input =
     wire WireOpen (cw_opens world)
       (case collect_channel world command standard_input of
          (IsDone outcome, sent) \<Rightarrow>
            (if cw_closes world = Hangs then IsCut else IsDone outcome, sent @ [WireEof, WireClose])
        | stopped \<Rightarrow> stopped)"

section \<open>The session and its budget\<close>

record LiveSession =
  lv_host_key_type :: HostKeyType
  lv_signatures_spent :: nat
  lv_channels_spent :: nat
  lv_channel_budget :: nat

definition may_adopt_budget :: "nat \<Rightarrow> nat \<Rightarrow> nat \<Rightarrow> bool" where
  "may_adopt_budget channels_spent current_budget requested =
     (current_budget = requested \<or> (channels_spent = 0 \<and> current_budget = MAX_EXEC_CHANNELS))"

definition adopt_derived_budget :: "nat \<Rightarrow> LiveSession \<Rightarrow> (TransportRefusal + unit) \<times> LiveSession" where
  "adopt_derived_budget budget live =
     (if \<not> may_adopt_budget (lv_channels_spent live) (lv_channel_budget live) budget
      then (Inl ChannelBudgetSpent, live)
      else (Inr (), live\<lparr>lv_channel_budget := budget\<rparr>))"

text \<open>The outcome of the channel, what went on the wire, and the session; \<open>None\<close> is a panic.\<close>

definition run_channel ::
  "ChannelWorld \<Rightarrow> FixedCommand \<Rightarrow> ChannelInput option \<Rightarrow> LiveSession
     \<Rightarrow> (TransportRefusal + ChannelReport) option \<times> WireAct list \<times> LiveSession" where
  "run_channel world command standard_input live =
     (if lv_channels_spent live \<ge> lv_channel_budget live then (Some (Inl ChannelBudgetSpent), [], live)
      else
        let live = live\<lparr>lv_channels_spent := lv_channels_spent live + 1\<rparr>
        in if cw_remaining world = 0 then (Some (Inl TransportExpired), [], live)
           else (case exec_channel world command standard_input of
               (Panics, sent) \<Rightarrow> (None, sent, live)
             | (IsCut, sent) \<Rightarrow> (Some (Inl TransportExpired), sent, live)
             | (IsDone outcome, sent) \<Rightarrow> (Some outcome, sent, live)))"

definition answer_from :: "ChannelReport \<Rightarrow> Answer" where
  "answer_from report = \<lparr>an_exit_status = cr_exit_status report, an_stdout = cr_stdout report\<rparr>"

section \<open>The channel a sequence is given\<close>

text \<open>
  \<open>impl Channel for SessionChannel\<close>: what the far side does is an argument, a function of
  every command this session was ever asked; the sequence asks after \<open>asked_before\<close>.
\<close>

type_synonym far_side = "(FixedCommand \<times> ChannelInput option) list \<Rightarrow> ChannelWorld"

fun commands_of :: "Event list \<Rightarrow> (FixedCommand \<times> ChannelInput option) list" where
  "commands_of [] = []"
| "commands_of (AdoptBudget _ # trace) = commands_of trace"
| "commands_of (Ran command input # trace) = (command, input) # commands_of trace"

fun session_event :: "far_side \<Rightarrow> (FixedCommand \<times> ChannelInput option) list \<Rightarrow> Event \<Rightarrow> LiveSession \<Rightarrow> LiveSession" where
  "session_event far asked_before (AdoptBudget budget) live = snd (adopt_derived_budget budget live)"
| "session_event far asked_before (Ran command input) live =
     snd (snd (run_channel (far (asked_before @ [(command, input)])) command input live))"

fun session_after :: "far_side \<Rightarrow> (FixedCommand \<times> ChannelInput option) list \<Rightarrow> Event list \<Rightarrow> LiveSession \<Rightarrow> LiveSession" where
  "session_after far asked_before [] live = live"
| "session_after far asked_before (event # events) live =
     session_after far (asked_before @ commands_of [event]) events (session_event far asked_before event live)"

definition session_answers ::
  "far_side \<Rightarrow> (FixedCommand \<times> ChannelInput option) list \<Rightarrow> LiveSession \<Rightarrow> Event list \<Rightarrow> Answer option" where
  "session_answers far asked_before live trace =
     (case last trace of
        AdoptBudget _ \<Rightarrow> None
      | Ran command input \<Rightarrow>
          (case fst (run_channel (far (asked_before @ commands_of trace)) command input
                   (session_after far asked_before (butlast trace) live)) of
             Some (Inr report) \<Rightarrow> Some (answer_from report)
           | _ \<Rightarrow> None))"

definition session_adopts ::
  "far_side \<Rightarrow> (FixedCommand \<times> ChannelInput option) list \<Rightarrow> LiveSession \<Rightarrow> Event list \<Rightarrow> bool" where
  "session_adopts far asked_before live trace =
     (case last trace of
        AdoptBudget budget \<Rightarrow>
          is_ok (fst (adopt_derived_budget budget (session_after far asked_before (butlast trace) live)))
      | Ran _ _ \<Rightarrow> False)"

definition session_channel ::
  "far_side \<Rightarrow> (FixedCommand \<times> ChannelInput option) list \<Rightarrow> LiveSession \<Rightarrow> Machine" where
  "session_channel far asked_before live =
     \<lparr>answers = session_answers far asked_before live, adopts = session_adopts far asked_before live\<rparr>"

section \<open>The host key verdict\<close>

record HostKeyVerdict =
  hv_negotiated :: "string option"
  hv_attestation :: "(HostKeyRefusal + HostKeyType) option"

definition verdict_default :: HostKeyVerdict where
  "verdict_default = \<lparr>hv_negotiated = None, hv_attestation = None\<rparr>"

definition kex_done :: "string \<Rightarrow> HostKeyVerdict \<Rightarrow> HostKeyVerdict" where
  "kex_done name verdict =
     (if hv_negotiated verdict = None then verdict\<lparr>hv_negotiated := Some name\<rparr> else verdict)"

definition check_server_key :: "string \<Rightarrow> PresentedKey \<Rightarrow> HostKeyVerdict \<Rightarrow> bool \<times> HostKeyVerdict" where
  "check_server_key approved_fingerprint presented verdict =
     (let attestation = (case hv_negotiated verdict of
            Some negotiated \<Rightarrow> attest_presented approved_fingerprint presented negotiated
          | None \<Rightarrow> Inl AlgorithmRefused)
      in (is_ok attestation, verdict\<lparr>hv_attestation := Some attestation\<rparr>))"

text \<open>What the library calls back while it connects.\<close>

datatype Callback = KexDone string | ServerKey PresentedKey

fun call_back :: "string \<Rightarrow> Callback \<Rightarrow> HostKeyVerdict \<Rightarrow> HostKeyVerdict" where
  "call_back approved (KexDone name) verdict = kex_done name verdict"
| "call_back approved (ServerKey presented) verdict = snd (check_server_key approved presented verdict)"

definition attested_host_key_type :: "HostKeyVerdict \<Rightarrow> TransportRefusal + HostKeyType" where
  "attested_host_key_type verdict =
     (case hv_attestation verdict of
        Some (Inr host_key_type) \<Rightarrow> Inr host_key_type
      | Some (Inl refusal) \<Rightarrow> Inl (HostKeyRefused refusal)
      | None \<Rightarrow> Inl (HostKeyRefused NoApprovedKey))"

definition host_key_refusal_or :: "HostKeyVerdict \<Rightarrow> TransportRefusal \<Rightarrow> TransportRefusal" where
  "host_key_refusal_or verdict otherwise =
     (case attested_host_key_type verdict of Inr _ \<Rightarrow> otherwise | Inl refusal \<Rightarrow> refusal)"

section \<open>Opening a session\<close>

text \<open>What a connection attempt comes to: no socket in time, or one to a peer, named or not.\<close>

datatype Connected = NoSocket | SocketTo "IpAddr option"

fun connect_to_frozen_address ::
  "FrozenTarget \<Rightarrow> (IpAddr \<Rightarrow> GuardVerdict \<times> Connected) \<Rightarrow> IpAddr list \<Rightarrow> TransportRefusal + IpAddr" where
  "connect_to_frozen_address target network [] = Inl NoReachableAddress"
| "connect_to_frozen_address target network (address # addresses) =
     and_then (check_guard (fst (network address))) (\<lambda>_.
     case snd (network address) of
       NoSocket \<Rightarrow> connect_to_frozen_address target network addresses
     | SocketTo (Some peer) \<Rightarrow> if allows target peer then Inr peer else Inl ForeignPeer
     | SocketTo None \<Rightarrow> Inl ForeignPeer)"

text \<open>
  \<open>auth_sign\<close> of either signer: the budget decides, then the agent or the opened key
  answers, whose answer is an argument.
\<close>

definition auth_sign ::
  "OfferedIdentity \<Rightarrow> HashAlg option \<Rightarrow> SigningRefusal + bytes \<Rightarrow> SignatureBudget
     \<Rightarrow> (SigningRefusal + bytes) \<times> SignatureBudget" where
  "auth_sign offered hash_alg answered budget =
     (case authorise offered hash_alg budget of
        (Inl refusal, budget) \<Rightarrow> (Inl (BudgetRefusedSigning refusal), budget)
      | (Inr _, budget) \<Rightarrow> (answered, budget))"

record OpenWorld =
  ow_remaining :: nat
  ow_cut :: bool
  ow_first_guard :: GuardVerdict
  ow_network :: "IpAddr \<Rightarrow> GuardVerdict \<times> Connected"
  ow_callbacks :: "Callback list"
  ow_connected :: bool
  ow_second_guard :: GuardVerdict
  ow_key_algorithm :: KeyAlgorithm
  ow_sign_requests :: "(OfferedIdentity \<times> HashAlg option \<times> (SigningRefusal + bytes)) list"
  ow_accepted :: bool
  ow_last_guard :: GuardVerdict

text \<open>The signatures the library asks for while it authenticates, up to the first refusal.\<close>

fun sign_all ::
  "(OfferedIdentity \<times> HashAlg option \<times> (SigningRefusal + bytes)) list \<Rightarrow> SignatureBudget
     \<Rightarrow> (SigningRefusal + unit) \<times> SignatureBudget" where
  "sign_all [] budget = (Inr (), budget)"
| "sign_all ((offered, hash_alg, answered) # requests) budget =
     (case auth_sign offered hash_alg answered budget of
        (Inl refusal, budget) \<Rightarrow> (Inl refusal, budget)
      | (Inr _, budget) \<Rightarrow> sign_all requests budget)"

definition authenticate ::
  "OpenWorld \<Rightarrow> HostKeyVerdict \<Rightarrow> SignatureBudget \<Rightarrow> (TransportRefusal + HostKeyType) \<times> SignatureBudget" where
  "authenticate world verdict budget =
     (case and_then (attested_host_key_type verdict) (\<lambda>host_key_type.
           and_then (check_guard (ow_second_guard world)) (\<lambda>_.
           if ow_key_algorithm world = AlgorithmOther then Inl AuthenticationRefused else Inr host_key_type)) of
        Inl refusal \<Rightarrow> (Inl refusal, budget)
      | Inr host_key_type \<Rightarrow>
          (case sign_all (ow_sign_requests world) budget of
             (Inl refusal, budget) \<Rightarrow> (Inl (SigningRefused refusal), budget)
           | (Inr _, budget) \<Rightarrow>
               (if \<not> ow_accepted world then Inl AuthenticationRefused
                else and_then (check_guard (ow_last_guard world)) (\<lambda>_. Inr host_key_type), budget)))"

definition open_session ::
  "OpenWorld \<Rightarrow> FrozenTarget \<Rightarrow> string \<Rightarrow> SignatureBudget \<Rightarrow> (TransportRefusal + HostKeyType) \<times> SignatureBudget" where
  "open_session world target approved_fingerprint budget =
     (case and_then (check_guard (ow_first_guard world)) (\<lambda>_.
           connect_to_frozen_address target (ow_network world) (ft_addresses target)) of
        Inl refusal \<Rightarrow> (Inl refusal, budget)
      | Inr _ \<Rightarrow>
          let verdict = fold (call_back approved_fingerprint) (ow_callbacks world) verdict_default
          in if \<not> ow_connected world then (Inl (host_key_refusal_or verdict ForeignPeer), budget)
             else authenticate world verdict budget)"

definition establish_with ::
  "OpenWorld \<Rightarrow> FrozenTarget \<Rightarrow> string \<Rightarrow> SignatureBudget \<Rightarrow> (TransportRefusal + LiveSession) \<times> SignatureBudget" where
  "establish_with world target approved_fingerprint budget =
     (if ow_remaining world = 0 then (Inl TransportExpired, budget)
      else (case open_session world target approved_fingerprint budget of (opened, budget) \<Rightarrow>
        (if ow_cut world then Inl TransportExpired
         else and_then opened (\<lambda>host_key_type.
           Inr \<lparr>lv_host_key_type = host_key_type,
                lv_signatures_spent = MAX_AUTHENTICATION_SIGNATURES - sb_remaining budget,
                lv_channels_spent = 0, lv_channel_budget = MAX_EXEC_CHANNELS\<rparr>), budget)))"

end
