(* ===== verification/Access_Facts.thy ===== *)
theory Access_Facts
  imports Access_Session
begin

text \<open>
  What one session guarantees whatever the far side does: its channels never outnumber its
  budget, a channel's report is exactly what the channel delivered within its bounds, a
  session exists only behind an attested host key and a frozen address, and a sequence that
  runs over a session is never refused a channel.
\<close>

section \<open>The budget of channels\<close>

lemma run_channel_session:
  "snd (snd (run_channel world command input live)) =
     (if lv_channels_spent live \<ge> lv_channel_budget live then live
      else live\<lparr>lv_channels_spent := lv_channels_spent live + 1\<rparr>)"
  by (simp add: run_channel_def Let_def split: prod.split Driven.split)

lemma adopt_session:
  "snd (adopt_derived_budget budget live) =
     (if may_adopt_budget (lv_channels_spent live) (lv_channel_budget live) budget
      then live\<lparr>lv_channel_budget := budget\<rparr> else live)"
  by (simp add: adopt_derived_budget_def)

lemma session_after_append:
  "session_after far asked_before (events @ events') live =
     session_after far (asked_before @ commands_of events) events' (session_after far asked_before events live)"
proof (induction events arbitrary: asked_before live)
  case (Cons event events)
  then show ?case by (cases event) simp_all
qed simp


definition silent_world :: ChannelWorld where
  "silent_world = \<lparr>cw_remaining = 1, cw_opens = Accepts, cw_executes = Accepts, cw_takes_input = Accepts,
     cw_takes_terminator = Accepts, cw_takes_eof = Accepts,
     cw_turns = [(GuardContinue, WaitMessage (MsgData [48, 10])), (GuardContinue, WaitIdle),
       (GuardContinue, WaitMessage (MsgExitStatus 0)), (GuardContinue, WaitMessage MsgEof)],
     cw_closes = Accepts\<rparr>"

definition fresh_session :: LiveSession where
  "fresh_session = \<lparr>lv_host_key_type = HostKeyEd25519, lv_signatures_spent = 1, lv_channels_spent = 0,
     lv_channel_budget = MAX_EXEC_CHANNELS\<rparr>"


section \<open>What a channel reports\<close>

fun messages :: "(GuardVerdict \<times> Wait) list \<Rightarrow> ChannelMsg list" where
  "messages [] = []"
| "messages ((_, WaitMessage message) # turns) = message # messages turns"
| "messages (_ # turns) = messages turns"

fun stdout_bytes :: "ChannelMsg list \<Rightarrow> bytes" where
  "stdout_bytes [] = []"
| "stdout_bytes (MsgData data # ms) = data @ stdout_bytes ms"
| "stdout_bytes (_ # ms) = stdout_bytes ms"

fun stderr_bytes :: "ChannelMsg list \<Rightarrow> bytes" where
  "stderr_bytes [] = []"
| "stderr_bytes (MsgExtended data _ # ms) = data @ stderr_bytes ms"
| "stderr_bytes (_ # ms) = stderr_bytes ms"

fun exit_statuses :: "ChannelMsg list \<Rightarrow> u32 list" where
  "exit_statuses [] = []"
| "exit_statuses (MsgExitStatus status # ms) = status # exit_statuses ms"
| "exit_statuses (_ # ms) = exit_statuses ms"

fun known_stream :: "ChannelMsg \<Rightarrow> bool" where
  "known_stream (MsgExtended _ ext) = (ext = EXTENDED_DATA_STDERR)"
| "known_stream _ = True"

definition within_bounds :: "Gathered \<Rightarrow> bool" where
  "within_bounds g = (length (ga_stdout g) \<le> MAX_PROBE_STREAM_BYTES \<and> length (ga_stderr g) \<le> MAX_PROBE_STREAM_BYTES)"

text \<open>One message: never a panic, and what is gathered stays bounded and is what came.\<close>

definition gathers :: "Gathered \<Rightarrow> ChannelMsg \<Rightarrow> Gathered \<Rightarrow> bool" where
  "gathers g message g' =
     (within_bounds g' \<and> known_stream message
      \<and> ga_stdout g' = ga_stdout g @ stdout_bytes [message]
      \<and> ga_stderr g' = ga_stderr g @ stderr_bytes [message]
      \<and> ga_exit_status g' = (case exit_statuses [message] of [] \<Rightarrow> ga_exit_status g | status # _ \<Rightarrow> Some status)
      \<and> ga_end_of_file g' = (ga_end_of_file g \<or> message = MsgEof))"

lemma finish_turn_cases:
  "(finish_turn g = TurnBreaks g \<and> ga_end_of_file g \<and> ga_exit_status g \<noteq> None)
   \<or> (finish_turn g = TurnGoesOn g \<and> \<not> (ga_end_of_file g \<and> ga_exit_status g \<noteq> None))"
  by (simp add: finish_turn_def)

lemma take_message_gathers:
  assumes "within_bounds g"
  obtains refusal where "take_message g message = Some (TurnRefused refusal)"
  | g' where "take_message g message = Some (TurnBreaks g')" "gathers g message g'"
  | g' where "take_message g message = Some (TurnGoesOn g')" "gathers g message g'"
proof -
  have "(\<exists>refusal. take_message g message = Some (TurnRefused refusal))
      \<or> (\<exists>g'. gathers g message g' \<and> take_message g message \<in> {Some (finish_turn g'), Some (TurnBreaks g')})"
  proof (cases message)
    case (MsgData data)
    with assms show ?thesis
      by (cases "length data > MAX_PROBE_STREAM_BYTES - length (ga_stdout g)")
        (auto simp: append_bounded_def within_bounds_def gathers_def intro!: exI [of _ "g\<lparr>ga_stdout := ga_stdout g @ data\<rparr>"])
  next
    case (MsgExtended data ext)
    with assms show ?thesis
      by (cases "ext = EXTENDED_DATA_STDERR"; cases "length data > MAX_PROBE_STREAM_BYTES - length (ga_stderr g)")
        (auto simp: append_bounded_def within_bounds_def gathers_def intro!: exI [of _ "g\<lparr>ga_stderr := ga_stderr g @ data\<rparr>"])
  next
    case (MsgExitStatus status)
    with assms show ?thesis
      by (auto simp: within_bounds_def gathers_def intro!: exI [of _ "g\<lparr>ga_exit_status := Some status\<rparr>"])
  next
    case MsgEof
    with assms show ?thesis
      by (auto simp: within_bounds_def gathers_def intro!: exI [of _ "g\<lparr>ga_end_of_file := True\<rparr>"])
  qed (use assms in \<open>auto simp: within_bounds_def gathers_def intro!: exI [of _ g]\<close>)
  with that show ?thesis using finish_turn_cases by (metis insert_iff empty_iff)
qed

definition tells :: "Gathered \<Rightarrow> ChannelMsg list \<Rightarrow> ChannelReport \<Rightarrow> bool" where
  "tells g ms report =
     (list_all known_stream ms
      \<and> cr_stdout report = ga_stdout g @ stdout_bytes ms
      \<and> cr_stderr report = ga_stderr g @ stderr_bytes ms
      \<and> Some (cr_exit_status report) = (if exit_statuses ms = [] then ga_exit_status g else Some (last (exit_statuses ms)))
      \<and> (ga_end_of_file g \<or> MsgEof \<in> set ms)
      \<and> length (cr_stdout report) \<le> MAX_PROBE_STREAM_BYTES
      \<and> length (cr_stderr report) \<le> MAX_PROBE_STREAM_BYTES)"

lemma report_of_tells:
  "within_bounds g \<Longrightarrow> report_of g = Inr report \<Longrightarrow> tells g [] report"
  by (auto simp: report_of_def tells_def within_bounds_def split: option.splits bool.splits)

lemma tells_Cons:
  assumes "gathers g message g'" and "tells g' ms report"
  shows "tells g (message # ms) report"
proof -
  have split: "stdout_bytes (message # ms) = stdout_bytes [message] @ stdout_bytes ms"
      "stderr_bytes (message # ms) = stderr_bytes [message] @ stderr_bytes ms"
      "exit_statuses (message # ms) = exit_statuses [message] @ exit_statuses ms"
    by (cases message; simp)+
  have "length (exit_statuses [message]) \<le> 1" by (cases message) simp_all
  with assms split show ?thesis
    by (cases "exit_statuses [message]") (auto simp: gathers_def tells_def)
qed

lemma collect_turns_tells:
  "within_bounds g \<Longrightarrow>
     collect_turns g turns \<noteq> Panics
     \<and> (\<forall>report. collect_turns g turns = IsDone (Inr report) \<longrightarrow>
          (\<exists>n. tells g (take n (messages turns)) report))"
proof (induction g turns rule: collect_turns.induct)
  case (2 g verdict wait turns)
  show ?case
  proof (cases "check_guard verdict")
    case (Inl refusal)
    then show ?thesis by simp
  next
    case (Inr unit)
    note go = Inr
    show ?thesis
    proof (cases wait)
      case WaitIdle
      with 2 go show ?thesis by simp
    next
      case WaitNothing
      then show ?thesis
        using go report_of_tells [OF 2(3)] by (auto intro: exI [of _ 0])
    next
      case (WaitMessage message)
      from 2(3) show ?thesis
      proof (cases rule: take_message_gathers [of _ message])
        case (1 refusal)
        with go WaitMessage show ?thesis by simp
      next
        case (2 g')
        have bounded: "within_bounds g'" using 2(2) by (simp add: gathers_def)
        have "\<exists>n. tells g (take n (message # messages turns)) report" if "report_of g' = Inr report" for report
          using tells_Cons [OF 2(2) report_of_tells [OF bounded that]] by (intro exI [of _ 1]) simp
        with go WaitMessage 2(1) show ?thesis by simp
      next
        case (3 g')
        have bounded: "within_bounds g'" using 3(2) by (simp add: gathers_def)
        have IH: "collect_turns g' turns \<noteq> Panics \<and>
            (\<forall>report. collect_turns g' turns = IsDone (Inr report) \<longrightarrow> (\<exists>n. tells g' (take n (messages turns)) report))"
          using "2.IH"(2) [OF go WaitMessage 3(1) refl bounded] by blast
        have "\<exists>n. tells g (take n (message # messages turns)) report" if tail: "tells g' (take n (messages turns)) report" for n report
          using tells_Cons [OF 3(2) tail] by (intro exI [of _ "Suc n"]) simp
        with IH go WaitMessage 3(1) show ?thesis by auto
      qed
    qed
  qed
qed simp

section \<open>What a channel puts on the wire\<close>

definition input_acts :: "ChannelInput option \<Rightarrow> WireAct list" where
  "input_acts standard_input =
     (case standard_input of
        None \<Rightarrow> []
      | Some input \<Rightarrow>
          WireData (fst (wire_segments input))
            # (case snd (wire_segments input) of None \<Rightarrow> [] | Some terminator \<Rightarrow> [WireData terminator]) @ [WireEof])"

definition channel_script :: "FixedCommand \<Rightarrow> ChannelInput option \<Rightarrow> WireAct list" where
  "channel_script command standard_input =
     WireOpen # WireExec (command_text command) # input_acts standard_input"

text \<open>What came of a driven channel that was to put \<open>script\<close> on the wire, then gather.\<close>

definition driven_by :: "Driven \<Rightarrow> WireAct list \<Rightarrow> Driven \<times> WireAct list \<Rightarrow> bool" where
  "driven_by gathered script driven =
     (prefix (snd driven) script
      \<and> (snd driven \<noteq> script \<or> fst driven \<noteq> gathered \<longrightarrow> fst driven = IsCut \<or> fst driven = IsDone (Inl ChannelRefused)))"

lemma driven_by_nothing: "driven_by gathered [] (gathered, [])"
  by (simp add: driven_by_def)

lemma driven_by_wire:
  "driven_by gathered script rest \<Longrightarrow> driven_by gathered (act # script) (wire act reply rest)"
  by (cases rest; cases reply) (auto simp: driven_by_def wire_def)

lemma collect_channel_driven:
  "driven_by (collect_turns gathered_nothing (cw_turns world))
     (WireExec (command_text command) # input_acts standard_input) (collect_channel world command standard_input)"
  by (auto simp: collect_channel_def Let_def input_acts_def split: option.split prod.split
      intro!: driven_by_wire driven_by_nothing)

lemma gathered_turns:
  "collect_turns gathered_nothing turns \<noteq> Panics
   \<and> (\<forall>report. collect_turns gathered_nothing turns = IsDone (Inr report) \<longrightarrow>
        (\<exists>n. tells gathered_nothing (take n (messages turns)) report))"
  by (rule collect_turns_tells) (simp add: gathered_nothing_def within_bounds_def)

lemma exec_channel_driven:
  assumes "exec_channel world command standard_input = (driven, sent)"
  obtains did where "prefix did (channel_script command standard_input)"
    and "sent = did \<or> sent = did @ [WireEof, WireClose]"
    and "driven = IsCut \<or> driven = IsDone (Inl ChannelRefused)
      \<or> (driven = collect_turns gathered_nothing (cw_turns world)
          \<and> sent = channel_script command standard_input @ [WireEof, WireClose])"
proof -
  obtain result acts where collected: "collect_channel world command standard_input = (result, acts)"
    by (cases "collect_channel world command standard_input")
  have by_script: "driven_by (collect_turns gathered_nothing (cw_turns world))
      (WireExec (command_text command) # input_acts standard_input) (result, acts)"
    using collect_channel_driven [of world command standard_input] collected by simp
  have calm: "collect_turns gathered_nothing (cw_turns world) \<noteq> Panics" using gathered_turns by blast
  show ?thesis
  proof (cases "cw_opens world")
    case Accepts
    with assms collected by_script calm show ?thesis
      by (intro that [of "WireOpen # acts"])
        (cases result; auto simp: exec_channel_def wire_def driven_by_def channel_script_def split: if_splits)+
  qed (use assms in \<open>auto simp: exec_channel_def wire_def channel_script_def intro!: that [of "[WireOpen]"]\<close>)
qed

text \<open>A report that says what these messages delivered, and no more.\<close>

definition delivered :: "ChannelMsg list \<Rightarrow> ChannelReport \<Rightarrow> bool" where
  "delivered ms report =
     (list_all known_stream ms
      \<and> cr_stdout report = stdout_bytes ms \<and> length (cr_stdout report) \<le> MAX_PROBE_STREAM_BYTES
      \<and> cr_stderr report = stderr_bytes ms \<and> length (cr_stderr report) \<le> MAX_PROBE_STREAM_BYTES
      \<and> exit_statuses ms \<noteq> [] \<and> cr_exit_status report = last (exit_statuses ms)
      \<and> MsgEof \<in> set ms)"

lemma tells_nothing: "tells gathered_nothing ms report = delivered ms report"
  by (auto simp: tells_def delivered_def gathered_nothing_def)

text \<open>C12: A channel runs one fixed command and reports exactly what it delivered. Whatever the
library and the far side do, running a channel does not panic; what goes on the wire is a
prefix of one script, the literal text of the command followed by the bytes to carry, with no
pseudo terminal and no interactive shell in it; and a report is given only when that whole
script went through and the channel delivered an exit status and the end of its output, its
two streams being the concatenation of what was delivered on each, at most 4096 bytes a
stream, its status the last one announced, with nothing on any other stream.\<close>

theorem channel_reports_what_came:
  assumes "run_channel world command standard_input live = (outcome, sent, spent)"
  shows "outcome \<noteq> None
    \<and> (\<exists>did. prefix did (channel_script command standard_input)
          \<and> (sent = did \<or> sent = did @ [WireEof, WireClose]))
    \<and> (\<forall>report. outcome = Some (Inr report) \<longrightarrow>
         sent = channel_script command standard_input @ [WireEof, WireClose]
         \<and> (\<exists>n. delivered (take n (messages (cw_turns world))) report))"
proof (cases "lv_channels_spent live \<ge> lv_channel_budget live \<or> cw_remaining world = 0")
  case True
  with assms show ?thesis by (auto simp: run_channel_def Let_def split: if_splits)
next
  case False
  obtain driven acts where exec: "exec_channel world command standard_input = (driven, acts)"
    by (cases "exec_channel world command standard_input")
  from exec_channel_driven [OF exec] obtain did where did: "prefix did (channel_script command standard_input)"
      "acts = did \<or> acts = did @ [WireEof, WireClose]"
      "driven = IsCut \<or> driven = IsDone (Inl ChannelRefused)
       \<or> (driven = collect_turns gathered_nothing (cw_turns world)
           \<and> acts = channel_script command standard_input @ [WireEof, WireClose])" .
  have came: "sent = acts" "outcome = (case driven of Panics \<Rightarrow> None | IsCut \<Rightarrow> Some (Inl TransportExpired) | IsDone r \<Rightarrow> Some r)"
    using assms False exec by (auto simp: run_channel_def Let_def split: Driven.splits)
  have calm: "collect_turns gathered_nothing (cw_turns world) \<noteq> Panics" using gathered_turns by blast
  have told: "\<exists>n. tells gathered_nothing (take n (messages (cw_turns world))) report"
    if "collect_turns gathered_nothing (cw_turns world) = IsDone (Inr report)" for report
    using gathered_turns that by blast
  have "sent = channel_script command standard_input @ [WireEof, WireClose]
      \<and> (\<exists>n. tells gathered_nothing (take n (messages (cw_turns world))) report)"
    if "outcome = Some (Inr report)" for report
    using that came did(3) told by (auto split: Driven.splits)
  moreover have "outcome \<noteq> None" using came(2) did(3) calm by (cases driven) auto
  ultimately show ?thesis
    using did(1,2) came(1) by (auto simp: tells_nothing)
qed

theorem channel_reports_what_came_witness:
  "\<exists>sent spent. run_channel silent_world DROP_CREDENTIAL None fresh_session
      = (Some (Inr \<lparr>cr_exit_status = 0, cr_stdout = [48, 10], cr_stderr = []\<rparr>), sent, spent)
    \<and> sent = channel_script DROP_CREDENTIAL None @ [WireEof, WireClose]"
proof -
  obtain sent spent where run: "run_channel silent_world DROP_CREDENTIAL None fresh_session
      = (Some (Inr \<lparr>cr_exit_status = 0, cr_stdout = [48, 10], cr_stderr = []\<rparr>), sent, spent)"
    by (simp add: run_channel_def silent_world_def fresh_session_def exec_channel_def collect_channel_def wire_def
        gathered_nothing_def append_bounded_def finish_turn_def report_of_def limits)
  from channel_reports_what_came [OF run] run show ?thesis by blast
qed

section \<open>A sequence over a session\<close>

lemma commands_of_asked [simp]: "commands_of (asked questions) = questions"
  by (induction questions) auto

lemma commands_of_append [simp]: "commands_of (events @ events') = commands_of events @ commands_of events'"
proof (induction events)
  case (Cons event events)
  then show ?case by (cases event) simp_all
qed simp

lemma session_after_asked:
  "lv_channels_spent live + length questions \<le> lv_channel_budget live \<Longrightarrow>
     session_after far asked_before (asked questions) live
       = live\<lparr>lv_channels_spent := lv_channels_spent live + length questions\<rparr>"
proof (induction questions arbitrary: asked_before live)
  case (Cons question questions)
  then show ?case by (cases question) (simp add: run_channel_session)
qed simp

text \<open>The trace of a run over any machine, its one budget and its questions.\<close>

lemma sequence_trace:
  assumes "sequence_run job = (outcome, trace, secret)"
  obtains did rest where "schedule job = did @ rest"
    and "trace = AdoptBudget (channel_budget (jb_actions job)) # asked (did @ [(DROP_CREDENTIAL, None)])"
    and "\<not> adopts (jb_machine job) [AdoptBudget (channel_budget (jb_actions job))] \<Longrightarrow> did = []"
    and "so_stopped outcome = Some BudgetRefused \<Longrightarrow> fst (drive job started) = Inl BudgetRefused"
proof -
  obtain did rest where run: "schedule job = did @ rest"
      "pg_trace (snd (drive job started)) = AdoptBudget (channel_budget (jb_actions job)) # asked did"
      "\<not> adopts (jb_machine job) [AdoptBudget (channel_budget (jb_actions job))] \<longrightarrow> did = []"
    using drive_trace by metis
  have trace: "trace = AdoptBudget (channel_budget (jb_actions job)) # asked (did @ [(DROP_CREDENTIAL, None)])"
    using sequence_run_drive(1) [OF assms] run(2) by simp
  have stopped: "fst (drive job started) = Inl BudgetRefused" if "so_stopped outcome = Some BudgetRefused"
    using sequence_run_drive(3) [OF assms] that by (simp split: sum.splits)
  show ?thesis by (rule that [OF run(1) trace]) (use run(3) stopped in blast)+
qed

text \<open>A refused budget is the refusal of the machine, never of a step.\<close>

definition spares_the_budget :: "'a run \<Rightarrow> bool" where
  "spares_the_budget m \<longleftrightarrow> (\<forall>p. fst (m p) \<noteq> Inl BudgetRefused)"

lemma spares_after:
  "spares_the_budget m \<Longrightarrow> (\<And>x. spares_the_budget (f x)) \<Longrightarrow> spares_the_budget (after m f)"
  unfolding spares_the_budget_def after_def by (auto split: prod.split sum.split) (metis fst_conv)

lemma spares [simp]:
  "spares_the_budget (pure x)" "spares_the_budget (alter f)" "spares_the_budget (look g)"
  "spares_the_budget (stop e) \<longleftrightarrow> e \<noteq> BudgetRefused" "spares_the_budget (ask job step command input)"
  "spares_the_budget (await step)" "spares_the_budget (inscribe kind name provenance)"
  by (auto simp: spares_the_budget_def pure_def alter_def look_def stop_def ask_def Let_def await_def inscribe_def ok_or_def
      split: option.split)

lemma spares_run_acts: "spares_the_budget (run_acts job step before acts)"
  by (induction acts arbitrary: before) (auto intro!: spares_after)

lemma spares_constate: "spares_the_budget (constate job step)"
  unfolding constate_def by (auto intro!: spares_after split: option.split sum.split)

lemma spares_establish: "spares_the_budget (establish job step acted)"
  unfolding establish_def by (auto intro!: spares_after spares_constate split: option.split bool.split)

lemma spares_deposit: "spares_the_budget (deposit job step)"
proof -
  have measured: "spares_the_budget (deposit_and_measure job step written content stat digest)"
    for step written content stat digest
    unfolding deposit_and_measure_def by (auto intro!: spares_after)
  have recorded: "spares_the_budget (record_deposit step name verdict)" for step name verdict
    unfolding record_deposit_def by (auto intro!: spares_after split: sum.split)
  show ?thesis
    by (cases "(job, step)" rule: deposit.cases)
      (auto intro!: spares_after measured recorded split: option.split sum.split)
qed

lemma spares_drive_steps: "spares_the_budget (drive_steps job steps)"
proof -
  have "spares_the_budget (drive_step job step)" for step
    unfolding drive_step_def Let_def
    by (intro spares_after spares_deposit spares_run_acts)
      (auto intro!: spares_after spares_establish split: Step.split sum.split)
  then show ?thesis by (induction steps) (auto intro!: spares_after)
qed

lemma budget_refused_by_machine:
  assumes "fst (drive job started) = Inl BudgetRefused"
  shows "\<not> adopts (jb_machine job) [AdoptBudget (channel_budget (jb_actions job))]"
  using assms spares_drive_steps [of job, unfolded spares_the_budget_def]
  by (auto simp: drive_def after_def adopt_budget_def started_def Let_def)

text \<open>The sequence and the session agree on the channels. A session that holds the budget
the actions call for and has spent at most the seven channels of the access and of the
observation never refuses the sequence anything: the budget it adopts is the one the session
holds, each of its questions, the last drop of the credential included, opens a channel of
its own, and the session ends within its budget.\<close>

theorem sequence_is_never_refused_a_channel:
  assumes machine: "jb_machine job = session_channel far asked_before live"
    and budget: "channel_budget (jb_actions job) \<noteq> 0" "lv_channel_budget live = channel_budget (jb_actions job)"
    and spent: "lv_channels_spent live \<le> 7"
    and run: "sequence_run job = (outcome, trace, secret)"
  shows "so_stopped outcome \<noteq> Some BudgetRefused
    \<and> lv_channels_spent (session_after far asked_before trace live) = lv_channels_spent live + length (commands_of trace)
    \<and> lv_channels_spent (session_after far asked_before trace live) \<le> lv_channel_budget live"
proof -
  have adopted: "adopt_derived_budget (channel_budget (jb_actions job)) live = (Inr (), live)"
    using budget by (simp add: adopt_derived_budget_def may_adopt_budget_def)
  have adopts: "adopts (jb_machine job) [AdoptBudget (channel_budget (jb_actions job))]"
    by (simp add: machine session_channel_def session_adopts_def adopted)
  obtain did rest where did: "schedule job = did @ rest"
      "trace = AdoptBudget (channel_budget (jb_actions job)) # asked (did @ [(DROP_CREDENTIAL, None)])"
      "so_stopped outcome = Some BudgetRefused \<Longrightarrow> fst (drive job started) = Inl BudgetRefused"
    using sequence_trace [OF run] by metis
  have not_refused: "so_stopped outcome \<noteq> Some BudgetRefused"
    using did(3) budget_refused_by_machine adopts by blast
  let ?opened = "sum_list (map channels_for (authorized_steps_for (jb_actions job)))"
  have "length did \<le> ?opened" using did(1) length_schedule [of job] by simp
  moreover have "lv_channel_budget live = ?opened + 8"
    using budget by (simp add: channel_budget_def limits split: if_splits)
  ultimately have room: "lv_channels_spent live + length (did @ [(DROP_CREDENTIAL, None)]) \<le> lv_channel_budget live"
    using spent by simp
  have "session_after far asked_before trace live
      = live\<lparr>lv_channels_spent := lv_channels_spent live + length (did @ [(DROP_CREDENTIAL, None)])\<rparr>"
    unfolding did(2) session_after.simps session_event.simps adopted snd_conv
    by (rule session_after_asked [OF room])
  moreover have "commands_of trace = did @ [(DROP_CREDENTIAL, None)]" unfolding did(2) by (simp del: map_append)
  ultimately show ?thesis using not_refused room by simp
qed

definition session_sample_live :: LiveSession where
  "session_sample_live = fresh_session\<lparr>lv_channels_spent := 7, lv_channel_budget := channel_budget (jb_actions sample_job)\<rparr>"

definition session_sample_job :: Job where
  "session_sample_job = sample_job\<lparr>jb_machine := session_channel (\<lambda>_. silent_world) [] session_sample_live\<rparr>"

theorem sequence_is_never_refused_a_channel_witness:
  "\<exists>outcome trace secret. sequence_run session_sample_job = (outcome, trace, secret)
     \<and> so_stopped outcome \<noteq> Some BudgetRefused"
proof -
  obtain outcome trace secret where r: "sequence_run session_sample_job = (outcome, trace, secret)"
    by (cases "sequence_run session_sample_job")
  have "channel_budget (jb_actions session_sample_job) = 10"
    by (simp add: session_sample_job_def sample_job_def channel_budget_def limits)
  then show ?thesis
    using sequence_is_never_refused_a_channel [OF _ _ _ _ r, of "\<lambda>_. silent_world" "[]" session_sample_live] r
    by (auto simp: session_sample_job_def session_sample_live_def)
qed

section \<open>What a session rests on\<close>

fun first_negotiated :: "Callback list \<Rightarrow> string option" where
  "first_negotiated [] = None"
| "first_negotiated (KexDone name # _) = Some name"
| "first_negotiated (ServerKey _ # callbacks) = first_negotiated callbacks"

lemma negotiated_after:
  "hv_negotiated (fold (call_back approved) callbacks verdict) =
     (case hv_negotiated verdict of Some name \<Rightarrow> Some name | None \<Rightarrow> first_negotiated callbacks)"
proof (induction callbacks arbitrary: verdict)
  case (Cons callback callbacks)
  then show ?case
    by (cases callback) (auto simp: kex_done_def check_server_key_def Let_def split: option.split)
qed (simp split: option.split)

lemma attestation_kept:
  "\<forall>key. ServerKey key \<notin> set callbacks \<Longrightarrow>
     hv_attestation (fold (call_back approved) callbacks verdict) = hv_attestation verdict"
proof (induction callbacks arbitrary: verdict)
  case (Cons callback callbacks)
  then show ?case by (cases callback) (auto simp: kex_done_def)
qed simp

text \<open>An attestation is that of the last key presented, under the first algorithm negotiated before it.\<close>

lemma attested_by_last_key:
  assumes "attested_host_key_type (fold (call_back approved) callbacks verdict_default) = Inr key_type"
  obtains before presented rest name where "callbacks = before @ ServerKey presented # rest"
    and "\<forall>key. ServerKey key \<notin> set rest" and "first_negotiated before = Some name"
    and "attest_presented approved presented name = Inr key_type"
proof -
  have attestation: "hv_attestation (fold (call_back approved) callbacks verdict_default) = Some (Inr key_type)"
    using assms by (simp add: attested_host_key_type_def split: option.splits sum.splits)
  then have "\<exists>callback \<in> set callbacks. \<exists>key. callback = ServerKey key"
    using attestation_kept [of callbacks approved verdict_default] by (auto simp: verdict_default_def)
  then obtain before callback rest where split: "callbacks = before @ callback # rest" "\<exists>key. callback = ServerKey key"
      "\<forall>c \<in> set rest. \<not> (\<exists>key. c = ServerKey key)"
    using split_list_last_prop [of callbacks "\<lambda>c. \<exists>key. c = ServerKey key"] by blast
  then obtain presented where presented: "callbacks = before @ ServerKey presented # rest" by blast
  have others: "\<forall>key. ServerKey key \<notin> set rest" using split(3) by blast
  have verdict: "(case first_negotiated before of Some name \<Rightarrow> attest_presented approved presented name
      | None \<Rightarrow> Inl AlgorithmRefused) = Inr key_type"
    using attestation negotiated_after [of approved before verdict_default]
    by (simp add: presented attestation_kept [OF others] check_server_key_def Let_def verdict_default_def
        split: option.splits)
  then obtain name where name: "first_negotiated before = Some name" by (cases "first_negotiated before") auto
  show ?thesis by (rule that [OF presented others name]) (use verdict name in simp)
qed

lemma connected_to_frozen:
  "connect_to_frozen_address target network addresses = Inr peer \<Longrightarrow>
     allows target peer \<and> (\<exists>address \<in> set addresses. snd (network address) = SocketTo (Some peer))"
  by (induction addresses)
    (auto simp: and_then_Inr_iff split: Connected.splits option.splits if_splits)

lemma sign_all_Inr:
  "sign_all requests budget = (Inr (), spent) \<Longrightarrow>
     list_all (\<lambda>(offered, hash_alg, _). may_sign (sb_selected_fingerprint budget) (offered, hash_alg)) requests
     \<and> sb_remaining budget = length requests + sb_remaining spent"
proof (induction requests arbitrary: budget)
  case (Cons request requests)
  obtain offered hash_alg answered where request: "request = (offered, hash_alg, answered)" by (cases request)
  show ?case
  proof (cases "may_sign (sb_selected_fingerprint budget) (offered, hash_alg) \<and> 0 < sb_remaining budget")
    case True
    then have "authorise offered hash_alg budget = (Inr (), budget\<lparr>sb_remaining := sb_remaining budget - 1\<rparr>)"
      by (simp add: authorise_def may_sign_def)
    with Cons.prems True Cons.IH [of "budget\<lparr>sb_remaining := sb_remaining budget - 1\<rparr>"] show ?thesis
      by (auto simp: request auth_sign_def split: sum.splits)
  next
    case False
    from authorise_refused [OF this] Cons.prems show ?thesis by (auto simp: request auth_sign_def)
  qed
qed simp

text \<open>C9: A session exists only behind the host the App approved. An established session means
that the last host key the server presented was attested against the approved fingerprint
under the first host key algorithm the exchange negotiated, its type being the one the session
states; that the socket's peer was one of the frozen addresses; that every signature asked for
was for the selected identity, at most one of them, and counted; and that no channel had been
opened.\<close>

theorem established_session_is_attested:
  assumes "establish_with world target approved (for_selected_identity identity) = (Inr live, budget)"
  shows "(\<exists>before presented rest name. ow_callbacks world = before @ ServerKey presented # rest
          \<and> (\<forall>key. ServerKey key \<notin> set rest) \<and> first_negotiated before = Some name
          \<and> attest_presented approved presented name = Inr (lv_host_key_type live)
          \<and> pk_fingerprint presented = approved)
    \<and> (\<exists>address \<in> set (ft_addresses target). \<exists>peer. snd (ow_network world address) = SocketTo (Some peer)
          \<and> allows target peer)
    \<and> list_all (\<lambda>(offered, hash_alg, _). may_sign identity (offered, hash_alg)) (ow_sign_requests world)
    \<and> lv_signatures_spent live = length (ow_sign_requests world) \<and> lv_signatures_spent live \<le> 1
    \<and> lv_channels_spent live = 0 \<and> lv_channel_budget live = MAX_EXEC_CHANNELS"
proof -
  obtain key_type where opened: "open_session world target approved (for_selected_identity identity) = (Inr key_type, budget)"
      and live: "live = \<lparr>lv_host_key_type = key_type, lv_signatures_spent = MAX_AUTHENTICATION_SIGNATURES - sb_remaining budget,
        lv_channels_spent = 0, lv_channel_budget = MAX_EXEC_CHANNELS\<rparr>"
    using assms by (auto simp: establish_with_def and_then_Inr_iff split: if_splits prod.splits)
  obtain peer where peer: "connect_to_frozen_address target (ow_network world) (ft_addresses target) = Inr peer"
      and authenticated: "authenticate world (fold (call_back approved) (ow_callbacks world) verdict_default)
        (for_selected_identity identity) = (Inr key_type, budget)"
    using opened by (auto simp: open_session_def and_then_Inr_iff Let_def split: sum.splits if_splits)
  have attested: "attested_host_key_type (fold (call_back approved) (ow_callbacks world) verdict_default) = Inr key_type"
      and signed_all: "sign_all (ow_sign_requests world) (for_selected_identity identity) = (Inr (), budget)"
    using authenticated by (auto simp: authenticate_def and_then_Inr_iff split: sum.splits prod.splits if_splits)
  obtain before presented rest name where key: "ow_callbacks world = before @ ServerKey presented # rest"
      "\<forall>key. ServerKey key \<notin> set rest" "first_negotiated before = Some name"
      "attest_presented approved presented name = Inr key_type"
    by (rule attested_by_last_key [OF attested])
  have "pk_fingerprint presented = approved" using key(4) by (simp add: attest_presented_Inr)
  with key have "\<exists>before presented rest name. ow_callbacks world = before @ ServerKey presented # rest
      \<and> (\<forall>key. ServerKey key \<notin> set rest) \<and> first_negotiated before = Some name
      \<and> attest_presented approved presented name = Inr (lv_host_key_type live)
      \<and> pk_fingerprint presented = approved"
    unfolding live by (auto simp only: LiveSession.simps)
  then show ?thesis
    using connected_to_frozen [OF peer] sign_all_Inr [OF signed_all]
    by (auto simp: live for_selected_identity_def limits)
qed

definition open_sample_print :: string where
  "open_sample_print = ''SHA256:'' @ replicate 43 CHR ''q''"

definition open_sample :: OpenWorld where
  "open_sample = \<lparr>ow_remaining = 1, ow_cut = False, ow_first_guard = GuardContinue,
     ow_network = (\<lambda>address. (GuardContinue,
       if address = V4 (Ipv4 203 0 113 7) then NoSocket else SocketTo (Some address))),
     ow_callbacks = [KexDone ''ssh-ed25519'',
       ServerKey \<lparr>pk_algorithm = ''ssh-ed25519'', pk_fingerprint = open_sample_print\<rparr>],
     ow_connected = True, ow_second_guard = GuardContinue, ow_key_algorithm = AlgorithmEd25519,
     ow_sign_requests = [(\<lparr>oi_algorithm = AlgorithmEd25519, oi_fingerprint = ''mine'', oi_is_certificate = False\<rparr>,
       None, Inr [1, 2, 3])],
     ow_accepted = True, ow_last_guard = GuardContinue\<rparr>"

lemma open_sample_print_facts: "\<not> blank open_sample_print" "length open_sample_print = 50"
proof -
  have "is_ascii open_sample_print" by (simp add: open_sample_print_def is_ascii_def code_def list_all_iff)
  then show "\<not> blank open_sample_print"
    by (simp add: blank_def chars_ascii) (simp add: open_sample_print_def is_whitespace_def code_def)
qed (simp add: open_sample_print_def)

theorem established_session_is_attested_witness:
  "\<exists>live budget. establish_with open_sample sample_frozen open_sample_print (for_selected_identity ''mine'') = (Inr live, budget)
     \<and> lv_signatures_spent live = 1 \<and> lv_host_key_type live = HostKeyEd25519"
proof -
  obtain live budget where established:
      "establish_with open_sample sample_frozen open_sample_print (for_selected_identity ''mine'') = (Inr live, budget)"
      "lv_host_key_type live = HostKeyEd25519"
    by (simp add: establish_with_def open_session_def open_sample_def sample_frozen_def allows_def authenticate_def
        kex_done_def verdict_default_def check_server_key_def attested_host_key_type_def Let_def auth_sign_def
        authorise_def for_selected_identity_def attest_presented_def open_sample_print_facts from_key_type_name_def
        host_key_algorithm_from_wire_name_def limits)
  with established_session_is_attested [OF established(1)] show ?thesis by (simp add: open_sample_def)
qed

end
