(* ===== verification/Target_Audit.thy ===== *)
theory Target_Audit
  imports Access_Facts Placement
begin

text \<open>
  \<open>personal_access/audit.rs\<close>: the three read-only channels of an audit, the readers of what
  they print and the observation they assemble. The data of an observation is in
  \<open>Placement\<close>, which judges it. \<open>u64\<close> sums wrap, as a release build of the crate does.
\<close>

section \<open>The commands\<close>

definition MAX_FILE_BYTES :: nat where [limits]: "MAX_FILE_BYTES = 320"

definition AUDIT_FILES :: "string list" where
  "AUDIT_FILES = [''/proc/self/status'', ''/etc/hostname'', ''/etc/os-release'', ''/proc/1/comm'',
     ''/sys/fs/cgroup/cgroup.controllers'', ''/proc/meminfo'', ''/sys/devices/system/cpu/online'',
     ''/etc/your-cloud/roles'']"

definition ARCHITECTURE :: FixedCommand where "ARCHITECTURE = FixedCommand ''/usr/bin/uname -m''"

definition FILESYSTEM :: FixedCommand where "FILESYSTEM = FixedCommand ''/usr/bin/df -k -P /var''"

definition FACT_FILES :: FixedCommand where
  "FACT_FILES = FixedCommand (''/usr/bin/head -v -c 320 /proc/self/status /etc/hostname /etc/os-release /proc/1/comm ''
     @ ''/sys/fs/cgroup/cgroup.controllers /proc/meminfo /sys/devices/system/cpu/online ''
     @ ''/etc/your-cloud/roles'')"

definition AUDIT_COMMANDS :: "FixedCommand list" where
  "AUDIT_COMMANDS = [ARCHITECTURE, FILESYSTEM, FACT_FILES]"

definition READ_ONLY_PROGRAMS :: "string list" where
  "READ_ONLY_PROGRAMS = [''/usr/bin/uname'', ''/usr/bin/df'', ''/usr/bin/head'']"

fun parse_role :: "string \<Rightarrow> Role option" where
  "parse_role name = find (\<lambda>role. role_str role = name) [Controller, Relay, Agent, Auxiliary]"

definition MAX_DECLARED_ROLES :: nat where [limits]: "MAX_DECLARED_ROLES = 4"

section \<open>Text\<close>

record ChannelAnswer =
  ca_exit_status :: u32
  ca_stdout :: bytes
  ca_stderr :: bytes

definition ascii_text :: "bytes \<Rightarrow> string option" where
  "ascii_text stream =
     (if \<not> list_all (\<lambda>byte. byte < 0x80) stream then None
      else (case from_utf8 stream of
          None \<Rightarrow> None
        | Some text \<Rightarrow> if list_all (\<lambda>c. c = 10 \<or> c = 9 \<or> \<not> is_control c) (chars text) then Some text else None))"

definition printable_text :: "string \<Rightarrow> bool" where
  "printable_text s = list_all (\<lambda>c. \<not> is_control c) (chars s)"

definition audit_decimal :: "string \<Rightarrow> u64 option" where
  "audit_decimal s = (if s = [] \<or> length s > 20 \<or> \<not> list_all is_ascii_digit s then None else parse_u64 s)"

definition printable_token :: "string \<Rightarrow> string option" where
  "printable_token body =
     (case filter (\<lambda>line. trim_str line \<noteq> []) (lines body) of
        [] \<Rightarrow> None
      | line # others \<Rightarrow>
          let only = trim_str line
          in if others \<noteq> [] \<or> only = [] \<or> length only > MAX_FILE_BYTES then None
             else if printable_text only then Some only else None)"

definition single_token :: "ChannelAnswer \<Rightarrow> string option" where
  "single_token answer =
     (if ca_exit_status answer \<noteq> 0 then None
      else (case ascii_text (ca_stdout answer) of None \<Rightarrow> None | Some text \<Rightarrow> printable_token text))"

definition unanswered_or :: "ChannelAnswer \<Rightarrow> Unverified \<Rightarrow> Unverified" where
  "unanswered_or answer produced = (if ca_exit_status answer = 0 then produced else NotAnswered)"

definition unquoted :: "string \<Rightarrow> string" where
  "unquoted v =
     (case strip_prefix [CHR 0x22] v of
        None \<Rightarrow> v
      | Some inner \<Rightarrow> (case strip_suffix_char (CHR 0x22) inner of None \<Rightarrow> v | Some inner \<Rightarrow> inner))"

fun os_release_lines :: "string \<Rightarrow> string list \<Rightarrow> string option" where
  "os_release_lines key [] = None"
| "os_release_lines key (line # rest) =
     (case strip_prefix key (trim_str line) of
        None \<Rightarrow> os_release_lines key rest
      | Some after_key \<Rightarrow>
          (case strip_prefix ''='' after_key of
             None \<Rightarrow> os_release_lines key rest
           | Some v \<Rightarrow>
               let v = unquoted (trim_str v)
               in if length v > MAX_FILE_BYTES \<or> \<not> printable_text v then None else Some v))"

definition os_release_value :: "string \<Rightarrow> string \<Rightarrow> string option" where
  "os_release_value body key = os_release_lines key (lines body)"

section \<open>The first two channels\<close>

definition read_architecture :: "ChannelAnswer \<Rightarrow> Architecture Observed" where
  "read_architecture answer =
     (case single_token answer of
        None \<Rightarrow> NotKnown (unanswered_or answer NotProduced)
      | Some text \<Rightarrow> Known (if text = ''x86_64'' \<or> text = ''amd64'' then Amd64 else OtherArchitecture text))"

definition read_free_disk :: "ChannelAnswer \<Rightarrow> u64 Observed" where
  "read_free_disk answer =
     (case ascii_text (ca_stdout answer) of
        None \<Rightarrow> NotKnown (unanswered_or answer Unreadable)
      | Some text \<Rightarrow>
          if ca_exit_status answer \<noteq> 0 then NotKnown NotAnswered
          else if length (lines text) < 2 then NotKnown NotProduced
          else let fields = split_whitespace (lines text ! 1)
               in if length fields \<noteq> 6 then NotKnown Unreadable
                  else (case audit_decimal (fields ! 3) of Some free \<Rightarrow> Known free | None \<Rightarrow> NotKnown Unreadable))"

section \<open>The file channel\<close>

record FileBundle =
  fb_answered :: bool
  fb_files :: "(string \<times> string) list"

definition no_files :: FileBundle where
  "no_files = \<lparr>fb_answered = False, fb_files = []\<rparr>"

definition bundle_get :: "FileBundle \<Rightarrow> string \<Rightarrow> string option" where
  "bundle_get files path = map_option snd (find (\<lambda>entry. fst entry = path) (fb_files files))"

definition missing :: "FileBundle \<Rightarrow> Unverified" where
  "missing files = (if fb_answered files then NotProduced else NotAnswered)"

definition strip_suffix_str :: "string \<Rightarrow> string \<Rightarrow> string option" where
  "strip_suffix_str p s = (if suffix p s then Some (take (length s - length p) s) else None)"

definition header_path :: "string \<Rightarrow> string option" where
  "header_path line =
     (case strip_prefix ''==> '' line of
        None \<Rightarrow> None
      | Some inner \<Rightarrow>
          (case strip_suffix_str '' <=='' inner of
             None \<Rightarrow> None
           | Some inner \<Rightarrow> if inner = [] then None else Some inner))"

text \<open>The bodies kept so far, the paths that came back twice, and the file being read.\<close>

record FileWalk =
  fw_files :: "(string \<times> string) list"
  fw_duplicated :: "string list"
  fw_current :: "(string \<times> string) option"

definition push_once :: "string \<times> string \<Rightarrow> FileWalk \<Rightarrow> FileWalk" where
  "push_once entry walk =
     (if fst entry \<in> set (fw_duplicated walk) then walk
      else if list_ex (\<lambda>kept. fst kept = fst entry) (fw_files walk)
      then walk\<lparr>fw_files := filter (\<lambda>kept. fst kept \<noteq> fst entry) (fw_files walk),
             fw_duplicated := fw_duplicated walk @ [fst entry]\<rparr>
      else walk\<lparr>fw_files := fw_files walk @ [entry]\<rparr>)"

definition push_current :: "FileWalk \<Rightarrow> FileWalk" where
  "push_current walk =
     (case fw_current walk of None \<Rightarrow> walk | Some entry \<Rightarrow> push_once entry (walk\<lparr>fw_current := None\<rparr>))"

definition read_file_line :: "string \<Rightarrow> FileWalk \<Rightarrow> FileWalk" where
  "read_file_line line walk =
     (case header_path line of
        Some path \<Rightarrow>
          let walk = push_current walk
          in if path \<in> set AUDIT_FILES then walk\<lparr>fw_current := Some (path, [])\<rparr> else walk
      | None \<Rightarrow>
          (case fw_current walk of
             Some (path, body) \<Rightarrow> walk\<lparr>fw_current := Some (path, body @ line @ [newline])\<rparr>
           | None \<Rightarrow> walk))"

definition read_files :: "ChannelAnswer \<Rightarrow> FileBundle" where
  "read_files answer =
     (case ascii_text (ca_stdout answer) of
        None \<Rightarrow> no_files
      | Some text \<Rightarrow>
          let walk = push_current (fold read_file_line (lines text)
                \<lparr>fw_files = [], fw_duplicated = [], fw_current = None\<rparr>)
          in \<lparr>fb_answered = (fw_files walk \<noteq> []), fb_files = fw_files walk\<rparr>)"

section \<open>The facts of the files\<close>

text \<open>\<open>lines().find_map(|line| line.strip_prefix(key))\<close>.\<close>

fun find_after :: "string \<Rightarrow> string list \<Rightarrow> string option" where
  "find_after key [] = None"
| "find_after key (line # rest) =
     (case strip_prefix key line of Some r \<Rightarrow> Some r | None \<Rightarrow> find_after key rest)"

definition read_session_uid :: "FileBundle \<Rightarrow> u32 Observed" where
  "read_session_uid files =
     (case bundle_get files ''/proc/self/status'' of
        None \<Rightarrow> NotKnown (missing files)
      | Some body \<Rightarrow>
          (case find_after ''Uid:'' (lines body) of
             None \<Rightarrow> NotKnown Unreadable
           | Some line \<Rightarrow>
               (case split_whitespace line of
                  [] \<Rightarrow> NotKnown Unreadable
                | first # _ \<Rightarrow>
                    (case audit_decimal first of
                       Some uid \<Rightarrow> if unat uid < 2 ^ 32 then Known (ucast uid) else NotKnown Unreadable
                     | None \<Rightarrow> NotKnown Unreadable))))"

definition read_hostname :: "FileBundle \<Rightarrow> string Observed" where
  "read_hostname files =
     (case bundle_get files ''/etc/hostname'' of
        None \<Rightarrow> NotKnown (missing files)
      | Some body \<Rightarrow> (case printable_token body of Some name \<Rightarrow> Known name | None \<Rightarrow> NotKnown Unreadable))"

definition read_distribution :: "FileBundle \<Rightarrow> Distribution Observed" where
  "read_distribution files =
     (case bundle_get files ''/etc/os-release'' of
        None \<Rightarrow> NotKnown (missing files)
      | Some body \<Rightarrow>
          (case os_release_value body ''ID'' of
             None \<Rightarrow> NotKnown Unreadable
           | Some name \<Rightarrow>
               Known \<lparr>ds_id = name,
                 ds_version_id = (case os_release_value body ''VERSION_ID'' of Some v \<Rightarrow> v | None \<Rightarrow> [])\<rparr>))"

definition read_init :: "FileBundle \<Rightarrow> InitSystem Observed" where
  "read_init files =
     (case bundle_get files ''/proc/1/comm'' of
        None \<Rightarrow> NotKnown (missing files)
      | Some body \<Rightarrow>
          (case printable_token body of
             Some name \<Rightarrow> Known (if name = ''systemd'' then Systemd else OtherInit name)
           | None \<Rightarrow> NotKnown Unreadable))"

definition read_cgroup :: "FileBundle \<Rightarrow> CgroupHierarchy Observed" where
  "read_cgroup files =
     (case bundle_get files ''/sys/fs/cgroup/cgroup.controllers'' of
        Some _ \<Rightarrow> Known CgroupV2
      | None \<Rightarrow> if fb_answered files then Known Legacy else NotKnown NotAnswered)"

definition read_memory :: "FileBundle \<Rightarrow> u64 Observed" where
  "read_memory files =
     (case bundle_get files ''/proc/meminfo'' of
        None \<Rightarrow> NotKnown (missing files)
      | Some body \<Rightarrow>
          (case find_after ''MemTotal:'' (lines body) of
             None \<Rightarrow> NotKnown Unreadable
           | Some line \<Rightarrow>
               (case split_whitespace line of
                  first # unit # _ \<Rightarrow>
                    (case audit_decimal first of
                       Some amount \<Rightarrow> if unit = ''kB'' then Known amount else NotKnown Unreadable
                     | None \<Rightarrow> NotKnown Unreadable)
                | _ \<Rightarrow> NotKnown Unreadable)))"

text \<open>One range, and the sum of the ranges: \<open>total += last - first + 1\<close>.\<close>

definition processor_range :: "string \<Rightarrow> (u64 \<times> u64) option" where
  "processor_range span =
     (let (low, high) = (case split_once (CHR ''-'') span of
            Some (low, high) \<Rightarrow> (audit_decimal low, audit_decimal high)
          | None \<Rightarrow> (audit_decimal span, audit_decimal span))
      in case (low, high) of
           (Some low, Some high) \<Rightarrow> if low \<le> high then Some (low, high) else None
         | _ \<Rightarrow> None)"

fun count_processors :: "u64 \<Rightarrow> string list \<Rightarrow> u64 option" where
  "count_processors amount [] = Some amount"
| "count_processors amount (span # spans) =
     (case processor_range span of
        None \<Rightarrow> None
      | Some (low, high) \<Rightarrow> count_processors (amount + (high - low + 1)) spans)"

definition read_processors :: "FileBundle \<Rightarrow> u32 Observed" where
  "read_processors files =
     (case bundle_get files ''/sys/devices/system/cpu/online'' of
        None \<Rightarrow> NotKnown (missing files)
      | Some body \<Rightarrow>
          (case printable_token body of
             None \<Rightarrow> NotKnown Unreadable
           | Some list \<Rightarrow>
               (case count_processors 0 (split_on (CHR '','') list) of
                  None \<Rightarrow> NotKnown Unreadable
                | Some amount \<Rightarrow>
                    if unat amount < 2 ^ 32 \<and> 0 < amount then Known (ucast amount) else NotKnown Unreadable)))"

fun read_role_lines :: "Role list \<Rightarrow> string list \<Rightarrow> Installation Observed" where
  "read_role_lines roles [] = Known (Declared roles)"
| "read_role_lines roles (line # rest) =
     (let name = trim_str line
      in if name = [] then read_role_lines roles rest
         else (case parse_role name of
             None \<Rightarrow> NotKnown Unreadable
           | Some role \<Rightarrow>
               if role \<in> set roles then NotKnown Unreadable
               else if length (roles @ [role]) > MAX_DECLARED_ROLES then NotKnown Unreadable
               else read_role_lines (roles @ [role]) rest))"

definition read_installation :: "FileBundle \<Rightarrow> Installation Observed" where
  "read_installation files =
     (case bundle_get files ''/etc/your-cloud/roles'' of
        None \<Rightarrow> if fb_answered files then Known NotDeclared else NotKnown NotAnswered
      | Some body \<Rightarrow> read_role_lines [] (lines body))"

definition assemble_machine :: "Architecture Observed \<Rightarrow> u64 Observed \<Rightarrow> FileBundle \<Rightarrow> ObservedMachine" where
  "assemble_machine architecture free_disk_kib files =
     \<lparr>om_uid = read_session_uid files, om_hostname = read_hostname files, om_distribution = read_distribution files,
      om_architecture = architecture, om_init = read_init files, om_cgroup = read_cgroup files,
      om_memory_kib = read_memory files, om_processors = read_processors files,
      om_free_disk_kib = free_disk_kib, om_installation = read_installation files\<rparr>"

section \<open>Observing over a session\<close>

definition answer_of :: "ChannelReport \<Rightarrow> ChannelAnswer" where
  "answer_of report =
     \<lparr>ca_exit_status = cr_exit_status report, ca_stdout = cr_stdout report, ca_stderr = cr_stderr report\<rparr>"

text \<open>One more question of a session, to a far side that knows what it was asked before.\<close>

definition ask_session ::
  "far_side \<Rightarrow> FixedCommand \<Rightarrow> ChannelInput option \<Rightarrow> question list \<times> LiveSession
     \<Rightarrow> ChannelReport option \<times> question list \<times> LiveSession" where
  "ask_session far command standard_input at =
     (case at of (asked_before, live) \<Rightarrow>
        let asked_now = asked_before @ [(command, standard_input)];
            ran = run_channel (far asked_now) command standard_input live
        in (case fst ran of Some (Inr report) \<Rightarrow> Some report | _ \<Rightarrow> None, asked_now, snd (snd ran)))"

definition observe :: "far_side \<Rightarrow> question list \<times> LiveSession \<Rightarrow> ObservedMachine \<times> question list \<times> LiveSession" where
  "observe far session =
     (case ask_session far ARCHITECTURE None session of (architecture, at) \<Rightarrow>
      case ask_session far FILESYSTEM None at of (filesystem, at) \<Rightarrow>
      case ask_session far FACT_FILES None at of (files, at) \<Rightarrow>
        (assemble_machine
           (case architecture of Some report \<Rightarrow> read_architecture (answer_of report) | None \<Rightarrow> NotKnown NotAnswered)
           (case filesystem of Some report \<Rightarrow> read_free_disk (answer_of report) | None \<Rightarrow> NotKnown NotAnswered)
           (case files of Some report \<Rightarrow> read_files (answer_of report) | None \<Rightarrow> no_files), at))"

section \<open>What an audit asks\<close>

lemma ask_session_after:
  "ask_session far command standard_input (asked_before, live) = (answered, after_session) \<Longrightarrow>
     after_session = (asked_before @ [(command, standard_input)],
       session_after far asked_before [Ran command standard_input] live)"
  by (auto simp: ask_session_def Let_def)

lemma observe_session:
  "snd (observe far (asked_before, live)) =
     (asked_before @ [(ARCHITECTURE, None), (FILESYSTEM, None), (FACT_FILES, None)],
      session_after far asked_before [Ran ARCHITECTURE None, Ran FILESYSTEM None, Ran FACT_FILES None] live)"
proof -
  obtain a sa where a: "ask_session far ARCHITECTURE None (asked_before, live) = (a, sa)" by (metis surj_pair)
  note sa = ask_session_after [OF a]
  obtain d sd where d: "ask_session far FILESYSTEM None sa = (d, sd)" by (metis surj_pair)
  note sd = ask_session_after [OF d [unfolded sa]]
  obtain f sf where f: "ask_session far FACT_FILES None sd = (f, sf)" by (metis surj_pair)
  note sf = ask_session_after [OF f [unfolded sd]]
  show ?thesis by (simp add: observe_def a d f) (simp add: sf)
qed

lemma hd_split_on: "hd (split_on c s) = takeWhile (\<lambda>x. x \<noteq> c) s"
  by (induction s) (auto split: list.splits)

text \<open>An audit reads and does nothing else. Whatever the far side answers or refuses, an
observation asks its three fixed commands, in their order, once each and with nothing to read;
each of them runs a program that only reads; and the session it leaves is the one those three
questions leave, at most three channels further.\<close>

theorem audit_asks_readers_only:
  "fst (snd (observe far (asked_before, live))) = asked_before @ map (\<lambda>command. (command, None)) AUDIT_COMMANDS
   \<and> (\<forall>command \<in> set AUDIT_COMMANDS. hd (split_on (CHR '' '') (command_text command)) \<in> set READ_ONLY_PROGRAMS)
   \<and> lv_channels_spent (snd (snd (observe far (asked_before, live)))) \<le> lv_channels_spent live + OBSERVATION_CHANNELS"
proof -
  have "\<forall>command \<in> set AUDIT_COMMANDS. hd (split_on (CHR '' '') (command_text command)) \<in> set READ_ONLY_PROGRAMS"
    by (simp add: hd_split_on AUDIT_COMMANDS_def READ_ONLY_PROGRAMS_def ARCHITECTURE_def FILESYSTEM_def FACT_FILES_def)
  then show ?thesis
    by (simp add: observe_session AUDIT_COMMANDS_def run_channel_session limits)
qed

theorem audit_asks_readers_only_witness:
  "fst (snd (observe (\<lambda>_. silent_world) ([], fresh_session)))
     = [(ARCHITECTURE, None), (FILESYSTEM, None), (FACT_FILES, None)]"
  using audit_asks_readers_only [of "\<lambda>_. silent_world" "[]" fresh_session] by (simp add: AUDIT_COMMANDS_def)

section \<open>What a placement rests on\<close>

lemma read_architecture_Amd64:
  "read_architecture answer = Known Amd64 \<longleftrightarrow>
     single_token answer = Some ''x86_64'' \<or> single_token answer = Some ''amd64''"
  by (auto simp: read_architecture_def split: option.splits if_splits)

lemma single_token_status: "single_token answer = Some token \<Longrightarrow> ca_exit_status answer = 0"
  by (simp add: single_token_def split: if_splits)

lemma read_free_disk_status: "read_free_disk answer = Known free \<Longrightarrow> ca_exit_status answer = 0"
  by (auto simp: read_free_disk_def split: option.splits if_splits)

lemma bundle_get_no_files [simp]: "bundle_get no_files path = None"
  by (simp add: bundle_get_def no_files_def)

lemma read_distribution_Known:
  "read_distribution files = Known d \<longleftrightarrow>
     (\<exists>body. bundle_get files ''/etc/os-release'' = Some body
        \<and> os_release_value body ''ID'' = Some (ds_id d)
        \<and> ds_version_id d = (case os_release_value body ''VERSION_ID'' of Some v \<Rightarrow> v | None \<Rightarrow> []))"
  by (cases d) (auto simp: read_distribution_def split: option.splits)

lemma read_init_Systemd:
  "read_init files = Known Systemd \<longleftrightarrow>
     (\<exists>body. bundle_get files ''/proc/1/comm'' = Some body \<and> printable_token body = Some ''systemd'')"
  by (auto simp: read_init_def split: option.splits if_splits)

lemma read_cgroup_V2:
  "read_cgroup files = Known CgroupV2 \<longleftrightarrow> bundle_get files ''/sys/fs/cgroup/cgroup.controllers'' \<noteq> None"
  by (auto simp: read_cgroup_def split: option.splits if_splits)

lemma read_memory_get: "read_memory files = Known amount \<Longrightarrow> bundle_get files ''/proc/meminfo'' \<noteq> None"
  by (auto simp: read_memory_def split: option.splits)

lemma read_processors_get:
  "read_processors files = Known cores \<Longrightarrow> bundle_get files ''/sys/devices/system/cpu/online'' \<noteq> None"
  by (auto simp: read_processors_def split: option.splits)

text \<open>What the far side reported to one question of an observation.\<close>

definition reported :: "far_side \<Rightarrow> question list \<Rightarrow> LiveSession \<Rightarrow> FixedCommand \<Rightarrow> ChannelReport \<Rightarrow> bool" where
  "reported far asked_before live command report =
     (fst (run_channel (far (asked_before @ [(command, None)])) command None live) = Some (Inr report))"

lemma ask_session_Some:
  "ask_session far command None (asked_before, live) = (Some report, rest) \<Longrightarrow>
     reported far asked_before live command report"
  by (auto simp: ask_session_def reported_def Let_def split: option.splits sum.splits)


section \<open>What \<open>head -v\<close> prints reads back\<close>

definition unlines :: "string list \<Rightarrow> string" where
  "unlines ls = concat (map (\<lambda>line. line @ [newline]) ls)"

lemma unlines_simps [simp]:
  "unlines [] = []" "unlines (line # ls) = line @ newline # unlines ls" "unlines (ls @ ls') = unlines ls @ unlines ls'"
  by (simp_all add: unlines_def)

text \<open>A line an honest file of the list has: printable, and not one of the headers of \<open>head\<close>.\<close>

definition plain_line :: "string \<Rightarrow> bool" where
  "plain_line line = (list_all (\<lambda>c. code c = 9 \<or> (32 \<le> code c \<and> code c < 127)) line \<and> header_path line = None)"

definition header_line :: "string \<Rightarrow> string" where
  "header_line path = ''==> '' @ path @ '' <==''"

text \<open>The lines of the output for these files, an empty one before every header but the first.\<close>

fun head_lines :: "(string \<times> string list) list \<Rightarrow> string list" where
  "head_lines [] = []"
| "head_lines [(path, ls)] = header_line path # ls"
| "head_lines ((path, ls) # entries) = header_line path # ls @ [] # head_lines entries"

fun heard :: "(string \<times> string list) list \<Rightarrow> (string \<times> string) list" where
  "heard [] = []"
| "heard [(path, ls)] = [(path, unlines ls)]"
| "heard ((path, ls) # entries) = (path, unlines ls @ [newline]) # heard entries"

lemma lines_unlines:
  "\<forall>line \<in> set ls. newline \<notin> set line \<and> (line = [] \<or> last line \<noteq> carriage_return) \<Longrightarrow> lines (unlines ls) = ls"
proof -
  have split: "split_on newline (unlines ls) = ls @ [[]]" if "\<forall>line \<in> set ls. newline \<notin> set line" for ls
  proof -
    have "unlines ls = join_on newline (ls @ [[]])"
      by (induction ls rule: induct_list012) simp_all
    then show ?thesis using that by (simp add: split_join_on)
  qed
  assume plain: "\<forall>line \<in> set ls. newline \<notin> set line \<and> (line = [] \<or> last line \<noteq> carriage_return)"
  then have "map strip_carriage_return ls = ls"
    by (intro map_idI) (auto simp: strip_carriage_return_def strip_suffix_char_def)
  with plain show ?thesis by (simp add: lines_def split Let_def)
qed

lemma header_path_line: "path \<noteq> [] \<Longrightarrow> header_path (header_line path) = Some path"
  by (simp add: header_path_def header_line_def strip_prefix_def strip_suffix_str_def suffix_def)

lemma walk_body:
  "\<forall>line \<in> set ls. header_path line = None \<Longrightarrow> fw_current walk = Some (path, body) \<Longrightarrow>
     fold read_file_line ls walk = walk\<lparr>fw_current := Some (path, body @ unlines ls)\<rparr>"
proof (induction ls arbitrary: walk body)
  case (Cons line ls)
  then show ?case by (simp add: read_file_line_def)
qed simp

lemma push_fresh:
  assumes "fw_duplicated walk = []" "path \<notin> fst ` set (fw_files walk)" "fw_current walk = Some (path, body)"
  shows "push_current walk = walk\<lparr>fw_current := None, fw_files := fw_files walk @ [(path, body)]\<rparr>"
  using assms by (auto simp: push_current_def push_once_def list_ex_iff)

text \<open>The walk over the lines of the files, from between two of them.\<close>

lemma walk_heard:
  assumes "\<forall>(path, ls) \<in> set entries. path \<in> set AUDIT_FILES \<and> (\<forall>line \<in> set ls. header_path line = None)"
    and "distinct (map fst entries)" and "fst ` set entries \<inter> fst ` set (fw_files (push_current walk)) = {}"
    and "fw_duplicated (push_current walk) = []" and "fw_current (push_current walk) = None"
  shows "push_current (fold read_file_line (head_lines entries) walk)
      = (push_current walk)\<lparr>fw_files := fw_files (push_current walk) @ heard entries\<rparr>"
  using assms
proof (induction entries arbitrary: walk rule: head_lines.induct)
  case (2 path ls)
  let ?open = "(push_current walk)\<lparr>fw_current := Some (path, [])\<rparr>"
  have "path \<noteq> []" using 2(1) by (auto simp: AUDIT_FILES_def)
  then have opened: "read_file_line (header_line path) walk = ?open"
    using 2(1) by (simp add: read_file_line_def header_path_line Let_def)
  have body: "fold read_file_line ls ?open = ?open\<lparr>fw_current := Some (path, unlines ls)\<rparr>"
    using walk_body [of ls ?open path "[]"] 2(1) by simp
  show ?case
    using 2 by (simp add: opened body push_fresh)
next
  case (3 path ls entry entries)
  let ?open = "(push_current walk)\<lparr>fw_current := Some (path, [])\<rparr>"
  let ?read = "(push_current walk)\<lparr>fw_current := Some (path, unlines ls @ [newline])\<rparr>"
  have "path \<noteq> []" using 3(2) by (auto simp: AUDIT_FILES_def)
  then have opened: "read_file_line (header_line path) walk = ?open"
    using 3(2) by (simp add: read_file_line_def header_path_line Let_def)
  have "header_path [] = None" by (simp add: header_path_def strip_prefix_def)
  then have body: "fold read_file_line (ls @ [[]]) ?open = ?read"
    using walk_body [of "ls @ [[]]" ?open path "[]"] 3(2) by simp
  have pushed: "push_current ?read
      = (push_current walk)\<lparr>fw_files := fw_files (push_current walk) @ [(path, unlines ls @ [newline])]\<rparr>"
    using 3(4-6) by (subst push_fresh) auto
  have "push_current (fold read_file_line (head_lines (entry # entries)) ?read)
      = (push_current ?read)\<lparr>fw_files := fw_files (push_current ?read) @ heard (entry # entries)\<rparr>"
    using 3(2-6) by (intro "3.IH") (auto simp: pushed)
  moreover have "fold read_file_line (head_lines ((path, ls) # entry # entries)) walk
      = fold read_file_line (head_lines (entry # entries)) ?read"
    using opened body by simp
  ultimately show ?case by (simp add: pushed)
qed simp

lemma plain_line_facts:
  assumes "plain_line line"
  shows "newline \<notin> set line" "line = [] \<or> last line \<noteq> carriage_return" "is_ascii line"
    "list_all (\<lambda>c. c = 10 \<or> c = 9 \<or> \<not> is_control c) (map code line)"
proof -
  have "newline \<notin> set line \<and> carriage_return \<notin> set line"
    using assms by (auto simp: plain_line_def list_all_iff code_def)
  then show "newline \<notin> set line" "line = [] \<or> last line \<noteq> carriage_return" by (metis last_in_set)+
  show "is_ascii line" using assms by (auto simp: plain_line_def is_ascii_def list_all_iff)
  show "list_all (\<lambda>c. c = 10 \<or> c = 9 \<or> \<not> is_control c) (map code line)"
    using assms by (auto simp: plain_line_def list_all_iff is_control_def)
qed

lemma unlines_text:
  "\<forall>line \<in> set ls. is_ascii line \<and> list_all (\<lambda>c. c = 10 \<or> c = 9 \<or> \<not> is_control c) (map code line) \<Longrightarrow>
     ascii_text (as_bytes (unlines ls)) = Some (unlines ls)"
proof -
  assume ls: "\<forall>line \<in> set ls. is_ascii line \<and> list_all (\<lambda>c. c = 10 \<or> c = 9 \<or> \<not> is_control c) (map code line)"
  then have "is_ascii (unlines ls)" "list_all (\<lambda>c. c = 10 \<or> c = 9 \<or> \<not> is_control c) (map code (unlines ls))"
    by (induction ls) (auto simp: is_ascii_def code_def list_all_iff)
  then show ?thesis by (simp add: ascii_text_def as_bytes_ascii chars_ascii)
qed

definition honest_files :: "(string \<times> string list) list \<Rightarrow> bool" where
  "honest_files entries =
     (distinct (map fst entries)
      \<and> list_all (\<lambda>(path, ls). path \<in> set AUDIT_FILES \<and> list_all plain_line ls) entries)"

lemma honest_lines:
  assumes "honest_files entries" and "line \<in> set (head_lines entries)"
  shows "newline \<notin> set line" "line = [] \<or> last line \<noteq> carriage_return" "is_ascii line"
    "list_all (\<lambda>c. c = 10 \<or> c = 9 \<or> \<not> is_control c) (map code line)"
proof -
  have "line = [] \<or> (\<exists>path \<in> set AUDIT_FILES. line = header_line path) \<or> plain_line line"
    using assms
    by (induction entries rule: head_lines.induct) (auto simp: honest_files_def list_all_iff)
  moreover have "\<forall>path \<in> set AUDIT_FILES. newline \<notin> set (header_line path)
      \<and> last (header_line path) \<noteq> carriage_return \<and> is_ascii (header_line path)
      \<and> list_all (\<lambda>c. c = 10 \<or> c = 9 \<or> \<not> is_control c) (map code (header_line path))"
    unfolding AUDIT_FILES_def by code_simp
  ultimately show "newline \<notin> set line" "line = [] \<or> last line \<noteq> carriage_return" "is_ascii line"
    "list_all (\<lambda>c. c = 10 \<or> c = 9 \<or> \<not> is_control c) (map code line)"
    using plain_line_facts by (auto simp: is_ascii_def)
qed

lemma read_files_back:
  assumes "honest_files entries" and "ca_stdout answer = as_bytes (unlines (head_lines entries))"
  shows "read_files answer = \<lparr>fb_answered = (entries \<noteq> []), fb_files = heard entries\<rparr>"
proof -
  let ?start = "\<lparr>fw_files = [], fw_duplicated = [], fw_current = None\<rparr>"
  have "lines (unlines (head_lines entries)) = head_lines entries"
    using honest_lines [OF assms(1)] by (intro lines_unlines) blast
  moreover have "ascii_text (ca_stdout answer) = Some (unlines (head_lines entries))"
    using honest_lines [OF assms(1)] unfolding assms(2) by (intro unlines_text) blast
  moreover have "push_current (fold read_file_line (head_lines entries) ?start)
      = (push_current ?start)\<lparr>fw_files := fw_files (push_current ?start) @ heard entries\<rparr>"
    using assms(1) by (intro walk_heard) (auto simp: honest_files_def list_all_iff plain_line_def push_current_def)
  moreover have "(heard entries = []) = (entries = [])" by (cases entries rule: heard.cases) auto
  ultimately show ?thesis by (simp add: read_files_def push_current_def)
qed

lemma heard_get:
  "distinct (map fst entries) \<Longrightarrow>
     (\<forall>(path, ls) \<in> set entries. \<exists>body. map_option snd (find (\<lambda>e. fst e = path) (heard entries)) = Some body
        \<and> (body = unlines ls \<or> body = unlines (ls @ [[]])))
     \<and> (\<forall>path. path \<notin> fst ` set entries \<longrightarrow> find (\<lambda>e. fst e = path) (heard entries) = None)"
proof (induction entries rule: heard.induct)
  case (3 path ls entry entries)
  then show ?case by (auto split: prod.splits)
qed auto

text \<open>C38: The file channel reads back. When the far side prints each file under its own header,
an empty line before every header but the first, the bundle holds for each path the very lines
of its file, up to the empty line that closes it; it holds nothing for a path that was not
opened; and it counts as answered exactly when at least one file was opened.\<close>

theorem file_channel_reads_back:
  assumes "honest_files entries" and "ca_stdout answer = as_bytes (unlines (head_lines entries))"
  shows "fb_answered (read_files answer) = (entries \<noteq> [])
    \<and> (\<forall>(path, ls) \<in> set entries. \<exists>body. bundle_get (read_files answer) path = Some body
         \<and> (lines body = ls \<or> lines body = ls @ [[]]))
    \<and> (\<forall>path. path \<notin> fst ` set entries \<longrightarrow> bundle_get (read_files answer) path = None)"
proof -
  have plain: "lines (unlines ls) = ls" "lines (unlines (ls @ [[]])) = ls @ [[]]" if "(path, ls) \<in> set entries" for path ls
  proof -
    have "list_all plain_line ls" using assms(1) that by (auto simp: honest_files_def list_all_iff)
    then have "\<forall>line \<in> set (ls @ [[]]). newline \<notin> set line \<and> (line = [] \<or> last line \<noteq> carriage_return)"
      using plain_line_facts(1,2) by (auto simp: list_all_iff)
    then show "lines (unlines ls) = ls" "lines (unlines (ls @ [[]])) = ls @ [[]]"
      by (intro lines_unlines; simp)+
  qed
  have "distinct (map fst entries)" using assms(1) by (simp add: honest_files_def)
  from heard_get [OF this] plain show ?thesis
    unfolding read_files_back [OF assms] bundle_get_def by (fastforce split: prod.splits)
qed

section \<open>A concrete machine\<close>

definition sample_files :: "(string \<times> string list) list" where
  "sample_files =
     [(''/etc/os-release'', [''ID=debian'', ''VERSION_ID=13'']),
      (''/proc/1/comm'', [''systemd'']), (''/sys/fs/cgroup/cgroup.controllers'', [''cpu memory'']),
      (''/proc/meminfo'', [''MemTotal: 2048000 kB'']), (''/sys/devices/system/cpu/online'', [''0-1,3''])]"

lemma sample_files_honest: "honest_files sample_files"
  unfolding sample_files_def by code_simp

theorem file_channel_reads_back_witness:
  "bundle_get (read_files \<lparr>ca_exit_status = 1, ca_stdout = as_bytes (unlines (head_lines sample_files)), ca_stderr = []\<rparr>)
     ''/etc/your-cloud/roles'' = None"
  using file_channel_reads_back [OF sample_files_honest,
      of "\<lparr>ca_exit_status = 1, ca_stdout = as_bytes (unlines (head_lines sample_files)), ca_stderr = []\<rparr>"]
  by (simp add: sample_files_def)

definition printing :: "u32 \<Rightarrow> string \<Rightarrow> ChannelWorld" where
  "printing status printed = silent_world\<lparr>cw_turns :=
     [(GuardContinue, WaitMessage (MsgData (as_bytes printed))),
      (GuardContinue, WaitMessage (MsgExitStatus status)), (GuardContinue, WaitMessage MsgEof)]\<rparr>"

definition sample_df :: string where
  "sample_df = unlines [''Filesystem Available'',
     ''/dev/sda1 9 5 4194304 1% /var'']"

definition sample_far :: far_side where
  "sample_far questions =
     (let command = fst (last questions)
      in if command = ARCHITECTURE then printing 0 (unlines [''x86_64''])
         else if command = FILESYSTEM
         then printing 0 sample_df
         else printing 1 (unlines (head_lines sample_files)))"

lemma run_printing:
  assumes "lv_channels_spent live < lv_channel_budget live" and "length printed \<le> MAX_PROBE_STREAM_BYTES"
  shows "fst (run_channel (printing status printed) command None live)
      = Some (Inr \<lparr>cr_exit_status = status, cr_stdout = as_bytes printed, cr_stderr = []\<rparr>)"
  using assms
  by (simp add: run_channel_def Let_def printing_def silent_world_def exec_channel_def collect_channel_def wire_def
      gathered_nothing_def append_bounded_def finish_turn_def report_of_def)

text \<open>The readings of that machine; a number is read by \<open>simp\<close>, the text around it by evaluation.\<close>

lemma sample_numbers:
  "audit_decimal ''4194304'' = Some 4194304" "audit_decimal ''2048000'' = Some 2048000"
  "audit_decimal ''0'' = Some 0" "audit_decimal ''1'' = Some 1" "audit_decimal ''3'' = Some 3"
  by (simp_all add: audit_decimal_def parse_u64_def decimal_value_def is_ascii_digit_def code_def)

definition sample_bundle :: FileBundle where
  "sample_bundle = \<lparr>fb_answered = True, fb_files = heard sample_files\<rparr>"

lemma sample_files_reading:
  "read_files (answer_of \<lparr>cr_exit_status = 1, cr_stdout = as_bytes (unlines (head_lines sample_files)), cr_stderr = []\<rparr>)
     = sample_bundle"
  by (simp add: read_files_back [OF sample_files_honest] answer_of_def sample_bundle_def) (simp add: sample_files_def)

lemma sample_architecture:
  "read_architecture (answer_of \<lparr>cr_exit_status = 0, cr_stdout = as_bytes (unlines [''x86_64'']), cr_stderr = []\<rparr>)
     = Known Amd64"
  by code_simp

lemma sample_df_text:
  "ascii_text (as_bytes sample_df) = Some sample_df" "length (lines sample_df) = 2" "length sample_df < 4096"
  "split_whitespace (lines sample_df ! Suc 0) = [''/dev/sda1'', ''9'', ''5'', ''4194304'', ''1%'', ''/var'']"
proof -
  show "ascii_text (as_bytes sample_df) = Some sample_df"
    unfolding sample_df_def by (rule unlines_text) (simp add: is_ascii_def is_control_def code_def)
  have lines: "lines sample_df = [''Filesystem Available'',
     ''/dev/sda1 9 5 4194304 1% /var'']"
    unfolding sample_df_def by (rule lines_unlines) simp
  then show "length (lines sample_df) = 2" by simp
  show "length sample_df < 4096" by (simp add: sample_df_def)
  have next_field: "split_whitespace (a @ CHR '' '' # rest) = a # split_whitespace rest" if "solid a" "a \<noteq> []" for a rest
    using that by (intro split_whitespace_Cons) (simp_all add: code_def is_white_def)
  have words: "''/dev/sda1 9 5 4194304 1% /var'' = ''/dev/sda1'' @ CHR '' '' # ''9'' @ CHR '' '' # ''5'' @ CHR '' ''
      # ''4194304'' @ CHR '' '' # ''1%'' @ CHR '' '' # ''/var''" by simp
  have solid: "solid ''/dev/sda1''" "solid ''9''" "solid ''5''" "solid ''4194304''" "solid ''1%''" "solid ''/var''"
    by (simp_all add: solid_def code_def is_white_def)
  show "split_whitespace (lines sample_df ! Suc 0) = [''/dev/sda1'', ''9'', ''5'', ''4194304'', ''1%'', ''/var'']"
    unfolding lines nth_Cons_Suc nth_Cons_0 words by (simp only: next_field solid split_whitespace_solid list.distinct if_False simp_thms)
qed

lemma sample_disk:
  "read_free_disk (answer_of \<lparr>cr_exit_status = 0, cr_stdout = as_bytes sample_df, cr_stderr = []\<rparr>) = Known 4194304"
  by (simp add: read_free_disk_def answer_of_def sample_df_text sample_numbers Let_def)

lemma sample_bodies:
  "bundle_get sample_bundle ''/etc/os-release'' = Some (unlines [''ID=debian'',
     ''VERSION_ID=13'', []])"
  "bundle_get sample_bundle ''/proc/1/comm'' = Some (unlines [''systemd'', []])"
  "bundle_get sample_bundle ''/sys/fs/cgroup/cgroup.controllers'' = Some (unlines [''cpu memory'', []])"
  "bundle_get sample_bundle ''/proc/meminfo'' = Some (unlines [''MemTotal: 2048000 kB'', []])"
  "bundle_get sample_bundle ''/sys/devices/system/cpu/online'' = Some (unlines [''0-1,3''])"
  "bundle_get sample_bundle ''/proc/self/status'' = None" "bundle_get sample_bundle ''/etc/hostname'' = None"
  "bundle_get sample_bundle ''/etc/your-cloud/roles'' = None"
  by (simp_all add: bundle_get_def sample_bundle_def sample_files_def)

lemma audit_sample_lines:
  "lines (unlines [''MemTotal: 2048000 kB'', []]) = [''MemTotal: 2048000 kB'', []]"
  "lines (unlines [''ID=debian'', ''VERSION_ID=13'', []])
     = [''ID=debian'', ''VERSION_ID=13'', []]"
  "lines (unlines [''systemd'', []]) = [''systemd'', []]" "lines (unlines [''0-1,3'']) = [''0-1,3'']"
  by (intro lines_unlines; simp)+

lemma sample_words:
  "find_after ''MemTotal:'' [''MemTotal: 2048000 kB'', []] = Some '' 2048000 kB''"
  "split_whitespace '' 2048000 kB'' = [''2048000'', ''kB'']"
  "printable_token (unlines [''0-1,3'']) = Some ''0-1,3''"
  "printable_token (unlines [''systemd'', []]) = Some ''systemd''"
  "os_release_value (unlines [''ID=debian'', ''VERSION_ID=13'', []]) ''ID'' = Some ''debian''"
  "os_release_value (unlines [''ID=debian'', ''VERSION_ID=13'', []]) ''VERSION_ID'' = Some ''13''"
  by (simp_all add: printable_token_def os_release_value_def audit_sample_lines unquoted_def printable_text_def is_control_def limits
      split_whitespace_def trim_str_def continuation_bytes_def white_cell_ascii is_white_def code_def
      strip_suffix_char_def strip_prefix_def prefix_def del: unlines_simps)

lemma sample_facts:
  "read_session_uid sample_bundle = NotKnown NotProduced" "read_hostname sample_bundle = NotKnown NotProduced"
  "read_distribution sample_bundle = Known \<lparr>ds_id = ''debian'', ds_version_id = ''13''\<rparr>"
  "read_init sample_bundle = Known Systemd" "read_cgroup sample_bundle = Known CgroupV2"
  "read_installation sample_bundle = Known NotDeclared"
  "read_memory sample_bundle = Known 2048000" "read_processors sample_bundle = Known 3"
  unfolding read_session_uid_def read_hostname_def read_distribution_def read_init_def read_cgroup_def read_installation_def
    read_memory_def read_processors_def sample_bodies audit_sample_lines sample_words
  by (simp_all add: missing_def sample_bundle_def audit_sample_lines sample_words sample_numbers processor_range_def del: unlines_simps find_after.simps)

lemma sample_files_length: "length (unlines (head_lines sample_files)) < 4096"
  by (simp add: sample_files_def header_line_def)

lemma sample_observed:
  "fst (observe sample_far ([], fresh_session)) =
     assemble_machine (Known Amd64) (Known 4194304) sample_bundle"
proof -
  have commands: "FILESYSTEM \<noteq> ARCHITECTURE" "FACT_FILES \<noteq> ARCHITECTURE" "FACT_FILES \<noteq> FILESYSTEM"
    by (simp_all add: ARCHITECTURE_def FILESYSTEM_def FACT_FILES_def)
  have small: "length (unlines [''x86_64'']) < 4096" by simp
  show ?thesis
    by (simp add: observe_def ask_session_def sample_far_def commands run_printing run_channel_session fresh_session_def
        limits Let_def less_imp_le [OF sample_files_length] less_imp_le [OF sample_df_text(3)] less_imp_le [OF small]
        sample_files_reading sample_architecture sample_disk del: unlines_simps)
qed


section \<open>Where an observation says more than was read\<close>

text \<open>
  The file that declares the roles, printed twice, is dropped with the others' second bodies,
  and its absence is then read as a machine that declares no installation.
\<close>

definition sample_twice :: "string list" where
  "sample_twice = [header_line ''/etc/hostname'', ''node-1'', header_line ''/etc/your-cloud/roles'', ''relay'',
     header_line ''/etc/your-cloud/roles'', ''relay'']"

lemma duplicated_roles_are_not_declared:
  "read_installation (read_files \<lparr>ca_exit_status = 0, ca_stdout = as_bytes (unlines sample_twice), ca_stderr = []\<rparr>)
     = Known NotDeclared"
proof -
  have ascii: "ascii_text (as_bytes (unlines sample_twice)) = Some (unlines sample_twice)"
    by (rule unlines_text) (simp add: sample_twice_def header_line_def is_ascii_def is_control_def code_def)
  have split: "lines (unlines sample_twice) = sample_twice"
    by (rule lines_unlines) (simp add: sample_twice_def header_line_def)
  have plain: "header_path ''node-1'' = None" "header_path ''relay'' = None"
    by (simp_all add: header_path_def strip_prefix_def)
  show ?thesis
    by (simp add: read_files_def ascii split)
      (simp add: sample_twice_def read_file_line_def header_path_line plain push_current_def push_once_def AUDIT_FILES_def
         read_installation_def bundle_get_def Let_def)
qed

text \<open>The ranges are summed on 64 bits: a range of all of them and one more count for the one more.\<close>

lemma wrapped_processors_are_known:
  "count_processors 0 (split_on (CHR '','') ''0-18446744073709551615,0-3'') = Some 4"
  by (simp add: processor_range_def audit_decimal_def parse_u64_def decimal_value_def is_ascii_digit_def code_def)

end
