(* ===== verification/Assistant_Session.thy ===== *)
theory Assistant_Session
  imports Target_Audit Bundle Deposit Install_Plan Lease Consent
begin

text \<open>
  The session of the Assistant process (\<open>native-bootstrap-assistant/src/lib.rs\<close>, and the
  preparation in \<open>personal_access/session.rs\<close>): from a validated scope to the one terminal
  it writes. The windows, the far side, the network, the clock, the lease and what the
  package carries are the world; everything decided on their answers is here. The release
  build for Linux is the one modelled.
\<close>

section \<open>Outcomes and exports\<close>

definition EXIT_INVALID_INVOCATION :: u8 where [limits]: "EXIT_INVALID_INVOCATION = 64"
definition EXIT_PROTOCOL_REFUSED :: u8 where [limits]: "EXIT_PROTOCOL_REFUSED = 65"
definition EXIT_INTERNAL_FAILURE :: u8 where [limits]: "EXIT_INTERNAL_FAILURE = 70"
definition EXIT_IO_FAILURE :: u8 where [limits]: "EXIT_IO_FAILURE = 74"

datatype SessionError = SessionProtocol | SessionIo | SessionInternal

datatype SessionTerminal =
    TerminalAccessVerified | TerminalRefused | TerminalCancelled | TerminalExpired | TerminalUnavailable

datatype PromptOutcome =
    PromptConsent | ConsentWithIdentity string | ConsentWithKeyFile string | PromptSecret bytes
  | Verified Elevation | PromptRefused | PromptCancelled | PromptExpired | PromptUnavailable

fun terminal_event :: "SessionTerminal \<Rightarrow> AssistantEventKind" where
  "terminal_event TerminalAccessVerified = AccessVerified"
| "terminal_event TerminalRefused = EventRefused"
| "terminal_event TerminalCancelled = EventCancelled"
| "terminal_event TerminalExpired = EventExpired"
| "terminal_event TerminalUnavailable = EventUnavailable"

definition session_exit_code :: "SessionTerminal \<Rightarrow> u8" where
  "session_exit_code terminal =
     (case terminal_exit_code (terminal_event terminal) of Some exit \<Rightarrow> exit | None \<Rightarrow> EXIT_INTERNAL_FAILURE)"

fun terminal_from_prompt :: "PromptOutcome \<Rightarrow> SessionTerminal" where
  "terminal_from_prompt (Verified _) = TerminalAccessVerified"
| "terminal_from_prompt PromptRefused = TerminalRefused"
| "terminal_from_prompt PromptCancelled = TerminalCancelled"
| "terminal_from_prompt PromptExpired = TerminalExpired"
| "terminal_from_prompt _ = TerminalUnavailable"

record SessionExports =
  xp_installation_scope :: "InstallationScope option"
  xp_install_ledger :: "LedgerItemV1 list option"
  xp_refusal :: "AssistantRefusalV1 option"

definition exports_default :: SessionExports where
  "exports_default = \<lparr>xp_installation_scope = None, xp_install_ledger = None, xp_refusal = None\<rparr>"

text \<open>The event \<open>write_terminal\<close> builds, and what it comes to when the frame is accepted or not.\<close>

definition event_of :: "AssistantScopeV1 \<Rightarrow> SessionTerminal \<Rightarrow> SessionExports \<Rightarrow> AssistantEventV1" where
  "event_of scope terminal exports =
     (let carrier = (terminal = TerminalAccessVerified \<or> terminal = TerminalRefused)
      in \<lparr>ev_schema_version = 1, ev_request_id = sc_request_id scope, ev_event = terminal_event terminal,
          ev_installation_scope =
            (if carrier
             then map_option (\<lambda>s. \<lparr>at_suffices = is_suffices s, at_permits = is_permits s\<rparr>) (xp_installation_scope exports)
             else None),
          ev_install_ledger = (if carrier then xp_install_ledger exports else None),
          ev_refusal = (if terminal = TerminalRefused then xp_refusal exports else None)\<rparr>)"

definition write_terminal ::
  "(AssistantEventV1 \<Rightarrow> bool) \<Rightarrow> AssistantScopeV1 \<Rightarrow> SessionTerminal \<Rightarrow> SessionExports
     \<Rightarrow> SessionError + SessionTerminal \<times> AssistantEventV1" where
  "write_terminal accepts_frame scope terminal exports =
     (case event_validate (event_of scope terminal exports) of
        Inl _ \<Rightarrow> Inl SessionInternal
      | Inr event \<Rightarrow> if accepts_frame event then Inr (terminal, event) else Inl SessionIo)"

section \<open>The world of a session\<close>

datatype AgentEndpointRefusal =
    EndpointMissing | EndpointEmpty | NotUnicode | NotAbsolute | PathTooLong | InteriorNul | RelativeComponent
  | NotASocket | ForeignOwner | GroupOrWorldWritable | ForeignParentDirectory | ReplaceableParentDirectory
  | NotObservable | UnexpectedPipeName | PipeUnavailable | NotANamedPipe | ServerNotAttestable | ForeignPipeOwner
  | ForeignPipeServer | ForeignServerAccount | ServerReplaced

datatype PersonalAccessRefusal =
    LocalRefused LocalAddressRefusal | ResolutionRefused ResolutionRefusal | TargetRefused TargetRefusal
  | EndpointRefused AgentEndpointRefusal | AgentRefused AgentRefusal | TransportRefusedAccess TransportRefusal
  | AccessExpired

text \<open>
  What the session finds around it. A key file is opened to the envelope it holds, and
  unlocked to the fingerprint of its key; \<open>wd_carried\<close> is the manifest, the signature and
  the artifact the installed package carries.
\<close>

record 'k World =
  wd_no_pad :: base64_engine
  wd_interfaces :: "InterfaceNode list option"
  wd_deadline :: nat
  wd_now :: nat
  wd_resolver :: ResolverThread
  wd_runtime :: bool
  wd_agent :: "PersonalAccessRefusal + OfferedIdentity list"
  wd_prompt :: "AssistantScopeV1 \<Rightarrow> PromptOutcome"
  wd_prompt_with_identities :: "AssistantScopeV1 \<Rightarrow> OfferedIdentity list \<Rightarrow> PromptOutcome"
  wd_key_file :: "string \<Rightarrow> bytes option"
  wd_unlock :: "bytes \<Rightarrow> bytes \<Rightarrow> string option"
  wd_open :: OpenWorld
  wd_far :: far_side
  wd_carried :: "(bytes \<times> bytes \<times> bytes) option"
  wd_ed :: "'k ed25519"
  wd_from_slice :: "bytes \<Rightarrow> json_value option"
  wd_sha :: sha256
  wd_anchor :: bytes
  wd_version :: string

section \<open>The preparation\<close>

record Prepared =
  pp_agent :: "OfferedIdentity list option"
  pp_agent_refusal :: "PersonalAccessRefusal option"
  pp_target :: FrozenTarget
  pp_identities :: "OfferedIdentity list"

definition prepared_open :: "'k World \<Rightarrow> string \<Rightarrow> u16 \<Rightarrow> PersonalAccessRefusal + Prepared" where
  "prepared_open world name port =
     (case observe_local (wd_interfaces world) of
        Inl refusal \<Rightarrow> Inl (LocalRefused refusal)
      | Inr own \<Rightarrow>
          (case resolve_once_bounded (wd_deadline world) (wd_now world) (wd_resolver world) of
             Inl refusal \<Rightarrow> Inl (ResolutionRefused refusal)
           | Inr resolved \<Rightarrow>
               (case freeze name port resolved own of
                  Inl refusal \<Rightarrow> Inl (TargetRefused refusal)
                | Inr target \<Rightarrow>
                    if \<not> wd_runtime world then Inl (TransportRefusedAccess RuntimeUnavailable)
                    else if wd_agent world = Inl AccessExpired then Inl AccessExpired
                    else (case wd_agent world of
                        Inr identities \<Rightarrow>
                          Inr \<lparr>pp_agent = Some identities, pp_agent_refusal = None, pp_target = target,
                            pp_identities = identities\<rparr>
                      | Inl refusal \<Rightarrow>
                          Inr \<lparr>pp_agent = None, pp_agent_refusal = Some refusal, pp_target = target,
                            pp_identities = []\<rparr>))))"

text \<open>The outcome of an establishment, and what is left of the signature budget.\<close>

definition establish_session ::
  "OpenWorld \<Rightarrow> Prepared \<Rightarrow> string \<Rightarrow> string \<Rightarrow> (PersonalAccessRefusal + LiveSession) \<times> nat" where
  "establish_session world prepared approved_fingerprint selected_fingerprint =
     (case pp_agent prepared of
        None \<Rightarrow>
          (Inl (case pp_agent_refusal prepared of Some refusal \<Rightarrow> refusal | None \<Rightarrow> AgentRefused ConnectionFailed),
           MAX_AUTHENTICATION_SIGNATURES)
      | Some held \<Rightarrow>
          (case agent_select held selected_fingerprint of
             Inl refusal \<Rightarrow> (Inl (AgentRefused refusal), MAX_AUTHENTICATION_SIGNATURES)
           | Inr signer \<Rightarrow>
               (case establish_with world (pp_target prepared) approved_fingerprint (bs_budget signer) of
                  (Inl refusal, budget) \<Rightarrow> (Inl (TransportRefusedAccess refusal), sb_remaining budget)
                | (Inr live, budget) \<Rightarrow> (Inr live, sb_remaining budget))))"

definition establish_with_key ::
  "OpenWorld \<Rightarrow> Prepared \<Rightarrow> string \<Rightarrow> string \<Rightarrow> (PersonalAccessRefusal + LiveSession) \<times> nat" where
  "establish_with_key world prepared approved_fingerprint key_fingerprint =
     (case establish_with world (pp_target prepared) approved_fingerprint (for_selected_identity key_fingerprint) of
        (Inl refusal, budget) \<Rightarrow> (Inl (TransportRefusedAccess refusal), sb_remaining budget)
      | (Inr live, budget) \<Rightarrow> (Inr live, sb_remaining budget))"

section \<open>The administrator route\<close>

definition IDENTITY :: FixedCommand where "IDENTITY = FixedCommand PROBE_COMMAND"

definition PREFLIGHT :: FixedCommand where "PREFLIGHT = FixedCommand ''/usr/bin/sudo -N -n -l -l''"

definition PREFLIGHT_WITH_PASSWORD :: FixedCommand where
  "PREFLIGHT_WITH_PASSWORD = FixedCommand ''/usr/bin/sudo -k -S -p your-cloud-sudo-prompt: -l -l''"

definition no_secret :: SpentSecret where "no_secret = \<lparr>ss_secret = None\<rparr>"

definition borne :: "string \<Rightarrow> string" where
  "borne detail = take MAX_ATTESTED_PERMITS_BYTES (filter (\<lambda>c. code c < 128 \<and> \<not> is_ascii_control c) detail)"

fun policy_refusal :: "ElevationRefusal \<Rightarrow> SessionExports \<Rightarrow> PromptOutcome \<times> SessionExports" where
  "policy_refusal (NarrowerThanTheActionRequires permits) exports =
     (PromptRefused, exports\<lparr>xp_installation_scope := Some \<lparr>is_suffices = False, is_permits = permits\<rparr>\<rparr>)"
| "policy_refusal (Policy AuthenticationRequired) exports =
     (PromptRefused, exports\<lparr>xp_refusal := Some \<lparr>rf_cause = PolicyUnreadableWithoutSecret, rf_detail = []\<rparr>\<rparr>)"
| "policy_refusal (Policy PolicyTerminalRequired) exports =
     (PromptRefused, exports\<lparr>xp_refusal := Some \<lparr>rf_cause = PolicyNeedsTerminal, rf_detail = []\<rparr>\<rparr>)"
| "policy_refusal TerminalRequired exports =
     (PromptRefused, exports\<lparr>xp_refusal := Some \<lparr>rf_cause = PolicyNeedsTerminal, rf_detail = []\<rparr>\<rparr>)"
| "policy_refusal IncorrectPassword exports =
     (PromptRefused, exports\<lparr>xp_refusal := Some \<lparr>rf_cause = SudoPasswordRefused, rf_detail = []\<rparr>\<rparr>)"
| "policy_refusal (AmbiguousPolicy entries) exports =
     (PromptRefused, exports\<lparr>xp_refusal := Some \<lparr>rf_cause = PolicyAmbiguous, rf_detail = borne entries\<rparr>\<rparr>)"
| "policy_refusal _ exports = (PromptUnavailable, exports)"

definition ask_sudo_password :: "'k World \<Rightarrow> AssistantScopeV1 \<Rightarrow> PromptOutcome + bytes" where
  "ask_sudo_password world resolved =
     (case scope_validate (wd_no_pad world)
             (resolved\<lparr>sc_step := PrivilegeEscalation, sc_prompt := SudoPassword\<rparr>) of
        Inl _ \<Rightarrow> Inl PromptUnavailable
      | Inr escalation \<Rightarrow>
          (case wd_prompt world escalation of PromptSecret password \<Rightarrow> Inr password | outcome \<Rightarrow> Inl outcome))"

text \<open>
  A step of the session: what it answers, the exports, the secret it leaves behind (none,
  held, or destroyed) and the session as it is afterwards.
\<close>

type_synonym at_session = "question list \<times> LiveSession"
type_synonym 'a session_step = "(PromptOutcome + 'a) \<times> SessionExports \<times> SpentSecret \<times> at_session"

definition attested_policy ::
  "'k World \<Rightarrow> AssistantScopeV1 \<Rightarrow> RequiredScope \<Rightarrow> SessionExports \<Rightarrow> at_session \<Rightarrow> AttestedPolicy session_step" where
  "attested_policy world resolved scope exports at =
     (case ask_session (wd_far world) PREFLIGHT None at of
        (None, at) \<Rightarrow> (Inl PromptUnavailable, exports, no_secret, at)
      | (Some preflight, at) \<Rightarrow>
          let succeeded = (cr_exit_status preflight = 0);
              capture = (if succeeded then cr_stdout preflight else cr_stderr preflight)
          in (case read_policy succeeded capture False scope of
              Attested attested \<Rightarrow>
                (Inr attested, exports\<lparr>xp_installation_scope := Some (atp_installation attested)\<rparr>, no_secret, at)
            | PolicyRefused refusal \<Rightarrow>
                (case policy_refusal refusal exports of (outcome, exports) \<Rightarrow> (Inl outcome, exports, no_secret, at))
            | CostsTheSecret \<Rightarrow>
                (case ask_sudo_password world resolved of
                   Inl outcome \<Rightarrow> (Inl outcome, exports, no_secret, at)
                 | Inr password \<Rightarrow>
                     let retained = \<lparr>ss_secret = Some password\<rparr>
                     in (case ask_session (wd_far world) PREFLIGHT_WITH_PASSWORD (Some (TerminalAnswer password)) at of
                         (None, at) \<Rightarrow> (Inl PromptUnavailable, exports, destroy retained, at)
                       | (Some read, at) \<Rightarrow>
                           (case attest_policy_after_secret (cr_exit_status read = 0) (cr_stdout read)
                                   (cr_stderr read) False scope of
                              Inr attested \<Rightarrow>
                                (Inr attested, exports\<lparr>xp_installation_scope := Some (atp_installation attested)\<rparr>,
                                 if \<not> atp_password_required attested then destroy retained else retained, at)
                            | Inl refusal \<Rightarrow>
                                (case policy_refusal refusal exports of (outcome, exports) \<Rightarrow>
                                   (Inl outcome, exports, destroy retained, at)))))))"

record ProvenElevation =
  pe_witness :: Elevation
  pe_secret :: SpentSecret
  pe_password_required :: bool

definition prove_administrator_elevation ::
  "'k World \<Rightarrow> AssistantScopeV1 \<Rightarrow> SessionExports \<Rightarrow> at_session \<Rightarrow> ProvenElevation session_step" where
  "prove_administrator_elevation world resolved exports at =
     (case ask_session (wd_far world) IDENTITY None at of
        (None, at) \<Rightarrow> (Inl PromptUnavailable, exports, no_secret, at)
      | (Some probe, at) \<Rightarrow>
          if \<not> is_ok (attest_identity AdministratorRoute (cr_exit_status probe) (cr_stdout probe) (cr_stderr probe))
          then (Inl PromptUnavailable, exports, no_secret, at)
          else (case attested_policy world resolved (for_actions (sc_actions resolved)) exports at of
              (Inl outcome, exports, retained, at) \<Rightarrow> (Inl outcome, exports, retained, at)
            | (Inr attested, exports, retained, at) \<Rightarrow>
                if atp_password_required attested \<and> ss_secret retained = None
                then (Inl PromptUnavailable, exports, destroy retained, at)
                else (case ask_session (wd_far world) (atp_command attested)
                         (if atp_password_required attested then map_option TerminalAnswer (ss_secret retained) else None)
                         at of
                    (None, at) \<Rightarrow> (Inl PromptUnavailable, exports, destroy retained, at)
                  | (Some report, at) \<Rightarrow>
                      (case elevated (cr_exit_status report) (cr_stdout report) (cr_stderr report) of
                         Inl _ \<Rightarrow> (Inl PromptUnavailable, exports, destroy retained, at)
                       | Inr witness \<Rightarrow>
                           (Inr \<lparr>pe_witness = witness, pe_secret = retained,
                                pe_password_required = atp_password_required attested\<rparr>, exports, retained, at)))))"

section \<open>The installation\<close>

definition declared_placement_claim :: "AssistantScopeV1 \<Rightarrow> (DeclaredEndpoint \<times> PlacementApproval) option" where
  "declared_placement_claim scope =
     (case sc_declared_target scope of
        None \<Rightarrow> None
      | Some declared \<Rightarrow>
          Some (\<lparr>de_name = tg_host (sc_target scope), de_port = tg_port (sc_target scope),
                 de_exposure = (if dt_private declared then Private else Exposed),
                 de_availability = (if dt_normally_on declared then NormallyOn else Intermittent),
                 de_relay_candidate = False\<rparr>,
                \<lparr>ap_role = Controller, ap_endpoint = tg_host (sc_target scope)\<rparr>))"

fun outcome_of_sequence :: "Elevation \<Rightarrow> SequenceStop option \<Rightarrow> PromptOutcome" where
  "outcome_of_sequence witness None = Verified witness"
| "outcome_of_sequence witness (Some (SequenceRefused _ _)) = PromptRefused"
| "outcome_of_sequence witness (Some (ActFailed _ _)) = PromptRefused"
| "outcome_of_sequence witness (Some BudgetRefused) = PromptUnavailable"
| "outcome_of_sequence witness (Some (Unanswered _)) = PromptUnavailable"

text \<open>What \<open>run_installation\<close> assembles before the sequence, from the facts it observed; a refusal otherwise.\<close>

definition installation_payload ::
  "'k World \<Rightarrow> AssistantScopeV1 \<Rightarrow> ObservedMachine \<Rightarrow> Elevation \<Rightarrow> PromptOutcome + InstallPlan \<times> InstallPayload" where
  "installation_payload world resolved machine witness =
     (case declared_placement_claim resolved of
        None \<Rightarrow> Inl PromptUnavailable
      | Some (endpoint, approval) \<Rightarrow>
          (case and_then (propose Controller endpoint machine) (\<lambda>proposal. approve proposal approval) of
             Inl _ \<Rightarrow> Inl PromptRefused
           | Inr placement \<Rightarrow>
               (case wd_carried world of
                  None \<Rightarrow> Inl PromptUnavailable
                | Some (manifest, sig, artifact) \<Rightarrow>
                    (case verify_bundle (wd_ed world) (wd_from_slice world) (wd_sha world) (wd_anchor world)
                            manifest sig (wd_version world) artifact of
                       Inl _ \<Rightarrow> Inl PromptRefused
                     | Inr verified \<Rightarrow>
                         (case (case sc_machine_configuration resolved of
                               None \<Rightarrow> Inr None
                             | Some given \<Rightarrow>
                                 and_then (compose (wd_sha world) (mc_listen given) (mc_allowed_source given)
                                     (mc_relay_endpoint given)) (\<lambda>composed. Inr (Some composed))) of
                            Inl _ \<Rightarrow> Inl PromptRefused
                          | Inr composed \<Rightarrow>
                              (case authorize verified placement witness Creation of
                                 Inl _ \<Rightarrow> Inl PromptRefused
                               | Inr authorised \<Rightarrow>
                                   Inr (authorised, \<lparr>pl_bundle = verified, pl_artifact = artifact,
                                     pl_configuration = composed\<rparr>)))))))"

text \<open>The job of the sequence, over the session as it stands.\<close>

definition installation_job ::
  "'k World \<Rightarrow> AssistantScopeV1 \<Rightarrow> ProvenElevation \<Rightarrow> at_session \<Rightarrow> InstallPlan \<Rightarrow> InstallPayload \<Rightarrow> Job" where
  "installation_job world resolved proof at authorised payload =
     \<lparr>jb_machine = session_channel (wd_far world) (fst at) (snd at), jb_actions = sc_actions resolved,
      jb_password_required = pe_password_required proof, jb_plan = authorised, jb_payload = payload,
      jb_secret = pe_secret proof\<rparr>"

definition run_installation ::
  "'k World \<Rightarrow> AssistantScopeV1 \<Rightarrow> ProvenElevation \<Rightarrow> at_session
     \<Rightarrow> PromptOutcome \<times> LedgerItemV1 list option \<times> SpentSecret \<times> at_session" where
  "run_installation world resolved proof at =
     (if sc_mode resolved = Replace then (PromptUnavailable, None, destroy (pe_secret proof), at)
      else (case observe (wd_far world) at of (machine, at) \<Rightarrow>
        (case installation_payload world resolved machine (pe_witness proof) of
           Inl outcome \<Rightarrow> (outcome, None, destroy (pe_secret proof), at)
         | Inr (authorised, payload) \<Rightarrow>
             (case sequence_run (installation_job world resolved proof at authorised payload) of
                (outcome, trace, secret) \<Rightarrow>
                  (outcome_of_sequence (pe_witness proof) (so_stopped outcome), Some (to_protocol (so_ledger outcome)),
                   secret, (fst at @ commands_of trace, session_after (wd_far world) (fst at) trace (snd at)))))))"

section \<open>The routes\<close>

text \<open>The one credential a consent carries.\<close>

datatype Credential = AgentIdentity string | KeyCredential string

fun credential_fingerprint :: "Credential \<Rightarrow> string" where
  "credential_fingerprint (AgentIdentity fingerprint) = fingerprint"
| "credential_fingerprint (KeyCredential fingerprint) = fingerprint"

definition open_personal_key :: "'k World \<Rightarrow> AssistantScopeV1 \<Rightarrow> string \<Rightarrow> PromptOutcome + string" where
  "open_personal_key world resolved path =
     (case wd_key_file world path of
        None \<Rightarrow> Inl PromptUnavailable
      | Some selected \<Rightarrow>
          (case scope_validate (wd_no_pad world)
                  (resolved\<lparr>sc_step := UnlockPersonalKey, sc_prompt := KeyPassphrase\<rparr>) of
             Inl _ \<Rightarrow> Inl PromptUnavailable
           | Inr passphrase_scope \<Rightarrow>
               (case wd_prompt world passphrase_scope of
                  PromptSecret passphrase \<Rightarrow> ok_or (wd_unlock world selected passphrase) PromptUnavailable
                | outcome \<Rightarrow> Inl outcome)))"

definition choose_credential :: "'k World \<Rightarrow> AssistantScopeV1 \<Rightarrow> PromptOutcome \<Rightarrow> PromptOutcome + Credential" where
  "choose_credential world resolved outcome =
     (case outcome of
        ConsentWithIdentity selected \<Rightarrow> Inr (AgentIdentity selected)
      | ConsentWithKeyFile path \<Rightarrow>
          and_then (open_personal_key world resolved path) (\<lambda>fingerprint. Inr (KeyCredential fingerprint))
      | other \<Rightarrow> Inl other)"

fun establish_credential :: "'k World \<Rightarrow> Prepared \<Rightarrow> string \<Rightarrow> Credential \<Rightarrow> PersonalAccessRefusal + LiveSession" where
  "establish_credential world prepared approved (AgentIdentity fingerprint) =
     fst (establish_session (wd_open world) prepared approved fingerprint)"
| "establish_credential world prepared approved (KeyCredential fingerprint) =
     fst (establish_with_key (wd_open world) prepared approved fingerprint)"

text \<open>
  The session of the personal access once it is established: the outcome, the exports, the
  secret and the session it closes.
\<close>

definition serve_established ::
  "'k World \<Rightarrow> AssistantScopeV1 \<Rightarrow> LiveSession \<Rightarrow> SessionExports
     \<Rightarrow> PromptOutcome \<times> SessionExports \<times> SpentSecret \<times> at_session" where
  "serve_established world resolved live exports =
     (let session_budget = channel_budget (sc_actions resolved);
          adopted = (if session_budget \<noteq> 0 then adopt_derived_budget session_budget live else (Inr (), live))
      in if \<not> is_ok (fst adopted) then (PromptUnavailable, exports, no_secret, ([], live))
         else (case prove_administrator_elevation world resolved exports ([], snd adopted) of
             (Inl outcome, exports, secret, at) \<Rightarrow> (outcome, exports, secret, at)
           | (Inr proof, exports, secret, at) \<Rightarrow>
               if scope_covers (sc_actions resolved) InstallServerBundle
               then (case run_installation world resolved proof at of
                   (outcome, ledger, secret, at) \<Rightarrow>
                     (outcome, (case ledger of None \<Rightarrow> exports | Some _ \<Rightarrow> exports\<lparr>xp_install_ledger := ledger\<rparr>), secret, at))
               else (Verified (pe_witness proof), exports, destroy (pe_secret proof), at)))"

text \<open>The scope displayed, with the addresses just frozen, and the outcome of its window.\<close>

definition shown_scope :: "'k World \<Rightarrow> AssistantScopeV1 \<Rightarrow> (Prepared \<times> AssistantScopeV1) option" where
  "shown_scope world scope =
     (case prepared_open world (tg_host (sc_target scope)) (tg_port (sc_target scope)) of
        Inl _ \<Rightarrow> None
      | Inr prepared \<Rightarrow>
          (case scope_validate (wd_no_pad world) (resolved_scope scope (pp_target prepared)) of
             Inl _ \<Rightarrow> None
           | Inr resolved \<Rightarrow> Some (prepared, resolved)))"

definition serve_personal_access ::
  "'k World \<Rightarrow> AssistantScopeV1 \<Rightarrow> SessionExports \<Rightarrow> PromptOutcome \<times> SessionExports \<times> SpentSecret" where
  "serve_personal_access world scope exports =
     (case shown_scope world scope of
        None \<Rightarrow> (PromptUnavailable, exports, no_secret)
      | Some (prepared, resolved) \<Rightarrow>
          (case choose_credential world resolved
                  (wd_prompt_with_identities world resolved (pp_identities prepared)) of
             Inl outcome \<Rightarrow> (outcome, exports, no_secret)
           | Inr credential \<Rightarrow>
               (case establish_credential world prepared (tg_host_key_sha256 (sc_target scope)) credential of
                  Inl _ \<Rightarrow> (PromptUnavailable, exports, no_secret)
                | Inr live \<Rightarrow>
                    (case serve_established world resolved live exports of
                       (outcome, exports, secret, _) \<Rightarrow> (outcome, exports, secret)))))"

definition serve_root_access :: "'k World \<Rightarrow> AssistantScopeV1 \<Rightarrow> PromptOutcome" where
  "serve_root_access world scope =
     (case shown_scope world scope of
        None \<Rightarrow> PromptUnavailable
      | Some (prepared, resolved) \<Rightarrow>
          (case wd_prompt_with_identities world resolved (pp_identities prepared) of
             ConsentWithIdentity selected \<Rightarrow>
               (case fst (establish_session (wd_open world) prepared (tg_host_key_sha256 (sc_target resolved)) selected) of
                  Inl _ \<Rightarrow> PromptUnavailable
                | Inr live \<Rightarrow>
                    (case ask_session (wd_far world) IDENTITY None ([], live) of
                       (None, _) \<Rightarrow> PromptUnavailable
                     | (Some probe, _) \<Rightarrow>
                         (case root_access True (cr_exit_status probe) (cr_stdout probe) (cr_stderr probe) of
                            Inr witness \<Rightarrow> Verified witness
                          | Inl _ \<Rightarrow> PromptUnavailable)))
           | outcome \<Rightarrow> outcome))"

fun show_prompt :: "'k World \<Rightarrow> AssistantScopeV1 \<Rightarrow> PromptOutcome \<times> SessionExports \<times> SpentSecret" where
  "show_prompt world scope =
     (case sc_prompt scope of
        ConfirmPersonalAccess \<Rightarrow> serve_personal_access world scope exports_default
      | ConfirmRootAccess \<Rightarrow> (serve_root_access world scope, exports_default, no_secret)
      | _ \<Rightarrow> (wd_prompt world scope, exports_default, no_secret))"

section \<open>Serving a scope\<close>

text \<open>
  Instants count nanoseconds, up to the last one the platform can represent; \<open>checked_add\<close>
  fails above it.
\<close>

definition deadline_from_observation :: "nat \<Rightarrow> nat \<Rightarrow> u64 \<Rightarrow> u64 \<Rightarrow> u64 \<Rightarrow> nat option" where
  "deadline_from_observation last_instant local_before observed_at issued_at remaining_millis =
     (if observed_at < issued_at then None
      else if unat remaining_millis * 1000000 \<ge> 2 ^ 64 then None
      else let elapsed = unat observed_at - unat issued_at;
               remaining = unat remaining_millis * 1000000 - elapsed
           in if local_before + remaining > last_instant then None else Some (local_before + remaining))"

text \<open>What serving one scope finds of the clock, the watchdog, the lease and the writer.\<close>

record Serving =
  sv_last_instant :: nat
  sv_local_before :: nat
  sv_monotonic :: "u64 option"
  sv_tightened :: bool
  sv_now_before :: nat
  sv_now_after :: nat
  sv_lease :: LeaseResolution
  sv_accepts_frame :: "AssistantEventV1 \<Rightarrow> bool"

definition serve_scope :: "Serving \<Rightarrow> 'k World \<Rightarrow> AssistantScopeV1 \<Rightarrow> SessionError + SessionTerminal \<times> AssistantEventV1" where
  "serve_scope serving world scope =
     and_then (ok_or (sv_monotonic serving) SessionInternal) (\<lambda>observed_at.
     and_then (ok_or (deadline_from_observation (sv_last_instant serving) (sv_local_before serving) observed_at
         (sc_issued_at_monotonic_nanos scope) (sc_remaining_millis scope)) SessionProtocol) (\<lambda>deadline.
     if \<not> sv_tightened serving then Inl SessionInternal
     else if sv_now_before serving \<ge> deadline
     then write_terminal (sv_accepts_frame serving) scope TerminalExpired exports_default
     else
       (case show_prompt (world\<lparr>wd_deadline := deadline\<rparr>) scope of (outcome, exports, _) \<Rightarrow>
          if sv_lease serving = LeaseProtocolInvalid then Inl SessionProtocol
          else if sv_now_after serving \<ge> deadline
          then write_terminal (sv_accepts_frame serving) scope TerminalExpired exports_default
          else if sv_lease serving = LeaseCancelled
          then write_terminal (sv_accepts_frame serving) scope TerminalCancelled exports_default
          else write_terminal (sv_accepts_frame serving) scope (terminal_from_prompt outcome) exports)))"

fun serve_exit_code :: "SessionError + SessionTerminal \<times> AssistantEventV1 \<Rightarrow> u8" where
  "serve_exit_code (Inr (terminal, _)) = session_exit_code terminal"
| "serve_exit_code (Inl SessionProtocol) = EXIT_PROTOCOL_REFUSED"
| "serve_exit_code (Inl SessionIo) = EXIT_IO_FAILURE"
| "serve_exit_code (Inl SessionInternal) = EXIT_INTERNAL_FAILURE"

end
