(* ===== verification/Assistant_Facts.thy ===== *)
theory Assistant_Facts
  imports Assistant_Session
begin

text \<open>
  What a session of the Assistant guarantees: the code it exits with is that of the event it
  wrote, an access is verified only on a proof made in that session, the secret is destroyed
  on every path, and an installation is never short of a channel.
\<close>

named_theorems session_steps \<open>the definitions a step of the session unfolds to\<close>

declare ask_sudo_password_def [session_steps] Let_def [session_steps] destroy_def [session_steps] no_secret_def [session_steps]

section \<open>The life of the secret\<close>

text \<open>
  A refused step leaves no secret; a step that goes on leaves one only for a policy that
  wants it.
\<close>

lemma attested_policy_secret:
  "attested_policy world resolved scope exports at = (result, exports', secret, at') \<Longrightarrow>
     case result of Inl _ \<Rightarrow> ss_secret secret = None
     | Inr attested \<Rightarrow> \<not> atp_password_required attested \<longrightarrow> ss_secret secret = None"
  unfolding attested_policy_def
  by (auto simp: session_steps split: prod.splits option.splits PreflightVerdict.splits sum.splits if_splits)

lemma prove_elevation_secret:
  "prove_administrator_elevation world resolved exports at = (result, exports', secret, at') \<Longrightarrow>
     case result of Inl _ \<Rightarrow> ss_secret secret = None | Inr proof \<Rightarrow> pe_secret proof = secret"
  unfolding prove_administrator_elevation_def
  by (auto simp: session_steps dest!: attested_policy_secret split: prod.splits option.splits sum.splits if_splits)

lemma sequence_run_secret: "sequence_run job = (outcome, trace, secret) \<Longrightarrow> ss_secret secret = None"
  by (drule sequence_run_drive(2)) (simp add: destroy_def)

lemma run_installation_secret:
  "run_installation world resolved proof at = (outcome, ledger, secret, at') \<Longrightarrow> ss_secret secret = None"
  unfolding run_installation_def
  by (auto simp: destroy_def dest: sequence_run_secret split: prod.splits sum.splits if_splits)

lemma serve_established_secret:
  "serve_established world resolved live exports = (outcome, exports', secret, at) \<Longrightarrow> ss_secret secret = None"
  unfolding serve_established_def
  by (auto simp: session_steps dest!: prove_elevation_secret dest: run_installation_secret
      split: prod.splits sum.splits if_splits)


section \<open>The code a session exits with\<close>

lemma session_exit_codes:
  "session_exit_code terminal = (case terminal of TerminalAccessVerified \<Rightarrow> 0 | TerminalRefused \<Rightarrow> 66
     | TerminalCancelled \<Rightarrow> 67 | TerminalExpired \<Rightarrow> 124 | TerminalUnavailable \<Rightarrow> 69)"
  by (cases terminal) (simp_all add: session_exit_code_def limits)

lemma write_terminal_Inr:
  "write_terminal accepts scope terminal exports = Inr (terminal', event) \<longleftrightarrow>
     terminal' = terminal \<and> event_validate (event_of scope terminal exports) = Inr event \<and> accepts event"
  by (auto simp: write_terminal_def split: sum.splits if_splits)

lemma event_validate_same: "event_validate event = Inr event' \<Longrightarrow> event' = event"
  by (auto simp: event_validate_def Let_def split: if_splits)

text \<open>What \<open>serve_scope\<close> writes, by the way it got there.\<close>

lemma serve_scope_cases:
  assumes "serve_scope serving world scope = result"
  obtains error where "result = Inl error" "error = SessionInternal \<or> error = SessionProtocol"
  | "result = write_terminal (sv_accepts_frame serving) scope TerminalExpired exports_default"
  | "result = write_terminal (sv_accepts_frame serving) scope TerminalCancelled exports_default"
  | observed_at deadline outcome exports secret where "sv_monotonic serving = Some observed_at"
      "deadline_from_observation (sv_last_instant serving) (sv_local_before serving) observed_at
         (sc_issued_at_monotonic_nanos scope) (sc_remaining_millis scope) = Some deadline"
      "sv_now_before serving < deadline" "sv_now_after serving < deadline" "sv_lease serving = LeaseActive"
      "show_prompt (world\<lparr>wd_deadline := deadline\<rparr>) scope = (outcome, exports, secret)"
      "result = write_terminal (sv_accepts_frame serving) scope (terminal_from_prompt outcome) exports"
proof (cases "sv_monotonic serving")
  case None
  show ?thesis by (rule that(1) [of SessionInternal]) (use assms None in \<open>auto simp: serve_scope_def\<close>)
next
  case (Some observed_at)
  note monotonic = Some
  show ?thesis
  proof (cases "deadline_from_observation (sv_last_instant serving) (sv_local_before serving) observed_at
      (sc_issued_at_monotonic_nanos scope) (sc_remaining_millis scope)")
    case None
    show ?thesis by (rule that(1) [of SessionProtocol]) (use assms None monotonic in \<open>auto simp: serve_scope_def\<close>)
  next
    case (Some deadline)
    obtain outcome exports secret where shown: "show_prompt (world\<lparr>wd_deadline := deadline\<rparr>) scope = (outcome, exports, secret)"
      by (metis surj_pair)
    show ?thesis
      using assms monotonic Some shown that
      by (cases "sv_lease serving") (auto simp: serve_scope_def not_le split: if_splits)
  qed
qed

text \<open>C35: the exit code is the event that was written. Serving a scope answers zero exactly when
it wrote an event that says the access was verified; any terminal it answers is the one its
event names, for the request it was asked, and the event passed the protocol's own validation;
and a session that wrote nothing exits on one of the three codes that name no terminal.\<close>

theorem exit_code_is_the_written_event:
  "(serve_exit_code (serve_scope serving world scope) = 0 \<longleftrightarrow>
      (\<exists>event. serve_scope serving world scope = Inr (TerminalAccessVerified, event)))
   \<and> (case serve_scope serving world scope of
        Inl _ \<Rightarrow> serve_exit_code (serve_scope serving world scope) \<in> {65, 70, 74}
      | Inr (terminal, event) \<Rightarrow>
          terminal_exit_code (ev_event event) = Some (serve_exit_code (serve_scope serving world scope))
          \<and> ev_event event = terminal_event terminal \<and> ev_request_id event = sc_request_id scope
          \<and> event_validate event = Inr event)"
proof -
  have written: "ev_event event = terminal_event terminal \<and> ev_request_id event = sc_request_id scope
      \<and> event_validate event = Inr event"
    if "write_terminal accepts scope terminal' exports = Inr (terminal, event)" for accepts terminal' exports terminal event
  proof -
    have terminal: "terminal' = terminal" and valid: "event_validate (event_of scope terminal exports) = Inr event"
      using that by (auto simp: write_terminal_Inr)
    from event_validate_same [OF valid] have "event = event_of scope terminal exports" .
    with valid show ?thesis by (simp add: event_of_def Let_def)
  qed
  have from_scope: "ev_event event = terminal_event terminal \<and> ev_request_id event = sc_request_id scope
      \<and> event_validate event = Inr event"
    if "serve_scope serving world scope = Inr (terminal, event)" for terminal event
    using that written by (cases rule: serve_scope_cases) (auto dest: sym)
  show ?thesis
  proof (cases "serve_scope serving world scope")
    case (Inl error)
    then show ?thesis by (cases error) (simp_all add: limits)
  next
    case (Inr pair)
    then obtain terminal event where pair: "serve_scope serving world scope = Inr (terminal, event)" by (cases pair) auto
    from from_scope [OF pair] pair show ?thesis
      by (cases terminal) (simp_all add: session_exit_codes limits)
  qed
qed

section \<open>The channels of an installation\<close>

definition further :: "nat \<Rightarrow> at_session \<Rightarrow> at_session \<Rightarrow> bool" where
  "further n at at' \<longleftrightarrow>
     lv_channels_spent (snd at') \<le> lv_channels_spent (snd at) + n
     \<and> lv_channel_budget (snd at') = lv_channel_budget (snd at)"

lemma further_trans: "further n at at' \<Longrightarrow> further m at' at'' \<Longrightarrow> further (n + m) at at''"
  by (simp add: further_def)

lemma further_weaken: "further n at at' \<Longrightarrow> n \<le> m \<Longrightarrow> further m at at'"
  by (simp add: further_def)

lemma ask_session_further: "ask_session far command standard_input at = (answered, at') \<Longrightarrow> further 1 at at'"
  by (cases at) (auto simp: ask_session_def Let_def further_def run_channel_session)

lemma observe_further: "observe far at = (machine, at') \<Longrightarrow> further 3 at at'"
proof -
  assume "observe far at = (machine, at')"
  moreover obtain asked_before live where "at = (asked_before, live)" by (cases at)
  ultimately show ?thesis
    using observe_session [of far asked_before live] by (auto simp: further_def run_channel_session)
qed

lemma attested_policy_further:
  assumes "attested_policy world resolved scope exports at = (result, exports', secret, at')"
  shows "further 2 at at'"
proof -
  obtain preflight at1 where first: "ask_session (wd_far world) PREFLIGHT None at = (preflight, at1)" by (metis surj_pair)
  have one: "further 2 at at1" using ask_session_further [OF first] further_weaken by fastforce
  have two: "further 2 at at2" if "ask_session (wd_far world) command standard_input at1 = (answered, at2)"
    for command standard_input answered at2
    using further_trans [OF ask_session_further [OF first] ask_session_further [OF that]] by (simp add: numeral_2_eq_2)
  show ?thesis
    using assms one two unfolding attested_policy_def first
    by (auto simp: Let_def split: option.splits prod.splits PreflightVerdict.splits sum.splits if_splits)
qed

lemma prove_elevation_further:
  assumes "prove_administrator_elevation world resolved exports at = (result, exports', secret, at')"
  shows "further 4 at at'"
proof -
  obtain probe at1 where first: "ask_session (wd_far world) IDENTITY None at = (probe, at1)" by (metis surj_pair)
  have one: "further 1 at at1" by (rule ask_session_further [OF first])
  obtain policy exports2 secret2 at2 where second:
      "attested_policy world resolved (for_actions (sc_actions resolved)) exports at1 = (policy, exports2, secret2, at2)"
    by (metis surj_pair)
  have three: "further 3 at at2" using further_trans [OF one attested_policy_further [OF second]] by (simp add: numeral_3_eq_3)
  have four: "further 4 at at3" if "ask_session (wd_far world) command standard_input at2 = (answered, at3)"
    for command standard_input answered at3
    using further_trans [OF three ask_session_further [OF that]] by simp
  have "further 4 at at1" "further 4 at at2" using one three further_weaken by fastforce+
  with assms four show ?thesis
    unfolding prove_administrator_elevation_def first
    by (auto simp: second split: option.splits prod.splits sum.splits if_splits)
qed

lemma established_fresh:
  assumes "establish_with world target approved (for_selected_identity identity) = (Inr live, budget)"
  shows "lv_channels_spent live = 0" "lv_channel_budget live = MAX_EXEC_CHANNELS"
  using assms by (auto simp: establish_with_def and_then_Inr_iff split: if_splits prod.splits)

lemma establish_credential_fresh:
  assumes "establish_credential world prepared approved credential = Inr live"
  shows "lv_channels_spent live = 0" "lv_channel_budget live = MAX_EXEC_CHANNELS"
proof -
  obtain identity budget where
    "establish_with (wd_open world) (pp_target prepared) approved (for_selected_identity identity) = (Inr live, budget)"
    using assms
    by (cases credential)
      (auto simp: establish_session_def establish_with_key_def agent_select_def and_then_Inr_iff
        split: option.splits sum.splits prod.splits)
  from established_fresh [OF this] show "lv_channels_spent live = 0" "lv_channel_budget live = MAX_EXEC_CHANNELS" .
qed

text \<open>C11: an installation is never short of a channel. On a session just established, whose
budget was adopted from the actions the user approved, the proof of the elevation and the
observation of the machine leave the sequence every channel it can ask for: it is not refused
its budget, each of its questions opens a channel, and the whole session ends within the budget
the actions call for.\<close>

theorem installation_never_lacks_a_channel:
  assumes established: "establish_credential world prepared approved credential = Inr live"
    and budget: "channel_budget (sc_actions resolved) \<noteq> 0"
    and adopted: "adopt_derived_budget (channel_budget (sc_actions resolved)) live = (Inr (), live')"
    and proven: "prove_administrator_elevation world resolved exports ([], live') = (Inr proof, exports', retained, at)"
    and observed: "observe (wd_far world) at = (machine, at')"
    and run: "sequence_run (installation_job world resolved proof at' authorised payload) = (outcome, trace, secret)"
  shows "so_stopped outcome \<noteq> Some BudgetRefused
    \<and> lv_channels_spent (session_after (wd_far world) (fst at') trace (snd at'))
        = lv_channels_spent (snd at') + length (commands_of trace)
    \<and> lv_channels_spent (session_after (wd_far world) (fst at') trace (snd at')) \<le> channel_budget (sc_actions resolved)"
proof -
  have live': "lv_channels_spent live' = 0" "lv_channel_budget live' = channel_budget (sc_actions resolved)"
    using adopted establish_credential_fresh [OF established]
    by (auto simp: adopt_derived_budget_def split: if_splits)
  have "further 7 ([], live') at'"
    using further_trans [OF prove_elevation_further [OF proven] observe_further [OF observed]] by simp
  then have at': "lv_channels_spent (snd at') \<le> 7" "lv_channel_budget (snd at') = channel_budget (sc_actions resolved)"
    using live' by (simp_all add: further_def)
  let ?job = "installation_job world resolved proof at' authorised payload"
  have job: "jb_machine ?job = session_channel (wd_far world) (fst at') (snd at')" "jb_actions ?job = sc_actions resolved"
    by (simp_all add: installation_job_def)
  note room = sequence_is_never_refused_a_channel [OF job(1) _ _ at'(1) run]
  show ?thesis using room budget at'(2) by (simp add: job(2))
qed

section \<open>What a verified access rests on\<close>

text \<open>A state of one session: it was opened as \<open>live\<close>, and these events brought it here.\<close>

definition in_session :: "far_side \<Rightarrow> LiveSession \<Rightarrow> at_session \<Rightarrow> bool" where
  "in_session far live at \<longleftrightarrow> (\<exists>events. at = (commands_of events, session_after far [] events live))"

lemma in_session_start: "in_session far live ([], live)"
  unfolding in_session_def by (rule exI [of _ "[]"]) simp

lemma in_session_more:
  "in_session far live at \<Longrightarrow> in_session far live (fst at @ commands_of events, session_after far (fst at) events (snd at))"
  unfolding in_session_def
proof (elim exE)
  fix before
  assume "at = (commands_of before, session_after far [] before live)"
  then show "\<exists>events'. (fst at @ commands_of events, session_after far (fst at) events (snd at))
      = (commands_of events', session_after far [] events' live)"
    by (intro exI [of _ "before @ events"]) (simp add: session_after_append)
qed

lemma in_session_ask:
  assumes "in_session far live at" and "ask_session far command standard_input at = (answered, at')"
  shows "in_session far live at'"
  using in_session_more [OF assms(1), of "[Ran command standard_input]"] assms(2)
  by (cases at) (auto dest!: ask_session_after)

lemma in_session_adopted:
  "adopt_derived_budget budget live = (result, live') \<Longrightarrow> in_session far live ([], live')"
  unfolding in_session_def by (rule exI [of _ "[AdoptBudget budget]"]) simp

lemma in_session_observed:
  assumes "in_session far live at" and "observe far at = (machine, at')"
  shows "in_session far live at'"
proof -
  obtain asked_before now where at: "at = (asked_before, now)" by (cases at)
  show ?thesis
    using in_session_more [OF assms(1), of "[Ran ARCHITECTURE None, Ran FILESYSTEM None, Ran FACT_FILES None]"]
      assms(2) observe_session [of far asked_before now]
    by (simp add: at)
qed

text \<open>The far side answered root's uid, and zero, to this command at some point of the session.\<close>

definition answered_root :: "far_side \<Rightarrow> LiveSession \<Rightarrow> FixedCommand \<Rightarrow> bool" where
  "answered_root far live command \<longleftrightarrow>
     (\<exists>at input report. in_session far live at
        \<and> fst (run_channel (far (fst at @ [(command, input)])) command input (snd at)) = Some (Inr report)
        \<and> cr_exit_status report = 0 \<and> text_of (cr_stdout report) \<in> {''0'', ''0'' @ [newline]})"

lemma ask_session_answered:
  assumes "in_session far live at" and "ask_session far command input at = (Some report, at')"
    and "cr_exit_status report = 0" and "Elevation.read_uid (cr_stdout report) = Inr ROOT_UID"
  shows "answered_root far live command"
proof -
  have "fst (run_channel (far (fst at @ [(command, input)])) command input (snd at)) = Some (Inr report)"
    using assms(2) by (cases at) (auto simp: ask_session_def Let_def split: option.splits sum.splits)
  with assms read_uid_root show ?thesis unfolding answered_root_def by blast
qed

lemma elevated_Inr:
  "elevated exit_status stdout stderr = Inr witness \<Longrightarrow>
     exit_status = 0 \<and> Elevation.read_uid stdout = Inr ROOT_UID \<and> witness = \<lparr>el_route = AdministratorRoute\<rparr>"
  by (auto simp: elevated_def and_then_Inr_iff verified_pair_Inr)

lemma root_access_Inr:
  "root_access consented exit_status stdout stderr = Inr witness \<Longrightarrow>
     exit_status = 0 \<and> Elevation.read_uid stdout = Inr ROOT_UID"
  by (auto simp: root_access_def attest_identity_def and_then_Inr_iff guard_Inr_iff verified_pair_Inr split: bool.splits if_splits)

lemma attested_policy_session:
  assumes "attested_policy world resolved scope exports at = (result, exports', secret, at')"
    and "in_session (wd_far world) live at"
  shows "in_session (wd_far world) live at'"
proof -
  obtain preflight at1 where first: "ask_session (wd_far world) PREFLIGHT None at = (preflight, at1)" by (metis surj_pair)
  note one = in_session_ask [OF assms(2) first]
  show ?thesis
    using assms(1) one in_session_ask [OF one] unfolding attested_policy_def first
    by (auto simp: Let_def split: option.splits prod.splits PreflightVerdict.splits sum.splits if_splits)
qed

lemma attest_policy_command:
  "attest_policy succeeded output truncated scope = Inr attested \<Longrightarrow>
     atp_command attested \<in> {ELEVATE_WITH_PASSWORD, ELEVATE_WITHOUT_PASSWORD}"
  by (auto simp: attest_policy_def and_then_Inr_iff Let_def split: sum.splits if_splits)

lemma attested_policy_command:
  "attested_policy world resolved scope exports at = (Inr attested, exports', secret, at') \<Longrightarrow>
     atp_command attested \<in> {ELEVATE_WITH_PASSWORD, ELEVATE_WITHOUT_PASSWORD}"
  unfolding attested_policy_def
  by (auto simp: Let_def read_policy_def attest_policy_after_secret_def and_then_Inr_iff dest!: attest_policy_command
      split: option.splits prod.splits PreflightVerdict.splits sum.splits if_splits)

lemma prove_elevation_rests:
  assumes "prove_administrator_elevation world resolved exports at = (Inr proof, exports', secret, at')"
    and "in_session (wd_far world) live at"
  shows "in_session (wd_far world) live at'
    \<and> (\<exists>command \<in> {ELEVATE_WITH_PASSWORD, ELEVATE_WITHOUT_PASSWORD}. answered_root (wd_far world) live command)"
proof -
  obtain probe at1 where first: "ask_session (wd_far world) IDENTITY None at = (probe, at1)" by (metis surj_pair)
  obtain policy exports2 secret2 at2 where second:
      "attested_policy world resolved (for_actions (sc_actions resolved)) exports at1 = (policy, exports2, secret2, at2)"
    by (metis surj_pair)
  have two: "in_session (wd_far world) live at2"
    by (rule attested_policy_session [OF second in_session_ask [OF assms(2) first]])
  obtain attested input report where policy: "policy = Inr attested"
      and third: "ask_session (wd_far world) (atp_command attested) input at2 = (Some report, at')"
      and proven: "elevated (cr_exit_status report) (cr_stdout report) (cr_stderr report) = Inr (pe_witness proof)"
    using assms(1) unfolding prove_administrator_elevation_def first
    by (auto simp: second split: option.splits prod.splits sum.splits if_splits)
  have root: "cr_exit_status report = 0 \<and> Elevation.read_uid (cr_stdout report) = Inr ROOT_UID"
    using elevated_Inr [OF proven] by blast
  have "answered_root (wd_far world) live (atp_command attested)"
    by (rule ask_session_answered [OF two third]) (use root in blast)+
  moreover have "atp_command attested \<in> {ELEVATE_WITH_PASSWORD, ELEVATE_WITHOUT_PASSWORD}"
    by (rule attested_policy_command [OF second [unfolded policy]])
  ultimately show ?thesis using in_session_ask [OF two third] by blast
qed

text \<open>What was installed, and on which witnesses.\<close>

definition installed :: "'k World \<Rightarrow> AssistantScopeV1 \<Rightarrow> LiveSession \<Rightarrow> bool" where
  "installed world resolved live \<longleftrightarrow>
     (\<exists>at machine at' declared manifest sig authorised payload proof outcome trace secret.
        sc_mode resolved = Create
        \<and> in_session (wd_far world) live at \<and> observe (wd_far world) at = (machine, at')
        \<and> sc_declared_target resolved = Some declared \<and> dt_private declared \<and> dt_normally_on declared
        \<and> compatibility Controller machine = []
        \<and> wd_carried world = Some (manifest, sig, pl_artifact payload)
        \<and> verify_bundle (wd_ed world) (wd_from_slice world) (wd_sha world) (wd_anchor world) manifest sig
             (wd_version world) (pl_artifact payload) = Inr (pl_bundle payload)
        \<and> (case sc_machine_configuration resolved of
             None \<Rightarrow> pl_configuration payload = None
           | Some given \<Rightarrow> \<exists>composed. pl_configuration payload = Some composed
               \<and> compose (wd_sha world) (mc_listen given) (mc_allowed_source given) (mc_relay_endpoint given) = Inr composed)
        \<and> ip_endpoint authorised = tg_host (sc_target resolved) \<and> ip_version authorised = vb_version (pl_bundle payload)
        \<and> sequence_run (installation_job world resolved proof at' authorised payload) = (outcome, trace, secret)
        \<and> so_stopped outcome = None)"

lemma approve_Inr:
  "approve proposal approval = Inr placement \<longleftrightarrow>
     ap_role approval = pr_role proposal \<and> ap_endpoint approval = pr_endpoint proposal
     \<and> placement = \<lparr>apl_role = pr_role proposal, apl_endpoint = pr_endpoint proposal\<rparr>"
  by (auto simp: approve_def)

lemma installation_payload_Inr:
  assumes "installation_payload world resolved machine witness = Inr (authorised, payload)"
  shows "\<exists>declared manifest sig. sc_declared_target resolved = Some declared \<and> dt_private declared \<and> dt_normally_on declared
    \<and> compatibility Controller machine = []
    \<and> wd_carried world = Some (manifest, sig, pl_artifact payload)
    \<and> verify_bundle (wd_ed world) (wd_from_slice world) (wd_sha world) (wd_anchor world) manifest sig
         (wd_version world) (pl_artifact payload) = Inr (pl_bundle payload)
    \<and> (case sc_machine_configuration resolved of
         None \<Rightarrow> pl_configuration payload = None
       | Some given \<Rightarrow> \<exists>composed. pl_configuration payload = Some composed
           \<and> compose (wd_sha world) (mc_listen given) (mc_allowed_source given) (mc_relay_endpoint given) = Inr composed)
    \<and> ip_endpoint authorised = tg_host (sc_target resolved) \<and> ip_version authorised = vb_version (pl_bundle payload)"
proof -
  obtain endpoint approval where claim: "declared_placement_claim resolved = Some (endpoint, approval)"
    using assms by (auto simp: installation_payload_def split: option.splits)
  then obtain declared where declared: "sc_declared_target resolved = Some declared"
      "de_exposure endpoint = (if dt_private declared then Private else Exposed)"
      "de_availability endpoint = (if dt_normally_on declared then NormallyOn else Intermittent)"
      "ap_endpoint approval = tg_host (sc_target resolved)"
    by (auto simp: declared_placement_claim_def split: option.splits)
  obtain proposal placement where placed: "propose Controller endpoint machine = Inr proposal"
      "approve proposal approval = Inr placement"
    using assms claim by (auto simp: installation_payload_def and_then_Inr_iff split: sum.splits)
  note proposed = propose_Inr [OF placed(1)]
  have rule: "placement_rule Controller endpoint (declared_roles machine) = None" by (rule proposed(1))
  have declared_so: "dt_private declared \<and> dt_normally_on declared"
    using rule declared(2,3) by (auto split: if_splits)
  obtain manifest sig artifact verified composed where rest:
      "wd_carried world = Some (manifest, sig, artifact)"
      "verify_bundle (wd_ed world) (wd_from_slice world) (wd_sha world) (wd_anchor world) manifest sig (wd_version world) artifact
         = Inr verified"
      "(case sc_machine_configuration resolved of None \<Rightarrow> Inr None
        | Some given \<Rightarrow> and_then (compose (wd_sha world) (mc_listen given) (mc_allowed_source given)
             (mc_relay_endpoint given)) (\<lambda>composed. Inr (Some composed))) = Inr composed"
      "authorize verified placement witness Creation = Inr authorised"
      "payload = \<lparr>pl_bundle = verified, pl_artifact = artifact, pl_configuration = composed\<rparr>"
    using assms claim placed by (auto simp: installation_payload_def split: option.splits sum.splits)
  have "ip_endpoint authorised = tg_host (sc_target resolved) \<and> ip_version authorised = vb_version verified"
    using rest(4) placed(2) declared(4) by (auto simp: authorize_Inr approve_Inr)
  moreover have "case sc_machine_configuration resolved of None \<Rightarrow> composed = None
      | Some given \<Rightarrow> \<exists>c. composed = Some c
          \<and> compose (wd_sha world) (mc_listen given) (mc_allowed_source given) (mc_relay_endpoint given) = Inr c"
    using rest(3) by (auto simp: and_then_Inr_iff split: option.splits)
  moreover have payload: "pl_bundle payload = verified" "pl_artifact payload = artifact" "pl_configuration payload = composed"
    using rest(5) by simp_all
  ultimately show ?thesis unfolding payload using declared(1) declared_so proposed(2) rest(1,2) by blast
qed

lemma run_installation_installs:
  assumes "run_installation world resolved proof at = (Verified witness, ledger, secret, at')"
    and "in_session (wd_far world) live at"
  shows "installed world resolved live"
proof -
  obtain machine at1 where observed: "observe (wd_far world) at = (machine, at1)" by (metis surj_pair)
  have created: "sc_mode resolved = Create" using assms(1) by (cases "sc_mode resolved") (auto simp: run_installation_def)
  obtain authorised payload outcome trace secret' where run:
      "installation_payload world resolved machine (pe_witness proof) = Inr (authorised, payload)"
      "sequence_run (installation_job world resolved proof at1 authorised payload) = (outcome, trace, secret')"
      "outcome_of_sequence (pe_witness proof) (so_stopped outcome) = Verified witness"
  proof (cases "installation_payload world resolved machine (pe_witness proof)")
    case (Inl refused)
    have "refused \<in> {PromptUnavailable, PromptRefused}"
      using Inl by (auto simp: installation_payload_def split: option.splits sum.splits prod.splits)
    with Inl assms(1) created observed show ?thesis by (auto simp: run_installation_def)
  next
    case (Inr pair)
    with assms(1) created observed that show ?thesis
      by (cases pair) (auto simp: run_installation_def split: prod.splits)
  qed
  have "so_stopped outcome = None"
    using run(3) by (cases "(pe_witness proof, so_stopped outcome)" rule: outcome_of_sequence.cases) simp_all
  with installation_payload_Inr [OF run(1)] created assms(2) observed run(2) show ?thesis
    unfolding installed_def by blast
qed

text \<open>
  No window answers a witness of root: a witness exists only where a far side answered, and
  no window reaches one.
\<close>

definition windows_bear_no_witness :: "'k World \<Rightarrow> bool" where
  "windows_bear_no_witness world \<longleftrightarrow>
     (\<forall>scope witness. wd_prompt world scope \<noteq> Verified witness)
     \<and> (\<forall>scope identities witness. wd_prompt_with_identities world scope identities \<noteq> Verified witness)"

lemma policy_refusal_not_verified: "fst (policy_refusal refusal exports) \<noteq> Verified witness"
  by (cases "(refusal, exports)" rule: policy_refusal.cases) simp_all

lemma ask_sudo_not_verified:
  "windows_bear_no_witness world \<Longrightarrow> ask_sudo_password world resolved \<noteq> Inl (Verified witness)"
  by (auto simp: ask_sudo_password_def windows_bear_no_witness_def split: sum.splits PromptOutcome.splits)

lemma attested_policy_not_verified:
  assumes "windows_bear_no_witness world"
  shows "fst (attested_policy world resolved scope exports at) \<noteq> Inl (Verified witness)"
proof -
  have refusal: "policy_refusal refusal exports = (outcome, exports') \<Longrightarrow> outcome \<noteq> Verified witness"
    for refusal exports outcome exports' using policy_refusal_not_verified [of refusal exports witness] by simp
  show ?thesis
    unfolding attested_policy_def Let_def
    using refusal ask_sudo_not_verified [OF assms, of resolved witness]
    by (auto split: option.splits prod.splits PreflightVerdict.splits sum.splits if_splits)
qed

lemma prove_elevation_not_verified:
  assumes "windows_bear_no_witness world"
  shows "fst (prove_administrator_elevation world resolved exports at) \<noteq> Inl (Verified witness)"
proof -
  have policy: "attested_policy world resolved scope exports at = (Inl outcome, exports', secret, at') \<Longrightarrow>
      outcome \<noteq> Verified witness" for scope exports at outcome exports' secret at'
    using attested_policy_not_verified [OF assms, of resolved scope exports at witness] by simp
  show ?thesis
    unfolding prove_administrator_elevation_def
    using policy by (auto split: option.splits prod.splits sum.splits if_splits)
qed

lemma choose_credential_not_verified:
  "windows_bear_no_witness world \<Longrightarrow>
     choose_credential world resolved (wd_prompt_with_identities world resolved identities) \<noteq> Inl (Verified witness)"
  by (auto simp: choose_credential_def windows_bear_no_witness_def open_personal_key_def and_then_def ok_or_def
      split: PromptOutcome.splits sum.splits option.splits)

lemma serve_established_rests:
  assumes "serve_established world resolved live exports = (Verified witness, exports', secret, at)"
    and "windows_bear_no_witness world"
  shows "(\<exists>command \<in> {ELEVATE_WITH_PASSWORD, ELEVATE_WITHOUT_PASSWORD}. answered_root (wd_far world) live command)
    \<and> (scope_covers (sc_actions resolved) InstallServerBundle \<longrightarrow> installed world resolved live)"
proof -
  let ?budget = "channel_budget (sc_actions resolved)"
  obtain result live' where adopted: "(if ?budget \<noteq> 0 then adopt_derived_budget ?budget live else (Inr (), live)) = (result, live')"
    by (metis surj_pair)
  have start: "in_session (wd_far world) live ([], live')"
    using adopted in_session_adopted in_session_start by (auto split: if_splits)
  obtain proven exports1 secret1 at1 where proven:
      "prove_administrator_elevation world resolved exports ([], live') = (proven, exports1, secret1, at1)"
    by (metis surj_pair)
  have "proven \<noteq> Inl (Verified witness)"
    using prove_elevation_not_verified [OF assms(2), of resolved exports "([], live')" witness] proven by simp
  then obtain granted where granted: "proven = Inr granted"
    using assms(1) adopted proven unfolding serve_established_def Let_def
    by (cases proven) (auto split: if_splits)
  note rests = prove_elevation_rests [OF proven [unfolded granted] start]
  have "installed world resolved live" if covers: "scope_covers (sc_actions resolved) InstallServerBundle"
  proof -
    obtain outcome ledger secret2 at2 where run: "run_installation world resolved granted at1 = (outcome, ledger, secret2, at2)"
      by (metis surj_pair)
    have "outcome = Verified witness"
      using assms(1) adopted proven granted covers run unfolding serve_established_def Let_def
      by (auto split: if_splits)
    with run_installation_installs [OF run [unfolded this]] rests show ?thesis by blast
  qed
  with rests show ?thesis by blast
qed

lemma shown_scope_target:
  assumes "shown_scope world scope = Some (prepared, resolved)"
  shows "tg_host_key_sha256 (sc_target resolved) = tg_host_key_sha256 (sc_target scope)"
  using assms
  by (auto simp: shown_scope_def scope_validate_Inr validate_target_Inr resolved_scope_def split: sum.splits)

lemma root_outcome_rests:
  assumes "serve_root_access world scope = Verified witness" and "windows_bear_no_witness world"
  shows "\<exists>prepared resolved selected live. shown_scope world scope = Some (prepared, resolved)
    \<and> establish_credential world prepared (tg_host_key_sha256 (sc_target scope)) (AgentIdentity selected) = Inr live
    \<and> wd_prompt_with_identities world resolved (pp_identities prepared) = ConsentWithIdentity selected
    \<and> answered_root (wd_far world) live IDENTITY"
proof -
  obtain prepared resolved where shown: "shown_scope world scope = Some (prepared, resolved)"
    using assms(1) by (auto simp: serve_root_access_def split: option.splits)
  obtain selected where consent: "wd_prompt_with_identities world resolved (pp_identities prepared) = ConsentWithIdentity selected"
    using assms shown
    by (cases "wd_prompt_with_identities world resolved (pp_identities prepared)")
      (auto simp: serve_root_access_def windows_bear_no_witness_def)
  obtain live where live: "fst (establish_session (wd_open world) prepared (tg_host_key_sha256 (sc_target resolved)) selected) = Inr live"
    using assms(1) shown consent by (auto simp: serve_root_access_def split: sum.splits)
  obtain answered at where asked: "ask_session (wd_far world) IDENTITY None ([], live) = (answered, at)" by (metis surj_pair)
  obtain probe where probe: "answered = Some probe"
      "root_access True (cr_exit_status probe) (cr_stdout probe) (cr_stderr probe) = Inr witness"
    using assms(1) shown consent live asked by (auto simp: serve_root_access_def split: option.splits sum.splits)
  have root: "cr_exit_status probe = 0 \<and> Elevation.read_uid (cr_stdout probe) = Inr ROOT_UID"
    by (rule root_access_Inr [OF probe(2)])
  have "answered_root (wd_far world) live IDENTITY"
    by (rule ask_session_answered [OF in_session_start asked [unfolded probe(1)]]) (use root in blast)+
  with shown consent live shown_scope_target [OF shown] show ?thesis by auto
qed

lemma personal_outcome_rests:
  assumes "serve_personal_access world scope exports = (Verified witness, exports', secret)"
    and "windows_bear_no_witness world"
  shows "\<exists>prepared resolved credential live. shown_scope world scope = Some (prepared, resolved)
    \<and> establish_credential world prepared (tg_host_key_sha256 (sc_target scope)) credential = Inr live
    \<and> (\<exists>command \<in> {ELEVATE_WITH_PASSWORD, ELEVATE_WITHOUT_PASSWORD}. answered_root (wd_far world) live command)
    \<and> (scope_covers (sc_actions resolved) InstallServerBundle \<longrightarrow> installed world resolved live)"
proof -
  obtain prepared resolved where shown: "shown_scope world scope = Some (prepared, resolved)"
    using assms(1) by (auto simp: serve_personal_access_def split: option.splits)
  obtain credential where chosen:
      "choose_credential world resolved (wd_prompt_with_identities world resolved (pp_identities prepared)) = Inr credential"
    using assms shown choose_credential_not_verified [OF assms(2)]
    by (auto simp: serve_personal_access_def split: sum.splits)
  obtain live where live: "establish_credential world prepared (tg_host_key_sha256 (sc_target scope)) credential = Inr live"
    using assms(1) shown chosen by (auto simp: serve_personal_access_def split: sum.splits)
  obtain at where "serve_established world resolved live exports = (Verified witness, exports', secret, at)"
    using assms(1) shown chosen live by (auto simp: serve_personal_access_def split: prod.splits)
  from serve_established_rests [OF this assms(2)] shown live show ?thesis by blast
qed

lemma verified_outcome_rests:
  assumes "windows_bear_no_witness world" and "show_prompt world scope = (Verified witness, exports, secret)"
  shows "\<exists>prepared resolved credential live. shown_scope world scope = Some (prepared, resolved)
    \<and> establish_credential world prepared (tg_host_key_sha256 (sc_target scope)) credential = Inr live
    \<and> (sc_prompt scope = ConfirmRootAccess
          \<and> wd_prompt_with_identities world resolved (pp_identities prepared)
              = ConsentWithIdentity (credential_fingerprint credential)
          \<and> answered_root (wd_far world) live IDENTITY
       \<or> sc_prompt scope = ConfirmPersonalAccess
          \<and> (\<exists>command \<in> {ELEVATE_WITH_PASSWORD, ELEVATE_WITHOUT_PASSWORD}. answered_root (wd_far world) live command)
          \<and> (scope_covers (sc_actions resolved) InstallServerBundle \<longrightarrow> installed world resolved live))"
proof (cases "sc_prompt scope")
  case ConfirmPersonalAccess
  with assms(2) personal_outcome_rests [OF _ assms(1)] show ?thesis by fastforce
next
  case ConfirmRootAccess
  with assms(2) have "serve_root_access world scope = Verified witness" by simp
  from root_outcome_rests [OF this assms(1)] ConfirmRootAccess show ?thesis
    by (metis credential_fingerprint.simps(1))
qed (use assms in \<open>simp_all add: windows_bear_no_witness_def\<close>)


section \<open>Concrete sessions\<close>

lemma ask_printing:
  assumes "lv_channels_spent live < lv_channel_budget live" and "length printed \<le> 4096"
    and "far (asked_before @ [(command, None)]) = printing status printed"
  shows "ask_session far command None (asked_before, live)
      = (Some \<lparr>cr_exit_status = status, cr_stdout = as_bytes printed, cr_stderr = []\<rparr>,
         asked_before @ [(command, None)], live\<lparr>lv_channels_spent := lv_channels_spent live + 1\<rparr>)"
  using run_printing [OF assms(1), of printed status command] assms
  by (simp add: ask_session_def Let_def run_channel_session limits)

text \<open>A host lent as root, whose session names the key the scope carries.\<close>

definition root_scope :: AssistantScopeV1 where
  "root_scope = sample_scope\<lparr>sc_target := sample_target\<lparr>tg_username := ''root'', tg_access_kind := Root\<rparr>,
     sc_step := RootAccess, sc_prompt := ConfirmRootAccess\<rparr>"

lemma root_scope_valid: "scope_validate sample_no_pad root_scope = Inr root_scope"
proof -
  have pieces: "sc_schema_version sample_scope = 1" "canonical_request_id (sc_request_id sample_scope)"
    "1 \<le> sc_remaining_millis sample_scope" "sc_remaining_millis sample_scope \<le> MAX_ASSISTANT_REMAINING_MILLIS"
    "valid_target_addresses (sc_target_addresses sample_scope)" "approved_scope (sc_actions sample_scope)"
    "configuration_matches_scope (sc_machine_configuration sample_scope) (sc_actions sample_scope)"
    "declaration_matches_scope (sc_declared_target sample_scope) (sc_actions sample_scope)"
    using sample_scope_valid by (simp_all add: scope_validate_def split: if_splits)
  have host: "canonical_host (tg_host sample_target) = Inr (tg_host sample_target)" "tg_port sample_target \<noteq> 0"
    "validate_host_key sample_no_pad (tg_host_key_sha256 sample_target) = Inr ()"
    using sample_target_valid by (auto simp: validate_target_Inr dest: arg_cong [where f = tg_host])
  have "valid_username ''root'' Root" by (simp add: valid_username_def limits ascii_simps)
  then have "validate_target sample_no_pad (sc_target root_scope) = Inr (sc_target root_scope)"
    using host by (simp add: validate_target_Inr root_scope_def)
  moreover have "prompt_matches_scope ConfirmRootAccess RootAccess Root" by simp
  ultimately show ?thesis using pieces by (simp add: scope_validate_def root_scope_def)
qed

definition world_of :: "(AssistantScopeV1 \<Rightarrow> OfferedIdentity list \<Rightarrow> PromptOutcome) \<Rightarrow> string \<Rightarrow> far_side \<Rightarrow> unit World" where
  "world_of window fingerprint far =
     \<lparr>wd_no_pad = sample_no_pad, wd_interfaces = Some [HoldsAddress (V4 (Ipv4 127 0 0 1))],
      wd_deadline = 0, wd_now = 0, wd_resolver = AnsweredInTime (Some [V4 (Ipv4 192 168 1 20)]), wd_runtime = True,
      wd_agent = Inr [\<lparr>oi_algorithm = AlgorithmEd25519, oi_fingerprint = ''mine'', oi_is_certificate = False\<rparr>],
      wd_prompt = (\<lambda>_. PromptCancelled), wd_prompt_with_identities = window,
      wd_key_file = (\<lambda>_. None), wd_unlock = (\<lambda>_ _. None),
      wd_open = open_sample\<lparr>ow_callbacks := [KexDone ''ssh-ed25519'',
        ServerKey \<lparr>pk_algorithm = ''ssh-ed25519'', pk_fingerprint = fingerprint\<rparr>]\<rparr>,
      wd_far = far, wd_carried = None, wd_ed = \<lparr>verifying_key = (\<lambda>_. None), key_verifies = (\<lambda>_ _ _. False)\<rparr>,
      wd_from_slice = (\<lambda>_. None), wd_sha = (\<lambda>_. []), wd_anchor = [], wd_version = []\<rparr>"

definition root_world :: "unit World" where
  "root_world = world_of (\<lambda>_ _. ConsentWithIdentity ''mine'') (tg_host_key_sha256 sample_target) (\<lambda>_. printing 0 ''0'')"

definition sample_serving :: Serving where
  "sample_serving = \<lparr>sv_last_instant = 10 ^ 18, sv_local_before = 0, sv_monotonic = Some 5, sv_tightened = True,
     sv_now_before = 0, sv_now_after = 7, sv_lease = LeaseActive, sv_accepts_frame = (\<lambda>_. True)\<rparr>"

lemma sample_deadline: "deadline_from_observation (10 ^ 18) 0 5 5 60000 = Some 60000000000"
  by (simp add: deadline_from_observation_def)

lemma sample_print_facts:
  "\<not> blank (tg_host_key_sha256 sample_target)" "length (tg_host_key_sha256 sample_target) = 50"
  unfolding sample_target_def by code_simp+

definition sample_prepared :: Prepared where
  "sample_prepared =
     \<lparr>pp_agent = Some [\<lparr>oi_algorithm = AlgorithmEd25519, oi_fingerprint = ''mine'', oi_is_certificate = False\<rparr>],
      pp_agent_refusal = None,
      pp_target = \<lparr>ft_name = ''192.168.1.20'', ft_port = 22, ft_addresses = [V4 (Ipv4 192 168 1 20)]\<rparr>,
      pp_identities = [\<lparr>oi_algorithm = AlgorithmEd25519, oi_fingerprint = ''mine'', oi_is_certificate = False\<rparr>]\<rparr>"

lemma sample_prepared_open:
  assumes "0 < deadline"
  shows "prepared_open ((world_of window fingerprint far)\<lparr>wd_deadline := deadline\<rparr>) ''192.168.1.20'' 22 = Inr sample_prepared"
  using assms
  by (simp add: prepared_open_def world_of_def sample_prepared_def observe_local_def observe_interface_addresses_def
      from_observation_def resolve_once_bounded_def resolve_once_def MAX_RESOLUTION_WAIT_def freeze_def limits
      is_ascii_graphic_def code_def Let_def)

lemma sample_resolved: "resolved_scope root_scope (pp_target sample_prepared) = root_scope"
  using sample_address(2) by (simp add: resolved_scope_def sample_prepared_def root_scope_def sample_scope_def)

lemma sample_session_opens:
  "establish_with (open_sample\<lparr>ow_callbacks := [KexDone ''ssh-ed25519'',
        ServerKey \<lparr>pk_algorithm = ''ssh-ed25519'', pk_fingerprint = tg_host_key_sha256 sample_target\<rparr>]\<rparr>)
      (pp_target sample_prepared) (tg_host_key_sha256 sample_target) (for_selected_identity ''mine'')
    = (Inr fresh_session, \<lparr>sb_selected_fingerprint = ''mine'', sb_remaining = 0\<rparr>)"
  by (simp add: establish_with_def open_session_def open_sample_def sample_prepared_def allows_def authenticate_def
      kex_done_def verdict_default_def check_server_key_def attested_host_key_type_def Let_def auth_sign_def
      authorise_def for_selected_identity_def attest_presented_def sample_print_facts from_key_type_name_def
      host_key_algorithm_from_wire_name_def fresh_session_def limits)



lemma root_says_zero: "root_access True 0 (as_bytes ''0'') [] = Inr \<lparr>el_route = RootRoute\<rparr>"
proof -
  have "Elevation.read_uid (as_bytes ''0'') = Inr ROOT_UID" by (simp add: read_uid_root)
  moreover have "bounded [] = Inr []" by (simp add: bounded_Inr is_ascii_bytes_def text_of_def)
  ultimately show ?thesis
    by (simp add: root_access_def attest_identity_def verified_pair_Inr ROOT_UID_def)
qed

lemma root_world_shows:
  assumes "0 < deadline"
  shows "shown_scope (root_world\<lparr>wd_deadline := deadline\<rparr>) root_scope = Some (sample_prepared, root_scope)"
proof -
  have host: "tg_host (sc_target root_scope) = ''192.168.1.20''" "tg_port (sc_target root_scope) = 22"
    by (simp_all add: root_scope_def sample_target_def)
  have "wd_no_pad (root_world\<lparr>wd_deadline := deadline\<rparr>) = sample_no_pad" by (simp add: root_world_def world_of_def)
  moreover have "prepared_open (root_world\<lparr>wd_deadline := deadline\<rparr>) ''192.168.1.20'' 22 = Inr sample_prepared"
    unfolding root_world_def by (rule sample_prepared_open [OF assms])
  ultimately show ?thesis
    by (simp add: shown_scope_def host sample_resolved root_scope_valid)
qed

lemma sample_session_established:
  assumes "wd_open world = open_sample\<lparr>ow_callbacks := [KexDone ''ssh-ed25519'',
        ServerKey \<lparr>pk_algorithm = ''ssh-ed25519'', pk_fingerprint = tg_host_key_sha256 sample_target\<rparr>]\<rparr>"
  shows "fst (establish_session (wd_open world) sample_prepared (tg_host_key_sha256 sample_target) ''mine'') = Inr fresh_session"
proof -
  have "agent_select [\<lparr>oi_algorithm = AlgorithmEd25519, oi_fingerprint = ''mine'', oi_is_certificate = False\<rparr>] ''mine''
      = Inr \<lparr>bs_budget = for_selected_identity ''mine'',
          bs_selected = \<lparr>oi_algorithm = AlgorithmEd25519, oi_fingerprint = ''mine'', oi_is_certificate = False\<rparr>\<rparr>"
    by (simp add: agent_select_def)
  moreover have "pp_agent sample_prepared = Some [\<lparr>oi_algorithm = AlgorithmEd25519, oi_fingerprint = ''mine'', oi_is_certificate = False\<rparr>]"
    by (simp add: sample_prepared_def)
  ultimately show ?thesis
    unfolding establish_session_def assms by (simp add: sample_session_opens)
qed

lemma fresh_asks:
  assumes "length printed \<le> 4096"
  shows "ask_session (\<lambda>_. printing status printed) command None ([], fresh_session)
      = (Some \<lparr>cr_exit_status = status, cr_stdout = as_bytes printed, cr_stderr = []\<rparr>, [(command, None)],
         fresh_session\<lparr>lv_channels_spent := 1\<rparr>)"
  using ask_printing [of fresh_session printed "\<lambda>_. printing status printed" "[]" command status] assms
  by (simp add: fresh_session_def limits)

lemma root_world_serves:
  "show_prompt (root_world\<lparr>wd_deadline := 60000000000\<rparr>) root_scope
     = (Verified \<lparr>el_route = RootRoute\<rparr>, exports_default, no_secret)"
proof -
  let ?world = "root_world\<lparr>wd_deadline := 60000000000\<rparr>"
  have prompt: "sc_prompt root_scope = ConfirmRootAccess" by (simp add: root_scope_def)
  have key: "tg_host_key_sha256 (sc_target root_scope) = tg_host_key_sha256 sample_target" by (simp add: root_scope_def)
  have window: "wd_prompt_with_identities root_world = (\<lambda>_ _. ConsentWithIdentity ''mine'')"
    and far: "wd_far root_world = (\<lambda>_. printing 0 ''0'')"
    by (simp_all add: root_world_def world_of_def)
  have "fst (establish_session (wd_open ?world) sample_prepared (tg_host_key_sha256 sample_target) ''mine'') = Inr fresh_session"
    by (rule sample_session_established) (simp add: root_world_def world_of_def)
  then show ?thesis
    using fresh_asks [of "''0''" 0 IDENTITY]
    by (simp add: prompt serve_root_access_def root_world_shows key window far root_says_zero)
qed

lemma root_world_writes:
  "\<exists>event. serve_scope sample_serving root_world root_scope = Inr (TerminalAccessVerified, event)"
proof -
  have request: "canonical_request_id (sc_request_id root_scope)"
    using root_scope_valid by (auto simp: scope_validate_def split: if_splits)
  have scope: "sc_issued_at_monotonic_nanos root_scope = 5" "sc_remaining_millis root_scope = 60000"
    by (simp_all add: root_scope_def sample_scope_def)
  have serving: "sv_monotonic sample_serving = Some 5" "sv_last_instant sample_serving = 10 ^ 18"
      "sv_local_before sample_serving = 0" "sv_tightened sample_serving" "sv_now_before sample_serving = 0"
      "sv_now_after sample_serving = 7" "sv_lease sample_serving = LeaseActive" "sv_accepts_frame sample_serving event" for event
    by (simp_all add: sample_serving_def)
  have "write_terminal (sv_accepts_frame sample_serving) root_scope TerminalAccessVerified exports_default
      = Inr (TerminalAccessVerified, event_of root_scope TerminalAccessVerified exports_default)"
    by (simp add: write_terminal_def event_of_def exports_default_def event_validate_def request serving)
  then show ?thesis
    by (simp only: serve_scope_def serving scope sample_deadline root_world_serves ok_or_simps and_then_simps prod.case)
      simp
qed

theorem exit_code_is_the_written_event_witness:
  "serve_exit_code (serve_scope sample_serving root_world root_scope) = 0"
  using exit_code_is_the_written_event [of sample_serving root_world root_scope] root_world_writes by blast

section \<open>A machine that installs\<close>

text \<open>An account whose entry waives authentication, and a far side that answers for it.\<close>

definition waived_listing :: string where
  "waived_listing = ''Matching Defaults entries for a'' @ [newline, newline]
     @ ''a may run the following commands'' @ [newline] @ ''Sudoers entry: /etc/sudoers'' @ [newline]
     @ '' RunAsUsers: ALL'' @ [newline] @ '' Options: !authenticate'' @ [newline]
     @ '' Commands:'' @ [newline] @ ''  ALL'' @ [newline]"

lemma waived_listing_entry:
  "single_entry waived_listing = Inr \<lparr>en_run_as_users = Some ''ALL'',
     en_authentication_waived = True, en_commands = [''ALL'']\<rparr>"
  by code_simp

lemma waived_listing_reads:
  "is_ascii waived_listing" "length waived_listing \<le> 4096"
  "\<not> demands_a_terminal waived_listing" "\<not> demands_a_secret waived_listing"
  "contains_str waived_listing COMMANDS_ANCHOR" "defaults_tokens waived_listing \<noteq> None"
  by code_simp+

definition waived_policy :: AttestedPolicy where
  "waived_policy = \<lparr>atp_command = ELEVATE_WITHOUT_PASSWORD, atp_password_required = False,
     atp_installation = \<lparr>is_suffices = True, is_permits = []\<rparr>\<rparr>"

lemma waived_policy_attested:
  "attest_policy True (as_bytes waived_listing) False EveryCommand = Inr waived_policy"
  using waived_listing_reads waived_listing_entry as_bytes_ascii [OF waived_listing_reads(1)]
  by (simp add: attest_policy_Inr is_ok_iff evaluate_Inr is_ascii_bytes_def limits waived_policy_def
      runs_as_root_def ANY_COMMAND_def authorises_the_action_def authorises_every_command_def
      negated_def first_word_def is_white_def code_def)

lemma plain_user_identified: "is_ok (attest_identity AdministratorRoute 0 (as_bytes ''7'') [])"
proof -
  have "uid_digits ''7'' = ''7''" by code_simp
  moreover have "is_ascii_bytes (as_bytes ''7'')" by (simp add: is_ascii_bytes_def as_bytes_def code_def)
  moreover have "parse_u32_digits ''7'' = Some 7" by (simp add: parse_u32_digits_def decimal_value_def code_def)
  ultimately have "Elevation.read_uid (as_bytes ''7'') = Inr 7"
    by (simp add: read_uid_Inr limits is_ascii_digit_def code_def)
  moreover have "bounded [] = Inr []" by (simp add: bounded_Inr is_ascii_bytes_def text_of_def)
  ultimately show ?thesis by (simp add: attest_identity_def ROOT_UID_def)
qed

lemma elevation_says_zero: "elevated 0 (as_bytes ''0'') [] = Inr \<lparr>el_route = AdministratorRoute\<rparr>"
proof -
  have "prompt_free [] = Inr ()" by code_simp
  moreover have "Elevation.read_uid (as_bytes ''0'') = Inr ROOT_UID" by (simp add: read_uid_root)
  ultimately show ?thesis by (simp add: elevated_def verified_pair_Inr ROOT_UID_def)
qed

definition admin_far :: far_side where
  "admin_far questions =
     (let command = fst (last questions)
      in if command = IDENTITY then printing 0 ''7''
         else if command = PREFLIGHT then printing 0 waived_listing
         else printing 0 ''0'')"

definition admin_world :: "unit World" where
  "admin_world = world_of (\<lambda>_ _. ConsentWithIdentity ''mine'') (tg_host_key_sha256 sample_target) admin_far"

definition budgeted_session :: LiveSession where
  "budgeted_session = fresh_session\<lparr>lv_channel_budget := 26\<rparr>"

lemma admin_elevation_proven:
  "\<exists>at. prove_administrator_elevation admin_world sample_scope exports_default ([], budgeted_session)
     = (Inr \<lparr>pe_witness = \<lparr>el_route = AdministratorRoute\<rparr>, pe_secret = no_secret, pe_password_required = False\<rparr>,
        exports_default\<lparr>xp_installation_scope := Some (atp_installation waived_policy)\<rparr>, no_secret, at)"
proof -
  have far: "wd_far admin_world = admin_far" by (simp add: admin_world_def world_of_def)
  have actions: "for_actions (sc_actions sample_scope) = EveryCommand"
    by (simp add: sample_scope_def) code_simp
  have texts: "IDENTITY \<noteq> PREFLIGHT" "ELEVATE_WITHOUT_PASSWORD \<noteq> IDENTITY" "ELEVATE_WITHOUT_PASSWORD \<noteq> PREFLIGHT"
    by (simp_all add: IDENTITY_def PREFLIGHT_def ELEVATE_WITHOUT_PASSWORD_def PROBE_COMMAND_def)
  have spent: "lv_channels_spent budgeted_session = 0" "lv_channel_budget budgeted_session = 26"
    by (simp_all add: budgeted_session_def fresh_session_def)
  have first: "ask_session admin_far IDENTITY None ([], budgeted_session)
      = (Some \<lparr>cr_exit_status = 0, cr_stdout = as_bytes ''7'', cr_stderr = []\<rparr>, [(IDENTITY, None)],
         budgeted_session\<lparr>lv_channels_spent := 1\<rparr>)"
    using ask_printing [of budgeted_session "''7''" admin_far "[]" IDENTITY 0] by (simp add: admin_far_def spent)
  have second: "ask_session admin_far PREFLIGHT None ([(IDENTITY, None)], budgeted_session\<lparr>lv_channels_spent := 1\<rparr>)
      = (Some \<lparr>cr_exit_status = 0, cr_stdout = as_bytes waived_listing, cr_stderr = []\<rparr>, [(IDENTITY, None), (PREFLIGHT, None)],
         budgeted_session\<lparr>lv_channels_spent := 2\<rparr>)"
    using ask_printing [of "budgeted_session\<lparr>lv_channels_spent := 1\<rparr>" waived_listing admin_far "[(IDENTITY, None)]" PREFLIGHT 0]
      texts waived_listing_reads(2)
    by (simp add: admin_far_def spent numeral_2_eq_2)
  have third: "ask_session admin_far ELEVATE_WITHOUT_PASSWORD None
        ([(IDENTITY, None), (PREFLIGHT, None)], budgeted_session\<lparr>lv_channels_spent := 2\<rparr>)
      = (Some \<lparr>cr_exit_status = 0, cr_stdout = as_bytes ''0'', cr_stderr = []\<rparr>,
         [(IDENTITY, None), (PREFLIGHT, None), (ELEVATE_WITHOUT_PASSWORD, None)], budgeted_session\<lparr>lv_channels_spent := 3\<rparr>)"
    using ask_printing [of "budgeted_session\<lparr>lv_channels_spent := 2\<rparr>" "''0''" admin_far
        "[(IDENTITY, None), (PREFLIGHT, None)]" ELEVATE_WITHOUT_PASSWORD 0] texts
    by (simp add: admin_far_def spent)
  have policy: "attested_policy admin_world sample_scope EveryCommand exports_default
        ([(IDENTITY, None)], budgeted_session\<lparr>lv_channels_spent := 1\<rparr>)
      = (Inr waived_policy, exports_default\<lparr>xp_installation_scope := Some (atp_installation waived_policy)\<rparr>, no_secret,
         [(IDENTITY, None), (PREFLIGHT, None)], budgeted_session\<lparr>lv_channels_spent := 2\<rparr>)"
    by (simp add: attested_policy_def far second read_policy_def waived_policy_attested del: One_nat_def)
  have command: "atp_command waived_policy = ELEVATE_WITHOUT_PASSWORD" "\<not> atp_password_required waived_policy"
    by (simp_all add: waived_policy_def)
  show ?thesis
    using plain_user_identified
    by (simp add: prove_administrator_elevation_def far first actions policy command third elevation_says_zero del: One_nat_def)
qed

theorem installation_never_lacks_a_channel_witness:
  "\<exists>outcome trace secret. sequence_run (installation_job admin_world sample_scope
        \<lparr>pe_witness = \<lparr>el_route = AdministratorRoute\<rparr>, pe_secret = no_secret, pe_password_required = False\<rparr>
        (snd (observe admin_far (snd (snd (snd (prove_administrator_elevation admin_world sample_scope exports_default
           ([], budgeted_session))))))) (jb_plan sample_job) (jb_payload sample_job)) = (outcome, trace, secret)
     \<and> so_stopped outcome \<noteq> Some BudgetRefused"
proof -
  have far: "wd_far admin_world = admin_far" by (simp add: admin_world_def world_of_def)
  obtain at where proven: "prove_administrator_elevation admin_world sample_scope exports_default ([], budgeted_session)
     = (Inr \<lparr>pe_witness = \<lparr>el_route = AdministratorRoute\<rparr>, pe_secret = no_secret, pe_password_required = False\<rparr>,
        exports_default\<lparr>xp_installation_scope := Some (atp_installation waived_policy)\<rparr>, no_secret, at)"
    using admin_elevation_proven by blast
  obtain machine at' where observed: "observe (wd_far admin_world) at = (machine, at')" by (metis surj_pair)
  obtain outcome trace secret where run: "sequence_run (installation_job admin_world sample_scope
        \<lparr>pe_witness = \<lparr>el_route = AdministratorRoute\<rparr>, pe_secret = no_secret, pe_password_required = False\<rparr>
        at' (jb_plan sample_job) (jb_payload sample_job)) = (outcome, trace, secret)"
    by (metis surj_pair)
  have established: "establish_credential admin_world sample_prepared (tg_host_key_sha256 sample_target) (AgentIdentity ''mine'')
      = Inr fresh_session"
    using sample_session_established [of admin_world] by (simp add: admin_world_def world_of_def)
  have "sc_actions sample_scope = [InstallServerBundle, ActivateApprovedController]" by (simp add: sample_scope_def)
  then have budget: "channel_budget (sc_actions sample_scope) = 26" by (simp only:) code_simp
  have adopted: "adopt_derived_budget (channel_budget (sc_actions sample_scope)) fresh_session = (Inr (), budgeted_session)"
    by (simp add: budget adopt_derived_budget_def may_adopt_budget_def fresh_session_def budgeted_session_def)
  have "so_stopped outcome \<noteq> Some BudgetRefused"
    using installation_never_lacks_a_channel [OF established _ adopted proven observed run] budget by simp
  with run observed proven show ?thesis by (simp add: far)
qed


section \<open>Where a session stops without its reason\<close>

text \<open>
  A listing read without a secret whose entry still requires one: the branch the code holds
  impossible is taken, and no password is ever asked for.
\<close>

lemma readable_listing_never_asks_the_password:
  assumes "ask_session (wd_far world) IDENTITY None at = (Some probe, at1)"
    and "is_ok (attest_identity AdministratorRoute (cr_exit_status probe) (cr_stdout probe) (cr_stderr probe))"
    and "ask_session (wd_far world) PREFLIGHT None at1 = (Some report, at2)"
    and "cr_exit_status report = 0" "cr_stdout report = as_bytes sample_listing"
    and "for_actions (sc_actions resolved) = EveryCommand"
  shows "\<exists>exports'. prove_administrator_elevation world resolved exports at
      = (Inl PromptUnavailable, exports', no_secret, at2)"
proof -
  have "attested_policy world resolved EveryCommand exports at1
      = (Inr sample_policy, exports\<lparr>xp_installation_scope := Some (atp_installation sample_policy)\<rparr>, no_secret, at2)"
    using assms(3-5) by (simp add: attested_policy_def read_policy_def sample_policy_attested)
  then show ?thesis
    using assms by (simp add: prove_administrator_elevation_def sample_policy_def no_secret_def destroy_def)
qed

text \<open>
  The commands an entry permits travel as they were read: past 512 bytes the event is refused
  and the session ends on an internal failure, without its refusal.
\<close>

lemma long_permits_lose_the_refusal:
  assumes "xp_installation_scope exports = Some attested" and "MAX_ATTESTED_PERMITS_BYTES < length (is_permits attested)"
  shows "write_terminal accepts scope TerminalRefused exports = Inl SessionInternal"
  using assms by (simp add: write_terminal_def event_of_def event_validate_def installation_scope_refused_def)

end
