(* ===== verification/Base64_Text.thy ===== *)
theory Base64_Text
  imports Std_Stream
begin

text \<open>
  The bounded, canonical base64 decoder of \<open>personal_access/openssh_key.rs\<close>, and the
  reference encoding it is the exact inverse of.
\<close>

section \<open>The decoder\<close>

definition base64_value :: "u8 \<Rightarrow> u8 option" where
  "base64_value byte =
     (if 65 \<le> byte \<and> byte \<le> 90 then Some (byte - 65)
      else if 97 \<le> byte \<and> byte \<le> 122 then Some (byte - 97 + 26)
      else if 48 \<le> byte \<and> byte \<le> 57 then Some (byte - 48 + 52)
      else if byte = 43 then Some 62
      else if byte = 47 then Some 63
      else None)"

record Base64Walk =
  bw_accumulator :: u32
  bw_bits :: nat
  bw_padding :: nat
  bw_output :: bytes

definition base64_start :: Base64Walk where
  "base64_start = \<lparr>bw_accumulator = 0, bw_bits = 0, bw_padding = 0, bw_output = []\<rparr>"

fun base64_walk :: "Base64Walk \<Rightarrow> bytes \<Rightarrow> Base64Walk option" where
  "base64_walk w [] = Some w"
| "base64_walk w (byte # input) =
     (if byte = 61 then base64_walk (w\<lparr>bw_padding := bw_padding w + 1\<rparr>) input
      else if bw_padding w > 0 then None
      else (case base64_value byte of
          None \<Rightarrow> None
        | Some v \<Rightarrow>
            let accumulator = push_bit 6 (bw_accumulator w) OR ucast v; bits = bw_bits w + 6
            in if bits \<ge> 8
               then base64_walk (w\<lparr>bw_accumulator := accumulator, bw_bits := bits - 8,
                      bw_output := bw_output w @ [ucast (drop_bit (bits - 8) accumulator AND 0xFF)]\<rparr>) input
               else base64_walk (w\<lparr>bw_accumulator := accumulator, bw_bits := bits\<rparr>) input))"

text \<open>The end of the walk; \<open>None\<close> for the leftovers of six bits no canonical text has.\<close>

definition base64_close :: "Base64Walk \<Rightarrow> bytes option" where
  "base64_close w =
     (case (if bw_bits w = 0 then Some 0 else if bw_bits w = 4 then Some 2 else if bw_bits w = 2 then Some 1 else None) of
        None \<Rightarrow> None
      | Some expected_padding \<Rightarrow>
          if bw_padding w \<noteq> expected_padding then None
          else if bw_bits w > 0 \<and> bw_accumulator w AND (push_bit (bw_bits w) 1 - 1) \<noteq> 0 then None
          else Some (bw_output w))"

definition decode_base64 :: "string \<Rightarrow> bytes option" where
  "decode_base64 input =
     (case base64_walk base64_start (as_bytes input) of None \<Rightarrow> None | Some w \<Rightarrow> base64_close w)"


section \<open>Base64, by groups of three bytes\<close>

text \<open>The reference: four characters for three bytes, padded at the end.\<close>

definition base64_char :: "nat \<Rightarrow> char" where
  "base64_char v = ''ABCDEFGHIJKLMNOPQRSTUVWXYZabcdefghijklmnopqrstuvwxyz0123456789+/'' ! v"

fun sextets :: "nat list \<Rightarrow> nat list" where
  "sextets [] = []"
| "sextets [a] = [a div 4, a mod 4 * 16]"
| "sextets [a, b] = [a div 4, a mod 4 * 16 + b div 16, b mod 16 * 4]"
| "sextets (a # b # c # rest) =
     a div 4 # (a mod 4 * 16 + b div 16) # (b mod 16 * 4 + c div 64) # c mod 64 # sextets rest"

definition base64_encode :: "bytes \<Rightarrow> string" where
  "base64_encode bs = map base64_char (sextets (map unat bs)) @ replicate ((3 - length bs mod 3) mod 3) CHR ''=''"

text \<open>One value taken in, as the walk takes it.\<close>

definition base64_push :: "nat \<Rightarrow> Base64Walk \<Rightarrow> Base64Walk" where
  "base64_push v w =
     (let accumulator = push_bit 6 (bw_accumulator w) OR of_nat v; bits = bw_bits w + 6
      in if bits \<ge> 8
         then w\<lparr>bw_accumulator := accumulator, bw_bits := bits - 8,
                bw_output := bw_output w @ [ucast (drop_bit (bits - 8) accumulator AND 0xFF)]\<rparr>
         else w\<lparr>bw_accumulator := accumulator, bw_bits := bits\<rparr>)"

lemma base64_char_code:
  assumes "v < 64"
  shows "code (base64_char v)
    = (if v < 26 then v + 65 else if v < 52 then v + 71 else if v < 62 then v - 4 else if v = 62 then 43 else 47)"
proof -
  have "list_all (\<lambda>v. code (base64_char v)
      = (if v < 26 then v + 65 else if v < 52 then v + 71 else if v < 62 then v - 4 else if v = 62 then 43 else 47)) [0..<64]"
    by code_simp
  with assms show ?thesis by (simp add: list_all_iff)
qed

lemma base64_value_nat:
  "base64_value byte =
     (if 65 \<le> unat byte \<and> unat byte \<le> 90 then Some (of_nat (unat byte - 65))
      else if 97 \<le> unat byte \<and> unat byte \<le> 122 then Some (of_nat (unat byte - 71))
      else if 48 \<le> unat byte \<and> unat byte \<le> 57 then Some (of_nat (unat byte + 4))
      else if unat byte = 43 then Some 62 else if unat byte = 47 then Some 63 else None)"
proof -
  have "byte = 43 \<longleftrightarrow> unat byte = 43" "byte = 47 \<longleftrightarrow> unat byte = 47" by (simp_all add: word_unat_eq_iff)
  then show ?thesis by (auto simp: base64_value_def word_le_nat_alt of_nat_diff)
qed

lemma base64_value_char:
  assumes "v < 64"
  shows "base64_value (of_nat (code (base64_char v))) = Some (of_nat v)" "(of_nat (code (base64_char v)) :: u8) \<noteq> 61"
    "code (base64_char v) < 128"
proof -
  show small: "code (base64_char v) < 128" using assms by (auto simp: base64_char_code [OF assms])
  then have again: "unat (of_nat (code (base64_char v)) :: u8) = code (base64_char v)" by (simp add: unat_of_nat take_bit_nat_eq_self)
  show "base64_value (of_nat (code (base64_char v))) = Some (of_nat v)"
    unfolding base64_value_nat again
  proof -
    consider "v < 26" | "26 \<le> v \<and> v < 52" | "52 \<le> v \<and> v < 62" | "v = 62" | "v = 63" using assms by linarith
    then show "(if 65 \<le> code (base64_char v) \<and> code (base64_char v) \<le> 90 then Some (of_nat (code (base64_char v) - 65))
      else if 97 \<le> code (base64_char v) \<and> code (base64_char v) \<le> 122 then Some (of_nat (code (base64_char v) - 71))
      else if 48 \<le> code (base64_char v) \<and> code (base64_char v) \<le> 57 then Some (of_nat (code (base64_char v) + 4))
      else if code (base64_char v) = 43 then Some 62 else if code (base64_char v) = 47 then Some 63 else None)
      = Some (of_nat v :: u8)"
      by cases (auto simp: base64_char_code)
  qed
  show "(of_nat (code (base64_char v)) :: u8) \<noteq> 61"
  proof
    assume "(of_nat (code (base64_char v)) :: u8) = 61"
    with again have "code (base64_char v) = 61" by simp
    with assms show False by (auto simp: base64_char_code [OF assms] split: if_splits)
  qed
qed

lemma base64_value_Some:
  assumes "base64_value byte = Some v"
  shows "unat v < 64" "unat byte = code (base64_char (unat v))"
proof -
  consider "65 \<le> unat byte \<and> unat byte \<le> 90" "v = of_nat (unat byte - 65)"
    | "97 \<le> unat byte \<and> unat byte \<le> 122" "v = of_nat (unat byte - 71)"
    | "48 \<le> unat byte \<and> unat byte \<le> 57" "v = of_nat (unat byte + 4)"
    | "unat byte = 43" "v = of_nat 62" | "unat byte = 47" "v = of_nat 63"
    using assms unfolding base64_value_nat by (simp only: option.inject split: if_splits) simp_all
  then have "\<exists>n < 64. v = of_nat n \<and> unat byte = code (base64_char n)"
  proof cases
    case 1 then show ?thesis by (intro exI [of _ "unat byte - 65"]) (auto simp: base64_char_code)
  next
    case 2 then show ?thesis by (intro exI [of _ "unat byte - 71"]) (auto simp: base64_char_code)
  next
    case 3 then show ?thesis by (intro exI [of _ "unat byte + 4"]) (auto simp: base64_char_code)
  next
    case 4 then show ?thesis by (intro exI [of _ 62]) (auto simp: base64_char_code)
  next
    case 5 then show ?thesis by (intro exI [of _ 63]) (auto simp: base64_char_code)
  qed
  then obtain n where n: "v = of_nat n" "n < 64" "unat byte = code (base64_char n)" by blast
  then have "unat v = n" by (simp add: unat_of_nat take_bit_nat_eq_self)
  with n show "unat v < 64" "unat byte = code (base64_char (unat v))" by simp_all
qed


lemma push_accumulator:
  assumes "v < 64"
  shows "unat (push_bit 6 a OR of_nat v :: u32) = (unat a * 64 + v) mod 2 ^ 32"
proof -
  have small: "take_bit 6 v = v" using assms by (simp add: take_bit_nat_eq_self)
  have low: "bit v n \<Longrightarrow> n < 6" for n
    using arg_cong [OF small, of "\<lambda>x. bit x n"] by (simp add: bit_take_bit_iff)
  have "push_bit 6 a AND of_nat v = (0 :: u32)"
    by (intro bit_word_eqI) (auto simp: bit_simps dest: low)
  then have "push_bit 6 a OR of_nat v = push_bit 6 a + (of_nat v :: u32)" by (simp add: disjunctive_add_eq_or)
  also have "\<dots> = of_nat (unat a * 64 + v)" by (simp add: push_bit_eq_mult mult.commute)
  finally have whole: "push_bit 6 a OR of_nat v = (of_nat (unat a * 64 + v) :: u32)" .
  have "unat (of_nat n :: u32) = n mod 2 ^ 32" for n by (simp add: unat_of_nat take_bit_eq_mod)
  then show ?thesis unfolding whole .
qed

lemma pushed_byte: "ucast (drop_bit k (x :: u32) AND 0xFF) = (of_nat (unat x div 2 ^ k mod 256) :: u8)"
proof -
  have mask: "(0xFF :: u32) = mask 8" by (simp add: mask_eq_exp_minus_1)
  have "unat (take_bit 8 (drop_bit k x)) = take_bit 8 (drop_bit k (unat x))"
    by (simp only: unsigned_take_bit_eq unat_drop_bit_eq)
  also have "\<dots> = unat x div 2 ^ k mod 256" by (simp add: take_bit_eq_mod drop_bit_eq_div)
  finally have cut: "unat (drop_bit k x AND 0xFF) = unat x div 2 ^ k mod 256"
    unfolding mask take_bit_eq_mask .
  have "ucast y = (of_nat (unat y) :: u8)" for y :: u32 by (rule of_nat_unat [symmetric])
  from this [of "drop_bit k x AND 0xFF"] show ?thesis unfolding cut .
qed

text \<open>The four positions a value can fall in; the accumulator is what came in, on its 32 bits.\<close>

definition base64_taken :: "nat \<Rightarrow> u32 \<Rightarrow> u32" where
  "base64_taken v accumulator = push_bit 6 accumulator OR of_nat v"

lemma base64_push_at:
  "bw_bits w = 0 \<Longrightarrow> base64_push v w = w\<lparr>bw_accumulator := base64_taken v (bw_accumulator w), bw_bits := 6\<rparr>"
  "bw_bits w = 6 \<Longrightarrow> base64_push v w = w\<lparr>bw_accumulator := base64_taken v (bw_accumulator w), bw_bits := 4,
     bw_output := bw_output w @ [of_nat (unat (base64_taken v (bw_accumulator w)) div 16 mod 256)]\<rparr>"
  "bw_bits w = 4 \<Longrightarrow> base64_push v w = w\<lparr>bw_accumulator := base64_taken v (bw_accumulator w), bw_bits := 2,
     bw_output := bw_output w @ [of_nat (unat (base64_taken v (bw_accumulator w)) div 4 mod 256)]\<rparr>"
  "bw_bits w = 2 \<Longrightarrow> base64_push v w = w\<lparr>bw_accumulator := base64_taken v (bw_accumulator w), bw_bits := 0,
     bw_output := bw_output w @ [of_nat (unat (base64_taken v (bw_accumulator w)) mod 256)]\<rparr>"
  using pushed_byte [of 0 "base64_taken v (bw_accumulator w)"]
  by (simp_all add: base64_push_def base64_taken_def Let_def pushed_byte)

lemma cut_word:
  fixes y :: nat
  assumes "k \<le> 24"
  shows "y mod 2 ^ 32 div 2 ^ k mod 256 = y div 2 ^ k mod 256"
proof -
  have "take_bit 8 (drop_bit k (take_bit 32 y)) = take_bit 8 (drop_bit k y)"
    using assms by (intro bit_eqI) (auto simp: bit_simps)
  then show ?thesis by (simp add: take_bit_eq_mod drop_bit_eq_div)
qed

lemma cut_words:
  fixes y :: nat
  shows "y mod 2 ^ 32 div 16 mod 256 = y div 16 mod 256" "y mod 2 ^ 32 div 4 mod 256 = y div 4 mod 256"
    "y mod 2 ^ 32 mod 256 = y mod 256" "y mod 2 ^ 32 mod 64 = y mod 64"
proof -
  have "(2::nat) ^ 4 = 16" "(2::nat) ^ 2 = 4" by simp_all
  then show "y mod 2 ^ 32 div 16 mod 256 = y div 16 mod 256" "y mod 2 ^ 32 div 4 mod 256 = y div 4 mod 256"
    using cut_word [of 4 y] cut_word [of 2 y] by (simp_all only:)
  show "y mod 2 ^ 32 mod 256 = y mod 256" "y mod 2 ^ 32 mod 64 = y mod 64" by (rule mod_mod_cancel; simp)+
qed

lemma taken_in:
  fixes y v :: nat
  assumes "v < 64" and "y mod 64 = u"
  shows "(y * 64 + v) mod 2 ^ 32 div 16 mod 256 = u * 4 + v div 16"
    and "(y * 64 + v) mod 2 ^ 32 div 4 mod 256 = u mod 16 * 16 + v div 4"
    and "(y * 64 + v) mod 2 ^ 32 mod 256 = u mod 4 * 64 + v"
    and "(y * 64 + v) mod 2 ^ 32 mod 64 = v"
proof -
  define q where "q = y div 64"
  have y: "y = q * 64 + u" "u < 64" using assms(2) by (auto simp: q_def)
  have "(y * 64 + v) div 16 = ((q * 256 + u * 4) * 16 + v) div 16" by (simp add: y(1) algebra_simps)
  then have four: "(y * 64 + v) div 16 = q * 256 + (u * 4 + v div 16)" by simp
  have "(y * 64 + v) div 4 = ((q * 1024 + u * 16) * 4 + v) div 4" by (simp add: y(1) algebra_simps)
  also have "\<dots> = q * 1024 + u * 16 + v div 4" by simp
  also have "u * 16 = u div 16 * 256 + u mod 16 * 16" using div_mult_mod_eq [of u 16] by linarith
  finally have two: "(y * 64 + v) div 4 = (q * 4 + u div 16) * 256 + (u mod 16 * 16 + v div 4)" by simp
  have "u * 64 = u div 4 * 256 + u mod 4 * 64" using div_mult_mod_eq [of u 4] by linarith
  then have none: "y * 64 + v = (q * 16 + u div 4) * 256 + (u mod 4 * 64 + v)" by (simp add: y(1))
  have "v div 16 < 4" "v div 4 < 16" "u mod 16 < 16" "u mod 4 < 4" using assms(1) by simp_all
  then have small: "u * 4 + v div 16 < 256" "u mod 16 * 16 + v div 4 < 256" "u mod 4 * 64 + v < 256"
    using assms(1) y(2) by simp_all
  have tail: "(a * 256 + b) mod 256 = b" if "b < 256" for a b :: nat using that by simp
  show "(y * 64 + v) mod 2 ^ 32 div 16 mod 256 = u * 4 + v div 16"
    unfolding cut_words four by (rule tail [OF small(1)])
  show "(y * 64 + v) mod 2 ^ 32 div 4 mod 256 = u mod 16 * 16 + v div 4"
    unfolding cut_words two by (rule tail [OF small(2)])
  show "(y * 64 + v) mod 2 ^ 32 mod 256 = u mod 4 * 64 + v"
    unfolding cut_words by (subst none) (rule tail [OF small(3)])
  show "(y * 64 + v) mod 2 ^ 32 mod 64 = v" using assms(1) unfolding cut_words by simp
qed

lemma base64_taken_nat:
  assumes "v < 64" and "unat a mod 64 = u"
  shows "unat (base64_taken v a) div 16 mod 256 = u * 4 + v div 16"
    and "unat (base64_taken v a) div 4 mod 256 = u mod 16 * 16 + v div 4"
    and "unat (base64_taken v a) mod 256 = u mod 4 * 64 + v"
    and "unat (base64_taken v a) mod 64 = v"
  unfolding base64_taken_def push_accumulator [OF assms(1)] by (rule taken_in [OF assms])+

text \<open>One, two, three and four values taken in from a position between two groups.\<close>

lemma base64_pushes:
  assumes "bw_bits w = 0" and "v1 < 64" "v2 < 64" "v3 < 64" "v4 < 64"
  shows "bw_bits (base64_push v1 w) = 6"
    and "\<exists>acc. unat acc mod 64 = v2 \<and> base64_push v2 (base64_push v1 w)
      = w\<lparr>bw_accumulator := acc, bw_bits := 4, bw_output := bw_output w @ [of_nat (v1 * 4 + v2 div 16)]\<rparr>"
    and "\<exists>acc. unat acc mod 64 = v3 \<and> base64_push v3 (base64_push v2 (base64_push v1 w))
      = w\<lparr>bw_accumulator := acc, bw_bits := 2,
          bw_output := bw_output w @ [of_nat (v1 * 4 + v2 div 16), of_nat (v2 mod 16 * 16 + v3 div 4)]\<rparr>"
    and "\<exists>acc. base64_push v4 (base64_push v3 (base64_push v2 (base64_push v1 w)))
      = w\<lparr>bw_accumulator := acc, bw_bits := 0, bw_output := bw_output w @
          [of_nat (v1 * 4 + v2 div 16), of_nat (v2 mod 16 * 16 + v3 div 4), of_nat (v3 mod 4 * 64 + v4)]\<rparr>"
proof -
  define a1 where "a1 = base64_taken v1 (bw_accumulator w)"
  define a2 where "a2 = base64_taken v2 a1"
  define a3 where "a3 = base64_taken v3 a2"
  define a4 where "a4 = base64_taken v4 a3"
  note a1 = base64_taken_nat [OF assms(2) refl, of "bw_accumulator w", folded a1_def]
  note a2 = base64_taken_nat [OF assms(3) a1(4), folded a2_def]
  note a3 = base64_taken_nat [OF assms(4) a2(4), folded a3_def]
  note a4 = base64_taken_nat [OF assms(5) a3(4), folded a4_def]
  have w1: "base64_push v1 w = w\<lparr>bw_accumulator := a1, bw_bits := 6\<rparr>"
    using base64_push_at(1) [OF assms(1), of v1] by (simp add: a1_def)
  have w2: "base64_push v2 (base64_push v1 w)
      = w\<lparr>bw_accumulator := a2, bw_bits := 4, bw_output := bw_output w @ [of_nat (v1 * 4 + v2 div 16)]\<rparr>"
    unfolding w1 using base64_push_at(2) [of "w\<lparr>bw_accumulator := a1, bw_bits := 6\<rparr>" v2] a2(1) by (simp add: a2_def)
  have w3: "base64_push v3 (base64_push v2 (base64_push v1 w))
      = w\<lparr>bw_accumulator := a3, bw_bits := 2,
          bw_output := bw_output w @ [of_nat (v1 * 4 + v2 div 16), of_nat (v2 mod 16 * 16 + v3 div 4)]\<rparr>"
    unfolding w2 using base64_push_at(3) [of "w\<lparr>bw_accumulator := a2, bw_bits := 4,
        bw_output := bw_output w @ [of_nat (v1 * 4 + v2 div 16)]\<rparr>" v3] a3(2) by (simp add: a3_def)
  have w4: "base64_push v4 (base64_push v3 (base64_push v2 (base64_push v1 w)))
      = w\<lparr>bw_accumulator := a4, bw_bits := 0, bw_output := bw_output w @
          [of_nat (v1 * 4 + v2 div 16), of_nat (v2 mod 16 * 16 + v3 div 4), of_nat (v3 mod 4 * 64 + v4)]\<rparr>"
    unfolding w3 using base64_push_at(4) [of "w\<lparr>bw_accumulator := a3, bw_bits := 2,
        bw_output := bw_output w @ [of_nat (v1 * 4 + v2 div 16), of_nat (v2 mod 16 * 16 + v3 div 4)]\<rparr>" v4] a4(3)
    by (simp add: a4_def)
  show "bw_bits (base64_push v1 w) = 6" by (simp add: w1)
  show "\<exists>acc. unat acc mod 64 = v2 \<and> base64_push v2 (base64_push v1 w)
      = w\<lparr>bw_accumulator := acc, bw_bits := 4, bw_output := bw_output w @ [of_nat (v1 * 4 + v2 div 16)]\<rparr>"
    using a2(4) w2 by blast
  show "\<exists>acc. unat acc mod 64 = v3 \<and> base64_push v3 (base64_push v2 (base64_push v1 w))
      = w\<lparr>bw_accumulator := acc, bw_bits := 2,
          bw_output := bw_output w @ [of_nat (v1 * 4 + v2 div 16), of_nat (v2 mod 16 * 16 + v3 div 4)]\<rparr>"
    using a3(4) w3 by blast
  show "\<exists>acc. base64_push v4 (base64_push v3 (base64_push v2 (base64_push v1 w)))
      = w\<lparr>bw_accumulator := acc, bw_bits := 0, bw_output := bw_output w @
          [of_nat (v1 * 4 + v2 div 16), of_nat (v2 mod 16 * 16 + v3 div 4), of_nat (v3 mod 4 * 64 + v4)]\<rparr>"
    using w4 by blast
qed


section \<open>What the decoder accepts\<close>

definition base64_bytes :: "nat list \<Rightarrow> bytes" where
  "base64_bytes vs = map (\<lambda>v. of_nat (code (base64_char v))) vs"

definition base64_padding :: "nat \<Rightarrow> nat" where
  "base64_padding len = (3 - len mod 3) mod 3"

lemma push_padding [simp]: "bw_padding (base64_push v w) = bw_padding w"
  by (simp add: base64_push_def Let_def)

lemma fold_push_padding [simp]: "bw_padding (fold base64_push vs w) = bw_padding w"
  by (induction vs arbitrary: w) simp_all

lemma walk_value:
  "byte \<noteq> 61 \<Longrightarrow> bw_padding w = 0 \<Longrightarrow> base64_value byte = Some v \<Longrightarrow>
     base64_walk w (byte # input) = base64_walk (base64_push (unat v) w) input"
  by (simp add: base64_push_def Let_def)

lemma walk_values:
  "\<forall>v \<in> set vs. v < 64 \<Longrightarrow> bw_padding w = 0 \<Longrightarrow>
     base64_walk w (base64_bytes vs @ rest) = base64_walk (fold base64_push vs w) rest"
proof (induction vs arbitrary: w)
  case (Cons v vs)
  then have v: "v < 64" by simp
  have "base64_walk w (base64_bytes (v # vs) @ rest) = base64_walk (base64_push v w) (base64_bytes vs @ rest)"
    using walk_value [OF base64_value_char(2) [OF v] Cons.prems(2) base64_value_char(1) [OF v]] v
    by (simp add: base64_bytes_def unat_of_nat take_bit_nat_eq_self del: base64_walk.simps)
  with Cons show ?case by simp
qed (simp add: base64_bytes_def)

lemma walk_padding: "base64_walk w (replicate p 61) = Some (w\<lparr>bw_padding := bw_padding w + p\<rparr>)"
  by (induction p arbitrary: w) simp_all

lemma walk_padded:
  "base64_walk w input = Some w' \<Longrightarrow> 0 < bw_padding w \<Longrightarrow> input = replicate (length input) 61"
proof (induction input arbitrary: w)
  case (Cons byte input)
  then have "byte = 61" by (simp split: if_splits)
  with Cons.prems Cons.IH [of "w\<lparr>bw_padding := bw_padding w + 1\<rparr>"] show ?case by simp
qed simp

lemma walk_Some:
  assumes "base64_walk w input = Some w'" and "bw_padding w = 0"
  shows "\<exists>vs p. input = base64_bytes vs @ replicate p 61 \<and> (\<forall>v \<in> set vs. v < 64)
    \<and> w' = (fold base64_push vs w)\<lparr>bw_padding := p\<rparr>"
  using assms
proof (induction input arbitrary: w)
  case Nil
  then have "w' = w\<lparr>bw_padding := 0\<rparr>" by (cases w) simp
  then show ?case by (intro exI [of _ "[]"] exI [of _ 0]) (simp add: base64_bytes_def)
next
  case (Cons byte input)
  show ?case
  proof (cases "byte = 61")
    case True
    then have rest: "base64_walk (w\<lparr>bw_padding := 1\<rparr>) input = Some w'" using Cons.prems by simp
    from walk_padded [OF this] have input: "input = replicate (length input) 61" by simp
    have "base64_walk (w\<lparr>bw_padding := 1\<rparr>) input = Some (w\<lparr>bw_padding := Suc (length input)\<rparr>)"
      by (subst input) (simp add: walk_padding)
    with rest have w': "w' = w\<lparr>bw_padding := Suc (length input)\<rparr>" by simp
    have "byte # input = replicate (Suc (length input)) 61" using True input by simp
    with w' show ?thesis
      by (intro exI [of _ "[]"] exI [of _ "Suc (length input)"]) (simp add: base64_bytes_def)
  next
    case False
    then obtain v where v: "base64_value byte = Some v" using Cons.prems by (simp split: option.splits)
    note value_v = base64_value_Some [OF v]
    have "base64_walk (base64_push (unat v) w) input = Some w'"
      using Cons.prems walk_value [OF False Cons.prems(2) v] by simp
    from Cons.IH [OF this] Cons.prems(2) obtain vs p where rest: "input = base64_bytes vs @ replicate p 61"
        "\<forall>v \<in> set vs. v < 64" "w' = (fold base64_push vs (base64_push (unat v) w))\<lparr>bw_padding := p\<rparr>" by auto
    have "byte = of_nat (code (base64_char (unat v)))" using value_v(2) by (metis of_nat_unat ucast_id)
    with rest value_v(1) show ?thesis
      by (intro exI [of _ "unat v # vs"] exI [of _ p]) (simp add: base64_bytes_def)
  qed
qed


lemma low_bits: "(acc :: u32) AND (push_bit k 1 - 1) = 0 \<longleftrightarrow> unat acc mod 2 ^ k = 0"
proof -
  have "acc AND (push_bit k 1 - 1) = take_bit k acc" by (simp add: take_bit_eq_mask mask_eq_decr_exp push_bit_eq_mult)
  moreover have "take_bit k acc = 0 \<longleftrightarrow> unat (take_bit k acc) = 0" by (simp add: unat_eq_0)
  moreover have "unat (take_bit k acc) = unat acc mod 2 ^ k"
    unfolding unsigned_take_bit_eq by (rule take_bit_eq_mod)
  ultimately show ?thesis by simp
qed

lemma close_at:
  "bw_bits w = 0 \<Longrightarrow> base64_close (w\<lparr>bw_padding := p\<rparr>) = Some out \<longleftrightarrow> p = 0 \<and> out = bw_output w"
  "bw_bits w = 6 \<Longrightarrow> base64_close (w\<lparr>bw_padding := p\<rparr>) = None"
  "bw_bits w = 4 \<Longrightarrow> base64_close (w\<lparr>bw_padding := p\<rparr>) = Some out
     \<longleftrightarrow> p = 2 \<and> unat (bw_accumulator w) mod 16 = 0 \<and> out = bw_output w"
  "bw_bits w = 2 \<Longrightarrow> base64_close (w\<lparr>bw_padding := p\<rparr>) = Some out
     \<longleftrightarrow> p = 1 \<and> unat (bw_accumulator w) mod 4 = 0 \<and> out = bw_output w"
  using low_bits [of "bw_accumulator w" 4] low_bits [of "bw_accumulator w" 2]
  by (auto simp: base64_close_def)

lemma byte_of: "n < 256 \<Longrightarrow> unat (of_nat n :: u8) = n"
  by (simp add: unat_of_nat take_bit_nat_eq_self)

text \<open>Values spell bytes when they are the values of those bytes.\<close>

lemma sextets_two:
  fixes bs :: bytes
  assumes "v1 < 64" "v2 < 64"
  shows "[v1, v2] = sextets (map unat bs) \<longleftrightarrow> v2 mod 16 = 0 \<and> bs = [of_nat (v1 * 4 + v2 div 16)]"
proof
  assume "[v1, v2] = sextets (map unat bs)"
  then obtain a where a: "bs = [a]" "v1 = unat a div 4" "v2 = unat a mod 4 * 16"
    by (cases "map unat bs" rule: sextets.cases) (auto simp: map_eq_Cons_conv)
  have "v1 * 4 + v2 div 16 = unat a" by (simp add: a)
  then show "v2 mod 16 = 0 \<and> bs = [of_nat (v1 * 4 + v2 div 16)]" by (simp only: a(1) of_nat_unat ucast_id) (simp add: a(3))
next
  define n where "n = v1 * 4 + v2 div 16"
  assume right: "v2 mod 16 = 0 \<and> bs = [of_nat (v1 * 4 + v2 div 16)]"
  have "n < 256" "n div 4 = v1" "n mod 4 * 16 = v2" using assms right by (auto simp: n_def)
  then show "[v1, v2] = sextets (map unat bs)" using right by (simp only: n_def [symmetric]) (simp add: byte_of)
qed

lemma sextets_three:
  fixes bs :: bytes
  assumes "v1 < 64" "v2 < 64" "v3 < 64"
  shows "[v1, v2, v3] = sextets (map unat bs) \<longleftrightarrow>
     v3 mod 4 = 0 \<and> bs = [of_nat (v1 * 4 + v2 div 16), of_nat (v2 mod 16 * 16 + v3 div 4)]"
proof
  assume "[v1, v2, v3] = sextets (map unat bs)"
  then obtain a b where a: "bs = [a, b]" "v1 = unat a div 4" "v2 = unat a mod 4 * 16 + unat b div 16" "v3 = unat b mod 16 * 4"
    by (cases "map unat bs" rule: sextets.cases) (auto simp: map_eq_Cons_conv)
  have "unat b < 256" using unsigned_less [of b] by simp
  then have "v1 * 4 + v2 div 16 = unat a" "v2 mod 16 * 16 + v3 div 4 = unat b" by (simp_all add: a(2-4) less_mult_imp_div_less)
  then show "v3 mod 4 = 0 \<and> bs = [of_nat (v1 * 4 + v2 div 16), of_nat (v2 mod 16 * 16 + v3 div 4)]"
    by (simp only: a(1) of_nat_unat ucast_id) (simp add: a(4))
next
  define n m where "n = v1 * 4 + v2 div 16" and "m = v2 mod 16 * 16 + v3 div 4"
  assume right: "v3 mod 4 = 0 \<and> bs = [of_nat (v1 * 4 + v2 div 16), of_nat (v2 mod 16 * 16 + v3 div 4)]"
  have "v3 div 4 < 16" "v2 div 16 < 4" using assms by simp_all
  then have "n < 256" "m < 256" "n div 4 = v1" "n mod 4 * 16 + m div 16 = v2" "m mod 16 * 4 = v3"
    using assms right by (auto simp: n_def m_def)
  then show "[v1, v2, v3] = sextets (map unat bs)"
    using right by (simp only: n_def [symmetric] m_def [symmetric]) (simp add: byte_of)
qed

lemma sextets_four:
  fixes bs :: bytes
  assumes "v1 < 64" "v2 < 64" "v3 < 64" "v4 < 64"
  shows "v1 # v2 # v3 # v4 # vs = sextets (map unat bs) \<longleftrightarrow>
     (\<exists>rest. vs = sextets (map unat rest) \<and> bs = of_nat (v1 * 4 + v2 div 16) # of_nat (v2 mod 16 * 16 + v3 div 4)
        # of_nat (v3 mod 4 * 64 + v4) # rest)"
proof
  assume "v1 # v2 # v3 # v4 # vs = sextets (map unat bs)"
  then obtain a b c rest where a: "bs = a # b # c # rest" "v1 = unat a div 4" "v2 = unat a mod 4 * 16 + unat b div 16"
      "v3 = unat b mod 16 * 4 + unat c div 64" "v4 = unat c mod 64" "vs = sextets (map unat rest)"
    by (cases "map unat bs" rule: sextets.cases) (auto simp: map_eq_Cons_conv)
  have "unat b < 256" "unat c < 256" using unsigned_less [of b] unsigned_less [of c] by simp_all
  then have small: "unat b div 16 < 16" "unat c div 64 < 4" by simp_all
  then have "v1 * 4 + v2 div 16 = unat a" "v2 mod 16 * 16 + v3 div 4 = unat b" "v3 mod 4 * 64 + v4 = unat c"
    by (simp_all add: a(2-5))
  then show "\<exists>rest. vs = sextets (map unat rest) \<and> bs = of_nat (v1 * 4 + v2 div 16) # of_nat (v2 mod 16 * 16 + v3 div 4)
        # of_nat (v3 mod 4 * 64 + v4) # rest"
    by (intro exI [of _ rest]) (simp only: a(1,6) of_nat_unat ucast_id)
next
  define n m k where "n = v1 * 4 + v2 div 16" and "m = v2 mod 16 * 16 + v3 div 4" and "k = v3 mod 4 * 64 + v4"
  assume "\<exists>rest. vs = sextets (map unat rest) \<and> bs = of_nat (v1 * 4 + v2 div 16) # of_nat (v2 mod 16 * 16 + v3 div 4)
        # of_nat (v3 mod 4 * 64 + v4) # rest"
  then obtain rest where rest: "vs = sextets (map unat rest)" "bs = of_nat n # of_nat m # of_nat k # rest"
    by (auto simp only: n_def m_def k_def)
  have "v3 div 4 < 16" "v2 div 16 < 4" using assms by simp_all
  then have "n < 256" "m < 256" "k < 256" "n div 4 = v1" "n mod 4 * 16 + m div 16 = v2" "m mod 16 * 4 + k div 64 = v3" "k mod 64 = v4"
    using assms by (auto simp: n_def m_def k_def)
  then show "v1 # v2 # v3 # v4 # vs = sextets (map unat bs)" by (simp add: rest byte_of)
qed

lemma close_values:
  "\<forall>v \<in> set vs. v < 64 \<Longrightarrow> bw_bits w = 0 \<Longrightarrow>
     base64_close ((fold base64_push vs w)\<lparr>bw_padding := p\<rparr>) = Some out \<longleftrightarrow>
       (\<exists>bs. out = bw_output w @ bs \<and> vs = sextets (map unat bs) \<and> p = base64_padding (length bs))"
proof (induction "length vs" arbitrary: vs w rule: less_induct)
  case less
  consider "vs = []" | v1 where "vs = [v1]" | v1 v2 where "vs = [v1, v2]" | v1 v2 v3 where "vs = [v1, v2, v3]"
    | v1 v2 v3 v4 rest where "vs = v1 # v2 # v3 # v4 # rest"
    by (metis list.exhaust)
  then show ?case
  proof cases
    case 1
    have "[] = sextets (map unat bs) \<longleftrightarrow> bs = []" for bs :: bytes
      by (cases "map unat bs" rule: sextets.cases) auto
    with less(3) show ?thesis by (auto simp: 1 close_at(1) base64_padding_def)
  next
    case 2
    have "[v1] \<noteq> sextets (map unat bs)" for bs :: bytes
      by (cases "map unat bs" rule: sextets.cases) auto
    moreover have "bw_bits (base64_push v1 w) = 6" using base64_pushes(1) [OF less(3), of v1 0 0 0] less(2) 2 by simp
    ultimately show ?thesis by (simp add: 2 close_at(2))
  next
    case 3
    then have v: "v1 < 64" "v2 < 64" using less(2) by auto
    obtain acc where acc: "unat acc mod 64 = v2" "base64_push v2 (base64_push v1 w)
        = w\<lparr>bw_accumulator := acc, bw_bits := 4, bw_output := bw_output w @ [of_nat (v1 * 4 + v2 div 16)]\<rparr>"
      using base64_pushes(2) [OF less(3) v, of 0 0] by auto
    have "unat acc mod 16 = v2 mod 16" unfolding acc(1) [symmetric] by (simp add: mod_mod_cancel)
    then show ?thesis
      by (auto simp: 3 acc(2) close_at(3) sextets_two [OF v] base64_padding_def simp del: sextets.simps)
  next
    case 4
    then have v: "v1 < 64" "v2 < 64" "v3 < 64" using less(2) by auto
    obtain acc where acc: "unat acc mod 64 = v3" "base64_push v3 (base64_push v2 (base64_push v1 w))
        = w\<lparr>bw_accumulator := acc, bw_bits := 2,
            bw_output := bw_output w @ [of_nat (v1 * 4 + v2 div 16), of_nat (v2 mod 16 * 16 + v3 div 4)]\<rparr>"
      using base64_pushes(3) [OF less(3) v, of 0] by auto
    have "unat acc mod 4 = v3 mod 4" unfolding acc(1) [symmetric] by (simp add: mod_mod_cancel)
    then show ?thesis
      by (auto simp: 4 acc(2) close_at(4) sextets_three [OF v] base64_padding_def simp del: sextets.simps)
  next
    case 5
    then have v: "v1 < 64" "v2 < 64" "v3 < 64" "v4 < 64" using less(2) by auto
    let ?three = "[of_nat (v1 * 4 + v2 div 16), of_nat (v2 mod 16 * 16 + v3 div 4), of_nat (v3 mod 4 * 64 + v4)] :: bytes"
    obtain acc where acc: "base64_push v4 (base64_push v3 (base64_push v2 (base64_push v1 w)))
        = w\<lparr>bw_accumulator := acc, bw_bits := 0, bw_output := bw_output w @ ?three\<rparr>"
      using base64_pushes(4) [OF less(3) v] by auto
    let ?w = "w\<lparr>bw_accumulator := acc, bw_bits := 0, bw_output := bw_output w @ ?three\<rparr>"
    have "base64_close ((fold base64_push rest ?w)\<lparr>bw_padding := p\<rparr>) = Some out \<longleftrightarrow>
       (\<exists>bs. out = bw_output ?w @ bs \<and> rest = sextets (map unat bs) \<and> p = base64_padding (length bs))"
      by (rule less(1)) (use less(2) 5 in auto)
    moreover have "base64_padding (length (?three @ bs)) = base64_padding (length bs)" for bs :: bytes
      by (simp add: base64_padding_def numeral_3_eq_3 [symmetric])
    ultimately show ?thesis
      by (auto simp: 5 acc sextets_four [OF v] simp del: sextets.simps)
  qed
qed

lemma base64_encode_bytes:
  "as_bytes (base64_encode bs) = base64_bytes (sextets (map unat bs)) @ replicate (base64_padding (length bs)) 61"
proof -
  have "as_bytes (replicate n CHR ''='') = replicate n 61" for n by (simp add: as_bytes_def code_def)
  moreover have "as_bytes (map base64_char vs) = base64_bytes vs" for vs
    by (simp add: as_bytes_def base64_bytes_def code_def of_nat_of_char)
  moreover have "as_bytes (s @ t) = as_bytes s @ as_bytes t" for s t by (simp add: as_bytes_def)
  ultimately show ?thesis by (simp add: base64_encode_def base64_padding_def)
qed

lemma sextets_small:
  fixes bs :: bytes
  shows "\<forall>v \<in> set (sextets (map unat bs)). v < 64"
proof -
  have "\<forall>n \<in> set ns. n < 256 \<Longrightarrow> \<forall>v \<in> set (sextets ns). v < 64" for ns
    by (induction ns rule: sextets.induct) auto
  note small = this
  have "unat x < 256" for x :: u8 using unsigned_less [of x] by simp
  then have "\<forall>n \<in> set (map unat bs). n < 256" by simp
  then show ?thesis by (rule small)
qed

text \<open>The decoder is the inverse of the encoder, and accepts nothing else: each text it accepts is
the one spelling of the bytes it answers.\<close>

lemma decode_base64_iff: "decode_base64 input = Some bs \<longleftrightarrow> input = base64_encode bs"
proof
  assume decoded: "decode_base64 input = Some bs"
  then obtain w where walked: "base64_walk base64_start (as_bytes input) = Some w" "base64_close w = Some bs"
    by (auto simp: decode_base64_def split: option.splits)
  have start: "bw_padding base64_start = 0" "bw_bits base64_start = 0" "bw_output base64_start = []"
    by (simp_all add: base64_start_def)
  obtain vs p where vs: "as_bytes input = base64_bytes vs @ replicate p 61" "\<forall>v \<in> set vs. v < 64"
      "w = (fold base64_push vs base64_start)\<lparr>bw_padding := p\<rparr>"
    using walk_Some [OF walked(1) start(1)] by blast
  have "vs = sextets (map unat bs) \<and> p = base64_padding (length bs)"
    using close_values [OF vs(2) start(2), of p bs] walked(2) by (auto simp: vs(3) start(3))
  then have "as_bytes input = as_bytes (base64_encode bs)" by (simp add: vs(1) base64_encode_bytes)
  then show "input = base64_encode bs" by simp
next
  assume input: "input = base64_encode bs"
  have start: "bw_padding base64_start = 0" "bw_bits base64_start = 0" "bw_output base64_start = []"
    by (simp_all add: base64_start_def)
  let ?vs = "sextets (map unat bs)"
  have "base64_walk base64_start (as_bytes input)
      = Some ((fold base64_push ?vs base64_start)\<lparr>bw_padding := base64_padding (length bs)\<rparr>)"
    unfolding input base64_encode_bytes walk_values [OF sextets_small start(1)] walk_padding
    by (simp add: start(1))
  then show "decode_base64 input = Some bs"
    using close_values [OF sextets_small start(2), of "base64_padding (length bs)" bs bs]
    by (auto simp: decode_base64_def start(3))
qed

end
