(* ===== verification/Byte_Source.thy ===== *)
theory Byte_Source
  imports Prelude
begin

text \<open>
  What the Assistant reads bytes through: \<open>std::io::Read\<close> as the two loops of the crate use it,
  \<open>read_exact\<close> of \<open>framing.rs\<close> and \<open>read_bounded\<close> of \<open>personal_access/key_file.rs\<close>. The
  reader is a parameter; a loop it interrupts for ever does not return, which is \<open>None\<close> here.
\<close>

section \<open>A reader\<close>

text \<open>One \<open>read\<close> into a buffer: the bytes put in it (none at the end of the input), an
interruption, or another error; and the reader afterwards.\<close>

datatype ReadAnswer = Arrives bytes | Interrupted | ReadFails

type_synonym 's reader = "'s \<Rightarrow> nat \<Rightarrow> ReadAnswer \<times> 's"

text \<open>\<open>Ok(n)\<close> promises that \<open>n\<close> is at most the length of the buffer.\<close>

definition fits_buffer :: "'s reader \<Rightarrow> bool" where
  "fits_buffer reader \<longleftrightarrow> (\<forall>s room bs s'. reader s room = (Arrives bs, s') \<longrightarrow> length bs \<le> room)"

text \<open>No interruption for ever: between two arrivals something only decreases.\<close>

definition patient :: "'s reader \<Rightarrow> ('s \<Rightarrow> nat) \<Rightarrow> bool" where
  "patient reader patience \<longleftrightarrow> (\<forall>s room s'. reader s room = (Interrupted, s') \<longrightarrow> patience s' < patience s)"

text \<open>An input that is there: each arrival is its next bytes, and none only when it is exhausted.\<close>

definition yields :: "'s reader \<Rightarrow> ('s \<Rightarrow> bytes) \<Rightarrow> bool" where
  "yields reader pending \<longleftrightarrow>
     (\<forall>s room s' bs. room > 0 \<longrightarrow> reader s room = (Arrives bs, s') \<longrightarrow>
        pending s = bs @ pending s' \<and> (bs = [] \<longrightarrow> pending s = []))
     \<and> (\<forall>s room s'. reader s room = (Interrupted, s') \<longrightarrow> pending s' = pending s)"

definition sound_source :: "'s reader \<Rightarrow> ('s \<Rightarrow> bytes) \<Rightarrow> ('s \<Rightarrow> nat) \<Rightarrow> bool" where
  "sound_source reader pending patience \<longleftrightarrow> fits_buffer reader \<and> patient reader patience \<and> yields reader pending"

section \<open>A pipe\<close>

text \<open>A script of what a pipe does: bytes as the writer sent them, interruptions, and the end.\<close>

datatype PipeEvent = Sent bytes | Signal

fun script_read :: "PipeEvent list reader" where
  "script_read [] room = (Arrives [], [])"
| "script_read (Signal # script) room = (Interrupted, script)"
| "script_read (Sent bs # script) room =
     (if bs = [] then (Interrupted, script)
      else (Arrives (take room bs), if length bs \<le> room then script else Sent (drop room bs) # script))"

fun script_bytes :: "PipeEvent list \<Rightarrow> bytes" where
  "script_bytes [] = []"
| "script_bytes (Signal # script) = script_bytes script"
| "script_bytes (Sent bs # script) = bs @ script_bytes script"

lemma script_source: "sound_source script_read script_bytes length"
  unfolding sound_source_def
proof (intro conjI)
  show "fits_buffer script_read" unfolding fits_buffer_def
  proof (intro allI impI)
    fix s room bs s' assume "script_read s room = (Arrives bs, s')"
    then show "length bs \<le> room" by (cases "(s, room)" rule: script_read.cases) (auto split: if_splits)
  qed
  show "patient script_read length" unfolding patient_def
  proof (intro allI impI)
    fix s room s' assume "script_read s room = (Interrupted, s')"
    then show "length s' < length s" by (cases "(s, room)" rule: script_read.cases) (auto split: if_splits)
  qed
  have "pending = bs @ script_bytes s' \<and> (bs = [] \<longrightarrow> pending = [])"
    if "room > 0" "script_read s room = (Arrives bs, s')" "pending = script_bytes s" for s room bs s' pending
    using that by (cases "(s, room)" rule: script_read.cases) (auto split: if_splits)
  moreover have "script_bytes s' = script_bytes s" if "script_read s room = (Interrupted, s')" for s room s'
    using that by (cases "(s, room)" rule: script_read.cases) (auto split: if_splits)
  ultimately show "yields script_read script_bytes" unfolding yields_def by blast
qed

end
