(* ===== verification/Frames.thy ===== *)
theory Frames
  imports Byte_Source Openssh_Key Consent
begin

text \<open>
  The one frame the Assistant reads and the one it writes (\<open>framing.rs\<close>): four bytes of length,
  then the payload, within the bound of the document. JSON is \<open>serde_json\<close>'s, the reader and the
  writer are the process's standard streams; all three are parameters.
\<close>

section \<open>Reading\<close>

definition FRAME_HEADER_BYTES :: nat where [limits]: "FRAME_HEADER_BYTES = 4"
definition MAX_ASSISTANT_SCOPE_FRAME_BYTES :: nat where [limits]: "MAX_ASSISTANT_SCOPE_FRAME_BYTES = 4096"
definition MAX_ASSISTANT_EVENT_FRAME_BYTES :: nat where [limits]: "MAX_ASSISTANT_EVENT_FRAME_BYTES = 4096"

definition MAX_APPROVAL_CONSENT_OUTCOME_FRAME_BYTES :: nat where [limits]: "MAX_APPROVAL_CONSENT_OUTCOME_FRAME_BYTES = 512"

datatype ReadFrameError = FrameInvalid | FrameIo

partial_function (option) read_exact ::
  "'s reader \<Rightarrow> bytes \<Rightarrow> nat \<Rightarrow> 's \<Rightarrow> ((ReadFrameError + bytes) \<times> 's) option" where
  [code]: "read_exact reader got room s =
     (if room = 0 then Some (Inr got, s)
      else (case reader s room of (answer, s) \<Rightarrow>
        (case answer of
           Arrives bs \<Rightarrow>
             if bs = [] then Some (Inl FrameInvalid, s) else read_exact reader (got @ bs) (room - length bs) s
         | Interrupted \<Rightarrow> read_exact reader got room s
         | ReadFails \<Rightarrow> Some (Inl FrameIo, s))))"

definition read_payload :: "'s reader \<Rightarrow> nat \<Rightarrow> 's \<Rightarrow> ((ReadFrameError + bytes) \<times> 's) option" where
  "read_payload reader maximum s =
     Option.bind (read_exact reader [] FRAME_HEADER_BYTES s) (\<lambda>(header, s).
       case header of
         Inl refusal \<Rightarrow> Some (Inl refusal, s)
       | Inr header \<Rightarrow>
           let len = unat (u32_from_be header)
           in if len = 0 \<or> len > maximum then Some (Inl FrameInvalid, s) else read_exact reader [] len s)"

text \<open>The frame, then its reading as JSON, then the document's own validation.\<close>

definition read_scope ::
  "(bytes \<Rightarrow> AssistantScopeV1 option) \<Rightarrow> base64_engine \<Rightarrow> 's reader \<Rightarrow> 's
     \<Rightarrow> ((ReadFrameError + AssistantScopeV1) \<times> 's) option" where
  "read_scope from_slice no_pad reader s =
     map_option (\<lambda>(payload, s).
       (and_then payload (\<lambda>payload.
        and_then (ok_or (from_slice payload) FrameInvalid) (\<lambda>scope.
        case scope_validate no_pad scope of Inl _ \<Rightarrow> Inl FrameInvalid | Inr scope \<Rightarrow> Inr scope)), s))
     (read_payload reader MAX_ASSISTANT_SCOPE_FRAME_BYTES s)"

definition read_approval_consent ::
  "(bytes \<Rightarrow> ApprovalConsentV1 option) \<Rightarrow> 's reader \<Rightarrow> 's \<Rightarrow> ((ReadFrameError + ApprovalConsentV1) \<times> 's) option" where
  "read_approval_consent from_slice reader s =
     map_option (\<lambda>(payload, s).
       (and_then payload (\<lambda>payload.
        and_then (ok_or (from_slice payload) FrameInvalid) (\<lambda>consent.
        case consent_validate consent of Inl _ \<Rightarrow> Inl FrameInvalid | Inr consent \<Rightarrow> Inr consent)), s))
     (read_payload reader MAX_APPROVAL_CONSENT_FRAME_BYTES s)"

section \<open>Writing\<close>

text \<open>\<open>write_all\<close> and \<open>flush\<close>: whether each succeeded, and the writer afterwards.\<close>

record 'w writer =
  wr_write_all :: "'w \<Rightarrow> bytes \<Rightarrow> bool \<times> 'w"
  wr_flush :: "'w \<Rightarrow> bool \<times> 'w"

definition write_frame :: "'w writer \<Rightarrow> nat \<Rightarrow> bytes \<Rightarrow> 'w \<Rightarrow> bool \<times> 'w" where
  "write_frame writer maximum payload w =
     (if payload = [] \<or> length payload > maximum \<or> length payload \<ge> 2 ^ 32 then (False, w)
      else (case wr_write_all writer w (u32_be (of_nat (length payload))) of (ok, w) \<Rightarrow>
        if \<not> ok then (False, w)
        else (case wr_write_all writer w payload of (ok, w) \<Rightarrow>
          if \<not> ok then (False, w) else wr_flush writer w)))"

definition write_event :: "(AssistantEventV1 \<Rightarrow> bytes option) \<Rightarrow> 'w writer \<Rightarrow> AssistantEventV1 \<Rightarrow> 'w \<Rightarrow> bool \<times> 'w" where
  "write_event to_vec writer event w =
     (case to_vec event of
        None \<Rightarrow> (False, w)
      | Some payload \<Rightarrow> write_frame writer MAX_ASSISTANT_EVENT_FRAME_BYTES payload w)"

definition write_approval_outcome ::
  "(ApprovalConsentOutcomeV1 \<Rightarrow> bytes option) \<Rightarrow> 'w writer \<Rightarrow> ApprovalConsentOutcomeV1 \<Rightarrow> 'w \<Rightarrow> bool \<times> 'w" where
  "write_approval_outcome to_vec writer outcome w =
     (case outcome_validate outcome of
        Inl _ \<Rightarrow> (False, w)
      | Inr validated \<Rightarrow>
          (case to_vec validated of
             None \<Rightarrow> (False, w)
           | Some payload \<Rightarrow> write_frame writer MAX_APPROVAL_CONSENT_OUTCOME_FRAME_BYTES payload w))"

section \<open>One frame, whatever the pieces it comes in\<close>

lemma source_step:
  assumes "sound_source reader pending patience" "room > 0"
  shows "reader s room = (Arrives bs, s') \<Longrightarrow>
      length bs \<le> room \<and> pending s = bs @ pending s' \<and> (bs = [] \<longrightarrow> pending s = [])"
    and "reader s room = (Interrupted, s') \<Longrightarrow> patience s' < patience s \<and> pending s' = pending s"
  using assms unfolding sound_source_def fits_buffer_def patient_def yields_def by blast+

lemma read_exact_returns:
  assumes "sound_source reader pending patience"
  shows "\<exists>answer s'. read_exact reader got room s = Some (answer, s') \<and>
     (case answer of
        Inr out \<Rightarrow> \<exists>bs. out = got @ bs \<and> length bs = room \<and> pending s = bs @ pending s'
      | Inl FrameInvalid \<Rightarrow> length (pending s) < room
      | Inl FrameIo \<Rightarrow> \<exists>s room s'. reader s room = (ReadFails, s'))"
proof (induction "(room, patience s)" arbitrary: room s got rule: wf_induct_rule [OF wf_lex_prod [OF wf_less_than wf_less_than]])
  case (1 room s got)
  show ?case
  proof (cases "room = 0")
    case True
    then show ?thesis by (subst read_exact.simps) simp
  next
    case False
    then have room: "room > 0" by simp
    obtain answer s1 where read: "reader s room = (answer, s1)" by fastforce
    show ?thesis
    proof (cases answer)
      case (Arrives bs)
      note step = source_step(1) [OF assms room read [unfolded Arrives]]
      show ?thesis
      proof (cases "bs = []")
        case True
        with step have "pending s = []" by blast
        with True room show ?thesis by (subst read_exact.simps) (simp add: read Arrives)
      next
        case new: False
        then have "room - length bs < room" using room by simp
        then obtain next_answer s' where rest: "read_exact reader (got @ bs) (room - length bs) s1 = Some (next_answer, s')"
            "case next_answer of
               Inr out \<Rightarrow> \<exists>more. out = (got @ bs) @ more \<and> length more = room - length bs \<and> pending s1 = more @ pending s'
             | Inl FrameInvalid \<Rightarrow> length (pending s1) < room - length bs
             | Inl FrameIo \<Rightarrow> \<exists>s room s'. reader s room = (ReadFails, s')"
          using 1 [of "room - length bs" s1 "got @ bs"] by auto
        have unfolded: "read_exact reader got room s = Some (next_answer, s')"
          using False new rest(1) by (subst read_exact.simps) (simp add: read Arrives)
        have "case next_answer of
             Inr out \<Rightarrow> \<exists>bs. out = got @ bs \<and> length bs = room \<and> pending s = bs @ pending s'
           | Inl FrameInvalid \<Rightarrow> length (pending s) < room
           | Inl FrameIo \<Rightarrow> \<exists>s room s'. reader s room = (ReadFails, s')"
        proof (cases next_answer)
          case (Inr out)
          with rest(2) obtain tail where "out = (got @ bs) @ tail" "length tail = room - length bs" "pending s1 = tail @ pending s'"
            by auto
          with step show ?thesis by (auto simp: Inr intro!: exI [of _ "bs @ tail"])
        next
          case (Inl refusal)
          with rest(2) step show ?thesis by (cases refusal) auto
        qed
        with unfolded show ?thesis by blast
      qed
    next
      case Interrupted
      note step = source_step(2) [OF assms room read [unfolded Interrupted]]
      have "read_exact reader got room s = read_exact reader got room s1"
        using False by (subst read_exact.simps) (simp add: read Interrupted)
      note again = this
      have same: "pending s1 = pending s" using step by simp
      from step show ?thesis using 1 [of room s1 got] unfolding again same by simp
    next
      case ReadFails
      then have "read_exact reader got room s = Some (Inl FrameIo, s1)"
        using False by (subst read_exact.simps) (simp add: read)
      with read ReadFails show ?thesis by auto
    qed
  qed
qed

text \<open>The frame of a payload, and the input that starts with one within the bound.\<close>

definition frame_of :: "bytes \<Rightarrow> bytes" where
  "frame_of payload = u32_be (of_nat (length payload)) @ payload"

definition starts_with_frame :: "bytes \<Rightarrow> nat \<Rightarrow> bytes \<Rightarrow> bytes \<Rightarrow> bool" where
  "starts_with_frame input maximum payload rest \<longleftrightarrow>
     input = frame_of payload @ rest \<and> 1 \<le> length payload \<and> length payload \<le> maximum"

lemma starts_with_frame_iff:
  assumes "maximum < 2 ^ 32" and "length four = 4"
  shows "starts_with_frame (four @ input) maximum payload rest \<longleftrightarrow>
    length payload = unat (u32_from_be four) \<and> input = payload @ rest
    \<and> unat (u32_from_be four) \<noteq> 0 \<and> unat (u32_from_be four) \<le> maximum" (is "?left \<longleftrightarrow> ?right")
proof
  assume left: ?left
  then have same: "four = u32_be (of_nat (length payload))" "input = payload @ rest"
    using assms(2) by (auto simp: starts_with_frame_def frame_of_def)
  have "length payload < 2 ^ 32" using left assms(1) by (simp add: starts_with_frame_def)
  then have "unat (u32_from_be four) = length payload"
    unfolding same(1) u32_from_be_back by (simp add: unat_of_nat take_bit_nat_eq_self)
  with left same(2) show ?right by (auto simp: starts_with_frame_def)
next
  assume right: ?right
  then have "(of_nat (length payload) :: u32) = u32_from_be four" by simp
  then have "frame_of payload = four @ payload" using u32_be_from_be [OF assms(2)] by (simp add: frame_of_def)
  with right show ?left by (simp add: starts_with_frame_def)
qed

lemma short_input_has_no_frame: "length input < 4 \<Longrightarrow> \<not> starts_with_frame input maximum payload rest"
  by (auto simp: starts_with_frame_def frame_of_def)

text \<open>What an answer of the reader says of the input before and after it.\<close>

definition answers_frame ::
  "'s reader \<Rightarrow> nat \<Rightarrow> bytes \<Rightarrow> ReadFrameError + bytes \<Rightarrow> bytes \<Rightarrow> bool" where
  "answers_frame reader maximum input answer rest \<longleftrightarrow>
     (case answer of
        Inr payload \<Rightarrow> starts_with_frame input maximum payload rest
      | Inl FrameInvalid \<Rightarrow> (\<nexists>payload rest. starts_with_frame input maximum payload rest)
      | Inl FrameIo \<Rightarrow> (\<exists>s room s'. reader s room = (ReadFails, s')))"

text \<open>
  Whatever pieces its input comes in, and whatever interrupts it, the reader of a frame returns. It
  answers a payload exactly when the input starts with the frame of one within the bound, and then
  has taken that frame and not one byte more, which is what leaves the lease its input.
\<close>

theorem one_frame_is_read_and_no_more:
  assumes "sound_source reader pending patience" and "maximum < 2 ^ 32"
  shows "\<exists>answer s'. read_payload reader maximum s = Some (answer, s')
    \<and> answers_frame reader maximum (pending s) answer (pending s')"
proof -
  obtain answer s1 where header: "read_exact reader [] FRAME_HEADER_BYTES s = Some (answer, s1)" and what:
     "case answer of
        Inr out \<Rightarrow> \<exists>bs. out = [] @ bs \<and> length bs = FRAME_HEADER_BYTES \<and> pending s = bs @ pending s1
      | Inl FrameInvalid \<Rightarrow> length (pending s) < FRAME_HEADER_BYTES
      | Inl FrameIo \<Rightarrow> \<exists>s room s'. reader s room = (ReadFails, s')"
    using read_exact_returns [OF assms(1), of "[]" FRAME_HEADER_BYTES s] by (elim exE conjE) (rule that)
  show ?thesis
  proof (cases answer)
    case (Inl refusal)
    then have "read_payload reader maximum s = Some (Inl refusal, s1)" by (simp add: read_payload_def header)
    moreover have "answers_frame reader maximum (pending s) (Inl refusal) (pending s1)"
      using what Inl short_input_has_no_frame by (cases refusal) (auto simp: answers_frame_def FRAME_HEADER_BYTES_def)
    ultimately show ?thesis by blast
  next
    case (Inr four)
    with what have four: "length four = 4" "pending s = four @ pending s1" by (auto simp: FRAME_HEADER_BYTES_def)
    note framed = starts_with_frame_iff [OF assms(2) four(1), of "pending s1", folded four(2)]
    define len where "len = unat (u32_from_be four)"
    note framed = framed [folded len_def]
    have read: "read_payload reader maximum s =
        (if len = 0 \<or> len > maximum then Some (Inl FrameInvalid, s1) else read_exact reader [] len s1)"
      by (simp add: read_payload_def header Inr len_def Let_def)
    show ?thesis
    proof (cases "len = 0 \<or> len > maximum")
      case True
      then have "answers_frame reader maximum (pending s) (Inl FrameInvalid) (pending s1)"
        by (auto simp: answers_frame_def framed)
      with read True show ?thesis by auto
    next
      case False
      obtain body s2 where body: "read_exact reader [] len s1 = Some (body, s2)" and got:
         "case body of
            Inr out \<Rightarrow> \<exists>bs. out = [] @ bs \<and> length bs = len \<and> pending s1 = bs @ pending s2
          | Inl FrameInvalid \<Rightarrow> length (pending s1) < len
          | Inl FrameIo \<Rightarrow> \<exists>s room s'. reader s room = (ReadFails, s')"
        using read_exact_returns [OF assms(1), of "[]" len s1] by (elim exE conjE) (rule that)
      have "answers_frame reader maximum (pending s) body (pending s2)"
      proof (cases body)
        case (Inr payload)
        with got False show ?thesis by (auto simp: answers_frame_def framed)
      next
        case (Inl refusal)
        with got show ?thesis by (cases refusal) (auto simp: answers_frame_def framed)
      qed
      with read False body show ?thesis by auto
    qed
  qed
qed

lemma one_frame_is_read_and_no_more_witness:
  "\<exists>answer s'. read_payload script_read 4096 [Signal, Sent [0, 0], Signal, Sent [0, 1, 7, 9]] = Some (answer, s')
    \<and> answers_frame script_read 4096 [0, 0, 0, 1, 7, 9] answer (script_bytes s')"
  using one_frame_is_read_and_no_more [OF script_source, of 4096 "[Signal, Sent [0, 0], Signal, Sent [0, 1, 7, 9]]"] by simp

section \<open>What is written\<close>

text \<open>A writer that keeps what it is given: a frame is written whole or not begun.\<close>

definition kept_writer :: "bytes writer" where
  "kept_writer = \<lparr>wr_write_all = \<lambda>w bs. (True, w @ bs), wr_flush = \<lambda>w. (True, w)\<rparr>"

lemma write_frame_kept:
  "write_frame kept_writer maximum payload w =
     (if 1 \<le> length payload \<and> length payload \<le> maximum \<and> length payload < 2 ^ 32
      then (True, w @ frame_of payload) else (False, w))"
  by (auto simp: write_frame_def kept_writer_def frame_of_def Suc_le_eq)

lemma written_frame_starts:
  assumes "write_frame kept_writer maximum payload [] = (True, written)"
  shows "starts_with_frame (written @ rest) maximum payload rest"
  using assms by (auto simp: write_frame_kept starts_with_frame_def split: if_splits)

end
