(* ===== verification/Spec2Isabelle.thy ===== *)
theory Spec2Isabelle
  imports Prelude Document_Gate Approval Plan_V1 Service_Definition Plan_V2 Plan_V2_Facts Plan_V3
    Std_Text Std_Stream Std_White Scope Consent Ledger Placement Preflight Bundle Sudo_Policy Elevation
    Install_Plan Deposit Constats Acts Install_Sequence Install_Sequence_Facts Install_Outcome
    Machine_Identity Forced_Entry Elevation_Rule Command_Endpoint Incident Association_Offer Succession Reader Withdrawal
    Replacement_Plan Lease Address_Text Frozen_Target Host_Key Agent_Stream Access_Session Access_Facts Target_Audit
    Assistant_Session Assistant_Facts Base64_Text Openssh_Key Byte_Source Frames
begin

text \<open>Work in progress.\<close>

end
